(* ===== verification/Prelude.thy ===== *)
theory Prelude
  imports Main
begin

section \<open>Shared ground: the parts of Go the models use\<close>

text \<open>
  This theory holds what the component theories share: the model of the Go standard library
  functions the source calls on strings (\<open>strings.TrimSpace\<close>, \<open>HasPrefix\<close>, \<open>TrimPrefix\<close>,
  \<open>Split\<close>, \<open>ToLower\<close>, \<open>strconv.Atoi\<close> and the decimal formatting of \<open>%d\<close>), the
  iteration of a Go map in an arbitrary order, and the lemma collections that the proofs of the
  components are built on.

  Strings are Go strings: sequences of bytes, here \<open>char list\<close>. A Go \<open>int\<close> or \<open>int64\<close> is
  an \<open>int\<close> where the code keeps it far from its bounds (ports, counts, times in nanoseconds),
  and is bounded or wrapped explicitly where it is not.
\<close>

named_theorems go_simps \<open>evaluation of the Go library functions\<close>
named_theorems inv_intros \<open>invariant preservation, one rule per operation\<close>

type_synonym port = int
type_synonym time = int
type_synonym duration = int

subsection \<open>Time\<close>

definition millisecond :: duration where "millisecond = 1000000"
definition second :: duration where "second = 1000000000"

definition unix_milli :: "time \<Rightarrow> int" where
  "unix_milli t = t div 1000000"

subsection \<open>Prefixes, suffixes and trimming\<close>

definition has_prefix :: "string \<Rightarrow> string \<Rightarrow> bool" where
  "has_prefix s p \<longleftrightarrow> take (length p) s = p"

definition trim_prefix :: "string \<Rightarrow> string \<Rightarrow> string" where
  "trim_prefix s p = (if has_prefix s p then drop (length p) s else s)"

definition has_suffix :: "string \<Rightarrow> string \<Rightarrow> bool" where
  "has_suffix s p \<longleftrightarrow> has_prefix (rev s) (rev p)"

definition trim_suffix :: "string \<Rightarrow> string \<Rightarrow> string" where
  "trim_suffix s p = (if has_suffix s p then take (length s - length p) s else s)"

lemma has_prefix_append [simp]: "has_prefix (p @ s) p"
  by (simp add: has_prefix_def)

lemma trim_prefix_append [simp]: "trim_prefix (p @ s) p = s"
  by (simp add: trim_prefix_def)

lemma has_prefix_iff: "has_prefix s p \<longleftrightarrow> (\<exists>r. s = p @ r)"
  unfolding has_prefix_def by (metis append_eq_conv_conj append_take_drop_id)

lemma has_prefix_appendI: "has_prefix s p \<Longrightarrow> has_prefix (s @ r) p"
  by (auto simp: has_prefix_iff)

text \<open>
  The encodings of the code points \<open>unicode.IsSpace\<close> accepts, as UTF-8 byte sequences: trimming
  removes one of them from an end as long as there is one.
\<close>

definition space_encodings :: "string list" where
  "space_encodings =
    [[CHR 0x09], [CHR 0x0A], [CHR 0x0B], [CHR 0x0C], [CHR 0x0D], [CHR 0x20],
     [CHR 0xC2, CHR 0x85], [CHR 0xC2, CHR 0xA0], [CHR 0xE1, CHR 0x9A, CHR 0x80],
     [CHR 0xE2, CHR 0x80, CHR 0x80], [CHR 0xE2, CHR 0x80, CHR 0x81],
     [CHR 0xE2, CHR 0x80, CHR 0x82], [CHR 0xE2, CHR 0x80, CHR 0x83],
     [CHR 0xE2, CHR 0x80, CHR 0x84], [CHR 0xE2, CHR 0x80, CHR 0x85],
     [CHR 0xE2, CHR 0x80, CHR 0x86], [CHR 0xE2, CHR 0x80, CHR 0x87],
     [CHR 0xE2, CHR 0x80, CHR 0x88], [CHR 0xE2, CHR 0x80, CHR 0x89],
     [CHR 0xE2, CHR 0x80, CHR 0x8A], [CHR 0xE2, CHR 0x80, CHR 0xA8],
     [CHR 0xE2, CHR 0x80, CHR 0xA9], [CHR 0xE2, CHR 0x80, CHR 0xAF],
     [CHR 0xE2, CHR 0x81, CHR 0x9F], [CHR 0xE3, CHR 0x80, CHR 0x80]]"

fun strip_first :: "string list \<Rightarrow> string \<Rightarrow> string option" where
  "strip_first [] s = None"
| "strip_first (e # es) s =
     (if e \<noteq> [] \<and> has_prefix s e then Some (drop (length e) s) else strip_first es s)"

lemma strip_first_length: "strip_first es s = Some r \<Longrightarrow> length r < length s"
  by (induction es) (auto simp: has_prefix_iff split: if_splits)

lemma strip_first_suffix: "strip_first es s = Some r \<Longrightarrow> \<exists>e \<in> set es. s = e @ r"
  by (induction es) (auto simp: has_prefix_iff split: if_splits)

lemma strip_first_NoneD:
  "strip_first es s = None \<Longrightarrow> e \<in> set es \<Longrightarrow> e \<noteq> [] \<Longrightarrow> \<not> has_prefix s e"
  by (induction es) (auto split: if_splits)

lemma strip_first_NoneI:
  "(\<And>e. e \<in> set es \<Longrightarrow> e \<noteq> [] \<Longrightarrow> \<not> has_prefix s e) \<Longrightarrow> strip_first es s = None"
  by (induction es) auto

function strip_all :: "string list \<Rightarrow> string \<Rightarrow> string" where
  "strip_all es s = (case strip_first es s of None \<Rightarrow> s | Some r \<Rightarrow> strip_all es r)"
  by pat_completeness auto
termination
  by (relation "measure (\<lambda>(es, s). length s)") (auto dest: strip_first_length)

declare strip_all.simps [simp del]

definition trim_left :: "string \<Rightarrow> string" where
  "trim_left s = strip_all space_encodings s"

definition trim_right :: "string \<Rightarrow> string" where
  "trim_right s = rev (strip_all (map rev space_encodings) (rev s))"

definition trim_space :: "string \<Rightarrow> string" where
  "trim_space s = trim_right (trim_left s)"

lemma strip_all_fixed: "strip_first es s = None \<Longrightarrow> strip_all es s = s"
  by (simp add: strip_all.simps)

lemma strip_all_result: "strip_first es (strip_all es s) = None"
proof (induction es s rule: strip_all.induct)
  case (1 es s)
  then show ?case
    by (cases "strip_first es s") (simp_all add: strip_all.simps [of es s])
qed

lemma strip_all_suffix: "\<exists>p. s = p @ strip_all es s"
proof (induction es s rule: strip_all.induct)
  case (1 es s)
  show ?case
  proof (cases "strip_first es s")
    case None
    then show ?thesis by (simp add: strip_all_fixed)
  next
    case (Some r)
    with 1 obtain p where "r = p @ strip_all es r" by blast
    moreover from Some obtain e where "s = e @ r" using strip_first_suffix by blast
    moreover from Some have "strip_all es s = strip_all es r"
      by (subst strip_all.simps) simp
    ultimately have "s = (e @ p) @ strip_all es s" by simp
    then show ?thesis by blast
  qed
qed

lemma trim_right_prefix: "\<exists>r. s = trim_right s @ r"
proof -
  obtain p where "rev s = p @ strip_all (map rev space_encodings) (rev s)"
    using strip_all_suffix by blast
  then have "rev (rev s) = rev (p @ strip_all (map rev space_encodings) (rev s))"
    by (rule arg_cong)
  then have "s = trim_right s @ rev p" by (simp add: trim_right_def)
  then show ?thesis ..
qed

text \<open>Trimming is idempotent: what is left starts and ends with no space.\<close>

lemma trim_space_idem [simp]: "trim_space (trim_space s) = trim_space s"
proof -
  let ?l = "trim_left s"
  have l: "strip_first space_encodings ?l = None"
    by (simp add: trim_left_def strip_all_result)
  obtain r where r: "?l = trim_right ?l @ r" using trim_right_prefix by blast
  have "strip_first space_encodings (trim_right ?l) = None"
    using l r strip_first_NoneD has_prefix_appendI by (metis strip_first_NoneI)
  then have "trim_left (trim_right ?l) = trim_right ?l"
    by (simp add: trim_left_def strip_all_fixed)
  moreover have "trim_right (trim_right ?l) = trim_right ?l"
    by (simp add: trim_right_def strip_all_fixed strip_all_result)
  ultimately show ?thesis by (simp add: trim_space_def)
qed

lemma trim_space_fixedI:
  "strip_first space_encodings s = None \<Longrightarrow> strip_first (map rev space_encodings) (rev s) = None
    \<Longrightarrow> trim_space s = s"
  by (simp add: trim_space_def trim_left_def trim_right_def strip_all_fixed)

lemma trim_space_empty [simp]: "trim_space [] = []"
  by (rule trim_space_fixedI) (simp_all add: space_encodings_def has_prefix_def)

lemmas trim_eval [go_simps] =
  trim_space_def trim_left_def trim_right_def strip_all.simps space_encodings_def has_prefix_def

subsection \<open>Splitting and case\<close>

fun split_on :: "char \<Rightarrow> string \<Rightarrow> string list" where
  "split_on c [] = [[]]"
| "split_on c (x # xs) =
     (if x = c then [] # split_on c xs
      else (case split_on c xs of [] \<Rightarrow> [[x]] | y # ys \<Rightarrow> (x # y) # ys))"

lemma split_on_nonempty [simp]: "split_on c s \<noteq> []"
  by (induction s) (auto split: list.splits)

lemma split_on_no_sep: "c \<notin> set s \<Longrightarrow> split_on c s = [s]"
  by (induction s) auto

lemma split_on_append: "c \<notin> set a \<Longrightarrow> split_on c (a @ c # b) = a # split_on c b"
  by (induction a) auto

lemma split_on_two:
  "c \<notin> set a \<Longrightarrow> c \<notin> set b \<Longrightarrow> split_on c (a @ c # b) = [a, b]"
  by (simp add: split_on_append split_on_no_sep)

definition ascii_lower :: "char \<Rightarrow> char" where
  "ascii_lower c = (if 65 \<le> (of_char c :: nat) \<and> (of_char c :: nat) \<le> 90
     then char_of ((of_char c :: nat) + 32) else c)"

definition ascii_upper :: "char \<Rightarrow> char" where
  "ascii_upper c = (if 97 \<le> (of_char c :: nat) \<and> (of_char c :: nat) \<le> 122
     then char_of ((of_char c :: nat) - 32) else c)"

subsection \<open>Decimal numbers\<close>

definition digit_char :: "nat \<Rightarrow> char" where
  "digit_char d = char_of (48 + d)"

definition is_digit :: "char \<Rightarrow> bool" where
  "is_digit c \<longleftrightarrow> 48 \<le> (of_char c :: nat) \<and> (of_char c :: nat) \<le> 57"

definition digit_val :: "char \<Rightarrow> nat" where
  "digit_val c = (of_char c :: nat) - 48"

fun show_nat :: "nat \<Rightarrow> string" where
  "show_nat n = (if n < 10 then [digit_char n] else show_nat (n div 10) @ [digit_char (n mod 10)])"

declare show_nat.simps [simp del]

definition show_int :: "int \<Rightarrow> string" where
  "show_int i = (if i < 0 then CHR ''-'' # show_nat (nat (- i)) else show_nat (nat i))"

definition read_nat :: "string \<Rightarrow> nat" where
  "read_nat s = foldl (\<lambda>n c. 10 * n + digit_val c) 0 s"

lemma digit_char_eval:
  "digit_char 0 = CHR ''0''" "digit_char (Suc 0) = CHR ''1''" "digit_char 1 = CHR ''1''"
  "digit_char 2 = CHR ''2''" "digit_char 3 = CHR ''3''" "digit_char 4 = CHR ''4''"
  "digit_char 5 = CHR ''5''" "digit_char 6 = CHR ''6''" "digit_char 7 = CHR ''7''"
  "digit_char 8 = CHR ''8''" "digit_char 9 = CHR ''9''"
  by code_simp+

lemmas show_eval [go_simps] = show_int_def show_nat.simps digit_char_eval

lemma is_digit_digit_char [simp]: "d < 10 \<Longrightarrow> is_digit (digit_char d)"
  by (simp add: is_digit_def digit_char_def)

lemma digit_val_digit_char [simp]: "d < 10 \<Longrightarrow> digit_val (digit_char d) = d"
  by (simp add: digit_val_def digit_char_def)

lemma show_nat_digits: "c \<in> set (show_nat n) \<Longrightarrow> is_digit c"
proof (induction n rule: show_nat.induct)
  case (1 n)
  then show ?case
    by (cases "n < 10") (auto simp: show_nat.simps [of n])
qed

lemma show_nat_nonempty [simp]: "show_nat n \<noteq> []"
  by (simp add: show_nat.simps [of n])

lemma read_nat_snoc: "read_nat (s @ [c]) = 10 * read_nat s + digit_val c"
  by (simp add: read_nat_def)

lemma read_nat_show_nat [simp]: "read_nat (show_nat n) = n"
proof (induction n rule: show_nat.induct)
  case (1 n)
  show ?case
  proof (cases "n < 10")
    case True
    then show ?thesis by (simp add: show_nat.simps [of n] read_nat_def)
  next
    case False
    with 1 show ?thesis by (simp add: show_nat.simps [of n] read_nat_snoc)
  qed
qed

text \<open>
  \<open>strconv.Atoi\<close> reads an optional sign and at least one decimal digit, and fails on any other
  text and on a value outside the 64-bit range.
\<close>

definition int64_min :: int where "int64_min = - (2 ^ 63)"
definition int64_max :: int where "int64_max = 2 ^ 63 - 1"

definition atoi :: "string \<Rightarrow> int option" where
  "atoi s =
    (let neg = has_prefix s ''-'';
         ds = (if neg \<or> has_prefix s ''+'' then tl s else s);
         v = (if neg then - int (read_nat ds) else int (read_nat ds))
     in if ds \<noteq> [] \<and> list_all is_digit ds \<and> int64_min \<le> v \<and> v \<le> int64_max then Some v else None)"

lemmas atoi_eval [go_simps] =
  atoi_def read_nat_def digit_val_def is_digit_def int64_min_def int64_max_def Let_def

lemma is_digit_not_special:
  "is_digit c \<Longrightarrow> c \<noteq> CHR ''-'' \<and> c \<noteq> CHR ''+'' \<and> c \<noteq> CHR '' ''"
  by (auto simp: is_digit_def)

lemma digits_no_sign:
  assumes "\<And>c. c \<in> set s \<Longrightarrow> is_digit c"
  shows "\<not> has_prefix s ''-''" and "\<not> has_prefix s ''+''"
  using assms is_digit_not_special by (cases s; force simp: has_prefix_def)+

text \<open>Formatting and reading a number back agree, within the 64-bit range.\<close>

lemma atoi_show_int:
  assumes "int64_min \<le> i" and "i \<le> int64_max"
  shows "atoi (show_int i) = Some i"
proof (cases "i < 0")
  case True
  have "list_all is_digit (show_nat (nat (- i)))"
    by (simp add: list_all_iff show_nat_digits)
  with True assms show ?thesis by (simp add: atoi_def show_int_def has_prefix_def Let_def)
next
  case False
  have "list_all is_digit (show_nat (nat i))"
    by (simp add: list_all_iff show_nat_digits)
  with False assms show ?thesis
    using digits_no_sign [of "show_nat (nat i)"] show_nat_digits
    by (simp add: atoi_def show_int_def Let_def)
qed

text \<open>
  Trimming removes blanks around a text whose ends are visible ASCII characters, and nothing else.
\<close>

definition visible :: "char \<Rightarrow> bool" where
  "visible c \<longleftrightarrow> 33 \<le> (of_char c :: nat) \<and> (of_char c :: nat) \<le> 126"

definition blank :: "string \<Rightarrow> bool" where
  "blank s \<longleftrightarrow> list_all (\<lambda>c. c = CHR '' '' \<or> c = CHR 0x09 \<or> c = CHR 0x0A \<or> c = CHR 0x0D) s"

definition solid :: "string \<Rightarrow> bool" where
  "solid s \<longleftrightarrow> s \<noteq> [] \<and> visible (hd s) \<and> visible (last s)"

lemma is_digit_visible [simp]: "is_digit c \<Longrightarrow> visible c"
  by (simp add: is_digit_def visible_def)

lemma space_not_visible:
  assumes "e \<in> set space_encodings \<or> e \<in> set (map rev space_encodings)" and "visible c"
  shows "\<not> has_prefix (c # s) e"
  using assms by (auto simp: space_encodings_def has_prefix_def visible_def)

lemma strip_first_blank:
  assumes "c = CHR '' '' \<or> c = CHR 0x09 \<or> c = CHR 0x0A \<or> c = CHR 0x0D"
  shows "strip_first space_encodings (c # s) = Some s"
    and "strip_first (map rev space_encodings) (c # s) = Some s"
  using assms by (elim disjE; simp add: space_encodings_def has_prefix_def)+

lemma strip_all_blank:
  assumes "blank w" shows "strip_all space_encodings (w @ s) = strip_all space_encodings s"
    and "strip_all (map rev space_encodings) (w @ s) = strip_all (map rev space_encodings) s"
  using assms
  by (induction w)
     (simp_all add: blank_def strip_all.simps [of _ "_ # _"] strip_first_blank)

lemma blank_rev [simp]: "blank (rev w) = blank w"
  by (simp add: blank_def)

lemma blank_Nil [simp]: "blank []"
  by (simp add: blank_def)

lemma trim_left_blank: "blank w \<Longrightarrow> trim_left (w @ s) = trim_left s"
  by (simp add: trim_left_def strip_all_blank)

lemma trim_right_blank: "blank w \<Longrightarrow> trim_right (s @ w) = trim_right s"
  by (simp add: trim_right_def strip_all_blank)

lemma strip_all_visible:
  assumes "s \<noteq> []" and "visible (hd s)"
  shows "strip_all space_encodings (s @ t) = s @ t"
    and "strip_all (map rev space_encodings) (s @ t) = s @ t"
  by (rule strip_all_fixed, rule strip_first_NoneI,
      use assms space_not_visible in \<open>cases s; simp; blast\<close>)+

lemma trim_space_solid:
  assumes "solid s" and "blank a" and "blank b" shows "trim_space (a @ s @ b) = s"
proof -
  have "trim_space (a @ s @ b) = trim_right s"
    using assms strip_all_visible(1) [of s b]
    by (simp add: trim_space_def trim_left_blank trim_right_blank solid_def) (simp add: trim_left_def trim_right_blank)
  also have "\<dots> = s"
    using assms(1) strip_all_visible(2) [of "rev s" "[]"]
    by (simp add: trim_right_def solid_def hd_rev)
  finally show ?thesis .
qed

lemma trim_space_solid_id: "solid s \<Longrightarrow> trim_space s = s"
  using trim_space_solid [of s "[]" "[]"] by simp

subsection \<open>Iterating a Go map\<close>

text \<open>
  The order in which Go ranges over a map is unspecified. A function of the source that ranges
  over a map takes the order as an argument here, a list of keys, and \<open>iterates m ks\<close> says
  that \<open>ks\<close> is a possible order: every key once.
\<close>

definition iterates :: "('k \<rightharpoonup> 'v) \<Rightarrow> 'k list \<Rightarrow> bool" where
  "iterates m ks \<longleftrightarrow> distinct ks \<and> set ks = dom m"

lemma iteratesD: "iterates m ks \<Longrightarrow> distinct ks" "iterates m ks \<Longrightarrow> set ks = dom m"
  by (simp_all add: iterates_def)

lemma fun_upd_None_idem [simp]: "m k = None \<Longrightarrow> m(k := None) = m"
  by auto

end
