(* ===== verification/Json.thy ===== *)
theory Json
  imports Prelude
begin

section \<open>The JSON of the Go standard library\<close>

text \<open>
  What the gateway uses of \<open>encoding/json\<close>: reading a JSON text (\<open>json.Unmarshal\<close>, whose scanner
  refuses trailing data and more than 10000 nested values), decoding string literals with their
  escapes into UTF-8, matching object keys to struct fields regardless of case, and writing
  strings, numbers and objects (\<open>json.Marshal\<close>). A parse failure is \<open>None\<close>: no caller looks
  at the reason.
\<close>

datatype json =
  JNull | JBool bool | JNum string | JStr string | JArr "json list" | JObj "(string \<times> json) list"

subsection \<open>Characters and literals\<close>

abbreviation quote :: char where "quote \<equiv> CHR 0x22"
abbreviation backslash :: char where "backslash \<equiv> CHR 0x5C"

definition code_of :: "char \<Rightarrow> nat" where "code_of c = of_char c"

definition json_ws :: "char \<Rightarrow> bool" where
  "json_ws c \<longleftrightarrow> c = CHR '' '' \<or> c = CHR 0x09 \<or> c = CHR 0x0A \<or> c = CHR 0x0D"

definition skip_ws :: "string \<Rightarrow> string" where "skip_ws s = dropWhile json_ws s"

lemma skip_ws_length: "length (skip_ws s) \<le> length s"
  by (simp add: skip_ws_def length_dropWhile_le)

definition hex_val :: "char \<Rightarrow> nat option" where
  "hex_val c = (let n = code_of c in
     if 48 \<le> n \<and> n \<le> 57 then Some (n - 48)
     else if 97 \<le> n \<and> n \<le> 102 then Some (n - 87)
     else if 65 \<le> n \<and> n \<le> 70 then Some (n - 55) else None)"

fun hex4 :: "string \<Rightarrow> nat option" where
  "hex4 (a # b # c # d # s) =
     (case (hex_val a, hex_val b, hex_val c, hex_val d) of
        (Some w, Some x, Some y, Some z) \<Rightarrow> Some (((w * 16 + x) * 16 + y) * 16 + z)
      | _ \<Rightarrow> None)"
| "hex4 s = None"

definition utf8_enc :: "nat \<Rightarrow> string" where
  "utf8_enc r =
     (if r < 128 then [char_of r]
      else if r < 2048 then [char_of (192 + r div 64), char_of (128 + r mod 64)]
      else if r < 65536 then
        [char_of (224 + r div 4096), char_of (128 + r div 64 mod 64), char_of (128 + r mod 64)]
      else [char_of (240 + r div 262144), char_of (128 + r div 4096 mod 64),
            char_of (128 + r div 64 mod 64), char_of (128 + r mod 64)])"

definition rune_error :: string where "rune_error = [CHR 0xEF, CHR 0xBF, CHR 0xBD]"

definition cont :: "nat \<Rightarrow> bool" where "cont n \<longleftrightarrow> 128 \<le> n \<and> n \<le> 191"

text \<open>The length of the valid UTF-8 sequence a string starts with, 0 when there is none.\<close>

definition utf8_len :: "string \<Rightarrow> nat" where
  "utf8_len s =
     (case map code_of (take 4 s) of
        [] \<Rightarrow> 0
      | a # bs \<Rightarrow>
          if a < 128 then 1
          else case bs of [] \<Rightarrow> 0 | b # cs \<Rightarrow>
            if 194 \<le> a \<and> a \<le> 223 then (if cont b then 2 else 0)
            else case cs of [] \<Rightarrow> 0 | c # ds \<Rightarrow>
              if 224 \<le> a \<and> a \<le> 239 then
                (if cont b \<and> cont c \<and> (a = 224 \<longrightarrow> 160 \<le> b) \<and> (a = 237 \<longrightarrow> b \<le> 159) then 3 else 0)
              else case ds of [] \<Rightarrow> 0 | d # _ \<Rightarrow>
                if 240 \<le> a \<and> a \<le> 244 \<and> cont b \<and> cont c \<and> cont d \<and>
                   (a = 240 \<longrightarrow> 144 \<le> b) \<and> (a = 244 \<longrightarrow> b \<le> 143) then 4 else 0)"

definition simple_escape :: "char \<Rightarrow> char option" where
  "simple_escape e =
     (if e = quote \<or> e = backslash \<or> e = CHR ''/'' then Some e
      else if e = CHR ''b'' then Some (CHR 0x08) else if e = CHR ''f'' then Some (CHR 0x0C)
      else if e = CHR ''n'' then Some (CHR 0x0A) else if e = CHR ''r'' then Some (CHR 0x0D)
      else if e = CHR ''t'' then Some (CHR 0x09) else None)"

text \<open>
  A \<open>\u\<close> escape: a high surrogate followed by the escape of a low one is one code point, any other
  surrogate is the replacement character. The number is how many more characters are read.
\<close>

definition unicode_escape :: "nat \<Rightarrow> string \<Rightarrow> string \<times> nat" where
  "unicode_escape r rest =
     (if 55296 \<le> r \<and> r \<le> 57343 then
        (case (if take 2 rest = [backslash, CHR ''u''] then hex4 (drop 2 rest) else None) of
           Some l \<Rightarrow> if r \<le> 56319 \<and> 56320 \<le> l \<and> l \<le> 57343
                     then (utf8_enc (65536 + (r - 55296) * 1024 + (l - 56320)), 6)
                     else (rune_error, 0)
         | None \<Rightarrow> (rune_error, 0))
      else (utf8_enc r, 0))"

definition prepend :: "string \<Rightarrow> (string \<times> string) option \<Rightarrow> (string \<times> string) option" where
  "prepend p r = map_option (\<lambda>(t, rest). (p @ t, rest)) r"

text \<open>The body of a string literal, from after its opening quote.\<close>

function str_lit :: "string \<Rightarrow> (string \<times> string) option" where
  "str_lit [] = None"
| "str_lit (c # cs) =
     (if c = quote then Some ([], cs)
      else if c = backslash then
        (case cs of [] \<Rightarrow> None
         | e # es \<Rightarrow>
             if e = CHR ''u'' then
               (case hex4 es of None \<Rightarrow> None
                | Some r \<Rightarrow> let (out, k) = unicode_escape r (drop 4 es)
                           in prepend out (str_lit (drop (4 + k) es)))
             else (case simple_escape e of None \<Rightarrow> None | Some d \<Rightarrow> prepend [d] (str_lit es)))
      else if code_of c < 32 then None
      else let n = utf8_len (c # cs)
           in if n = 0 then prepend rune_error (str_lit cs)
              else prepend (take n (c # cs)) (str_lit (drop (n - 1) cs)))"
  by pat_completeness auto
termination
  by (relation "measure length") auto

definition num_lit :: "string \<Rightarrow> (string \<times> string) option" where
  "num_lit s =
     (let (sign, s1) = (if has_prefix s ''-'' then (''-'', tl s) else ('''', s));
          ip = (if has_prefix s1 ''0'' then ''0'' else takeWhile is_digit s1);
          s2 = drop (length ip) s1;
          fp = (if has_prefix s2 ''.'' then ''.'' @ takeWhile is_digit (tl s2) else '''');
          s3 = drop (length fp) s2;
          ex = (if has_prefix s3 ''e'' \<or> has_prefix s3 ''E'' then
                  (let sg = (if has_prefix (tl s3) ''+'' \<or> has_prefix (tl s3) ''-''
                             then take 1 (tl s3) else '''')
                   in take 1 s3 @ sg @ takeWhile is_digit (drop (1 + length sg) s3))
                else '''')
      in if ip = '''' \<or> fp = ''.'' \<or> (ex \<noteq> '''' \<and> \<not> is_digit (last ex)) then None
         else Some (sign @ ip @ fp @ ex, drop (length ex) s3))"

subsection \<open>Values\<close>

lemma skip_ws_tl_length: "length (skip_ws (tl (skip_ws r))) \<le> length r"
  using skip_ws_length [of r] skip_ws_length [of "tl (skip_ws r)"] by simp

text \<open>
  The recursive descent over values, array elements and object members. The comparisons of lengths
  hold whenever a value was read, since a value has at least one character; they make the
  termination evident.
\<close>

function parse_value :: "nat \<Rightarrow> string \<Rightarrow> (json \<times> string) option"
and parse_elems :: "nat \<Rightarrow> string \<Rightarrow> (json list \<times> string) option"
and parse_members :: "nat \<Rightarrow> string \<Rightarrow> ((string \<times> json) list \<times> string) option" where
  "parse_value d s =
     (case s of [] \<Rightarrow> None
      | c # cs \<Rightarrow>
          if c = quote then map_option (\<lambda>(t, r). (JStr t, r)) (str_lit cs)
          else if c = CHR ''['' then
            (if d = 0 then None
             else if has_prefix (skip_ws cs) '']'' then Some (JArr [], tl (skip_ws cs))
             else map_option (\<lambda>(vs, r). (JArr vs, r)) (parse_elems (d - 1) cs))
          else if c = CHR ''{'' then
            (if d = 0 then None
             else if has_prefix (skip_ws cs) ''}'' then Some (JObj [], tl (skip_ws cs))
             else map_option (\<lambda>(ms, r). (JObj ms, r)) (parse_members (d - 1) cs))
          else if has_prefix s ''null'' then Some (JNull, drop 4 s)
          else if has_prefix s ''true'' then Some (JBool True, drop 4 s)
          else if has_prefix s ''false'' then Some (JBool False, drop 5 s)
          else map_option (\<lambda>(t, r). (JNum t, r)) (num_lit s))"
| "parse_elems d s =
     (case parse_value d (skip_ws s) of None \<Rightarrow> None
      | Some (v, r) \<Rightarrow>
          (case skip_ws r of [] \<Rightarrow> None
           | c # r' \<Rightarrow>
               if c = CHR '']'' then Some ([v], r')
               else if c = CHR '','' \<and> length r' < length s then
                 map_option (\<lambda>(vs, r). (v # vs, r)) (parse_elems d r')
               else None))"
| "parse_members d s =
     (case skip_ws s of [] \<Rightarrow> None
      | q # cs \<Rightarrow>
          if q \<noteq> quote then None
          else (case str_lit cs of None \<Rightarrow> None
                | Some (k, r) \<Rightarrow>
                    if \<not> has_prefix (skip_ws r) '':'' \<or> \<not> length r < length s then None
                    else (case parse_value d (skip_ws (tl (skip_ws r))) of None \<Rightarrow> None
                          | Some (v, r) \<Rightarrow>
                              (case skip_ws r of [] \<Rightarrow> None
                               | c # r' \<Rightarrow>
                                   if c = CHR ''}'' then Some ([(k, v)], r')
                                   else if c = CHR '','' \<and> length r' < length s then
                                     map_option (\<lambda>(ms, r). ((k, v) # ms, r)) (parse_members d r')
                                   else None))))"
  by pat_completeness auto

termination
proof (relation "measure (case_sum (\<lambda>(d, s). 2 * length s)
    (case_sum (\<lambda>(d, s). 2 * length s + 1) (\<lambda>(d, s). 2 * length s + 1)))", goal_cases)
  case 1 show ?case by simp
next
  case 2 then show ?case by simp
next
  case 3 then show ?case by simp
next
  case (4 d s) then show ?case using skip_ws_length [of s] by simp
next
  case 5 then show ?case by simp
next
  case (6 d s x y z k r) then show ?case using skip_ws_tl_length [of r] by simp
next
  case 7 then show ?case by simp
qed

definition parse_json :: "string \<Rightarrow> json option" where
  "parse_json s =
     (case parse_value 10000 (skip_ws s) of
        Some (v, r) \<Rightarrow> if skip_ws r = [] then Some v else None
      | None \<Rightarrow> None)"

declare parse_value.simps [simp del] parse_elems.simps [simp del] parse_members.simps [simp del]

subsection \<open>Writing JSON\<close>

definition hex_char :: "nat \<Rightarrow> char" where
  "hex_char d = (if d < 10 then char_of (48 + d) else char_of (87 + d))"

definition quote_ascii :: "char \<Rightarrow> string" where
  "quote_ascii c =
     (let n = code_of c in
      if c = quote \<or> c = backslash then [backslash, c]
      else if n = 8 then [backslash, CHR ''b''] else if n = 12 then [backslash, CHR ''f'']
      else if n = 10 then [backslash, CHR ''n''] else if n = 13 then [backslash, CHR ''r'']
      else if n = 9 then [backslash, CHR ''t'']
      else if n < 32 \<or> c = CHR ''<'' \<or> c = CHR ''>'' \<or> c = CHR 0x26
        then [backslash, CHR ''u'', CHR ''0'', CHR ''0'', hex_char (n div 16), hex_char (n mod 16)]
      else [c])"

function quote_body :: "string \<Rightarrow> string" where
  "quote_body [] = []"
| "quote_body (c # cs) =
     (if code_of c < 128 then quote_ascii c @ quote_body cs
      else let n = utf8_len (c # cs); u = take n (c # cs)
           in if n = 0 then backslash # ''ufffd'' @ quote_body cs
              else if u = [CHR 0xE2, CHR 0x80, CHR 0xA8]
                then backslash # ''u2028'' @ quote_body (drop (n - 1) cs)
              else if u = [CHR 0xE2, CHR 0x80, CHR 0xA9]
                then backslash # ''u2029'' @ quote_body (drop (n - 1) cs)
              else u @ quote_body (drop (n - 1) cs))"
  by pat_completeness auto
termination
  by (relation "measure length") auto

definition json_quote :: "string \<Rightarrow> string" where
  "json_quote s = quote # quote_body s @ [quote]"

fun join_comma :: "string list \<Rightarrow> string" where
  "join_comma [] = []"
| "join_comma [x] = x"
| "join_comma (x # xs) = x @ '','' @ join_comma xs"

fun encode_json :: "json \<Rightarrow> string" where
  "encode_json JNull = ''null''"
| "encode_json (JBool b) = (if b then ''true'' else ''false'')"
| "encode_json (JNum s) = s"
| "encode_json (JStr s) = json_quote s"
| "encode_json (JArr vs) = ''['' @ join_comma (map encode_json vs) @ '']''"
| "encode_json (JObj ms) =
     ''{'' @ join_comma (map (\<lambda>(k, v). json_quote k @ '':'' @ encode_json v) ms) @ ''}''"

definition json_int :: "int \<Rightarrow> json" where "json_int i = JNum (show_int i)"

subsection \<open>Strings into Go variables\<close>

text \<open>
  \<open>json.Unmarshal\<close> into a string variable: a JSON null leaves the variable as it is (here the
  empty string), any other value that is not a string is an error.
\<close>

definition unmarshal_string :: "string \<Rightarrow> string option" where
  "unmarshal_string b =
     (case parse_json b of
        Some (JStr t) \<Rightarrow> Some t
      | Some JNull \<Rightarrow> Some []
      | _ \<Rightarrow> None)"

text \<open>
  Object keys match struct fields up to simple case folding: besides the letters of either case,
  the long s and the Kelvin sign fold to S and K.
\<close>

fun fold_name :: "string \<Rightarrow> string" where
  "fold_name [] = []"
| "fold_name [a] = [ascii_upper a]"
| "fold_name (a # b # s) =
     (if a = CHR 0xC5 \<and> b = CHR 0xBF then CHR ''S'' # fold_name s
      else if a = CHR 0xE2 \<and> b = CHR 0x84 \<and> has_prefix s [CHR 0xAA] then CHR ''K'' # fold_name (tl s)
      else ascii_upper a # fold_name (b # s))"

definition field_match :: "string \<Rightarrow> string \<Rightarrow> bool" where
  "field_match key field \<longleftrightarrow> fold_name key = fold_name field"

subsection \<open>Text that needs no escape\<close>

definition plain_char :: "char \<Rightarrow> bool" where
  "plain_char c \<longleftrightarrow> 32 \<le> code_of c \<and> code_of c < 128 \<and>
     c \<notin> {quote, backslash, CHR ''<'', CHR ''>'', CHR 0x26}"

definition plain_text :: "string \<Rightarrow> bool" where
  "plain_text s \<longleftrightarrow> list_all plain_char s"

lemma plain_text_Cons [simp]: "plain_text (c # s) \<longleftrightarrow> plain_char c \<and> plain_text s"
  by (simp add: plain_text_def)

lemma plain_text_Nil [simp]: "plain_text []"
  by (simp add: plain_text_def)

lemma plain_text_append [simp]: "plain_text (s @ t) \<longleftrightarrow> plain_text s \<and> plain_text t"
  by (simp add: plain_text_def)

lemma quote_ascii_plain: "plain_char c \<Longrightarrow> quote_ascii c = [c]"
  by (auto simp: quote_ascii_def plain_char_def Let_def)

lemma quote_body_plain: "plain_text s \<Longrightarrow> quote_body s = s"
  by (induction s) (auto simp: quote_ascii_plain plain_char_def)

lemma utf8_len_ascii: "code_of c < 128 \<Longrightarrow> utf8_len (c # cs) = 1"
  by (simp add: utf8_len_def)

lemma str_lit_plain_Cons:
  "plain_char c \<Longrightarrow> str_lit (c # cs) = prepend [c] (str_lit cs)"
  by (auto simp: plain_char_def utf8_len_ascii)

lemma str_lit_plain: "plain_text s \<Longrightarrow> str_lit (s @ quote # r) = Some (s, r)"
proof (induction s)
  case Nil
  show ?case by simp
next
  case (Cons c s)
  then have "plain_char c" and "str_lit (s @ quote # r) = Some (s, r)" by simp_all
  then show ?case by (simp only: append_Cons str_lit_plain_Cons) (simp add: prepend_def)
qed

text \<open>What the encoder writes for plain text, the decoder reads back.\<close>

lemma parse_value_string:
  "plain_text s \<Longrightarrow> parse_value d (quote # s @ quote # r) = Some (JStr s, r)"
  by (simp add: parse_value.simps str_lit_plain)

lemma unmarshal_quote: "plain_text s \<Longrightarrow> unmarshal_string (json_quote s) = Some s"
  by (simp add: unmarshal_string_def parse_json_def json_quote_def quote_body_plain
    parse_value_string skip_ws_def json_ws_def)

subsection \<open>The verb \<open>%q\<close>\<close>

text \<open>
  \<open>strconv.Quote\<close>, for the error texts that quote their input. Every valid sequence of two bytes
  or more counts as printable.
\<close>

definition quote_verb_ascii :: "char \<Rightarrow> string" where
  "quote_verb_ascii c =
     (let n = code_of c in
      if c = quote \<or> c = backslash then [backslash, c]
      else if n = 7 then [backslash, CHR ''a''] else if n = 8 then [backslash, CHR ''b'']
      else if n = 12 then [backslash, CHR ''f''] else if n = 10 then [backslash, CHR ''n'']
      else if n = 13 then [backslash, CHR ''r''] else if n = 9 then [backslash, CHR ''t'']
      else if n = 11 then [backslash, CHR ''v'']
      else if n < 32 \<or> 127 \<le> n
        then [backslash, CHR ''x'', hex_char (n div 16), hex_char (n mod 16)]
      else [c])"

function quote_verb_body :: "string \<Rightarrow> string" where
  "quote_verb_body [] = []"
| "quote_verb_body (c # cs) =
     (let n = utf8_len (c # cs)
      in if n \<le> 1 then quote_verb_ascii c @ quote_verb_body cs
         else take n (c # cs) @ quote_verb_body (drop (n - 1) cs))"
  by pat_completeness auto
termination
  by (relation "measure length") auto

definition quote_verb :: "string \<Rightarrow> string" where
  "quote_verb s = quote # quote_verb_body s @ [quote]"

end
