(* ===== verification/Errors.thy ===== *)
theory Errors
  imports Prelude
begin

section \<open>Coded errors (v4/errors)\<close>

text \<open>
  A Go \<open>error\<close> value is one of: a text (\<open>errors.New\<close>, \<open>fmt.Errorf\<close> without \<open>%w\<close>, an error of
  the operating system), a pointer to a \<open>CodeError\<close>, or the result of \<open>fmt.Errorf("%s: %w")\<close>,
  which keeps the wrapped error. The nil error is \<open>None\<close>.
\<close>

datatype go_error =
    ErrText string
  | ErrCode CodeError
  | ErrWrap string go_error
and CodeError = CodeError (ce_Code: int) (ce_Message: string) (ce_Err: "go_error option")

definition CodeInternal :: int where "CodeInternal = 500"
definition CodeAuthFailed :: int where "CodeAuthFailed = 501"
definition CodeBadRequest :: int where "CodeBadRequest = 502"
definition CodeConflict :: int where "CodeConflict = 503"
definition CodeUnavailable :: int where "CodeUnavailable = 504"
definition CodeNoPortTimeout :: int where "CodeNoPortTimeout = 505"

lemmas code_defs [go_simps] =
  CodeInternal_def CodeAuthFailed_def CodeBadRequest_def CodeConflict_def CodeUnavailable_def
  CodeNoPortTimeout_def

text \<open>\<open>(*CodeError).Error\<close>, with its nil receiver, and the text of any error.\<close>

fun error_text :: "go_error \<Rightarrow> string" and CodeError_text :: "CodeError \<Rightarrow> string" where
  "error_text (ErrText s) = s"
| "error_text (ErrCode ce) = CodeError_text ce"
| "error_text (ErrWrap s e) = s @ '': '' @ error_text e"
| "CodeError_text (CodeError c m None) = show_int c @ '' '' @ m"
| "CodeError_text (CodeError c m (Some e)) = show_int c @ '' '' @ m @ '': '' @ error_text e"

definition CodeError_Error :: "CodeError option \<Rightarrow> string" where
  "CodeError_Error e = (case e of None \<Rightarrow> '''' | Some ce \<Rightarrow> CodeError_text ce)"

definition CodeError_Unwrap :: "CodeError \<Rightarrow> go_error option" where
  "CodeError_Unwrap e = ce_Err e"

definition errors_New :: "int \<Rightarrow> string \<Rightarrow> CodeError" where
  "errors_New code msg = CodeError code msg None"

definition errors_Wrap :: "int \<Rightarrow> string \<Rightarrow> go_error option \<Rightarrow> CodeError" where
  "errors_Wrap code msg err =
     (case err of None \<Rightarrow> CodeError code msg None | Some e \<Rightarrow> CodeError code msg (Some e))"

text \<open>\<open>errors.As\<close> for a \<open>*CodeError\<close> target: the first one along the chain of wrapped errors.\<close>

fun errors_As :: "go_error \<Rightarrow> CodeError option" where
  "errors_As (ErrCode ce) = Some ce"
| "errors_As (ErrWrap _ e) = errors_As e"
| "errors_As (ErrText _) = None"

definition WithMessage :: "go_error option \<Rightarrow> string \<Rightarrow> go_error option" where
  "WithMessage err msg =
     (case err of
        None \<Rightarrow> None
      | Some e \<Rightarrow>
          (case errors_As e of
             Some ce \<Rightarrow> Some (ErrCode (CodeError (ce_Code ce) msg (ce_Err ce)))
           | None \<Rightarrow> Some (ErrWrap msg e)))"

definition errors_Code :: "go_error option \<Rightarrow> int" where
  "errors_Code err =
     (case err of
        None \<Rightarrow> 0
      | Some e \<Rightarrow> (case errors_As e of Some ce \<Rightarrow> ce_Code ce | None \<Rightarrow> 500))"

text \<open>The shapes the other packages build.\<close>

abbreviation new_err :: "int \<Rightarrow> string \<Rightarrow> go_error" where
  "new_err c m \<equiv> ErrCode (errors_New c m)"

abbreviation wrap_err :: "int \<Rightarrow> string \<Rightarrow> go_error \<Rightarrow> go_error" where
  "wrap_err c m e \<equiv> ErrCode (errors_Wrap c m (Some e))"

lemma errors_Code_coded [simp]:
  "errors_Code (Some (new_err c m)) = c"
  "errors_Code (Some (wrap_err c m e)) = c"
  by (simp_all add: errors_Code_def errors_New_def errors_Wrap_def)

lemma errors_Code_None [simp]: "errors_Code None = 0"
  by (simp add: errors_Code_def)

text \<open>
  C31. Adding context to an error never changes its code: \<open>WithMessage\<close> keeps the code of a
  \<open>CodeError\<close> anywhere in the chain, keeps the default 500 of an error without one and the 0 of
  nil; it never turns nil into an error or an error into nil; and the text starts with the new
  message (after the code, when there is one).
\<close>

theorem WithMessage_keeps_code:
  "errors_Code (WithMessage err msg) = errors_Code err \<and>
   (WithMessage err msg = None) = (err = None) \<and>
   (\<forall>e. WithMessage err msg = Some e \<longrightarrow>
      has_prefix (error_text e) msg \<or>
      has_prefix (error_text e) (show_int (errors_Code err) @ '' '' @ msg))"
proof (cases err)
  case None
  then show ?thesis by (simp add: WithMessage_def)
next
  case (Some e)
  show ?thesis
  proof (cases "errors_As e")
    case None
    with Some show ?thesis
      by (simp add: WithMessage_def errors_Code_def has_prefix_def)
  next
    case (Some ce)
    then show ?thesis
      using \<open>err = Some e\<close>
      by (cases ce; cases "ce_Err ce") (auto simp: WithMessage_def errors_Code_def has_prefix_def)
  qed
qed

theorem WithMessage_keeps_code_witness:
  "errors_Code (WithMessage (Some (ErrWrap ''ctx'' (new_err CodeConflict ''busy''))) ''more'') = 503 \<and>
   error_text (the (WithMessage (Some (ErrWrap ''ctx'' (new_err CodeConflict ''busy''))) ''more''))
     = ''503 more''"
proof -
  let ?e = "Some (ErrWrap ''ctx'' (new_err CodeConflict ''busy''))"
  have "errors_Code (WithMessage ?e ''more'') = errors_Code ?e"
    using WithMessage_keeps_code [of ?e "''more''"] by blast
  then show ?thesis
    by (simp add: errors_Code_def errors_New_def WithMessage_def go_simps)
qed

end
