(* ===== verification/Status.thy ===== *)
theory Status
  imports Json Errors
begin

section \<open>Status enumerations (v4/status)\<close>

text \<open>
  The five string-valued enumerations of the gateway. A Go value of such a type is any string; the
  constants are the constructors here, and the zero value, the empty string, is \<open>None\<close> where a
  variable can hold it. \<open>Parse...\<close> accepts a constant's text with white space around it,
  \<open>MarshalJSON\<close> writes the text as a JSON string, \<open>UnmarshalJSON\<close> reads one back and leaves its
  receiver alone when it fails. The contract the five share is the locale \<open>enum_codec\<close>.
\<close>

subsection \<open>The contract\<close>

definition json_error :: go_error where
  "json_error = ErrText ''json: cannot unmarshal''"

locale enum_codec =
  fixes text_of :: "'a \<Rightarrow> string"
    and parse :: "string \<Rightarrow> go_error + 'a"
    and marshal :: "'a \<Rightarrow> string"
    and unmarshal :: "string \<Rightarrow> 'a option \<Rightarrow> go_error option \<times> 'a option"
  assumes parse_iff: "parse v = Inr x \<longleftrightarrow> trim_space v = text_of x"
    and text_plain: "plain_text (text_of x)"
    and text_trimmed: "trim_space (text_of x) = text_of x"
    and marshal_text: "marshal x = json_quote (text_of x)"
    and unmarshal_parse: "unmarshal b s =
      (case unmarshal_string b of
         None \<Rightarrow> (Some json_error, s)
       | Some v \<Rightarrow> (case parse v of Inl e \<Rightarrow> (Some e, s) | Inr x \<Rightarrow> (None, Some x)))"
begin

lemma codec_parse_text: "parse (text_of x) = Inr x"
  by (simp add: parse_iff text_trimmed)

lemma codec_text_inj: "text_of x = text_of y \<Longrightarrow> x = y"
  by (metis codec_parse_text sum.inject(2))

lemma codec_roundtrip: "unmarshal (marshal x) s = (None, Some x)"
  by (simp add: unmarshal_parse marshal_text unmarshal_quote text_plain codec_parse_text)

lemma codec_parse_trim: "parse (trim_space v) = Inr x \<longleftrightarrow> parse v = Inr x"
  by (simp add: parse_iff)

lemma codec_unmarshal_fail:
  "unmarshal b s = (Some e, t) \<Longrightarrow> t = s"
  by (auto simp: unmarshal_parse split: option.splits sum.splits)

lemma codec_unmarshal_ok:
  "unmarshal b s = (None, t) \<Longrightarrow> \<exists>v x. unmarshal_string b = Some v \<and> trim_space v = text_of x \<and> t = Some x"
  by (auto simp: unmarshal_parse parse_iff split: option.splits sum.splits)

lemma codec_laws:
  "parse (text_of x) = Inr x \<and>
   unmarshal (marshal x) s = (None, Some x) \<and>
   (text_of x = text_of y \<longrightarrow> x = y) \<and>
   (\<forall>e t. unmarshal b s = (Some e, t) \<longrightarrow> t = s)"
  using codec_parse_text codec_roundtrip codec_text_inj codec_unmarshal_fail by blast

end

subsection \<open>GatewayStatus\<close>

datatype GatewayStatus = GatewayStarting | GatewayRunning | GatewayStopping | GatewayStopped

fun GatewayStatus_String :: "GatewayStatus \<Rightarrow> string" where
  "GatewayStatus_String GatewayStarting = ''Starting''"
| "GatewayStatus_String GatewayRunning = ''Running''"
| "GatewayStatus_String GatewayStopping = ''Stopping''"
| "GatewayStatus_String GatewayStopped = ''Stopped''"

definition ParseGatewayStatus :: "string \<Rightarrow> go_error + GatewayStatus" where
  "ParseGatewayStatus v =
     (let s = trim_space v in
      if s = ''Starting'' then Inr GatewayStarting
      else if s = ''Running'' then Inr GatewayRunning
      else if s = ''Stopping'' then Inr GatewayStopping
      else if s = ''Stopped'' then Inr GatewayStopped
      else Inl (ErrText (''unknown GatewayStatus: '' @ quote_verb v)))"

definition GatewayStatus_MarshalJSON :: "GatewayStatus \<Rightarrow> string" where
  "GatewayStatus_MarshalJSON s = json_quote (GatewayStatus_String s)"

definition GatewayStatus_UnmarshalJSON ::
    "string \<Rightarrow> GatewayStatus option \<Rightarrow> go_error option \<times> GatewayStatus option" where
  "GatewayStatus_UnmarshalJSON b s =
     (case unmarshal_string b of
        None \<Rightarrow> (Some json_error, s)
      | Some v \<Rightarrow>
          (case ParseGatewayStatus v of
             Inl e \<Rightarrow> (Some e, s)
           | Inr parsed \<Rightarrow> (None, Some parsed)))"

interpretation gateway_codec:
  enum_codec GatewayStatus_String ParseGatewayStatus GatewayStatus_MarshalJSON GatewayStatus_UnmarshalJSON
proof
  fix v :: string and x :: GatewayStatus
  show "ParseGatewayStatus v = Inr x \<longleftrightarrow> trim_space v = GatewayStatus_String x"
    by (cases x) (auto simp: ParseGatewayStatus_def Let_def)
  show "plain_text (GatewayStatus_String x)"
    by (cases x) (simp_all add: plain_char_def code_of_def)
  show "trim_space (GatewayStatus_String x) = GatewayStatus_String x"
    by (cases x) (simp_all add: trim_eval)
qed (simp_all add: GatewayStatus_MarshalJSON_def GatewayStatus_UnmarshalJSON_def)

subsection \<open>PortStatus\<close>

datatype PortStatus = PortIdle | PortOccupied | PortReserved | PortBlocked

fun PortStatus_String :: "PortStatus \<Rightarrow> string" where
  "PortStatus_String PortIdle = ''Idle''"
| "PortStatus_String PortOccupied = ''Occupied''"
| "PortStatus_String PortReserved = ''Reserved''"
| "PortStatus_String PortBlocked = ''Blocked''"

definition ParsePortStatus :: "string \<Rightarrow> go_error + PortStatus" where
  "ParsePortStatus v =
     (let s = trim_space v in
      if s = ''Idle'' then Inr PortIdle
      else if s = ''Occupied'' then Inr PortOccupied
      else if s = ''Reserved'' then Inr PortReserved
      else if s = ''Blocked'' then Inr PortBlocked
      else Inl (ErrText (''unknown PortStatus: '' @ quote_verb v)))"

definition PortStatus_MarshalJSON :: "PortStatus \<Rightarrow> string" where
  "PortStatus_MarshalJSON s = json_quote (PortStatus_String s)"

definition PortStatus_UnmarshalJSON ::
    "string \<Rightarrow> PortStatus option \<Rightarrow> go_error option \<times> PortStatus option" where
  "PortStatus_UnmarshalJSON b s =
     (case unmarshal_string b of
        None \<Rightarrow> (Some json_error, s)
      | Some v \<Rightarrow>
          (case ParsePortStatus v of
             Inl e \<Rightarrow> (Some e, s)
           | Inr parsed \<Rightarrow> (None, Some parsed)))"

interpretation port_codec:
  enum_codec PortStatus_String ParsePortStatus PortStatus_MarshalJSON PortStatus_UnmarshalJSON
proof
  fix v :: string and x :: PortStatus
  show "ParsePortStatus v = Inr x \<longleftrightarrow> trim_space v = PortStatus_String x"
    by (cases x) (auto simp: ParsePortStatus_def Let_def)
  show "plain_text (PortStatus_String x)"
    by (cases x) (simp_all add: plain_char_def code_of_def)
  show "trim_space (PortStatus_String x) = PortStatus_String x"
    by (cases x) (simp_all add: trim_eval)
qed (simp_all add: PortStatus_MarshalJSON_def PortStatus_UnmarshalJSON_def)

subsection \<open>ConnStatus\<close>

datatype ConnStatus = ConnInit | ConnHandshake | ConnEstablished | ConnDisconnected | ConnError

fun ConnStatus_String :: "ConnStatus \<Rightarrow> string" where
  "ConnStatus_String ConnInit = ''Init''"
| "ConnStatus_String ConnHandshake = ''Handshake''"
| "ConnStatus_String ConnEstablished = ''Established''"
| "ConnStatus_String ConnDisconnected = ''Disconnected''"
| "ConnStatus_String ConnError = ''Error''"

definition ParseConnStatus :: "string \<Rightarrow> go_error + ConnStatus" where
  "ParseConnStatus v =
     (let s = trim_space v in
      if s = ''Init'' then Inr ConnInit
      else if s = ''Handshake'' then Inr ConnHandshake
      else if s = ''Established'' then Inr ConnEstablished
      else if s = ''Disconnected'' then Inr ConnDisconnected
      else if s = ''Error'' then Inr ConnError
      else Inl (ErrText (''unknown ConnStatus: '' @ quote_verb v)))"

definition ConnStatus_MarshalJSON :: "ConnStatus \<Rightarrow> string" where
  "ConnStatus_MarshalJSON s = json_quote (ConnStatus_String s)"

definition ConnStatus_UnmarshalJSON ::
    "string \<Rightarrow> ConnStatus option \<Rightarrow> go_error option \<times> ConnStatus option" where
  "ConnStatus_UnmarshalJSON b s =
     (case unmarshal_string b of
        None \<Rightarrow> (Some json_error, s)
      | Some v \<Rightarrow>
          (case ParseConnStatus v of
             Inl e \<Rightarrow> (Some e, s)
           | Inr parsed \<Rightarrow> (None, Some parsed)))"

interpretation conn_codec:
  enum_codec ConnStatus_String ParseConnStatus ConnStatus_MarshalJSON ConnStatus_UnmarshalJSON
proof
  fix v :: string and x :: ConnStatus
  show "ParseConnStatus v = Inr x \<longleftrightarrow> trim_space v = ConnStatus_String x"
    by (cases x) (auto simp: ParseConnStatus_def Let_def)
  show "plain_text (ConnStatus_String x)"
    by (cases x) (simp_all add: plain_char_def code_of_def)
  show "trim_space (ConnStatus_String x) = ConnStatus_String x"
    by (cases x) (simp_all add: trim_eval)
qed (simp_all add: ConnStatus_MarshalJSON_def ConnStatus_UnmarshalJSON_def)

subsection \<open>AuthStatus\<close>

datatype AuthStatus = AuthPending | AuthApproved | AuthRejected | AuthExpired

fun AuthStatus_String :: "AuthStatus \<Rightarrow> string" where
  "AuthStatus_String AuthPending = ''Pending''"
| "AuthStatus_String AuthApproved = ''Approved''"
| "AuthStatus_String AuthRejected = ''Rejected''"
| "AuthStatus_String AuthExpired = ''Expired''"

definition ParseAuthStatus :: "string \<Rightarrow> go_error + AuthStatus" where
  "ParseAuthStatus v =
     (let s = trim_space v in
      if s = ''Pending'' then Inr AuthPending
      else if s = ''Approved'' then Inr AuthApproved
      else if s = ''Rejected'' then Inr AuthRejected
      else if s = ''Expired'' then Inr AuthExpired
      else Inl (ErrText (''unknown AuthStatus: '' @ quote_verb v)))"

definition AuthStatus_MarshalJSON :: "AuthStatus \<Rightarrow> string" where
  "AuthStatus_MarshalJSON s = json_quote (AuthStatus_String s)"

definition AuthStatus_UnmarshalJSON ::
    "string \<Rightarrow> AuthStatus option \<Rightarrow> go_error option \<times> AuthStatus option" where
  "AuthStatus_UnmarshalJSON b s =
     (case unmarshal_string b of
        None \<Rightarrow> (Some json_error, s)
      | Some v \<Rightarrow>
          (case ParseAuthStatus v of
             Inl e \<Rightarrow> (Some e, s)
           | Inr parsed \<Rightarrow> (None, Some parsed)))"

interpretation auth_codec:
  enum_codec AuthStatus_String ParseAuthStatus AuthStatus_MarshalJSON AuthStatus_UnmarshalJSON
proof
  fix v :: string and x :: AuthStatus
  show "ParseAuthStatus v = Inr x \<longleftrightarrow> trim_space v = AuthStatus_String x"
    by (cases x) (auto simp: ParseAuthStatus_def Let_def)
  show "plain_text (AuthStatus_String x)"
    by (cases x) (simp_all add: plain_char_def code_of_def)
  show "trim_space (AuthStatus_String x) = AuthStatus_String x"
    by (cases x) (simp_all add: trim_eval)
qed (simp_all add: AuthStatus_MarshalJSON_def AuthStatus_UnmarshalJSON_def)

subsection \<open>FlowDirection\<close>

datatype FlowDirection = FlowUnknown | FlowSending | FlowReceiving | FlowDuplex

fun FlowDirection_String :: "FlowDirection \<Rightarrow> string" where
  "FlowDirection_String FlowUnknown = ''Unknown''"
| "FlowDirection_String FlowSending = ''Sending''"
| "FlowDirection_String FlowReceiving = ''Receiving''"
| "FlowDirection_String FlowDuplex = ''Duplex''"

definition ParseFlowDirection :: "string \<Rightarrow> go_error + FlowDirection" where
  "ParseFlowDirection v =
     (let s = trim_space v in
      if s = ''Unknown'' then Inr FlowUnknown
      else if s = ''Sending'' then Inr FlowSending
      else if s = ''Receiving'' then Inr FlowReceiving
      else if s = ''Duplex'' then Inr FlowDuplex
      else Inl (ErrText (''unknown FlowDirection: '' @ quote_verb v)))"

definition FlowDirection_MarshalJSON :: "FlowDirection \<Rightarrow> string" where
  "FlowDirection_MarshalJSON s = json_quote (FlowDirection_String s)"

definition FlowDirection_UnmarshalJSON ::
    "string \<Rightarrow> FlowDirection option \<Rightarrow> go_error option \<times> FlowDirection option" where
  "FlowDirection_UnmarshalJSON b s =
     (case unmarshal_string b of
        None \<Rightarrow> (Some json_error, s)
      | Some v \<Rightarrow>
          (case ParseFlowDirection v of
             Inl e \<Rightarrow> (Some e, s)
           | Inr parsed \<Rightarrow> (None, Some parsed)))"

interpretation flow_codec:
  enum_codec FlowDirection_String ParseFlowDirection FlowDirection_MarshalJSON FlowDirection_UnmarshalJSON
proof
  fix v :: string and x :: FlowDirection
  show "ParseFlowDirection v = Inr x \<longleftrightarrow> trim_space v = FlowDirection_String x"
    by (cases x) (auto simp: ParseFlowDirection_def Let_def)
  show "plain_text (FlowDirection_String x)"
    by (cases x) (simp_all add: plain_char_def code_of_def)
  show "trim_space (FlowDirection_String x) = FlowDirection_String x"
    by (cases x) (simp_all add: trim_eval)
qed (simp_all add: FlowDirection_MarshalJSON_def FlowDirection_UnmarshalJSON_def)

subsection \<open>Properties\<close>

text \<open>
  Port statuses survive the wire: parsing the text of a status gives the status, decoding its
  JSON gives it back into any receiver, distinct statuses have distinct texts, and a text that
  does not decode leaves the receiver as it was.
\<close>

theorem PortStatus_codec:
  "ParsePortStatus (PortStatus_String x) = Inr x \<and>
   PortStatus_UnmarshalJSON (PortStatus_MarshalJSON x) s = (None, Some x) \<and>
   (PortStatus_String x = PortStatus_String y \<longrightarrow> x = y) \<and>
   (\<forall>e t. PortStatus_UnmarshalJSON b s = (Some e, t) \<longrightarrow> t = s)"
  by (rule port_codec.codec_laws)

theorem PortStatus_codec_witness:
  "PortStatus_UnmarshalJSON ''7'' (Some PortIdle) = (Some json_error, Some PortIdle) \<and>
   PortStatus_UnmarshalJSON (PortStatus_MarshalJSON PortBlocked) None = (None, Some PortBlocked)"
proof -
  have e: "fst (PortStatus_UnmarshalJSON ''7'' (Some PortIdle)) = Some json_error"
    by (simp add: PortStatus_UnmarshalJSON_def unmarshal_string_def parse_json_def
      parse_value.simps num_lit_def skip_ws_def json_ws_def has_prefix_def is_digit_def Let_def)
  then have "snd (PortStatus_UnmarshalJSON ''7'' (Some PortIdle)) = Some PortIdle"
    using PortStatus_codec [of PortIdle "Some PortIdle" PortIdle "''7''"] by (metis prod.collapse)
  with e have "PortStatus_UnmarshalJSON ''7'' (Some PortIdle) = (Some json_error, Some PortIdle)"
    by (metis prod.collapse)
  moreover have
    "PortStatus_UnmarshalJSON (PortStatus_MarshalJSON PortBlocked) None = (None, Some PortBlocked)"
    using PortStatus_codec [of PortBlocked None] by blast
  ultimately show ?thesis by blast
qed

lemma all_GatewayStatus:
  "(\<forall>y. P y) \<longleftrightarrow> P GatewayStarting \<and> P GatewayRunning \<and> P GatewayStopping \<and> P GatewayStopped"
  by (metis GatewayStatus.exhaust)

text \<open>
  C30. The parser of the gateway status accepts exactly the four texts up to surrounding white
  space, and reports any other input in its error.
\<close>

theorem ParseGatewayStatus_accepts:
  "(ParseGatewayStatus v = Inr x \<longleftrightarrow> trim_space v = GatewayStatus_String x) \<and>
   ((\<forall>y. trim_space v \<noteq> GatewayStatus_String y) \<longleftrightarrow>
     ParseGatewayStatus v = Inl (ErrText (''unknown GatewayStatus: '' @ quote_verb v)))"
proof -
  have "(\<forall>y. trim_space v \<noteq> GatewayStatus_String y) \<longleftrightarrow>
      ParseGatewayStatus v = Inl (ErrText (''unknown GatewayStatus: '' @ quote_verb v))"
    by (simp add: all_GatewayStatus ParseGatewayStatus_def Let_def)
  then show ?thesis using gateway_codec.parse_iff by blast
qed

end
