(* ===== verification/Pool.thy ===== *)
theory Pool
  imports Status
begin

section \<open>The port pool (v4/ports/pool.go)\<close>

text \<open>
  A pool owns a contiguous range of ports. Each port has a status, and a reserved or occupied port
  has an allocation that binds it to a session. Every method runs under the pool's mutex, so each
  is one atomic function of the pool here; \<open>time.Now()\<close> is an argument. A missing key of the Go map
  \<open>state\<close> reads as the empty status, here \<open>None\<close>; a missing allocation reads as the zero
  \<open>Allocation\<close>.

  The theory also states what the other components rely on (the locale \<open>port_registry\<close>), over an
  abstract view of a port, and proves that the pool refines it.
\<close>

subsection \<open>Data\<close>

datatype Kind = KindZMQ | KindSRT

fun Kind_text :: "Kind \<Rightarrow> string" where
  "Kind_text KindZMQ = ''zmq''"
| "Kind_text KindSRT = ''srt''"

record Allocation =
  alloc_Kind :: Kind
  alloc_Port :: port
  alloc_SessionID :: string
  alloc_ServerID :: string
  alloc_ClientID :: string
  alloc_ReservedAt :: time

record Pool =
  pool_kind :: Kind
  pool_ports :: "port list"
  pool_state :: "port \<Rightarrow> PortStatus option"
  pool_alloc :: "port \<Rightarrow> Allocation option"

record Snapshot =
  snap_Kind :: Kind
  snap_Total :: nat
  snap_Idle :: nat
  snap_Reserved :: nat
  snap_Occupied :: nat
  snap_Blocked :: nat
  snap_IdlePorts :: "port list"
  snap_ReservedPorts :: "port list"
  snap_OccupiedPorts :: "port list"
  snap_BlockedPorts :: "port list"

text \<open>The session id of the allocation read from the map, empty when there is none.\<close>

definition session_at :: "Pool \<Rightarrow> port \<Rightarrow> string" where
  "session_at p port =
     (case pool_alloc p port of None \<Rightarrow> '''' | Some a \<Rightarrow> alloc_SessionID a)"

definition port_text :: "port \<Rightarrow> string" where
  "port_text port = ''port='' @ show_int port"

definition status_text :: "PortStatus option \<Rightarrow> string" where
  "status_text s = (case s of None \<Rightarrow> '''' | Some s \<Rightarrow> PortStatus_String s)"

subsection \<open>Operations\<close>

definition empty_pool :: "Kind \<Rightarrow> Pool" where
  "empty_pool k =
     \<lparr>pool_kind = k, pool_ports = [], pool_state = Map.empty, pool_alloc = Map.empty\<rparr>"

definition add_port :: "port \<Rightarrow> Pool \<Rightarrow> Pool" where
  "add_port i p =
     p\<lparr>pool_ports := pool_ports p @ [i], pool_state := (pool_state p)(i \<mapsto> PortIdle)\<rparr>"

definition NewPool :: "Kind \<Rightarrow> port \<Rightarrow> port \<Rightarrow> go_error + Pool" where
  "NewPool kind start fin =
     (if start \<le> 0 \<or> fin \<le> 0 \<or> fin < start \<or> fin > 65535
      then Inl (ErrText (''invalid port range: '' @ show_int start @ ''-'' @ show_int fin))
      else Inr (fold add_port [start..fin] (empty_pool kind)))"

definition Pool_Kind :: "Pool \<Rightarrow> Kind" where
  "Pool_Kind p = pool_kind p"

definition Reserve ::
    "time \<Rightarrow> string \<Rightarrow> string \<Rightarrow> string \<Rightarrow> Pool \<Rightarrow> (go_error + Allocation) \<times> Pool" where
  "Reserve now sessionID serverID clientID p =
     (case find (\<lambda>port. pool_state p port = Some PortIdle) (pool_ports p) of
        None \<Rightarrow> (Inl (new_err CodeUnavailable ''no available port''), p)
      | Some port \<Rightarrow>
          (let a = \<lparr>alloc_Kind = pool_kind p, alloc_Port = port, alloc_SessionID = sessionID,
                    alloc_ServerID = serverID, alloc_ClientID = clientID, alloc_ReservedAt = now\<rparr>
           in (Inr a, p\<lparr>pool_state := (pool_state p)(port \<mapsto> PortReserved),
                        pool_alloc := (pool_alloc p)(port \<mapsto> a)\<rparr>)))"

definition MarkOccupied :: "port \<Rightarrow> string \<Rightarrow> Pool \<Rightarrow> go_error option \<times> Pool" where
  "MarkOccupied port sessionID p =
     (if pool_state p port \<noteq> Some PortReserved
      then (Some (wrap_err CodeConflict ''port not reserved''
              (ErrText (port_text port @ '' state='' @ status_text (pool_state p port)))), p)
      else if session_at p port \<noteq> sessionID
      then (Some (wrap_err CodeConflict ''port reserved by another session''
              (ErrText (port_text port))), p)
      else (None, p\<lparr>pool_state := (pool_state p)(port \<mapsto> PortOccupied)\<rparr>))"

definition Release :: "port \<Rightarrow> string \<Rightarrow> Pool \<Rightarrow> go_error option \<times> Pool" where
  "Release port sessionID p =
     (case pool_state p port of
        None \<Rightarrow> (Some (wrap_err CodeBadRequest ''unknown port'' (ErrText (port_text port))), p)
      | Some cur \<Rightarrow>
          if cur = PortIdle then (None, p)
          else if sessionID \<noteq> '''' \<and> session_at p port \<noteq> sessionID
          then (Some (wrap_err CodeConflict ''release conflict'' (ErrText (port_text port))), p)
          else (None, p\<lparr>pool_alloc := (pool_alloc p)(port := None),
                        pool_state := (pool_state p)(port \<mapsto> PortIdle)\<rparr>))"

definition Block :: "port \<Rightarrow> string \<Rightarrow> Pool \<Rightarrow> go_error option \<times> Pool" where
  "Block port reason p =
     (if pool_state p port = None
      then (Some (wrap_err CodeBadRequest ''unknown port'' (ErrText (port_text port))), p)
      else (None, p\<lparr>pool_alloc := (pool_alloc p)(port := None),
                    pool_state := (pool_state p)(port \<mapsto> PortBlocked)\<rparr>))"

definition Pool_Allocation :: "Pool \<Rightarrow> port \<Rightarrow> Allocation option" where
  "Pool_Allocation p port = pool_alloc p port"

definition TouchReservation :: "time \<Rightarrow> port \<Rightarrow> string \<Rightarrow> Pool \<Rightarrow> Pool" where
  "TouchReservation now port sessionID p =
     (if port \<le> 0 \<or> sessionID = '''' then p
      else if pool_state p port \<noteq> Some PortReserved then p
      else (case pool_alloc p port of
              None \<Rightarrow> p
            | Some a \<Rightarrow>
                if alloc_SessionID a \<noteq> sessionID then p
                else p\<lparr>pool_alloc := (pool_alloc p)(port \<mapsto> a\<lparr>alloc_ReservedAt := now\<rparr>)\<rparr>))"

text \<open>One iteration of the loop of \<open>ReleaseExpiredReservations\<close>, and the loop over an order.\<close>

definition free_port :: "port \<Rightarrow> Pool \<Rightarrow> Pool" where
  "free_port port p =
     p\<lparr>pool_state := (pool_state p)(port \<mapsto> PortIdle), pool_alloc := (pool_alloc p)(port := None)\<rparr>"

definition expire_port ::
    "duration \<Rightarrow> time \<Rightarrow> port \<Rightarrow> Allocation list \<times> Pool \<Rightarrow> Allocation list \<times> Pool" where
  "expire_port maxAge now port acc =
     (let (released, p) = acc in
      if pool_state p port \<noteq> Some PortReserved then acc
      else if session_at p port = '''' then (released, free_port port p)
      else (case pool_alloc p port of
              None \<Rightarrow> acc
            | Some a \<Rightarrow> if now - alloc_ReservedAt a > maxAge
                        then (released @ [a], free_port port p) else acc))"

definition ReleaseExpiredReservations ::
    "port list \<Rightarrow> duration \<Rightarrow> time \<Rightarrow> Pool \<Rightarrow> Allocation list \<times> Pool" where
  "ReleaseExpiredReservations order maxAge now p =
     fold (expire_port maxAge now) order ([], p)"

definition snap_port :: "Pool \<Rightarrow> port \<Rightarrow> Snapshot \<Rightarrow> Snapshot" where
  "snap_port p port s =
     (case pool_state p port of
        Some PortIdle \<Rightarrow>
          s\<lparr>snap_Idle := snap_Idle s + 1, snap_IdlePorts := snap_IdlePorts s @ [port]\<rparr>
      | Some PortReserved \<Rightarrow>
          s\<lparr>snap_Reserved := snap_Reserved s + 1, snap_ReservedPorts := snap_ReservedPorts s @ [port]\<rparr>
      | Some PortOccupied \<Rightarrow>
          s\<lparr>snap_Occupied := snap_Occupied s + 1, snap_OccupiedPorts := snap_OccupiedPorts s @ [port]\<rparr>
      | Some PortBlocked \<Rightarrow>
          s\<lparr>snap_Blocked := snap_Blocked s + 1, snap_BlockedPorts := snap_BlockedPorts s @ [port]\<rparr>
      | None \<Rightarrow> s)"

definition empty_snapshot :: "Kind \<Rightarrow> Snapshot" where
  "empty_snapshot k =
     \<lparr>snap_Kind = k, snap_Total = 0, snap_Idle = 0, snap_Reserved = 0, snap_Occupied = 0,
      snap_Blocked = 0, snap_IdlePorts = [], snap_ReservedPorts = [], snap_OccupiedPorts = [],
      snap_BlockedPorts = []\<rparr>"

definition Pool_Snapshot :: "Pool \<Rightarrow> Snapshot" where
  "Pool_Snapshot p =
     (let s = fold (snap_port p) (pool_ports p) (empty_snapshot (pool_kind p))
      in s\<lparr>snap_IdlePorts := sort (snap_IdlePorts s),
           snap_ReservedPorts := sort (snap_ReservedPorts s),
           snap_OccupiedPorts := sort (snap_OccupiedPorts s),
           snap_BlockedPorts := sort (snap_BlockedPorts s),
           snap_Total := length (pool_ports p)\<rparr>)"

lemmas pool_op_defs =
  Reserve_def MarkOccupied_def Release_def Block_def TouchReservation_def Pool_Allocation_def

subsection \<open>The invariant\<close>

text \<open>
  The ports are sorted and in range; exactly they have a status; a port has an allocation exactly
  when it is reserved or occupied, and the allocation names the port and the pool's kind.
\<close>

definition held :: "PortStatus option \<Rightarrow> bool" where
  "held s \<longleftrightarrow> s = Some PortReserved \<or> s = Some PortOccupied"

definition pool_inv :: "Pool \<Rightarrow> bool" where
  "pool_inv p \<longleftrightarrow>
     sorted_wrt (<) (pool_ports p) \<and>
     (\<forall>q \<in> set (pool_ports p). 0 < q \<and> q \<le> 65535) \<and>
     dom (pool_state p) = set (pool_ports p) \<and>
     (\<forall>q. pool_alloc p q \<noteq> None \<longleftrightarrow> held (pool_state p q)) \<and>
     (\<forall>q a. pool_alloc p q = Some a \<longrightarrow> alloc_Port a = q \<and> alloc_Kind a = pool_kind p)"

lemma pool_invD:
  assumes "pool_inv p"
  shows "sorted_wrt (<) (pool_ports p)" "dom (pool_state p) = set (pool_ports p)"
    "pool_alloc p q \<noteq> None \<longleftrightarrow> held (pool_state p q)"
    "pool_alloc p q = Some a \<Longrightarrow> alloc_Port a = q"
    "pool_alloc p q = Some a \<Longrightarrow> alloc_Kind a = pool_kind p"
    "q \<in> set (pool_ports p) \<Longrightarrow> 0 < q" "q \<in> set (pool_ports p) \<Longrightarrow> q \<le> 65535"
  using assms by (auto simp: pool_inv_def)

lemma pool_inv_distinct: "pool_inv p \<Longrightarrow> distinct (pool_ports p)"
  using strict_sorted_iff pool_invD(1) by blast

lemma pool_inv_sorted: "pool_inv p \<Longrightarrow> sorted (pool_ports p)"
  using strict_sorted_iff pool_invD(1) by blast

lemma pool_inv_known:
  "pool_inv p \<Longrightarrow> pool_state p q = Some s \<Longrightarrow> q \<in> set (pool_ports p)"
  using pool_invD(2) by blast

lemma pool_update_swap [simp]:
  "p\<lparr>pool_alloc := a, pool_state := s\<rparr> = p\<lparr>pool_state := s, pool_alloc := a\<rparr>"
  by simp

text \<open>An update of a known port keeps the invariant when status and allocation agree.\<close>

lemma pool_inv_update:
  assumes "pool_inv p" and "pool_state p q \<noteq> None"
    and "a \<noteq> None \<longleftrightarrow> held (Some s)"
    and "\<And>x. a = Some x \<Longrightarrow> alloc_Port x = q \<and> alloc_Kind x = pool_kind p"
  shows "pool_inv (p\<lparr>pool_state := (pool_state p)(q \<mapsto> s), pool_alloc := (pool_alloc p)(q := a)\<rparr>)"
  using assms by (auto simp: pool_inv_def)

lemma pool_inv_realloc:
  assumes "pool_inv p" and "pool_alloc p q \<noteq> None"
    and "alloc_Port x = q" and "alloc_Kind x = pool_kind p"
  shows "pool_inv (p\<lparr>pool_alloc := (pool_alloc p)(q \<mapsto> x)\<rparr>)"
  using assms by (auto simp: pool_inv_def)

subsection \<open>Every operation keeps the invariant\<close>

lemma fold_add_port:
  "fold add_port xs p =
     p\<lparr>pool_ports := pool_ports p @ xs,
       pool_state := (\<lambda>q. if q \<in> set xs then Some PortIdle else pool_state p q)\<rparr>"
  by (induction xs arbitrary: p) (auto simp: add_port_def fun_eq_iff)

lemma NewPool_Inr:
  "NewPool kind start fin = Inr p \<Longrightarrow>
     0 < start \<and> start \<le> fin \<and> fin \<le> 65535 \<and>
     p = \<lparr>pool_kind = kind, pool_ports = [start..fin],
          pool_state = (\<lambda>q. if start \<le> q \<and> q \<le> fin then Some PortIdle else None),
          pool_alloc = Map.empty\<rparr>"
  by (auto simp: NewPool_def fold_add_port empty_pool_def split: if_splits)

lemma sorted_wrt_upto: "sorted_wrt (<) [i..j :: int]"
  by (induction i j rule: upto.induct) (subst upto.simps, auto)

lemma pool_inv_NewPool [inv_intros]: "NewPool kind start fin = Inr p \<Longrightarrow> pool_inv p"
  by (drule NewPool_Inr) (auto simp: pool_inv_def held_def sorted_wrt_upto split: if_splits)

lemma find_idle:
  "find (\<lambda>port. pool_state p port = Some PortIdle) (pool_ports p) = Some q \<Longrightarrow>
     q \<in> set (pool_ports p) \<and> pool_state p q = Some PortIdle"
  by (auto simp: find_Some_iff)

lemma pool_inv_Reserve [inv_intros]:
  assumes "pool_inv p" shows "pool_inv (snd (Reserve now sid srv cli p))"
proof (cases "find (\<lambda>port. pool_state p port = Some PortIdle) (pool_ports p)")
  case None
  then show ?thesis using assms by (simp add: Reserve_def)
next
  case (Some q)
  with find_idle have "pool_state p q \<noteq> None" by fastforce
  with assms show ?thesis
    unfolding Reserve_def Some by (auto simp: Let_def held_def intro!: pool_inv_update)
qed

lemma pool_inv_MarkOccupied [inv_intros]:
  assumes "pool_inv p" shows "pool_inv (snd (MarkOccupied port sid p))"
proof (cases "fst (MarkOccupied port sid p) = None")
  case False
  then show ?thesis using assms by (auto simp: MarkOccupied_def split: if_splits)
next
  case True
  then have st: "pool_state p port = Some PortReserved"
    and eq: "snd (MarkOccupied port sid p)
       = p\<lparr>pool_state := (pool_state p)(port \<mapsto> PortOccupied),
           pool_alloc := (pool_alloc p)(port := pool_alloc p port)\<rparr>"
    by (auto simp: MarkOccupied_def split: if_splits)
  from assms st have "pool_alloc p port \<noteq> None"
    using pool_invD(3) [of p port] by (simp add: held_def)
  with assms st have "pool_inv (p\<lparr>pool_state := (pool_state p)(port \<mapsto> PortOccupied),
      pool_alloc := (pool_alloc p)(port := pool_alloc p port)\<rparr>)"
    by (intro pool_inv_update) (auto simp: held_def dest: pool_invD(4,5))
  with eq show ?thesis by simp
qed

lemma pool_inv_free:
  "pool_inv p \<Longrightarrow> pool_state p q \<noteq> None \<Longrightarrow> s = PortIdle \<or> s = PortBlocked \<Longrightarrow>
    pool_inv (p\<lparr>pool_state := (pool_state p)(q \<mapsto> s), pool_alloc := (pool_alloc p)(q := None)\<rparr>)"
  using pool_inv_update [of p q None s] by (auto simp: held_def)

lemma pool_inv_Release [inv_intros]:
  assumes "pool_inv p" shows "pool_inv (snd (Release port sid p))"
  using assms by (auto simp: Release_def pool_inv_free split: option.splits)

lemma pool_inv_Block [inv_intros]:
  assumes "pool_inv p" shows "pool_inv (snd (Block port reason p))"
  using assms by (auto simp: Block_def pool_inv_free)

lemma pool_inv_TouchReservation [inv_intros]:
  assumes "pool_inv p" shows "pool_inv (TouchReservation now port sid p)"
  using assms
  by (auto simp: TouchReservation_def pool_invD split: option.splits intro!: pool_inv_realloc)

lemma pool_inv_free_port:
  "pool_inv p \<Longrightarrow> pool_state p q \<noteq> None \<Longrightarrow> pool_inv (free_port q p)"
  using pool_inv_free [of p q PortIdle] by (simp add: free_port_def)

lemma pool_inv_expire_port: "pool_inv (snd acc) \<Longrightarrow> pool_inv (snd (expire_port maxAge now port acc))"
  by (cases acc) (auto simp: expire_port_def pool_inv_free_port Let_def split: option.splits)

lemma fold_preserves: "(\<And>x a. P a \<Longrightarrow> P (f x a)) \<Longrightarrow> P a \<Longrightarrow> P (fold f xs a)"
  by (induction xs arbitrary: a) auto

lemma pool_inv_ReleaseExpired [inv_intros]:
  assumes "pool_inv p" shows "pool_inv (snd (ReleaseExpiredReservations order maxAge now p))"
  unfolding ReleaseExpiredReservations_def
  by (rule fold_preserves [where P = "\<lambda>acc. pool_inv (snd acc)"])
     (simp_all add: pool_inv_expire_port assms)

subsection \<open>The abstract view of a port\<close>

datatype port_view =
    VUnknown | VIdle | VReserved (view_alloc: Allocation) | VOccupied (view_alloc: Allocation) | VBlocked

definition view_port :: "Pool \<Rightarrow> port \<Rightarrow> port_view" where
  "view_port p q =
     (case pool_state p q of
        None \<Rightarrow> VUnknown
      | Some PortIdle \<Rightarrow> VIdle
      | Some PortReserved \<Rightarrow> VReserved (the (pool_alloc p q))
      | Some PortOccupied \<Rightarrow> VOccupied (the (pool_alloc p q))
      | Some PortBlocked \<Rightarrow> VBlocked)"

fun v_alloc :: "port_view \<Rightarrow> Allocation option" where
  "v_alloc (VReserved a) = Some a"
| "v_alloc (VOccupied a) = Some a"
| "v_alloc _ = None"

fun v_mark :: "string \<Rightarrow> port_view \<Rightarrow> port_view" where
  "v_mark sid (VReserved a) = (if alloc_SessionID a = sid then VOccupied a else VReserved a)"
| "v_mark sid v = v"

fun v_release :: "string \<Rightarrow> port_view \<Rightarrow> port_view" where
  "v_release sid VUnknown = VUnknown"
| "v_release sid VIdle = VIdle"
| "v_release sid VBlocked = (if sid = '''' then VIdle else VBlocked)"
| "v_release sid (VReserved a) = (if sid = '''' \<or> alloc_SessionID a = sid then VIdle else VReserved a)"
| "v_release sid (VOccupied a) = (if sid = '''' \<or> alloc_SessionID a = sid then VIdle else VOccupied a)"

fun v_touch :: "time \<Rightarrow> string \<Rightarrow> port_view \<Rightarrow> port_view" where
  "v_touch now sid (VReserved a) =
     (if sid \<noteq> '''' \<and> alloc_SessionID a = sid then VReserved (a\<lparr>alloc_ReservedAt := now\<rparr>) else VReserved a)"
| "v_touch now sid v = v"

fun v_expired :: "duration \<Rightarrow> time \<Rightarrow> port_view \<Rightarrow> bool" where
  "v_expired maxAge now (VReserved a) \<longleftrightarrow> alloc_SessionID a = '''' \<or> now - alloc_ReservedAt a > maxAge"
| "v_expired maxAge now v \<longleftrightarrow> False"

definition v_expire :: "duration \<Rightarrow> time \<Rightarrow> port_view \<Rightarrow> port_view" where
  "v_expire maxAge now v = (if v_expired maxAge now v then VIdle else v)"

lemma pool_held_alloc:
  assumes "pool_inv p"
  shows "pool_state p q = Some PortReserved \<Longrightarrow> \<exists>a. pool_alloc p q = Some a"
    and "pool_state p q = Some PortOccupied \<Longrightarrow> \<exists>a. pool_alloc p q = Some a"
    and "pool_state p q \<noteq> Some PortReserved \<Longrightarrow> pool_state p q \<noteq> Some PortOccupied \<Longrightarrow>
         pool_alloc p q = None"
  using pool_invD(3) [OF assms, of q] by (auto simp: held_def)

text \<open>Under the invariant a view determines status and allocation, by cases.\<close>

lemma view_port_cases:
  assumes "pool_inv p"
  obtains "pool_state p q = None" "pool_alloc p q = None" "view_port p q = VUnknown"
    | "pool_state p q = Some PortIdle" "pool_alloc p q = None" "view_port p q = VIdle"
    | a where "pool_state p q = Some PortReserved" "pool_alloc p q = Some a"
        "view_port p q = VReserved a"
    | a where "pool_state p q = Some PortOccupied" "pool_alloc p q = Some a"
        "view_port p q = VOccupied a"
    | "pool_state p q = Some PortBlocked" "pool_alloc p q = None" "view_port p q = VBlocked"
proof (cases "pool_state p q")
  case None
  with that(1) pool_held_alloc(3) [OF assms, of q] show thesis by (simp add: view_port_def)
next
  case (Some s)
  with that pool_held_alloc [OF assms, of q] show thesis
    by (cases s) (auto simp: view_port_def)
qed

lemma view_port_frame:
  "pool_state p' q = pool_state p q \<Longrightarrow> pool_alloc p' q = pool_alloc p q \<Longrightarrow>
    view_port p' q = view_port p q"
  by (simp add: view_port_def split: option.split PortStatus.split)

text \<open>Each method refines its abstract counterpart on its port and leaves the others alone.\<close>

lemma view_MarkOccupied:
  assumes "pool_inv p"
  shows "view_port (snd (MarkOccupied port sid p)) q =
    (if q = port then v_mark sid (view_port p q) else view_port p q)"
proof (cases "q = port")
  case False
  then show ?thesis by (auto simp: MarkOccupied_def intro!: view_port_frame)
next
  case True
  show ?thesis
    using True
    by (cases rule: view_port_cases [OF assms, of port])
       (auto simp: MarkOccupied_def session_at_def view_port_def)
qed

lemma view_Release:
  assumes "pool_inv p"
  shows "view_port (snd (Release port sid p)) q =
    (if q = port then v_release sid (view_port p q) else view_port p q)"
proof (cases "q = port")
  case False
  then show ?thesis by (auto simp: Release_def split: option.splits intro!: view_port_frame)
next
  case True
  show ?thesis
    using True
    by (cases rule: view_port_cases [OF assms, of port])
       (auto simp: Release_def session_at_def view_port_def)
qed

lemma view_TouchReservation:
  assumes "pool_inv p"
  shows "view_port (TouchReservation now port sid p) q =
    (if q = port then v_touch now sid (view_port p q) else view_port p q)"
proof (cases "q = port")
  case False
  then show ?thesis by (auto simp: TouchReservation_def split: option.splits intro!: view_port_frame)
next
  case True
  have "pool_state p port = Some PortReserved \<Longrightarrow> 0 < port"
    using pool_inv_known [OF assms] pool_invD(6) [OF assms] by blast
  with True show ?thesis
    by (cases rule: view_port_cases [OF assms, of port])
       (auto simp: TouchReservation_def view_port_def)
qed

lemma view_Block:
  "view_port (snd (Block port reason p)) q =
    (if q = port \<and> view_port p q \<noteq> VUnknown then VBlocked else view_port p q)"
  by (auto simp: Block_def view_port_def split: option.splits PortStatus.splits)

lemma view_free_port:
  "view_port (free_port port p) q = (if q = port then VIdle else view_port p q)"
  by (simp add: free_port_def view_port_def split: option.split PortStatus.split)

subsection \<open>The contract of the pool\<close>

text \<open>
  What the data servers rely on: lookups agree with the view, marking, releasing and touching a
  port act on that port only and as their abstract counterparts do, and an operation succeeds
  exactly when the view says so.
\<close>

locale port_registry =
  fixes view :: "'p \<Rightarrow> port \<Rightarrow> port_view"
    and inv :: "'p \<Rightarrow> bool"
    and allocation :: "'p \<Rightarrow> port \<Rightarrow> Allocation option"
    and mark :: "port \<Rightarrow> string \<Rightarrow> 'p \<Rightarrow> go_error option \<times> 'p"
    and release :: "port \<Rightarrow> string \<Rightarrow> 'p \<Rightarrow> go_error option \<times> 'p"
    and touch :: "time \<Rightarrow> port \<Rightarrow> string \<Rightarrow> 'p \<Rightarrow> 'p"
  assumes allocation_view: "inv p \<Longrightarrow> allocation p q = v_alloc (view p q)"
    and mark_view: "inv p \<Longrightarrow> view (snd (mark q sid p)) r =
      (if r = q then v_mark sid (view p r) else view p r)"
    and release_view: "inv p \<Longrightarrow> view (snd (release q sid p)) r =
      (if r = q then v_release sid (view p r) else view p r)"
    and touch_view: "inv p \<Longrightarrow> view (touch now q sid p) r =
      (if r = q then v_touch now sid (view p r) else view p r)"
    and mark_ok: "inv p \<Longrightarrow> fst (mark q sid p) = None \<longleftrightarrow>
      (\<exists>a. view p q = VReserved a \<and> alloc_SessionID a = sid)"
    and release_ok: "inv p \<Longrightarrow> fst (release q sid p) = None \<longleftrightarrow> v_release sid (view p q) = VIdle"
    and mark_inv: "inv p \<Longrightarrow> inv (snd (mark q sid p))"
    and release_inv: "inv p \<Longrightarrow> inv (snd (release q sid p))"
    and touch_inv: "inv p \<Longrightarrow> inv (touch now q sid p)"
begin

lemmas reg_views = allocation_view mark_view release_view touch_view
lemmas reg_invs = mark_inv release_inv touch_inv

text \<open>The life of a session on its port: occupy, then release, touching no other port.\<close>

lemma reg_lifecycle:
  assumes "inv p" and "view p q = VReserved a"
  defines "p1 \<equiv> snd (mark q (alloc_SessionID a) p)"
  shows "fst (mark q (alloc_SessionID a) p) = None"
    and "allocation p1 q = Some a"
    and "fst (release q (alloc_SessionID a) p1) = None"
    and "view (snd (release q (alloc_SessionID a) p1)) r = (if r = q then VIdle else view p r)"
  using assms by (simp_all add: mark_ok reg_views reg_invs release_ok)

text \<open>A session cannot mark, release or touch the port of another one.\<close>

lemma reg_foreign:
  assumes "inv p" and "allocation p q = Some a" and "sid \<noteq> []" and "sid \<noteq> alloc_SessionID a"
  shows "view (snd (mark q sid p)) r = view p r"
    and "view (snd (release q sid p)) r = view p r"
    and "view (touch now q sid p) r = view p r"
    and "fst (mark q sid p) \<noteq> None" and "fst (release q sid p) \<noteq> None"
  using assms by (cases "view p q"; auto simp: reg_views mark_ok release_ok)+

text \<open>Touching keeps who holds the port.\<close>

lemma reg_touch_session:
  assumes "inv p"
  shows "map_option alloc_SessionID (allocation (touch now q sid p) r) =
    map_option alloc_SessionID (allocation p r)"
  using assms by (cases "view p r") (auto simp: reg_views reg_invs)

end

lemma MarkOccupied_ok:
  assumes "pool_inv p"
  shows "fst (MarkOccupied q sid p) = None \<longleftrightarrow>
    (\<exists>a. view_port p q = VReserved a \<and> alloc_SessionID a = sid)"
  by (cases rule: view_port_cases [OF assms, of q]) (auto simp: MarkOccupied_def session_at_def)

lemma Release_ok:
  assumes "pool_inv p"
  shows "fst (Release q sid p) = None \<longleftrightarrow> v_release sid (view_port p q) = VIdle"
  by (cases rule: view_port_cases [OF assms, of q]) (auto simp: Release_def session_at_def)

interpretation pool_reg:
  port_registry view_port pool_inv Pool_Allocation MarkOccupied Release TouchReservation
proof
  fix p q assume "pool_inv p"
  then show "Pool_Allocation p q = v_alloc (view_port p q)"
    by (cases rule: view_port_cases [of p q]) (simp_all add: Pool_Allocation_def)
qed (simp_all add: view_MarkOccupied view_Release view_TouchReservation MarkOccupied_ok Release_ok
       inv_intros)

subsection \<open>Expiry\<close>

definition expired_alloc :: "duration \<Rightarrow> time \<Rightarrow> port_view \<Rightarrow> Allocation list" where
  "expired_alloc maxAge now v =
     (case v of
        VReserved a \<Rightarrow> if alloc_SessionID a \<noteq> '''' \<and> now - alloc_ReservedAt a > maxAge then [a] else []
      | _ \<Rightarrow> [])"

lemma expire_port_spec:
  assumes "pool_inv p"
  shows "view_port (snd (expire_port maxAge now q (rel, p))) r =
      (if r = q then v_expire maxAge now (view_port p r) else view_port p r)"
    and "fst (expire_port maxAge now q (rel, p)) = rel @ expired_alloc maxAge now (view_port p q)"
  by (cases rule: view_port_cases [OF assms, of q];
      simp add: expire_port_def Let_def session_at_def view_free_port v_expire_def expired_alloc_def)+

lemma expire_fold_both:
  assumes "pool_inv p" and "distinct order"
  shows "(\<forall>r. view_port (snd (fold (expire_port maxAge now) order (rel, p))) r =
      (if r \<in> set order then v_expire maxAge now (view_port p r) else view_port p r)) \<and>
    fst (fold (expire_port maxAge now) order (rel, p)) =
      rel @ concat (map (\<lambda>q. expired_alloc maxAge now (view_port p q)) order)"
  using assms
proof (induction order arbitrary: rel p)
  case Nil
  show ?case by simp
next
  case (Cons q order)
  obtain rel' p' where eq: "expire_port maxAge now q (rel, p) = (rel', p')" by fastforce
  have inv: "pool_inv p'"
    using pool_inv_expire_port [of "(rel, p)" maxAge now q] eq Cons.prems(1) by simp
  have view: "view_port p' r = (if r = q then v_expire maxAge now (view_port p r) else view_port p r)" for r
    using expire_port_spec(1) [OF Cons.prems(1), of maxAge now q rel r] unfolding eq by simp
  have rel': "rel' = rel @ expired_alloc maxAge now (view_port p q)"
    using expire_port_spec(2) [OF Cons.prems(1), of maxAge now q rel] unfolding eq by simp
  have "map (\<lambda>r. expired_alloc maxAge now (view_port p' r)) order =
      map (\<lambda>r. expired_alloc maxAge now (view_port p r)) order"
    using Cons.prems(2) by (auto simp: view)
  then have fst_eq: "fst (fold (expire_port maxAge now) order (rel', p')) =
      rel' @ concat (map (\<lambda>r. expired_alloc maxAge now (view_port p r)) order)"
    using Cons.IH [OF inv, of rel'] Cons.prems(2) by (simp del: map_eq_conv)
  moreover have "view_port (snd (fold (expire_port maxAge now) order (rel', p'))) r =
      (if r \<in> set (q # order) then v_expire maxAge now (view_port p r) else view_port p r)" for r
    using Cons.IH [OF inv, of rel'] Cons.prems(2) by (auto simp: view)
  ultimately show ?case by (simp add: eq rel')
qed

lemma expire_fold_spec:
  assumes "pool_inv p" and "distinct order"
  shows "view_port (snd (fold (expire_port maxAge now) order (rel, p))) r =
      (if r \<in> set order then v_expire maxAge now (view_port p r) else view_port p r)"
    and "fst (fold (expire_port maxAge now) order (rel, p)) =
      rel @ concat (map (\<lambda>q. expired_alloc maxAge now (view_port p q)) order)"
  using expire_fold_both [OF assms, of maxAge now rel] by auto

lemma expire_port_frame:
  "pool_kind (snd (expire_port maxAge now q acc)) = pool_kind (snd acc)"
  "pool_ports (snd (expire_port maxAge now q acc)) = pool_ports (snd acc)"
  by (cases acc; simp add: expire_port_def free_port_def Let_def split: option.splits)+

lemma expire_fold_frame:
  "pool_kind (snd (fold (expire_port maxAge now) order acc)) = pool_kind (snd acc)"
  "pool_ports (snd (fold (expire_port maxAge now) order acc)) = pool_ports (snd acc)"
  by (induction order arbitrary: acc) (simp_all add: expire_port_frame)

lemma pool_eqI:
  assumes "pool_inv p" "pool_inv p'" "pool_kind p = pool_kind p'" "pool_ports p = pool_ports p'"
    and "\<And>q. view_port p q = view_port p' q"
  shows "p = p'"
proof -
  have "pool_state p q = pool_state p' q \<and> pool_alloc p q = pool_alloc p' q" for q
    using assms(5) [of q]
    by (cases rule: view_port_cases [OF assms(1), of q];
        cases rule: view_port_cases [OF assms(2), of q]) auto
  with assms(3,4) show ?thesis by (cases p; cases p') (auto simp: fun_eq_iff)
qed

lemma view_unknown: "pool_inv p \<Longrightarrow> q \<notin> dom (pool_state p) \<Longrightarrow> view_port p q = VUnknown"
  by (cases "pool_state p q") (auto simp: view_port_def)

lemma view_held_dom:
  "pool_inv p \<Longrightarrow> view_port p q \<noteq> VUnknown \<Longrightarrow> q \<in> dom (pool_state p)"
  using view_unknown by blast

lemma ReleaseExpired_view:
  assumes "pool_inv p" and "iterates (pool_state p) order"
  shows "view_port (snd (ReleaseExpiredReservations order maxAge now p)) q =
    v_expire maxAge now (view_port p q)"
proof (cases "q \<in> set order")
  case True
  with assms show ?thesis
    by (simp add: ReleaseExpiredReservations_def expire_fold_spec(1) iteratesD)
next
  case False
  with assms have "view_port p q = VUnknown" by (simp add: view_unknown iteratesD)
  with False assms show ?thesis
    by (simp add: ReleaseExpiredReservations_def expire_fold_spec(1) iteratesD v_expire_def)
qed

lemma ReleaseExpired_exact_parts:
  assumes "pool_inv p" and "iterates (pool_state p) order" and "iterates (pool_state p) order'"
  shows "snd (ReleaseExpiredReservations order maxAge now p) =
      snd (ReleaseExpiredReservations order' maxAge now p)"
    and "view_port (snd (ReleaseExpiredReservations order maxAge now p)) q =
      (if v_expired maxAge now (view_port p q) then VIdle else view_port p q)"
    and "distinct (fst (ReleaseExpiredReservations order maxAge now p))"
    and "set (fst (ReleaseExpiredReservations order maxAge now p)) =
      {a. \<exists>q. view_port p q = VReserved a \<and> alloc_SessionID a \<noteq> '''' \<and> now - alloc_ReservedAt a > maxAge}"
proof -
  show "snd (ReleaseExpiredReservations order maxAge now p) =
      snd (ReleaseExpiredReservations order' maxAge now p)"
    by (rule pool_eqI)
       (simp_all add: inv_intros assms ReleaseExpired_view,
        simp_all add: ReleaseExpiredReservations_def expire_fold_frame)
  show "view_port (snd (ReleaseExpiredReservations order maxAge now p)) q =
      (if v_expired maxAge now (view_port p q) then VIdle else view_port p q)"
    using ReleaseExpired_view [OF assms(1,2)] by (simp add: v_expire_def)
  let ?f = "\<lambda>q. expired_alloc maxAge now (view_port p q)"
  have fst: "fst (ReleaseExpiredReservations order maxAge now p) = concat (map ?f order)"
    using expire_fold_spec(2) [OF assms(1) iteratesD(1) [OF assms(2)]]
    by (simp add: ReleaseExpiredReservations_def)
  have at: "a \<in> set (?f q) \<Longrightarrow> alloc_Port a = q" for a q
    using assms(1) by (cases rule: view_port_cases [OF assms(1), of q])
      (auto simp: expired_alloc_def dest: pool_invD(4) split: if_splits)
  have "distinct (?f q)" for q by (simp add: expired_alloc_def split: port_view.splits)
  with at have "distinct xs \<Longrightarrow> distinct (concat (map ?f xs))" for xs
    by (induction xs) (auto, metis)
  then show "distinct (fst (ReleaseExpiredReservations order maxAge now p))"
    using fst iteratesD(1) [OF assms(2)] by simp
  have "a \<in> set (?f q) \<longleftrightarrow> view_port p q = VReserved a \<and> alloc_SessionID a \<noteq> [] \<and>
      now - alloc_ReservedAt a > maxAge" for a q
    by (auto simp: expired_alloc_def split: port_view.splits)
  then show "set (fst (ReleaseExpiredReservations order maxAge now p)) =
      {a. \<exists>q. view_port p q = VReserved a \<and> alloc_SessionID a \<noteq> '''' \<and> now - alloc_ReservedAt a > maxAge}"
    using view_held_dom [OF assms(1)] iteratesD(2) [OF assms(2)]
    by (simp add: fst set_eq_iff) (metis port_view.distinct(3))
qed

text \<open>
  Expiry is exact and independent of the order in which Go ranges over the state map: for any
  two orders the pools are equal, a port is freed exactly when it is reserved and its reservation is
  older than the limit (or is bound to no session), everything else keeps its state, and the
  allocations reported are those of the expired sessions, each once.
\<close>

theorem ReleaseExpired_exact:
  assumes "pool_inv p" and "iterates (pool_state p) order" and "iterates (pool_state p) order'"
  shows "let (released, p') = ReleaseExpiredReservations order maxAge now p
    in p' = snd (ReleaseExpiredReservations order' maxAge now p) \<and>
       (\<forall>q. view_port p' q = (if v_expired maxAge now (view_port p q) then VIdle else view_port p q)) \<and>
       distinct released \<and>
       set released = {a. \<exists>q. view_port p q = VReserved a \<and> alloc_SessionID a \<noteq> '''' \<and>
         now - alloc_ReservedAt a > maxAge}"
  using ReleaseExpired_exact_parts [OF assms, of maxAge now] by (simp add: case_prod_beta)

text \<open>A concrete pool of three ports, one reserved at time 5 for the session \<open>s\<close>.\<close>

definition ex_pool :: Pool where
  "ex_pool = snd (Reserve 5 ''s'' ''v'' ''c'' (fold add_port [7..9] (empty_pool KindZMQ)))"

lemma ex_pool_inv: "pool_inv ex_pool"
  unfolding ex_pool_def
  by (rule pool_inv_Reserve, rule pool_inv_NewPool [of KindZMQ 7 9]) (simp add: NewPool_def)

lemma iterates_ex_pool: "iterates (pool_state ex_pool) [7, 8, 9]" "iterates (pool_state ex_pool) [9, 8, 7]"
  using pool_invD(2) [OF ex_pool_inv]
  by (auto simp: iterates_def ex_pool_def Reserve_def add_port_def empty_pool_def upto.simps Let_def)

lemma ReleaseExpired_exact_witness:
  "snd (ReleaseExpiredReservations [7, 8, 9] 10 16 ex_pool) =
    snd (ReleaseExpiredReservations [9, 8, 7] 10 16 ex_pool) \<and>
   view_port (snd (ReleaseExpiredReservations [7, 8, 9] 10 16 ex_pool)) 7 = VIdle"
proof -
  have "v_expired 10 16 (view_port ex_pool 7)"
    by (simp add: ex_pool_def Reserve_def add_port_def empty_pool_def upto.simps view_port_def Let_def)
  moreover note E = ReleaseExpired_exact [OF ex_pool_inv iterates_ex_pool, of 10 16,
      unfolded case_prod_beta Let_def]
  ultimately show ?thesis
    using E [THEN conjunct2, THEN conjunct1, THEN spec, of 7] by (intro conjI E [THEN conjunct1]) simp
qed

subsection \<open>Reserving\<close>

lemma idle_view: "view_port p q = VIdle \<longleftrightarrow> pool_state p q = Some PortIdle"
  by (simp add: view_port_def split: option.split PortStatus.split)

lemma view_reserved:
  "view_port (p\<lparr>pool_state := (pool_state p)(q \<mapsto> PortReserved),
      pool_alloc := (pool_alloc p)(q \<mapsto> a)\<rparr>) r = (if r = q then VReserved a else view_port p r)"
  by (simp add: view_port_def split: option.split PortStatus.split)

lemma find_sorted_least:
  assumes "sorted_wrt (<) xs" and "find P xs = Some (q :: int)" and "r \<in> set xs" and "P r"
  shows "q \<le> r"
  using assms by (induction xs) (auto split: if_splits)

text \<open>
  C40. \<open>Reserve\<close> hands out the lowest idle port and only that: it fails, with the code 504 and an
  unchanged pool, exactly when no port is idle; otherwise the allocation carries the caller's ids
  and the time, its port was idle and no smaller port was, that port becomes reserved for it and
  every other port keeps its state.
\<close>

theorem Reserve_lowest_idle:
  assumes "pool_inv p"
  shows "case Reserve now sid srv cli p of
      (Inl e, p') \<Rightarrow> p' = p \<and> errors_Code (Some e) = 504 \<and> (\<forall>q. view_port p q \<noteq> VIdle)
    | (Inr a, p') \<Rightarrow>
        view_port p (alloc_Port a) = VIdle \<and> (\<forall>q. view_port p q = VIdle \<longrightarrow> alloc_Port a \<le> q) \<and>
        alloc_SessionID a = sid \<and> alloc_ServerID a = srv \<and> alloc_ClientID a = cli \<and>
        alloc_ReservedAt a = now \<and> alloc_Kind a = Pool_Kind p \<and>
        (\<forall>q. view_port p' q = (if q = alloc_Port a then VReserved a else view_port p q))"
proof (cases "find (\<lambda>port. pool_state p port = Some PortIdle) (pool_ports p)")
  case None
  then have "view_port p q \<noteq> VIdle" for q
    using pool_inv_known [OF assms] by (auto simp: find_None_iff idle_view)
  with None show ?thesis
    by (simp add: Reserve_def CodeUnavailable_def)
next
  case (Some q)
  have "q \<le> r" if "pool_state p r = Some PortIdle" for r
    using find_sorted_least [OF pool_invD(1) [OF assms] Some, of r] that
      pool_inv_known [OF assms that] by simp
  with Some find_idle [OF Some] show ?thesis
    by (auto simp: Reserve_def Let_def idle_view Pool_Kind_def view_reserved)
qed

lemma Reserve_lowest_idle_witness:
  "case Reserve 6 ''t'' ''v'' ''c'' ex_pool of
      (Inl e, p') \<Rightarrow> False
    | (Inr a, p') \<Rightarrow> alloc_Port a = 8 \<and> view_port p' 8 = VReserved a"
proof -
  have st: "pool_state ex_pool 8 = Some PortIdle" "pool_state ex_pool 7 = Some PortReserved"
    "pool_ports ex_pool = [7, 8, 9]"
    by (simp_all add: ex_pool_def Reserve_def add_port_def empty_pool_def upto.simps Let_def)
  then obtain a p' where r: "Reserve 6 ''t'' ''v'' ''c'' ex_pool = (Inr a, p')" and "alloc_Port a = 8"
    by (simp add: Reserve_def Let_def)
  with Reserve_lowest_idle [OF ex_pool_inv, where now = 6 and sid = "''t''" and srv = "''v''" and cli = "''c''"] show ?thesis by simp
qed

subsection \<open>Snapshots\<close>

lemma view_state:
  "(\<exists>a. view_port p q = VReserved a) \<longleftrightarrow> pool_state p q = Some PortReserved"
  "(\<exists>a. view_port p q = VOccupied a) \<longleftrightarrow> pool_state p q = Some PortOccupied"
  "view_port p q = VBlocked \<longleftrightarrow> pool_state p q = Some PortBlocked"
  by (simp_all add: view_port_def split: option.split PortStatus.split)

definition in_state :: "Pool \<Rightarrow> PortStatus \<Rightarrow> port list" where
  "in_state p s = filter (\<lambda>q. pool_state p q = Some s) (pool_ports p)"

lemma snap_port_simps:
  "pool_state p q = None \<Longrightarrow> snap_port p q s = s"
  "pool_state p q = Some PortIdle \<Longrightarrow> snap_port p q s =
     s\<lparr>snap_Idle := snap_Idle s + 1, snap_IdlePorts := snap_IdlePorts s @ [q]\<rparr>"
  "pool_state p q = Some PortReserved \<Longrightarrow> snap_port p q s =
     s\<lparr>snap_Reserved := snap_Reserved s + 1, snap_ReservedPorts := snap_ReservedPorts s @ [q]\<rparr>"
  "pool_state p q = Some PortOccupied \<Longrightarrow> snap_port p q s =
     s\<lparr>snap_Occupied := snap_Occupied s + 1, snap_OccupiedPorts := snap_OccupiedPorts s @ [q]\<rparr>"
  "pool_state p q = Some PortBlocked \<Longrightarrow> snap_port p q s =
     s\<lparr>snap_Blocked := snap_Blocked s + 1, snap_BlockedPorts := snap_BlockedPorts s @ [q]\<rparr>"
  by (simp_all add: snap_port_def)

lemma fold_snap_port:
  "fold (snap_port p) xs s =
     s\<lparr>snap_Idle := snap_Idle s + length (filter (\<lambda>q. pool_state p q = Some PortIdle) xs),
       snap_Reserved := snap_Reserved s + length (filter (\<lambda>q. pool_state p q = Some PortReserved) xs),
       snap_Occupied := snap_Occupied s + length (filter (\<lambda>q. pool_state p q = Some PortOccupied) xs),
       snap_Blocked := snap_Blocked s + length (filter (\<lambda>q. pool_state p q = Some PortBlocked) xs),
       snap_IdlePorts := snap_IdlePorts s @ filter (\<lambda>q. pool_state p q = Some PortIdle) xs,
       snap_ReservedPorts := snap_ReservedPorts s @ filter (\<lambda>q. pool_state p q = Some PortReserved) xs,
       snap_OccupiedPorts := snap_OccupiedPorts s @ filter (\<lambda>q. pool_state p q = Some PortOccupied) xs,
       snap_BlockedPorts := snap_BlockedPorts s @ filter (\<lambda>q. pool_state p q = Some PortBlocked) xs\<rparr>"
proof (induction xs arbitrary: s)
  case (Cons q xs)
  show ?case
  proof (cases "pool_state p q")
    case (Some st)
    then show ?thesis by (cases st) (simp_all add: Cons.IH snap_port_simps)
  qed (simp add: Cons.IH snap_port_simps)
qed simp

lemma Pool_Snapshot_filter:
  assumes "pool_inv p"
  shows "Pool_Snapshot p =
    \<lparr>snap_Kind = pool_kind p, snap_Total = length (pool_ports p),
     snap_Idle = length (in_state p PortIdle), snap_Reserved = length (in_state p PortReserved),
     snap_Occupied = length (in_state p PortOccupied), snap_Blocked = length (in_state p PortBlocked),
     snap_IdlePorts = in_state p PortIdle, snap_ReservedPorts = in_state p PortReserved,
     snap_OccupiedPorts = in_state p PortOccupied, snap_BlockedPorts = in_state p PortBlocked\<rparr>"
proof -
  have "sort (in_state p s) = in_state p s" for s
    unfolding in_state_def using pool_inv_sorted [OF assms]
    by (intro sorted_sort_id sorted_filter [where f = id, simplified]) simp
  then show ?thesis
    by (simp add: Pool_Snapshot_def fold_snap_port empty_snapshot_def in_state_def Let_def)
qed

lemma partition_lengths:
  assumes "\<And>q. q \<in> set xs \<Longrightarrow> st q \<noteq> None"
  shows "length xs = length (filter (\<lambda>q. st q = Some PortIdle) xs) +
    length (filter (\<lambda>q. st q = Some PortReserved) xs) +
    length (filter (\<lambda>q. st q = Some PortOccupied) xs) +
    length (filter (\<lambda>q. st q = Some PortBlocked) xs)"
  using assms
proof (induction xs)
  case (Cons q xs)
  then obtain s where "st q = Some s" by fastforce
  with Cons show ?case by (cases s) auto
qed simp

lemma Pool_Snapshot_exact_parts:
  assumes "pool_inv p"
  defines "s \<equiv> Pool_Snapshot p"
  shows "snap_Total s = snap_Idle s + snap_Reserved s + snap_Occupied s + snap_Blocked s"
    and "sorted (snap_IdlePorts s)" "sorted (snap_ReservedPorts s)"
        "sorted (snap_OccupiedPorts s)" "sorted (snap_BlockedPorts s)"
    and "snap_Idle s = card {q. view_port p q = VIdle}"
    and "set (snap_IdlePorts s) = {q. view_port p q = VIdle}"
    and "snap_Reserved s = card (set (snap_ReservedPorts s))"
        "set (snap_ReservedPorts s) = {q. \<exists>a. view_port p q = VReserved a}"
    and "snap_Occupied s = card (set (snap_OccupiedPorts s))"
        "set (snap_OccupiedPorts s) = {q. \<exists>a. view_port p q = VOccupied a}"
    and "snap_Blocked s = card (set (snap_BlockedPorts s))"
        "set (snap_BlockedPorts s) = {q. view_port p q = VBlocked}"
proof -
  note s = Pool_Snapshot_filter [OF assms(1), folded s_def]
  have "snap_Total s = length (pool_ports p)" by (simp add: s)
  also have "\<dots> = snap_Idle s + snap_Reserved s + snap_Occupied s + snap_Blocked s"
    unfolding s in_state_def
    by (simp, rule partition_lengths) (use pool_invD(2) [OF assms(1)] in blast)
  finally show "snap_Total s = snap_Idle s + snap_Reserved s + snap_Occupied s + snap_Blocked s" .
  have srt: "sorted (in_state p t)" for t
    unfolding in_state_def using pool_inv_sorted [OF assms(1)]
    by (intro sorted_filter [where f = id, simplified]) simp
  then show "sorted (snap_IdlePorts s)" "sorted (snap_ReservedPorts s)"
        "sorted (snap_OccupiedPorts s)" "sorted (snap_BlockedPorts s)" by (simp_all add: s)
  have dist: "length (in_state p t) = card (set (in_state p t))" for t
    using pool_inv_distinct [OF assms(1)] by (metis distinct_card distinct_filter in_state_def)
  have mem: "q \<in> set (in_state p t) \<longleftrightarrow> pool_state p q = Some t" for q t
    using pool_inv_known [OF assms(1)] by (auto simp: in_state_def)
  show idle: "set (snap_IdlePorts s) = {q. view_port p q = VIdle}"
    by (simp add: s set_eq_iff mem idle_view)
  show "set (snap_ReservedPorts s) = {q. \<exists>a. view_port p q = VReserved a}"
    "set (snap_OccupiedPorts s) = {q. \<exists>a. view_port p q = VOccupied a}"
    "set (snap_BlockedPorts s) = {q. view_port p q = VBlocked}"
    by (simp_all add: s set_eq_iff mem view_state)
  show "snap_Idle s = card {q. view_port p q = VIdle}"
    unfolding idle [symmetric] by (simp add: s dist)
  show "snap_Reserved s = card (set (snap_ReservedPorts s))"
    "snap_Occupied s = card (set (snap_OccupiedPorts s))"
    "snap_Blocked s = card (set (snap_BlockedPorts s))"
    by (simp_all add: s dist)
qed

text \<open>
  A snapshot is exact: the four counts add up to the total, each list holds, in increasing order
  and without repetition, exactly the ports in that state and the count is its length, so the lists
  partition the pool's ports.
\<close>

theorem Pool_Snapshot_exact:
  assumes "pool_inv p"
  shows "let s = Pool_Snapshot p
    in snap_Total s = snap_Idle s + snap_Reserved s + snap_Occupied s + snap_Blocked s \<and>
       sorted (snap_IdlePorts s) \<and> sorted (snap_ReservedPorts s) \<and>
       sorted (snap_OccupiedPorts s) \<and> sorted (snap_BlockedPorts s) \<and>
       snap_Idle s = card (set (snap_IdlePorts s)) \<and>
       snap_Reserved s = card (set (snap_ReservedPorts s)) \<and>
       snap_Occupied s = card (set (snap_OccupiedPorts s)) \<and>
       snap_Blocked s = card (set (snap_BlockedPorts s)) \<and>
       set (snap_IdlePorts s) = {q. view_port p q = VIdle} \<and>
       set (snap_ReservedPorts s) = {q. \<exists>a. view_port p q = VReserved a} \<and>
       set (snap_OccupiedPorts s) = {q. \<exists>a. view_port p q = VOccupied a} \<and>
       set (snap_BlockedPorts s) = {q. view_port p q = VBlocked}"
  using Pool_Snapshot_exact_parts [OF assms] by (simp only: Let_def simp_thms)

lemma Pool_Snapshot_exact_witness:
  "snap_Total (Pool_Snapshot ex_pool) = 3 \<and>
   snap_Idle (Pool_Snapshot ex_pool) + snap_Reserved (Pool_Snapshot ex_pool) +
     snap_Occupied (Pool_Snapshot ex_pool) + snap_Blocked (Pool_Snapshot ex_pool) = 3"
proof -
  have "snap_Total (Pool_Snapshot ex_pool) = 3"
    by (simp add: Pool_Snapshot_filter [OF ex_pool_inv])
       (simp add: ex_pool_def Reserve_def add_port_def empty_pool_def upto.simps Let_def)
  with Pool_Snapshot_exact [OF ex_pool_inv] show ?thesis by (simp only: Let_def)
qed

subsection \<open>Runs of a pool\<close>

text \<open>
  Any client may call any operation at any time; a run is a list of calls. The order of an expiry
  sweep is part of the call.
\<close>

datatype pool_op =
    OpReserve time string string string
  | OpMark port string
  | OpRelease port string
  | OpBlock port string
  | OpTouch time port string
  | OpExpire "port list" duration time

fun pool_do :: "pool_op \<Rightarrow> Pool \<Rightarrow> Pool" where
  "pool_do (OpReserve now sid srv cli) p = snd (Reserve now sid srv cli p)"
| "pool_do (OpMark q sid) p = snd (MarkOccupied q sid p)"
| "pool_do (OpRelease q sid) p = snd (Release q sid p)"
| "pool_do (OpBlock q reason) p = snd (Block q reason p)"
| "pool_do (OpTouch now q sid) p = TouchReservation now q sid p"
| "pool_do (OpExpire order maxAge now) p = snd (ReleaseExpiredReservations order maxAge now p)"

lemma pool_inv_do [inv_intros]: "pool_inv p \<Longrightarrow> pool_inv (pool_do c p)"
  by (cases c) (simp_all add: inv_intros)

lemma pool_inv_run [inv_intros]: "pool_inv p \<Longrightarrow> pool_inv (fold pool_do cs p)"
  by (rule fold_preserves) (simp_all add: inv_intros)

text \<open>The edges of a port's life that the source allows.\<close>

inductive port_edge :: "port_view \<Rightarrow> port_view \<Rightarrow> bool" where
  stay: "port_edge v v"
| reserve: "port_edge VIdle (VReserved a)"
| touch: "port_edge (VReserved a) (VReserved (a\<lparr>alloc_ReservedAt := t\<rparr>))"
| occupy: "port_edge (VReserved a) (VOccupied a)"
| free: "v \<noteq> VUnknown \<Longrightarrow> port_edge v VIdle"
| block: "v \<noteq> VUnknown \<Longrightarrow> port_edge v VBlocked"

inductive_cases port_edge_to_occupied: "port_edge v (VOccupied a)"
inductive_cases port_edge_unknown: "port_edge VUnknown v"

lemma ReleaseExpired_view_any:
  assumes "pool_inv p"
  shows "view_port (snd (ReleaseExpiredReservations order maxAge now p)) q \<in>
    {view_port p q, v_expire maxAge now (view_port p q)}"
  unfolding ReleaseExpiredReservations_def
proof -
  have idem: "v_expire maxAge now (v_expire maxAge now v) = v_expire maxAge now v" for v
    by (cases v) (auto simp: v_expire_def)
  have "pool_inv (snd acc) \<Longrightarrow> view_port (snd (fold (expire_port maxAge now) order acc)) q \<in>
    {view_port (snd acc) q, v_expire maxAge now (view_port (snd acc) q)}" for acc
  proof (induction order arbitrary: acc)
    case (Cons r order)
    from Cons.IH [OF pool_inv_expire_port [OF Cons.prems, of maxAge now r]] Cons.prems
    show ?case using expire_port_spec(1) [of "snd acc" maxAge now r "fst acc" q] idem by auto
  qed simp
  from this [of "([], p)"] assms
  show "view_port (snd (fold (expire_port maxAge now) order ([], p))) q \<in>
    {view_port p q, v_expire maxAge now (view_port p q)}" by simp
qed

lemma view_Reserve:
  assumes "pool_inv p"
  shows "view_port (snd (Reserve now sid srv cli p)) q = view_port p q \<or>
    view_port p q = VIdle \<and> (\<exists>a. view_port (snd (Reserve now sid srv cli p)) q = VReserved a \<and>
      alloc_SessionID a = sid)"
proof (cases "find (\<lambda>port. pool_state p port = Some PortIdle) (pool_ports p)")
  case None then show ?thesis by (simp add: Reserve_def)
next
  case (Some r)
  with find_idle [OF Some] show ?thesis
    by (auto simp: Reserve_def Let_def view_reserved idle_view)
qed

text \<open>
  In any run of a pool, each call moves every port along an edge of the state machine: idle to
  reserved, reserved to occupied by the same allocation, any known port to idle or blocked, or no
  change but a fresh reservation time. In particular a port only becomes occupied from a reservation
  of the same session, and no port joins or leaves the pool.
\<close>

theorem pool_run_edges:
  assumes "pool_inv p"
  shows "port_edge (view_port (fold pool_do cs p) q) (view_port (pool_do c (fold pool_do cs p)) q)"
proof -
  let ?p = "fold pool_do cs p"
  have inv: "pool_inv ?p" using assms by (rule pool_inv_run)
  show ?thesis
  proof (cases c)
    case (OpReserve now sid srv cli)
    then show ?thesis
      using view_Reserve [OF inv, of now sid srv cli q] by (auto intro: port_edge.intros)
  next
    case (OpMark r sid)
    then show ?thesis
      by (cases "view_port ?p q") (auto simp: view_MarkOccupied inv intro: port_edge.intros)
  next
    case (OpRelease r sid)
    then show ?thesis
      by (cases "view_port ?p q") (auto simp: view_Release inv intro: port_edge.intros)
  next
    case (OpBlock r reason)
    then show ?thesis by (auto simp: view_Block intro: port_edge.intros)
  next
    case (OpTouch now r sid)
    then show ?thesis
      by (cases "view_port ?p q") (auto simp: view_TouchReservation inv intro: port_edge.intros)
  next
    case (OpExpire order maxAge now)
    then show ?thesis
      using ReleaseExpired_view_any [OF inv, of order maxAge now q]
      by (cases "view_port ?p q") (auto simp: v_expire_def intro: port_edge.intros)
  qed
qed

lemma pool_run_edges_witness:
  "port_edge (view_port (fold pool_do [OpMark 7 ''s''] ex_pool) 7)
     (view_port (pool_do (OpRelease 7 ''s'') (fold pool_do [OpMark 7 ''s''] ex_pool)) 7)"
  by (rule pool_run_edges [OF ex_pool_inv])

text \<open>A call that may end the session \<open>sid\<close> on the port \<open>q\<close>: its own release, an unconditional
  release (empty session id) or a block of the port.\<close>

fun may_end :: "port \<Rightarrow> string \<Rightarrow> pool_op \<Rightarrow> bool" where
  "may_end q sid (OpRelease r sid') \<longleftrightarrow> r = q \<and> (sid' = '''' \<or> sid' = sid)"
| "may_end q sid (OpBlock r reason) \<longleftrightarrow> r = q"
| "may_end q sid _ \<longleftrightarrow> False"

lemma occupied_step:
  assumes "pool_inv p" and "view_port p q = VOccupied a" and "\<not> may_end q (alloc_SessionID a) c"
  shows "view_port (pool_do c p) q = VOccupied a"
proof (cases c)
  case (OpReserve now sid srv cli)
  then show ?thesis using view_Reserve [OF assms(1), of now sid srv cli q] assms(2) by auto
next
  case (OpExpire order maxAge now)
  then show ?thesis
    using ReleaseExpired_view_any [OF assms(1), of order maxAge now q] assms(2)
    by (auto simp: v_expire_def)
qed (use assms in \<open>auto simp: view_MarkOccupied view_Release view_Block view_TouchReservation\<close>)

text \<open>
  C39. An occupied port is safe from everyone else: through any run of calls of other sessions
  (reservations, marks, touches, expiry sweeps with any age, releases by another session id), the
  port stays occupied with the same allocation.
\<close>

theorem occupied_port_stays:
  assumes "pool_inv p" and "view_port p q = VOccupied a"
    and "\<And>c. c \<in> set cs \<Longrightarrow> \<not> may_end q (alloc_SessionID a) c"
  shows "view_port (fold pool_do cs p) q = VOccupied a"
  using assms by (induction cs arbitrary: p) (simp_all add: occupied_step pool_inv_do)

lemma occupied_port_stays_witness:
  "\<exists>a. view_port (fold pool_do [OpRelease 7 ''t'', OpExpire [7, 8, 9] 0 99]
      (snd (MarkOccupied 7 ''s'' ex_pool))) 7 = VOccupied a"
proof -
  obtain a where a: "view_port ex_pool 7 = VReserved a" "alloc_SessionID a = ''s''"
    by (simp add: ex_pool_def Reserve_def add_port_def empty_pool_def upto.simps view_port_def Let_def)
  have "view_port (snd (MarkOccupied 7 ''s'' ex_pool)) 7 = VOccupied a"
    by (simp add: view_MarkOccupied ex_pool_inv a)
  from occupied_port_stays [OF pool_inv_MarkOccupied [OF ex_pool_inv] this, unfolded a(2),
      where cs = "[OpRelease 7 ''t'', OpExpire [7, 8, 9] 0 99]"]
  show ?thesis by fastforce
qed

lemma session_lifecycle_parts:
  assumes "pool_inv p" and "Reserve now sid srv cli p = (Inr a, p1)"
  shows "fst (MarkOccupied (alloc_Port a) sid p1) = None"
    and "Pool_Allocation (snd (MarkOccupied (alloc_Port a) sid p1)) (alloc_Port a) = Some a"
    and "fst (Release (alloc_Port a) sid (snd (MarkOccupied (alloc_Port a) sid p1))) = None"
    and "view_port (snd (Release (alloc_Port a) sid (snd (MarkOccupied (alloc_Port a) sid p1)))) q =
      view_port p q"
proof -
  have p1: "p1 = snd (Reserve now sid srv cli p)" using assms(2) by simp
  then have inv: "pool_inv p1" using assms(1) by (simp add: pool_inv_Reserve)
  obtain r where r: "find (\<lambda>port. pool_state p port = Some PortIdle) (pool_ports p) = Some r"
    using assms(2) by (auto simp: Reserve_def split: option.splits)
  from assms(2) find_idle [OF r] have a: "alloc_Port a = r" "alloc_SessionID a = sid"
      "view_port p r = VIdle" and v: "view_port p1 q = (if q = r then VReserved a else view_port p q)" for q
    by (auto simp: Reserve_def r Let_def view_reserved idle_view)
  note life = pool_reg.reg_lifecycle [OF inv, of r a, unfolded a(2)]
  show "fst (MarkOccupied (alloc_Port a) sid p1) = None"
    "Pool_Allocation (snd (MarkOccupied (alloc_Port a) sid p1)) (alloc_Port a) = Some a"
    "fst (Release (alloc_Port a) sid (snd (MarkOccupied (alloc_Port a) sid p1))) = None"
    "view_port (snd (Release (alloc_Port a) sid (snd (MarkOccupied (alloc_Port a) sid p1)))) q =
      view_port p q"
    using life v a by simp_all
qed

text \<open>
  The life of a session on its port, from the reservation to the release: the session that
  reserved it can occupy it, finds its own allocation there, can release it, and afterwards every
  port is as it was before the reservation.
\<close>

theorem session_lifecycle:
  assumes "pool_inv p" and "Reserve now sid srv cli p = (Inr a, p1)"
  shows "(let (merr, p2) = MarkOccupied (alloc_Port a) sid p1;
              (rerr, p3) = Release (alloc_Port a) sid p2
          in merr = None \<and> Pool_Allocation p2 (alloc_Port a) = Some a \<and>
             rerr = None \<and> (\<forall>q. view_port p3 q = view_port p q))"
  using session_lifecycle_parts [OF assms] by (simp add: case_prod_beta Let_def)

lemma session_lifecycle_witness:
  "\<exists>a p1. Reserve 5 ''s'' ''v'' ''c'' (fold add_port [7..9] (empty_pool KindZMQ)) = (Inr a, p1) \<and>
    fst (MarkOccupied (alloc_Port a) ''s'' p1) = None"
proof -
  let ?p = "fold add_port [7..9] (empty_pool KindZMQ)"
  have inv: "pool_inv ?p" by (rule pool_inv_NewPool [of KindZMQ 7 9]) (simp add: NewPool_def)
  have "\<not> isl (fst (Reserve 5 ''s'' ''v'' ''c'' ?p))"
    by (simp add: Reserve_def add_port_def empty_pool_def upto.simps Let_def)
  then obtain a p1 where "Reserve 5 ''s'' ''v'' ''c'' ?p = (Inr a, p1)"
    by (cases "Reserve 5 ''s'' ''v'' ''c'' ?p"; cases "fst (Reserve 5 ''s'' ''v'' ''c'' ?p)") auto
  from this session_lifecycle [OF inv this] show ?thesis by (auto simp: Let_def case_prod_beta)
qed

end
