(* ===== verification/Config.thy ===== *)
theory Config
  imports Pool
begin

section \<open>Configuration of the gateway (v4/config)\<close>

text \<open>
  The configuration records, the parser of port ranges, the validation and \<open>Load\<close>. The YAML
  decoder is a third-party package: it is the parameter \<open>unmarshal\<close> of \<open>Load\<close>, a function from
  the bytes of the file and the configuration decoded into (the defaults) to an error or the new
  configuration. The file read is an argument too. Durations are nanoseconds; their \<open>%s\<close> format
  in error texts is \<open>Duration_String\<close>.
\<close>

subsection \<open>Data\<close>

record GatewayConfig =
  gw_TCPPort :: int
  gw_MaxConnections :: int
  gw_AuthTimeout :: duration
  gw_ShutdownTimeout :: duration

record ZeroMQConfig =
  zmq_PortRange :: string
  zmq_SNDHWM :: int
  zmq_RCVHWM :: int
  zmq_SNDBUF :: int
  zmq_RCVBUF :: int
  zmq_Linger :: int
  zmq_ReconnectIVL :: int

record GoSRTConfig =
  srt_PortRange :: string
  srt_Latency :: int
  srt_MaxBW :: int
  srt_IPTTL :: int

record LoggingConfig =
  log_Level :: string
  log_Format :: string
  log_Output :: string
  log_FilePath :: string
  log_MaxSize :: int
  log_MaxAge :: int
  log_Compress :: bool

record Config =
  cfg_Gateway :: GatewayConfig
  cfg_ZeroMQ :: ZeroMQConfig
  cfg_GoSRT :: GoSRTConfig
  cfg_Logging :: LoggingConfig

record PortRange =
  range_Start :: port
  range_End :: port

subsection \<open>Durations as text\<close>

fun pad_zeros :: "nat \<Rightarrow> string \<Rightarrow> string" where
  "pad_zeros n s = replicate (n - length s) CHR ''0'' @ s"

definition frac_text :: "nat \<Rightarrow> nat \<Rightarrow> string" where
  "frac_text prec v =
     (let ds = rev (dropWhile (\<lambda>c. c = CHR ''0'') (rev (pad_zeros prec (show_nat (v mod 10 ^ prec)))))
      in if ds = [] then [] else CHR ''.'' # ds)"

definition abs_duration_text :: "nat \<Rightarrow> string" where
  "abs_duration_text u =
     (if u = 0 then ''0s''
      else if u < 1000 then show_nat u @ ''ns''
      else if u < 1000000 then show_nat (u div 1000) @ frac_text 3 u @ [CHR 0xC2, CHR 0xB5] @ ''s''
      else if u < 1000000000 then show_nat (u div 1000000) @ frac_text 6 u @ ''ms''
      else (let s = u div 1000000000; m = s div 60; h = m div 60
            in (if h > 0 then show_nat h @ ''h'' else []) @
               (if m > 0 then show_nat (m mod 60) @ ''m'' else []) @
               show_nat (s mod 60) @ frac_text 9 u @ ''s''))"

definition Duration_String :: "duration \<Rightarrow> string" where
  "Duration_String d = (if d < 0 then CHR ''-'' # abs_duration_text (nat (- d))
     else abs_duration_text (nat d))"

subsection \<open>Port ranges\<close>

definition ParsePortRange :: "string \<Rightarrow> go_error + PortRange" where
  "ParsePortRange s0 =
     (let s = trim_space s0; parts = split_on CHR ''-'' s in
      if length parts \<noteq> 2 then Inl (ErrText (''invalid port_range: '' @ quote_verb s))
      else (case atoi (trim_space (parts ! 0)) of
          None \<Rightarrow> Inl (ErrText (''invalid port_range start: '' @ quote_verb (parts ! 0)))
        | Some start \<Rightarrow>
            (case atoi (trim_space (parts ! 1)) of
               None \<Rightarrow> Inl (ErrText (''invalid port_range end: '' @ quote_verb (parts ! 1)))
             | Some fin \<Rightarrow>
                 if start \<le> 0 \<or> fin \<le> 0 \<or> fin < start \<or> fin > 65535
                 then Inl (ErrText (''invalid port_range values: '' @ show_int start @ ''-'' @ show_int fin))
                 else Inr \<lparr>range_Start = start, range_End = fin\<rparr>)))"

subsection \<open>Defaults, validation, loading\<close>

definition DefaultConfig :: Config where
  "DefaultConfig =
     \<lparr>cfg_Gateway = \<lparr>gw_TCPPort = 5555, gw_MaxConnections = 10000,
        gw_AuthTimeout = 30 * second, gw_ShutdownTimeout = 10 * second\<rparr>,
      cfg_ZeroMQ = \<lparr>zmq_PortRange = ''2300-2320'', zmq_SNDHWM = 10000, zmq_RCVHWM = 10000,
        zmq_SNDBUF = 2 * 1024 * 1024, zmq_RCVBUF = 2 * 1024 * 1024, zmq_Linger = 0,
        zmq_ReconnectIVL = 100\<rparr>,
      cfg_GoSRT = \<lparr>srt_PortRange = ''2350-2380'', srt_Latency = 120, srt_MaxBW = 0, srt_IPTTL = 64\<rparr>,
      cfg_Logging = \<lparr>log_Level = ''info'', log_Format = ''json'', log_Output = ''file'',
        log_FilePath = ''/var/log/gateway.log'', log_MaxSize = 100 * 1024 * 1024, log_MaxAge = 7,
        log_Compress = True\<rparr>\<rparr>"

text \<open>\<open>Validate\<close> takes the configuration by value: the defaults it fills in are seen only by its
  own last check.\<close>

definition Validate :: "Config \<Rightarrow> go_error option" where
  "Validate cfg =
     (let g = cfg_Gateway cfg in
      if gw_TCPPort g \<le> 0 \<or> gw_TCPPort g > 65535
      then Some (ErrText (''invalid gateway.tcp_port: '' @ show_int (gw_TCPPort g)))
      else if gw_MaxConnections g \<le> 0
      then Some (ErrText (''invalid gateway.max_connections: '' @ show_int (gw_MaxConnections g)))
      else if gw_AuthTimeout g \<le> 0
      then Some (ErrText (''invalid gateway.auth_timeout: '' @ Duration_String (gw_AuthTimeout g)))
      else if gw_ShutdownTimeout g \<le> 0
      then Some (ErrText (''invalid gateway.shutdown_timeout: '' @ Duration_String (gw_ShutdownTimeout g)))
      else (case ParsePortRange (zmq_PortRange (cfg_ZeroMQ cfg)) of
          Inl e \<Rightarrow> Some (ErrWrap ''invalid zeromq.port_range'' e)
        | Inr _ \<Rightarrow>
            (case ParsePortRange (srt_PortRange (cfg_GoSRT cfg)) of
               Inl e \<Rightarrow> Some (ErrWrap ''invalid gosrt.port_range'' e)
             | Inr _ \<Rightarrow>
                 (let l = cfg_Logging cfg;
                      l = (if log_Level l = '''' then l\<lparr>log_Level := ''info''\<rparr> else l);
                      l = (if log_Format l = '''' then l\<lparr>log_Format := ''json''\<rparr> else l);
                      l = (if log_Output l = '''' then l\<lparr>log_Output := ''file''\<rparr> else l)
                  in if log_Output l = ''file'' \<and> log_FilePath l = ''''
                     then Some (ErrText ''logging.file_path is required when output=file'')
                     else None))))"

definition Load ::
    "(string \<Rightarrow> Config \<Rightarrow> go_error + Config) \<Rightarrow> go_error + string \<Rightarrow> go_error + Config" where
  "Load unmarshal file =
     (let cfg = DefaultConfig in
      case file of
        Inl e \<Rightarrow> Inl (ErrWrap ''read config file'' e)
      | Inr raw \<Rightarrow>
          (case unmarshal raw cfg of
             Inl e \<Rightarrow> Inl (ErrWrap ''unmarshal yaml'' e)
           | Inr cfg \<Rightarrow>
               (case Validate cfg of
                  Some e \<Rightarrow> Inl e
                | None \<Rightarrow> Inr cfg)))"

subsection \<open>Port ranges: parse and print\<close>

lemma ParsePortRange_bounds:
  "ParsePortRange s = Inr r \<Longrightarrow>
     0 < range_Start r \<and> range_Start r \<le> range_End r \<and> range_End r \<le> 65535"
  by (auto simp: ParsePortRange_def Let_def split: if_splits option.splits)

lemma solid_show_nat: "solid (show_nat n)"
  by (simp add: solid_def show_nat_digits [of _ n])

lemma blank_no_dash: "blank w \<Longrightarrow> CHR ''-'' \<notin> set w"
  by (induction w) (auto simp: blank_def)

lemma show_nat_no_dash: "CHR ''-'' \<notin> set (show_nat n)"
  using show_nat_digits is_digit_not_special by blast

text \<open>
  A port range survives printing and parsing: for any range within 1..65535 the text
  \<open>start-end\<close>, with blanks and tabs anywhere around the two numbers, parses to that range.
\<close>

theorem ParsePortRange_roundtrip:
  assumes "0 < a" "a \<le> b" "b \<le> 65535"
    and "blank w1" "blank w2" "blank w3" "blank w4"
  shows "ParsePortRange (w1 @ show_int a @ w2 @ ''-'' @ w3 @ show_int b @ w4) =
    Inr \<lparr>range_Start = a, range_End = b\<rparr>"
proof -
  have sh: "show_int a = show_nat (nat a)" "show_int b = show_nat (nat b)"
    using assms by (simp_all add: show_int_def)
  let ?s = "show_nat (nat a) @ w2 @ ''-'' @ w3 @ show_nat (nat b)"
  have "solid ?s"
    using solid_show_nat [of "nat a"] solid_show_nat [of "nat b"] by (simp add: solid_def)
  then have trim: "trim_space (w1 @ ?s @ w4) = ?s" using assms by (intro trim_space_solid)
  have split: "split_on CHR ''-'' ?s = [show_nat (nat a) @ w2, w3 @ show_nat (nat b)]"
    using split_on_two [of "CHR ''-''" "show_nat (nat a) @ w2" "w3 @ show_nat (nat b)"] assms
    by (simp add: blank_no_dash show_nat_no_dash)
  have "trim_space (show_nat (nat a) @ w2) = show_nat (nat a)"
    "trim_space (w3 @ show_nat (nat b)) = show_nat (nat b)"
    using trim_space_solid [OF solid_show_nat, of "[]" w2 "nat a"]
      trim_space_solid [OF solid_show_nat, of w3 "[]" "nat b"] assms by (simp_all add: blank_def)
  moreover have "atoi (show_nat (nat a)) = Some a" "atoi (show_nat (nat b)) = Some b"
    using atoi_show_int [of a] atoi_show_int [of b] assms
    by (simp_all add: sh int64_min_def int64_max_def)
  ultimately show ?thesis
    using assms trim split by (simp add: ParsePortRange_def sh Let_def)
qed

lemma ParsePortRange_roundtrip_witness:
  "ParsePortRange ('' '' @ show_int 2300 @ '' '' @ ''-'' @ '' '' @ show_int 2320 @ []) =
    Inr \<lparr>range_Start = 2300, range_End = 2320\<rparr>"
  by (rule ParsePortRange_roundtrip) (simp_all add: blank_def)

subsection \<open>What a loaded configuration guarantees\<close>

lemma Validate_None:
  "Validate cfg = None \<longleftrightarrow>
     0 < gw_TCPPort (cfg_Gateway cfg) \<and> gw_TCPPort (cfg_Gateway cfg) \<le> 65535 \<and>
     0 < gw_MaxConnections (cfg_Gateway cfg) \<and> 0 < gw_AuthTimeout (cfg_Gateway cfg) \<and>
     0 < gw_ShutdownTimeout (cfg_Gateway cfg) \<and>
     \<not> isl (ParsePortRange (zmq_PortRange (cfg_ZeroMQ cfg))) \<and>
     \<not> isl (ParsePortRange (srt_PortRange (cfg_GoSRT cfg))) \<and>
     (log_Output (cfg_Logging cfg) = '''' \<or> log_Output (cfg_Logging cfg) = ''file'' \<longrightarrow>
       log_FilePath (cfg_Logging cfg) \<noteq> '''')"
  by (auto simp: Validate_def Let_def split: sum.splits)

text \<open>The pool of a validated range exists and holds exactly the ports of the range.\<close>

lemma NewPool_range:
  assumes "ParsePortRange s = Inr r"
  obtains p where "NewPool k (range_Start r) (range_End r) = Inr p" and "pool_inv p"
    and "set (pool_ports p) = {range_Start r..range_End r}"
    and "\<And>q. view_port p q = (if range_Start r \<le> q \<and> q \<le> range_End r then VIdle else VUnknown)"
proof -
  obtain p where p: "NewPool k (range_Start r) (range_End r) = Inr p"
    using ParsePortRange_bounds [OF assms] by (simp add: NewPool_def)
  note e = NewPool_Inr [OF p]
  show thesis
    by (rule that [OF p pool_inv_NewPool [OF p]]) (use e in \<open>auto simp: view_port_def\<close>)
qed

lemma ParsePortRange_defaults:
  "ParsePortRange ''2300-2320'' = Inr \<lparr>range_Start = 2300, range_End = 2320\<rparr>"
  "ParsePortRange ''2350-2380'' = Inr \<lparr>range_Start = 2350, range_End = 2380\<rparr>"
  by code_simp+

lemma Validate_DefaultConfig: "Validate DefaultConfig = None"
  by (simp add: Validate_None DefaultConfig_def ParsePortRange_defaults second_def)

text \<open>
  \<open>Load\<close> returns exactly what the decoder made of the defaults, when that is valid: a
  successful load has read and decoded the file, the result is valid, its ports and timeouts are in
  range, and nothing is filled in afterwards. So a file that sets \<open>logging.level\<close>, \<open>format\<close> or
  \<open>output\<close> to the empty text loads with that empty text, although the comments of \<open>Load\<close> and the
  body of \<open>Validate\<close> say the defaults are completed.
\<close>

theorem Load_returns_decoded:
  "(Load unmarshal file = Inr cfg) =
     (\<exists>raw. file = Inr raw \<and> unmarshal raw DefaultConfig = Inr cfg \<and> Validate cfg = None) \<and>
   Load (\<lambda>raw c. Inr (c\<lparr>cfg_Logging := (cfg_Logging c)\<lparr>log_Level := [], log_Output := []\<rparr>\<rparr>)) (Inr raw)
     = Inr (DefaultConfig\<lparr>cfg_Logging :=
         (cfg_Logging DefaultConfig)\<lparr>log_Level := [], log_Output := []\<rparr>\<rparr>)"
proof
  show "(Load unmarshal file = Inr cfg) =
     (\<exists>raw. file = Inr raw \<and> unmarshal raw DefaultConfig = Inr cfg \<and> Validate cfg = None)"
    by (auto simp: Load_def Let_def split: sum.splits option.splits)
  let ?c = "DefaultConfig\<lparr>cfg_Logging := (cfg_Logging DefaultConfig)\<lparr>log_Level := [], log_Output := []\<rparr>\<rparr>"
  have "Validate ?c = None"
    using Validate_DefaultConfig by (simp add: Validate_None) (simp add: DefaultConfig_def)
  then show "Load (\<lambda>raw c. Inr (c\<lparr>cfg_Logging := (cfg_Logging c)\<lparr>log_Level := [], log_Output := []\<rparr>\<rparr>)) (Inr raw)
     = Inr ?c"
    by (simp add: Load_def)
qed

end
