(* ===== verification/Hello.thy ===== *)
theory Hello
  imports Status
begin

section \<open>The handshake of a data connection (v4/relay/hello.go)\<close>

text \<open>
  The first line a peer sends on a data connection names its role, session and id. The connection
  is the sequence of results of its reads: data, or a failure (end of stream, reset, deadline). An
  exhausted sequence means that nothing more arrives before the read deadline. The buffered reader
  that \<open>ReadHello\<close> returns is the pair of the bytes it holds and the reads still to come.
\<close>

datatype read_result = Got string | Failed go_error

type_synonym reader = "string \<times> read_result list"

definition HelloPrefix :: string where "HelloPrefix = ''V4HELLO ''"

record DataHello =
  hello_Role :: string
  hello_SessionID :: string
  hello_ID :: string

definition empty_hello :: DataHello where
  "empty_hello = \<lparr>hello_Role = '''', hello_SessionID = '''', hello_ID = ''''\<rparr>"

definition timeout_error :: go_error where "timeout_error = ErrText ''i/o timeout''"

subsection \<open>Reading a line\<close>

text \<open>\<open>(*bufio.Reader).ReadString\<close>: the buffer grows by reads until it holds the delimiter.\<close>

fun ReadString :: "char \<Rightarrow> string \<Rightarrow> read_result list \<Rightarrow> (go_error + string) \<times> reader" where
  "ReadString d buf [] =
     (if d \<in> set buf
      then (Inr (takeWhile (\<lambda>c. c \<noteq> d) buf @ [d]), tl (dropWhile (\<lambda>c. c \<noteq> d) buf), [])
      else (Inl timeout_error, [], []))"
| "ReadString d buf (ev # evs) =
     (if d \<in> set buf
      then (Inr (takeWhile (\<lambda>c. c \<noteq> d) buf @ [d]), tl (dropWhile (\<lambda>c. c \<noteq> d) buf), ev # evs)
      else (case ev of
              Got s \<Rightarrow> ReadString d (buf @ s) evs
            | Failed e \<Rightarrow> (Inl e, [], evs)))"

subsection \<open>Decoding and checking the hello\<close>

text \<open>
  \<open>strings.ToLower\<close> of the role. The result is only compared with two ASCII words, so it matters
  which characters become ASCII letters: the capitals, the dotted capital I and the Kelvin sign.
\<close>

fun lower_role :: "string \<Rightarrow> string" where
  "lower_role [] = []"
| "lower_role [a] = [ascii_lower a]"
| "lower_role (a # b # s) =
     (if a = CHR 0xC4 \<and> b = CHR 0xB0 then CHR ''i'' # lower_role s
      else if a = CHR 0xE2 \<and> b = CHR 0x84 \<and> has_prefix s [CHR 0xAA] then CHR ''k'' # lower_role (tl s)
      else ascii_lower a # lower_role (b # s))"

text \<open>
  \<open>json.Unmarshal\<close> into a \<open>DataHello\<close>: the members in order, matched to fields up to case; null
  leaves a field, a value that is not a string is an error, unknown members are ignored.
\<close>

definition hello_member :: "string \<times> json \<Rightarrow> DataHello \<times> bool \<Rightarrow> DataHello \<times> bool" where
  "hello_member m acc =
     (let (k, v) = m; (h, ok) = acc;
          set = (\<lambda>f. case v of JStr s \<Rightarrow> (f s, ok) | JNull \<Rightarrow> (h, ok) | _ \<Rightarrow> (h, False))
      in if field_match k ''role'' then set (\<lambda>s. h\<lparr>hello_Role := s\<rparr>)
         else if field_match k ''session_id'' then set (\<lambda>s. h\<lparr>hello_SessionID := s\<rparr>)
         else if field_match k ''id'' then set (\<lambda>s. h\<lparr>hello_ID := s\<rparr>)
         else acc)"

definition unmarshal_hello :: "string \<Rightarrow> DataHello option" where
  "unmarshal_hello raw =
     (case parse_json raw of
        Some JNull \<Rightarrow> Some empty_hello
      | Some (JObj ms) \<Rightarrow>
          (let (h, ok) = fold hello_member ms (empty_hello, True) in if ok then Some h else None)
      | _ \<Rightarrow> None)"

definition check_hello :: "string \<Rightarrow> go_error + DataHello" where
  "check_hello line0 =
     (let line = trim_space line0 in
      if \<not> has_prefix line HelloPrefix
      then Inl (wrap_err CodeBadRequest ''missing hello prefix'' (ErrText (''got='' @ quote_verb line)))
      else (case unmarshal_hello (trim_prefix line HelloPrefix) of
          None \<Rightarrow> Inl (wrap_err CodeBadRequest ''invalid hello json'' json_error)
        | Some h0 \<Rightarrow>
            (let h = h0\<lparr>hello_Role := lower_role (trim_space (hello_Role h0)),
                        hello_SessionID := trim_space (hello_SessionID h0),
                        hello_ID := trim_space (hello_ID h0)\<rparr>
             in if (hello_Role h \<noteq> ''server'' \<and> hello_Role h \<noteq> ''client'') \<or>
                   hello_SessionID h = '''' \<or> hello_ID h = ''''
                then Inl (new_err CodeBadRequest ''invalid hello fields'')
                else Inr h)))"

definition ReadHello :: "read_result list \<Rightarrow> (go_error + DataHello) \<times> reader" where
  "ReadHello evs =
     (case ReadString (CHR 0x0A) [] evs of
        (Inl e, r) \<Rightarrow> (Inl (wrap_err CodeBadRequest ''read hello failed'' e), r)
      | (Inr line, r) \<Rightarrow> (check_hello line, r))"

text \<open>What the peers of the repository send (\<open>writeHello\<close> of the video front and back end).\<close>

definition writeHello :: "string \<Rightarrow> string \<Rightarrow> string \<Rightarrow> string" where
  "writeHello role sessionID ident =
     HelloPrefix @ ''{'' @ [quote] @ ''role'' @ [quote] @ '':'' @ [quote] @ role @ [quote] @ '','' @
     [quote] @ ''session_id'' @ [quote] @ '':'' @ [quote] @ sessionID @ [quote] @ '','' @
     [quote] @ ''id'' @ [quote] @ '':'' @ [quote] @ ident @ [quote] @ ''}'' @ [CHR 0x0A]"

subsection \<open>No byte after the line is lost\<close>

text \<open>The bytes a reader still delivers before the first failure.\<close>

fun event_bytes :: "read_result list \<Rightarrow> string" where
  "event_bytes [] = []"
| "event_bytes (Got s # evs) = s @ event_bytes evs"
| "event_bytes (Failed e # evs) = []"

definition reader_bytes :: "reader \<Rightarrow> string" where
  "reader_bytes r = fst r @ event_bytes (snd r)"

lemma cut_at_first:
  "d \<notin> set u \<Longrightarrow> takeWhile (\<lambda>c. c \<noteq> d) (u @ d # v) = u"
  "d \<notin> set u \<Longrightarrow> dropWhile (\<lambda>c. c \<noteq> d) (u @ d # v) = d # v"
  by (induction u) auto

lemma line_split:
  assumes "buf @ t = line @ d # rest" and "d \<notin> set line" and "d \<in> set buf"
  shows "takeWhile (\<lambda>c. c \<noteq> d) buf = line" and "tl (dropWhile (\<lambda>c. c \<noteq> d) buf) @ t = rest"
proof -
  obtain u v where buf: "buf = u @ d # v" "d \<notin> set u"
    using split_list_first [OF assms(3)] by blast
  have eq: "u @ d # (v @ t) = line @ d # rest" using assms(1) buf(1) by simp
  have "u = line"
    using arg_cong [OF eq, of "takeWhile (\<lambda>c. c \<noteq> d)"]
    unfolding cut_at_first(1) [OF buf(2)] cut_at_first(1) [OF assms(2)] .
  with eq have "u = line \<and> v @ t = rest" by simp
  moreover have "takeWhile (\<lambda>c. c \<noteq> d) buf = u" "dropWhile (\<lambda>c. c \<noteq> d) buf = d # v"
    using buf cut_at_first [of d u v] by simp_all
  ultimately show "takeWhile (\<lambda>c. c \<noteq> d) buf = line" "tl (dropWhile (\<lambda>c. c \<noteq> d) buf) @ t = rest"
    by simp_all
qed

lemma ReadString_line:
  assumes "buf @ event_bytes evs = line @ d # rest" and "d \<notin> set line"
  shows "\<exists>r. ReadString d buf evs = (Inr (line @ [d]), r) \<and> reader_bytes r = rest"
  using assms
proof (induction d buf evs rule: ReadString.induct)
  case (1 d buf)
  have "d \<in> set buf" using 1(1) by simp
  with line_split [OF 1(1,2) this] show ?case by (simp add: reader_bytes_def)
next
  case (2 d buf ev evs)
  show ?case
  proof (cases "d \<in> set buf")
    case True
    with line_split [OF 2(2,3) True] show ?thesis by (simp add: reader_bytes_def)
  next
    case False
    then obtain s where "ev = Got s"
      using 2(2) by (cases ev) auto
    with 2 False show ?thesis by simp
  qed
qed

subsection \<open>What an accepted hello says\<close>

lemma check_hello_wellformed:
  "check_hello line = Inr h \<Longrightarrow>
     hello_Role h \<in> {''server'', ''client''} \<and> hello_SessionID h \<noteq> [] \<and> hello_ID h \<noteq> [] \<and>
     trim_space (hello_SessionID h) = hello_SessionID h \<and> trim_space (hello_ID h) = hello_ID h"
  by (auto simp: check_hello_def Let_def trim_space_idem split: if_splits option.splits)

lemma check_hello_code: "check_hello line = Inl e \<Longrightarrow> errors_Code (Some e) = CodeBadRequest"
  by (auto simp: check_hello_def Let_def split: if_splits option.splits)

lemma ReadHello_fields:
  "case fst (ReadHello evs) of
     Inl e \<Rightarrow> errors_Code (Some e) = 502
   | Inr h \<Rightarrow> hello_Role h \<in> {''server'', ''client''} \<and> hello_SessionID h \<noteq> [] \<and> hello_ID h \<noteq> [] \<and>
       trim_space (hello_SessionID h) = hello_SessionID h \<and> trim_space (hello_ID h) = hello_ID h"
proof (cases "ReadString (CHR 0x0A) [] evs")
  case (fields res r)
  show ?thesis
  proof (cases res)
    case (Inr line)
    with fields show ?thesis
      using check_hello_wellformed [of line] check_hello_code [of line]
      by (cases "check_hello line") (simp_all add: ReadHello_def CodeBadRequest_def)
  qed (simp add: fields ReadHello_def CodeBadRequest_def)
qed

text \<open>
  A hello is either refused with the code 502, whatever the peer sends, or it is well formed:
  the role is one of the two, session and id are present and carry no white space at their ends.
\<close>

theorem ReadHello_wellformed:
  "case fst (ReadHello evs) of
     Inl e \<Rightarrow> errors_Code (Some e) = 502
   | Inr h \<Rightarrow> hello_Role h \<in> {''server'', ''client''} \<and> hello_SessionID h \<noteq> [] \<and> hello_ID h \<noteq> [] \<and>
       trim_space (hello_SessionID h) = hello_SessionID h \<and> trim_space (hello_ID h) = hello_ID h"
  by (rule ReadHello_fields)

subsection \<open>Round trip\<close>

definition hello_json :: "string \<Rightarrow> string \<Rightarrow> string \<Rightarrow> string" where
  "hello_json role sid ident =
     ''{'' @ [quote] @ ''role'' @ [quote] @ '':'' @ [quote] @ role @ [quote] @ '','' @
     [quote] @ ''session_id'' @ [quote] @ '':'' @ [quote] @ sid @ [quote] @ '','' @
     [quote] @ ''id'' @ [quote] @ '':'' @ [quote] @ ident @ [quote] @ ''}''"

lemma parse_member:
  assumes "plain_text k" and "plain_text v"
  shows "parse_members d (quote # k @ quote # CHR '':'' # quote # v @ quote # CHR ''}'' # r) =
      Some ([(k, JStr v)], r)"
    and "parse_members d (quote # k @ quote # CHR '':'' # quote # v @ quote # CHR '','' # r) =
      map_option (\<lambda>(ms, r). ((k, JStr v) # ms, r)) (parse_members d r)"
  using assms
  by (simp_all add: parse_members.simps [of _ "quote # _"] str_lit_plain parse_value_string
      skip_ws_def json_ws_def has_prefix_def)

lemma parse_hello_json:
  assumes "plain_text role" and "plain_text sid" and "plain_text ident"
  shows "parse_json (hello_json role sid ident) =
    Some (JObj [(''role'', JStr role), (''session_id'', JStr sid), (''id'', JStr ident)])"
proof -
  note m1 = parse_member(2) [of "''role''" role] and m2 = parse_member(2) [of "''session_id''" sid]
    and m3 = parse_member(1) [of "''id''" ident]
  show ?thesis
    using assms m1 m2 m3
    by (simp add: parse_json_def hello_json_def parse_value.simps [of _ "CHR ''{'' # _"]
        skip_ws_def json_ws_def has_prefix_def plain_char_def code_of_def)
qed

lemma fold_hello_members:
  "fold hello_member [(''role'', JStr role), (''session_id'', JStr sid), (''id'', JStr ident)] (h, True)
    = (\<lparr>hello_Role = role, hello_SessionID = sid, hello_ID = ident\<rparr>, True)"
proof -
  have m: "field_match ''role'' ''role''" "\<not> field_match ''session_id'' ''role''"
    "field_match ''session_id'' ''session_id''" "\<not> field_match ''id'' ''role''"
    "\<not> field_match ''id'' ''session_id''" "field_match ''id'' ''id''"
    by (simp_all add: field_match_def ascii_upper_def)
  show ?thesis by (simp add: hello_member_def m)
qed

lemma check_writeHello:
  assumes "role = ''server'' \<or> role = ''client''"
    and "plain_text sid" "solid sid" "plain_text ident" "solid ident"
  shows "check_hello (HelloPrefix @ hello_json role sid ident @ [CHR 0x0A]) =
    Inr \<lparr>hello_Role = role, hello_SessionID = sid, hello_ID = ident\<rparr>"
proof -
  have "solid (HelloPrefix @ hello_json role sid ident)"
    by (simp add: solid_def visible_def HelloPrefix_def hello_json_def)
  then have line: "trim_space (HelloPrefix @ hello_json role sid ident @ [CHR 0x0A]) =
      HelloPrefix @ hello_json role sid ident"
    using trim_space_solid [of "HelloPrefix @ hello_json role sid ident" "[]" "[CHR 0x0A]"]
    by (simp add: blank_def)
  have "plain_text role" using assms(1) by (auto simp: plain_char_def code_of_def)
  note parse = parse_hello_json [OF this assms(2,4)]
  have "unmarshal_hello (hello_json role sid ident) =
      Some \<lparr>hello_Role = role, hello_SessionID = sid, hello_ID = ident\<rparr>"
    unfolding unmarshal_hello_def parse option.case json.case
      fold_hello_members by simp
  moreover have "lower_role (trim_space role) = role"
  proof -
    have "solid role" using assms(1) by (auto simp: solid_def visible_def)
    then have "trim_space role = role" by (rule trim_space_solid_id)
    then show ?thesis using assms(1) by (auto simp: ascii_lower_def)
  qed
  moreover have "sid \<noteq> []" "ident \<noteq> []" using assms by (auto simp: solid_def)
  ultimately show ?thesis
    using assms(1,3,5) unfolding check_hello_def line
    by (simp add: Let_def trim_space_solid_id)
qed

lemma ReadHello_parts:
  assumes "role = ''server'' \<or> role = ''client''"
    and "plain_text sid" "solid sid" "plain_text ident" "solid ident"
    and "event_bytes evs = writeHello role sid ident @ rest"
  shows "\<exists>r. ReadHello evs = (Inr \<lparr>hello_Role = role, hello_SessionID = sid, hello_ID = ident\<rparr>, r) \<and>
    reader_bytes r = rest"
proof -
  let ?line = "HelloPrefix @ hello_json role sid ident"
  have "CHR 0x0A \<notin> set role" using assms(1) by auto
  moreover have "plain_text s \<Longrightarrow> CHR 0x0A \<notin> set s" for s
    by (induction s) (auto simp: plain_char_def code_of_def)
  ultimately have "CHR 0x0A \<notin> set ?line"
    using assms by (simp add: HelloPrefix_def hello_json_def)
  moreover have "[] @ event_bytes evs = ?line @ CHR 0x0A # rest"
    using assms(6) by (simp add: writeHello_def hello_json_def)
  ultimately obtain r where "ReadString (CHR 0x0A) [] evs = (Inr (?line @ [CHR 0x0A]), r)"
    "reader_bytes r = rest"
    using ReadString_line by blast
  with check_writeHello [OF assms(1-5)] show ?thesis by (simp add: ReadHello_def)
qed

text \<open>
  C30. The handshake is lossless under any fragmentation: however the network cuts the peer's hello
  line and the data after it into reads, \<open>ReadHello\<close> returns the role, session and id that were
  sent, and its reader goes on to deliver exactly the data after the line. The ids are any text of
  printable ASCII that JSON writes without escapes, with no blank at either end.
\<close>

theorem ReadHello_roundtrip:
  assumes "role = ''server'' \<or> role = ''client''"
    and "plain_text sid" "solid sid" "plain_text ident" "solid ident"
    and "event_bytes evs = writeHello role sid ident @ rest"
  shows "\<exists>r. ReadHello evs = (Inr \<lparr>hello_Role = role, hello_SessionID = sid, hello_ID = ident\<rparr>, r) \<and>
    reader_bytes r = rest"
  by (rule ReadHello_parts [OF assms])

lemma ReadHello_roundtrip_witness:
  "\<exists>r. ReadHello [Got (writeHello ''client'' ''s1'' ''c1''), Got ''data''] =
      (Inr \<lparr>hello_Role = ''client'', hello_SessionID = ''s1'', hello_ID = ''c1''\<rparr>, r) \<and>
    reader_bytes r = ''data''"
  by (rule ReadHello_roundtrip)
     (simp_all add: plain_char_def code_of_def solid_def visible_def)

end
