(* ===== verification/Session.thy ===== *)
theory Session
  imports Hello "HOL-Library.Sublist" "HOL-Library.Multiset"
begin

section \<open>Forwarding sessions (v4/relay/session.go)\<close>

text \<open>
  A session joins the connection of a front end (client) and of a back end (server) and copies bytes
  both ways, one goroutine per direction, until one side ends, an error occurs, the context is
  cancelled or somebody calls \<open>Stop\<close>. The two copy loops share the session with each other, with the
  heartbeat check and with the metrics, so the loop of \<open>pipe\<close> is cut into its atomic steps: the check
  at the top of the loop, the read (with the counter and the heartbeat time it updates), and the
  write (with its counter). What a read or a write returns is an argument of the step.
\<close>

subsection \<open>Data\<close>

type_synonym conn = nat

text \<open>The errors \<open>pipe\<close> tells apart: a timeout, the end of the stream or a closed connection, others.\<close>

datatype io_error = IoTimeout | IoEOF | IoClosed | IoOther go_error

datatype effect = SetDeadlineNow conn | CloseConn conn

datatype pipe_pc = AtTop | AtRead | AtWrite string "io_error option" | Exited

text \<open>
  One direction of a session: the counter of the side read from (\<open>feIn\<close>, \<open>beIn\<close>), that of the side
  written to (\<open>beOut\<close>, \<open>feOut\<close>), the time of the last read (\<open>lastReadFE\<close>, \<open>lastReadBE\<close>) and
  where its loop is. The last two fields record what was read from and written to the connections.
\<close>

record lane =
  ln_in :: int
  ln_out :: int
  ln_last :: time
  ln_pc :: pipe_pc
  ln_read :: string
  ln_written :: string

record Session =
  sess_kind :: string
  sess_port :: port
  sess_id :: string
  sess_server :: string
  sess_client :: string
  sess_fe :: "conn option"
  sess_be :: "conn option"
  sess_up :: lane
  sess_down :: lane
  sess_done :: bool

datatype dir = FEtoBE | BEtoFE

fun lane_of :: "dir \<Rightarrow> Session \<Rightarrow> lane" where
  "lane_of FEtoBE s = sess_up s"
| "lane_of BEtoFE s = sess_down s"

fun set_lane :: "dir \<Rightarrow> lane \<Rightarrow> Session \<Rightarrow> Session" where
  "set_lane FEtoBE l s = s\<lparr>sess_up := l\<rparr>"
| "set_lane BEtoFE l s = s\<lparr>sess_down := l\<rparr>"

definition new_lane :: "time \<Rightarrow> lane" where
  "new_lane now = \<lparr>ln_in = 0, ln_out = 0, ln_last = now, ln_pc = AtTop, ln_read = [], ln_written = []\<rparr>"

subsection \<open>Operations\<close>

definition NewSession ::
    "time \<Rightarrow> string \<Rightarrow> port \<Rightarrow> string \<Rightarrow> string \<Rightarrow> string \<Rightarrow> conn option \<Rightarrow> conn option \<Rightarrow> Session" where
  "NewSession now kind port sessionID serverID clientID fe be =
     \<lparr>sess_kind = kind, sess_port = port, sess_id = sessionID, sess_server = serverID,
      sess_client = clientID, sess_fe = fe, sess_be = be, sess_up = new_lane now,
      sess_down = new_lane now, sess_done = False\<rparr>"

definition close_effects :: "conn option \<Rightarrow> effect list" where
  "close_effects c = (case c of None \<Rightarrow> [] | Some c \<Rightarrow> [SetDeadlineNow c, CloseConn c])"

definition Session_Stop :: "Session \<Rightarrow> Session \<times> effect list" where
  "Session_Stop s =
     (if sess_done s then (s, [])
      else (s\<lparr>sess_done := True\<rparr>, close_effects (sess_fe s) @ close_effects (sess_be s)))"

definition touch :: "time \<Rightarrow> dir \<Rightarrow> Session \<Rightarrow> Session" where
  "touch now d s = set_lane d ((lane_of d s)\<lparr>ln_last := now\<rparr>) s"

definition LastReadAges :: "time \<Rightarrow> Session \<Rightarrow> duration \<times> duration" where
  "LastReadAges now s = (now - ln_last (sess_up s), now - ln_last (sess_down s))"

definition Counters :: "Session \<Rightarrow> int \<times> int \<times> int \<times> int" where
  "Counters s = (ln_in (sess_up s), ln_out (sess_down s), ln_in (sess_down s), ln_out (sess_up s))"

subsection \<open>The copy loop\<close>

definition goto :: "dir \<Rightarrow> pipe_pc \<Rightarrow> Session \<Rightarrow> Session" where
  "goto d pc s = set_lane d ((lane_of d s)\<lparr>ln_pc := pc\<rparr>) s"

text \<open>Leaving the loop through \<open>s.Stop(); return\<close>.\<close>

definition stop_exit :: "dir \<Rightarrow> Session \<Rightarrow> Session \<times> effect list" where
  "stop_exit d s = (let (s', es) = Session_Stop s in (goto d Exited s', es))"

definition after_io :: "dir \<Rightarrow> io_error option \<Rightarrow> Session \<Rightarrow> Session \<times> effect list" where
  "after_io d err s =
     (case err of
        None \<Rightarrow> (goto d AtTop s, [])
      | Some IoTimeout \<Rightarrow> (goto d AtTop s, [])
      | Some IoEOF \<Rightarrow> stop_exit d s
      | Some IoClosed \<Rightarrow> stop_exit d s
      | Some (IoOther e) \<Rightarrow> stop_exit d s)"

definition pipe_top :: "bool \<Rightarrow> dir \<Rightarrow> Session \<Rightarrow> Session \<times> effect list" where
  "pipe_top ctx_done d s =
     (if ctx_done then (goto d Exited s, [])
      else if sess_done s then (goto d Exited s, [])
      else (goto d AtRead s, []))"

definition count_read :: "string \<Rightarrow> dir \<Rightarrow> Session \<Rightarrow> Session" where
  "count_read data d s =
     (let l = lane_of d s in
      set_lane d (l\<lparr>ln_in := ln_in l + int (length data), ln_read := ln_read l @ data\<rparr>) s)"

definition count_written :: "string \<Rightarrow> dir \<Rightarrow> Session \<Rightarrow> Session" where
  "count_written data d s =
     (let l = lane_of d s in
      set_lane d (l\<lparr>ln_out := ln_out l + int (length data), ln_written := ln_written l @ data\<rparr>) s)"

definition pipe_read ::
    "time \<Rightarrow> string \<Rightarrow> io_error option \<Rightarrow> dir \<Rightarrow> Session \<Rightarrow> Session \<times> effect list" where
  "pipe_read now data err d s =
     (if length data > 0
      then (goto d (AtWrite data err) (touch now d (count_read data d s)), [])
      else after_io d err s)"

definition pipe_write ::
    "nat \<Rightarrow> io_error option \<Rightarrow> string \<Rightarrow> io_error option \<Rightarrow> dir \<Rightarrow> Session \<Rightarrow> Session \<times> effect list" where
  "pipe_write wn werr data err d s =
     (let s' = (if wn > 0 then count_written (take wn data) d s else s)
      in if werr \<noteq> None then stop_exit d s' else after_io d err s')"

subsection \<open>Lanes\<close>

lemma lane_set_lane [simp]:
  "lane_of d (set_lane d l s) = l"
  "d' \<noteq> d \<Longrightarrow> lane_of d' (set_lane d l s) = lane_of d' s"
  by (cases d; cases d'; simp)+

lemma set_lane_frame [simp]:
  "sess_done (set_lane d l s) = sess_done s" "sess_fe (set_lane d l s) = sess_fe s"
  "sess_be (set_lane d l s) = sess_be s" "sess_id (set_lane d l s) = sess_id s"
  "sess_port (set_lane d l s) = sess_port s"
  by (cases d; simp)+

lemma lane_sess_done [simp]: "lane_of d (s\<lparr>sess_done := b\<rparr>) = lane_of d s"
  by (cases d) simp_all

lemma all_dir: "(\<forall>d. P d) \<longleftrightarrow> P FEtoBE \<and> P BEtoFE"
  using dir.induct [of P] by auto

lemma Session_Stop_frame [simp]:
  "lane_of d (fst (Session_Stop s)) = lane_of d s" "sess_done (fst (Session_Stop s))"
  "sess_fe (fst (Session_Stop s)) = sess_fe s" "sess_be (fst (Session_Stop s)) = sess_be s"
  by (simp_all add: Session_Stop_def)

text \<open>
  What holds of a lane at each point of its loop: the counters are the numbers of bytes, what was
  written is a prefix of what was read, and but for the chunk in hand they are equal until the loop
  exits.
\<close>

definition lane_inv :: "lane \<Rightarrow> bool" where
  "lane_inv l \<longleftrightarrow>
     ln_in l = int (length (ln_read l)) \<and> ln_out l = int (length (ln_written l)) \<and>
     (case ln_pc l of
        AtWrite data err \<Rightarrow> ln_read l = ln_written l @ data
      | Exited \<Rightarrow> prefix (ln_written l) (ln_read l)
      | _ \<Rightarrow> ln_read l = ln_written l)"

lemma lane_inv_new [simp]: "lane_inv (new_lane now)"
  by (simp add: lane_inv_def new_lane_def)

lemma lane_inv_prefix: "lane_inv l \<Longrightarrow> prefix (ln_written l) (ln_read l)"
  by (auto simp: lane_inv_def split: pipe_pc.splits)

text \<open>A step of the loop: who may take it, from where, and what the connections may answer. A
  \<open>Write\<close> that reports no error has written everything.\<close>

inductive pipe_step :: "dir \<Rightarrow> Session \<Rightarrow> Session \<times> effect list \<Rightarrow> bool" where
  at_top: "ln_pc (lane_of d s) = AtTop \<Longrightarrow> pipe_step d s (pipe_top ctx_done d s)"
| at_read: "ln_pc (lane_of d s) = AtRead \<Longrightarrow> length data \<le> 65536 \<Longrightarrow>
    pipe_step d s (pipe_read now data err d s)"
| at_write: "ln_pc (lane_of d s) = AtWrite data err \<Longrightarrow> wn \<le> length data \<Longrightarrow>
    (werr = None \<Longrightarrow> wn = length data) \<Longrightarrow> pipe_step d s (pipe_write wn werr data err d s)"

lemmas pipe_defs = pipe_top_def pipe_read_def pipe_write_def after_io_def stop_exit_def goto_def
  touch_def count_read_def count_written_def

lemma stop_exit_lane:
  "lane_of d' (fst (stop_exit d s)) =
    (if d' = d then (lane_of d s)\<lparr>ln_pc := Exited\<rparr> else lane_of d' s)"
  by (simp add: stop_exit_def goto_def case_prod_beta)

lemma after_io_lane:
  "lane_of d' (fst (after_io d err s)) =
    (if d' = d then (lane_of d s)\<lparr>ln_pc := ln_pc (lane_of d (fst (after_io d err s)))\<rparr> else lane_of d' s) \<and>
   ln_pc (lane_of d (fst (after_io d err s))) \<in> {AtTop, Exited}"
  by (simp add: after_io_def stop_exit_lane goto_def split: option.split io_error.split)

lemma after_io_lane_inv:
  assumes "lane_inv ((lane_of d s)\<lparr>ln_pc := AtTop\<rparr>)"
  shows "lane_inv (lane_of d (fst (after_io d err s)))"
proof -
  have "lane_of d (fst (after_io d err s)) = (lane_of d s)\<lparr>ln_pc := AtTop\<rparr> \<or>
      lane_of d (fst (after_io d err s)) = (lane_of d s)\<lparr>ln_pc := Exited\<rparr>"
    using after_io_lane [of d d err s] by auto
  moreover have "lane_inv ((lane_of d s)\<lparr>ln_pc := Exited\<rparr>)"
    using assms by (simp add: lane_inv_def)
  ultimately show ?thesis using assms by auto
qed

lemma pipe_step_other: "pipe_step d s r \<Longrightarrow> d' \<noteq> d \<Longrightarrow> lane_of d' (fst r) = lane_of d' s"
  by (induction rule: pipe_step.induct)
     (auto simp: pipe_top_def pipe_read_def pipe_write_def after_io_lane stop_exit_lane goto_def touch_def
        count_read_def count_written_def Let_def)

lemma pipe_step_lane_inv:
  assumes "pipe_step d s r" and "lane_inv (lane_of d s)"
  shows "lane_inv (lane_of d (fst r))"
  using assms
proof (induction rule: pipe_step.induct)
  case (at_top d s ctx_done)
  then show ?case by (auto simp: pipe_top_def goto_def lane_inv_def)
next
  case (at_read d s data now err)
  show ?case
  proof (cases "data = []")
    case True
    with at_read show ?thesis
      by (simp add: pipe_read_def) (rule after_io_lane_inv, simp add: lane_inv_def)
  next
    case False
    with at_read show ?thesis
      by (simp add: pipe_read_def goto_def touch_def count_read_def Let_def lane_inv_def)
  qed
next
  case (at_write d s data err wn werr)
  let ?s = "if wn > 0 then count_written (take wn data) d s else s"
  have lane: "lane_of d ?s = (lane_of d s)\<lparr>ln_out := ln_out (lane_of d s) + int wn,
      ln_written := ln_written (lane_of d s) @ take wn data\<rparr>"
    using at_write(2) by (simp add: count_written_def Let_def min_def)
  show ?case
  proof (cases werr)
    case None
    then have "lane_inv ((lane_of d ?s)\<lparr>ln_pc := AtTop\<rparr>)"
      using at_write unfolding lane by (simp add: lane_inv_def)
    then show ?thesis
      unfolding pipe_write_def Let_def using None by (simp add: after_io_lane_inv)
  next
    case (Some e)
    have "lane_inv ((lane_of d ?s)\<lparr>ln_pc := Exited\<rparr>)"
      using at_write unfolding lane by (auto simp: lane_inv_def take_is_prefix)
    then show ?thesis
      unfolding pipe_write_def Let_def using Some by (simp add: stop_exit_lane)
  qed
qed

subsection \<open>Runs of a session\<close>

text \<open>
  \<open>Start\<close> spawns the two loops and waits for both; then its deferred function calls \<open>Stop\<close> and
  \<open>onStop\<close>. Anyone may call \<open>Stop\<close> at any time. A run records the effects on the connections and
  how often \<open>onStop\<close> was called.
\<close>

datatype main_pc = Waiting | Stopped | Finished

record srun =
  run_sess :: Session
  run_effects :: "effect list"
  run_main :: main_pc
  run_onstop :: nat

definition start_run :: "Session \<Rightarrow> srun" where
  "start_run s = \<lparr>run_sess = s, run_effects = [], run_main = Waiting, run_onstop = 0\<rparr>"

definition apply_step :: "Session \<times> effect list \<Rightarrow> srun \<Rightarrow> srun" where
  "apply_step r R = R\<lparr>run_sess := fst r, run_effects := run_effects R @ snd r\<rparr>"

definition both_exited :: "Session \<Rightarrow> bool" where
  "both_exited s \<longleftrightarrow> ln_pc (sess_up s) = Exited \<and> ln_pc (sess_down s) = Exited"

inductive srun_step :: "srun \<Rightarrow> srun \<Rightarrow> bool" where
  pipe: "pipe_step d (run_sess R) r \<Longrightarrow> srun_step R (apply_step r R)"
| stop: "srun_step R (apply_step (Session_Stop (run_sess R)) R)"
| wait: "run_main R = Waiting \<Longrightarrow> both_exited (run_sess R) \<Longrightarrow>
    srun_step R ((apply_step (Session_Stop (run_sess R)) R)\<lparr>run_main := Stopped\<rparr>)"
| callback: "run_main R = Stopped \<Longrightarrow>
    srun_step R (R\<lparr>run_main := Finished, run_onstop := run_onstop R + 1\<rparr>)"

inductive_cases srun_stepE: "srun_step R R'"

definition closes :: "Session \<Rightarrow> effect list" where
  "closes s = close_effects (sess_fe s) @ close_effects (sess_be s)"

definition srun_inv :: "srun \<Rightarrow> bool" where
  "srun_inv R \<longleftrightarrow>
     (\<forall>d. lane_inv (lane_of d (run_sess R))) \<and>
     run_effects R = (if sess_done (run_sess R) then closes (run_sess R) else []) \<and>
     (run_main R \<noteq> Waiting \<longrightarrow> both_exited (run_sess R) \<and> sess_done (run_sess R)) \<and>
     run_onstop R = (if run_main R = Finished then 1 else 0)"

text \<open>The connections, ids and the done flag under a step: only \<open>Stop\<close> sets the flag, once.\<close>

definition step_frame :: "Session \<Rightarrow> Session \<times> effect list \<Rightarrow> bool" where
  "step_frame s r \<longleftrightarrow>
     closes (fst r) = closes s \<and> (sess_done s \<longrightarrow> sess_done (fst r)) \<and>
     snd r = (if sess_done (fst r) \<and> \<not> sess_done s then closes s else [])"

lemma step_frame_goto: "step_frame s (goto d pc s, [])"
  by (simp add: step_frame_def goto_def closes_def)

lemma step_frame_Stop: "step_frame s (Session_Stop s)"
  by (simp add: step_frame_def Session_Stop_def closes_def)

lemma step_frame_stop_exit: "step_frame s (stop_exit d s)"
  by (simp add: step_frame_def stop_exit_def Session_Stop_def goto_def closes_def)

lemma step_frame_after_io: "step_frame s (after_io d err s)"
  by (simp add: after_io_def step_frame_goto step_frame_stop_exit split: option.split io_error.split)

lemma step_frame_counted:
  "closes s' = closes s \<Longrightarrow> sess_done s' = sess_done s \<Longrightarrow> step_frame s' r \<Longrightarrow> step_frame s r"
  by (simp add: step_frame_def)

lemma counted_frame [simp]:
  "closes (count_read data d s) = closes s" "sess_done (count_read data d s) = sess_done s"
  "closes (count_written data d s) = closes s" "sess_done (count_written data d s) = sess_done s"
  "closes (touch now d s) = closes s" "sess_done (touch now d s) = sess_done s"
  by (simp_all add: count_read_def count_written_def touch_def closes_def Let_def)

lemma pipe_step_frame: "pipe_step d s r \<Longrightarrow> step_frame s r"
proof (induction rule: pipe_step.induct)
  case (at_top d s ctx_done)
  then show ?case by (simp add: pipe_top_def step_frame_goto)
next
  case (at_read d s data now err)
  show ?case
    using step_frame_goto [of "touch now d (count_read data d s)" d "AtWrite data err"]
      step_frame_counted [of "touch now d (count_read data d s)" s]
    by (simp add: pipe_read_def step_frame_after_io)
next
  case (at_write d s data err wn werr)
  let ?s = "if wn > 0 then count_written (take wn data) d s else s"
  have "step_frame ?s (if werr \<noteq> None then stop_exit d ?s else after_io d err ?s)"
    using step_frame_stop_exit [of ?s d] step_frame_after_io [of ?s d err] by (cases werr) auto
  with step_frame_counted [of ?s s] show ?case by (simp add: pipe_write_def Let_def)
qed

lemma both_exited_no_step: "both_exited s \<Longrightarrow> \<not> pipe_step d s r"
  by (cases d) (auto simp: both_exited_def elim: pipe_step.cases)

lemma srun_inv_frame:
  assumes "srun_inv R" and "step_frame (run_sess R) r"
  shows "run_effects (apply_step r R) = (if sess_done (fst r) then closes (fst r) else [])"
  using assms by (auto simp: srun_inv_def step_frame_def apply_step_def)

lemma srun_inv_step: "srun_step R R' \<Longrightarrow> srun_inv R \<Longrightarrow> srun_inv R'"
proof (induction rule: srun_step.induct)
  case (pipe d R r)
  have "lane_inv (lane_of d' (fst r))" for d'
    using pipe pipe_step_lane_inv [OF pipe(1)] pipe_step_other [OF pipe(1), of d']
    by (cases "d' = d") (simp_all add: srun_inv_def)
  moreover have "run_main R = Waiting"
    using pipe both_exited_no_step [of "run_sess R" d r] by (auto simp: srun_inv_def)
  ultimately show ?case
    using srun_inv_frame [OF pipe(2) pipe_step_frame [OF pipe(1)]] pipe(2)
    by (simp add: srun_inv_def) (simp add: apply_step_def)
next
  case (stop R)
  then show ?case
    using srun_inv_frame [OF stop step_frame_Stop]
    by (simp add: srun_inv_def) (auto simp: apply_step_def both_exited_def Session_Stop_def)
next
  case (wait R)
  then show ?case
    using srun_inv_frame [OF wait(3) step_frame_Stop]
    by (simp add: srun_inv_def) (auto simp: apply_step_def both_exited_def Session_Stop_def)
next
  case (callback R)
  then show ?case by (auto simp: srun_inv_def)
qed

definition srun_reach :: "Session \<Rightarrow> srun \<Rightarrow> bool" where
  "srun_reach s R \<longleftrightarrow> srun_step\<^sup>*\<^sup>* (start_run s) R"

lemma srun_inv_reach:
  assumes "srun_reach (NewSession now kind port sid srv cli fe be) R" shows "srun_inv R"
  using assms unfolding srun_reach_def
proof (induction rule: rtranclp_induct)
  case base
  show ?case
    by (simp add: srun_inv_def start_run_def NewSession_def all_dir)
qed (blast intro: srun_inv_step)

lemma srun_step_closes: "srun_step R R' \<Longrightarrow> closes (run_sess R') = closes (run_sess R)"
proof (induction rule: srun_step.induct)
  case (pipe d R r)
  then show ?case using pipe_step_frame [OF pipe] by (simp add: step_frame_def apply_step_def)
qed (simp_all add: apply_step_def closes_def)

lemma srun_reach_closes:
  "srun_reach s R \<Longrightarrow> closes (run_sess R) = closes s"
  unfolding srun_reach_def
  by (induction rule: rtranclp_induct) (auto simp: start_run_def srun_step_closes)

text \<open>
  C3. A session forwards faithfully: at every moment of every interleaving of its two loops, of calls
  of \<open>Stop\<close> and of the connections' answers, what was written to one side is a prefix of what was
  read from the other (nothing is lost, repeated, reordered or invented), the four counters are the
  exact numbers of bytes, and while a loop runs and holds no chunk everything read is written.
\<close>

theorem session_forwards:
  assumes "srun_reach (NewSession now kind port sid srv cli fe be) R"
  shows "(let s = run_sess R; up = sess_up s; down = sess_down s in
      prefix (ln_written up) (ln_read up) \<and> prefix (ln_written down) (ln_read down) \<and>
      Counters s = (int (length (ln_read up)), int (length (ln_written down)),
        int (length (ln_read down)), int (length (ln_written up))) \<and>
      (ln_pc up \<in> {AtTop, AtRead} \<longrightarrow> ln_written up = ln_read up) \<and>
      (ln_pc down \<in> {AtTop, AtRead} \<longrightarrow> ln_written down = ln_read down))"
proof -
  have "lane_inv (sess_up (run_sess R))" "lane_inv (sess_down (run_sess R))"
    using srun_inv_reach [OF assms] by (simp_all add: srun_inv_def all_dir)
  then show ?thesis
    by (auto simp: Let_def Counters_def lane_inv_prefix) (auto simp: lane_inv_def)
qed

lemma srun_reach_one_read:
  assumes "0 < length data" "length data \<le> 65536"
  shows "\<exists>R. srun_reach (NewSession now kind port sid srv cli fe be) R \<and>
    ln_read (sess_up (run_sess R)) = data \<and> ln_written (sess_up (run_sess R)) = data"
proof -
  let ?s = "NewSession now kind port sid srv cli fe be"
  let ?R0 = "start_run ?s"
  let ?R1 = "apply_step (pipe_top False FEtoBE ?s) ?R0"
  let ?R2 = "apply_step (pipe_read now data None FEtoBE (run_sess ?R1)) ?R1"
  let ?R3 = "apply_step (pipe_write (length data) None data None FEtoBE (run_sess ?R2)) ?R2"
  have "srun_step ?R0 ?R1"
    by (rule srun_step.pipe [where d = FEtoBE], unfold start_run_def srun.select_convs, rule pipe_step.at_top)
       (simp add: NewSession_def new_lane_def)
  moreover have "srun_step ?R1 ?R2"
    by (rule srun_step.pipe, rule pipe_step.at_read)
       (simp_all add: assms apply_step_def pipe_top_def goto_def NewSession_def start_run_def)
  moreover have "srun_step ?R2 ?R3"
    by (rule srun_step.pipe, rule pipe_step.at_write)
       (use assms in \<open>simp_all add: apply_step_def pipe_top_def pipe_read_def goto_def NewSession_def start_run_def\<close>)
  ultimately have "srun_reach ?s ?R3"
    unfolding srun_reach_def by (meson rtranclp.rtrancl_refl rtranclp.rtrancl_into_rtrancl)
  moreover have "ln_read (sess_up (run_sess ?R3)) = data \<and> ln_written (sess_up (run_sess ?R3)) = data"
    using assms by (simp add: apply_step_def pipe_top_def pipe_read_def pipe_write_def after_io_def
      goto_def touch_def count_read_def count_written_def NewSession_def new_lane_def start_run_def)
  ultimately show ?thesis by blast
qed

lemma session_forwards_witness:
  "\<exists>R :: srun. ln_read (sess_up (run_sess R)) = ''abc'' \<and> ln_written (sess_up (run_sess R)) = ''abc'' \<and>
    prefix (ln_written (sess_down (run_sess R))) (ln_read (sess_down (run_sess R)))"
proof -
  obtain R where R: "srun_reach (NewSession 0 ''zmq'' 2300 ''s'' ''b'' ''f'' (Some 1) (Some 2)) R"
    "ln_read (sess_up (run_sess R)) = ''abc''" "ln_written (sess_up (run_sess R)) = ''abc''"
    using srun_reach_one_read [of "''abc''"] by fastforce
  have "prefix (ln_written (sess_down (run_sess R))) (ln_read (sess_down (run_sess R)))"
    using session_forwards [OF R(1)] unfolding Let_def by (elim conjE)
  with R(2,3) show ?thesis by blast
qed

text \<open>
  C31. A session ends once: however many goroutines call \<open>Stop\<close>, and however the two loops end, each
  of the two connections is closed at most once, they are closed exactly when the session is done,
  \<open>onStop\<close> is called at most once, and only after both loops have exited and both connections are
  closed.
\<close>

theorem session_ends_once:
  assumes "srun_reach (NewSession now kind port sid srv cli (Some f) (Some b)) R"
  shows "run_effects R = (if sess_done (run_sess R)
      then [SetDeadlineNow f, CloseConn f, SetDeadlineNow b, CloseConn b] else []) \<and>
    run_onstop R \<le> 1 \<and>
    (run_onstop R = 1 \<longrightarrow> both_exited (run_sess R) \<and> sess_done (run_sess R))"
proof -
  have "closes (run_sess R) = [SetDeadlineNow f, CloseConn f, SetDeadlineNow b, CloseConn b]"
    using srun_reach_closes [OF assms] by (simp add: closes_def NewSession_def close_effects_def)
  with srun_inv_reach [OF assms] show ?thesis by (auto simp: srun_inv_def split: if_splits)
qed

lemma session_ends_once_witness:
  "run_effects (start_run (NewSession 0 ''zmq'' 2300 ''s'' ''b'' ''f'' (Some 1) (Some 2))) = [] \<and>
   run_onstop (start_run (NewSession 0 ''zmq'' 2300 ''s'' ''b'' ''f'' (Some 1) (Some 2))) \<le> 1"
proof -
  have "srun_reach (NewSession 0 ''zmq'' 2300 ''s'' ''b'' ''f'' (Some 1) (Some 2))
      (start_run (NewSession 0 ''zmq'' 2300 ''s'' ''b'' ''f'' (Some 1) (Some 2)))"
    by (simp add: srun_reach_def)
  from session_ends_once [OF this] show ?thesis by (simp add: start_run_def NewSession_def)
qed

subsection \<open>A stopped session drains\<close>

definition own_step :: "dir \<Rightarrow> Session \<Rightarrow> Session \<Rightarrow> bool" where
  "own_step d s s' \<longleftrightarrow> (\<exists>es. pipe_step d s (s', es))"

fun pc_rank :: "pipe_pc \<Rightarrow> nat" where
  "pc_rank AtRead = 3" | "pc_rank (AtWrite _ _) = 2" | "pc_rank AtTop = 1" | "pc_rank Exited = 0"

lemma own_step_rank:
  assumes "own_step d s s'" and "sess_done s"
  shows "pc_rank (ln_pc (lane_of d s')) < pc_rank (ln_pc (lane_of d s)) \<and> sess_done s'"
proof -
  obtain es where st: "pipe_step d s (s', es)" using assms(1) by (auto simp: own_step_def)
  have io: "pc_rank (ln_pc (lane_of d (fst (after_io d err t)))) \<le> 1" for err t
    using after_io_lane [of d d err t] by auto
  have "sess_done s'" using pipe_step_frame [OF st] assms(2) by (simp add: step_frame_def)
  moreover from st assms(2) have "pc_rank (ln_pc (lane_of d s')) < pc_rank (ln_pc (lane_of d s))"
  proof (cases rule: pipe_step.cases)
    case (at_top ctx_done)
    then show ?thesis using assms(2) by (simp add: pipe_top_def goto_def split: if_splits)
  next
    case (at_read data now err)
    then have s': "s' = fst (pipe_read now data err d s)" by (metis fst_conv)
    show ?thesis
      using at_read(2) io [of err s] unfolding s'
      by (simp add: pipe_read_def goto_def)
  next
    case (at_write data err wn werr)
    then have s': "s' = fst (pipe_write wn werr data err d s)" by (metis fst_conv)
    show ?thesis
      using at_write(2) io [of err s] io [of err "count_written (take wn data) d s"] unfolding s'
      by (simp add: pipe_write_def Let_def stop_exit_lane)
  qed
  ultimately show ?thesis by simp
qed

text \<open>
  C32. Once a session is stopped, each loop takes at most three more steps before it exits, whatever
  the connections answer, so \<open>wg.Wait\<close> returns and \<open>onStop\<close> is reached; and a loop that has not
  exited can always take its next step.
\<close>

theorem stopped_session_drains:
  assumes "sess_done s" and "(own_step d ^^ n) s s'"
  shows "n \<le> 3 \<and> (ln_pc (lane_of d s') = Exited) = (\<nexists>s''. own_step d s' s'')"
proof
  have "(own_step d ^^ n) s s' \<Longrightarrow>
      n + pc_rank (ln_pc (lane_of d s')) \<le> pc_rank (ln_pc (lane_of d s)) \<and> sess_done s'" for s'
  proof (induction n arbitrary: s')
    case 0
    then show ?case using assms(1) by auto
  next
    case (Suc n)
    then obtain t where "(own_step d ^^ n) s t" "own_step d t s'" by auto
    with Suc.IH [of t] own_step_rank [of d t s'] show ?case by fastforce
  qed
  from this [OF assms(2)] show "n \<le> 3"
    by (cases "ln_pc (lane_of d s)") auto
  show "(ln_pc (lane_of d s') = Exited) = (\<nexists>s''. own_step d s' s'')"
  proof
    assume "ln_pc (lane_of d s') = Exited"
    then show "\<nexists>s''. own_step d s' s''"
      by (auto simp: own_step_def elim: pipe_step.cases)
  next
    assume stuck: "\<nexists>s''. own_step d s' s''"
    have step: "pipe_step d s' r \<Longrightarrow> False" for r
      using stuck unfolding own_step_def by (metis prod.collapse)
    show "ln_pc (lane_of d s') = Exited"
    proof (cases "ln_pc (lane_of d s')")
      case AtTop
      from step [OF pipe_step.at_top [OF this]] show ?thesis ..
    next
      case AtRead
      from step [OF pipe_step.at_read [OF this, of "[]"]] show ?thesis by simp
    next
      case (AtWrite data err)
      from step [OF pipe_step.at_write [OF this, of 0 "Some IoClosed"]] show ?thesis by simp
    qed
  qed
qed

lemma stopped_session_drains_witness:
  "(ln_pc (lane_of FEtoBE (fst (Session_Stop (NewSession 0 ''zmq'' 2300 ''s'' ''b'' ''f'' (Some 1) (Some 2)))))
      = Exited) =
   (\<nexists>s''. own_step FEtoBE (fst (Session_Stop (NewSession 0 ''zmq'' 2300 ''s'' ''b'' ''f'' (Some 1) (Some 2)))) s'')"
  by (rule stopped_session_drains [where n = 0, THEN conjunct2]) simp_all

end
