(* ===== verification/Pairing.thy ===== *)
theory Pairing
  imports Pool Config Session
begin

section \<open>What the two data servers share (v4/relay)\<close>

text \<open>
  The TCP server and the SRT server keep the same books per port: a pending server connection, a
  pending client connection and a session that joins two of them. This theory holds the connection
  values and effects both use, the abstract book of one port (\<open>slot\<close>) with the operations on it,
  and the contract both implementations satisfy (the locale \<open>pairing_server\<close>), with the facts that
  follow from it: no connection is lost or used twice, and a port with a session has nothing pending.
\<close>

subsection \<open>Connections and effects\<close>

record BufferedConn =
  bc_conn :: conn
  bc_reader :: reader

type_synonym listener = nat

text \<open>
  The effects of a server outside its own state: on connections and listeners, the goroutines it
  spawns and the callback \<open>onSessionStop\<close>. Log records are not modelled.
\<close>

datatype srv_effect =
    OnConn effect
  | SetNoDelay conn
  | SetWriteBuffer conn int
  | SetReadBuffer conn int
  | SetLinger conn int
  | CloseListener listener
  | GoMaintenance
  | GoAccept port listener
  | GoHandle port conn
  | GoTryPair port
  | GoSession port string
  | OnSessionStop port string

abbreviation close_conn :: "conn \<Rightarrow> srv_effect" where
  "close_conn c \<equiv> OnConn (CloseConn c)"

text \<open>A loop whose iterations act on a state and have effects.\<close>

definition seq_effects :: "('x \<Rightarrow> 'S \<Rightarrow> 'S \<times> 'e list) \<Rightarrow> 'x list \<Rightarrow> 'S \<Rightarrow> 'S \<times> 'e list" where
  "seq_effects f xs S = fold (\<lambda>x (S, es). let (S', fs) = f x S in (S', es @ fs)) xs (S, [])"

lemma seq_effects_Nil [simp]: "seq_effects f [] S = (S, [])"
  by (simp add: seq_effects_def)

lemma fold_effects_acc:
  "fold (\<lambda>x (S, es). let (S', fs) = f x S in (S', es @ fs)) xs (S, es) =
    (fst (seq_effects f xs S), es @ snd (seq_effects f xs S))"
proof (induction xs arbitrary: S es)
  case (Cons x xs)
  obtain S' fs where eq: "f x S = (S', fs)" by fastforce
  show ?case
    using Cons [of S' "es @ fs"] Cons [of S' fs] by (simp add: seq_effects_def eq)
qed simp

lemma seq_effects_Cons [simp]:
  "seq_effects f (x # xs) S =
    (let (S1, es) = f x S; (S2, fs) = seq_effects f xs S1 in (S2, es @ fs))"
proof -
  obtain S' fs where eq: "f x S = (S', fs)" by fastforce
  have "seq_effects f (x # xs) S =
      fold (\<lambda>x (S, es). let (S', fs) = f x S in (S', es @ fs)) xs (S', fs)"
    by (simp add: seq_effects_def eq)
  also have "\<dots> = (fst (seq_effects f xs S'), fs @ snd (seq_effects f xs S'))"
    by (rule fold_effects_acc)
  finally show ?thesis by (simp add: eq case_prod_beta)
qed

lemma seq_effects_inv:
  assumes "\<And>x S. I S \<Longrightarrow> I (fst (f x S))" and "I S"
  shows "I (fst (seq_effects f xs S))"
  using assms(2) by (induction xs arbitrary: S) (simp_all add: case_prod_beta assms(1))

text \<open>The connections that a list of effects closes, in order.\<close>

fun closed_by :: "srv_effect list \<Rightarrow> conn list" where
  "closed_by [] = []"
| "closed_by (OnConn (CloseConn c) # es) = c # closed_by es"
| "closed_by (_ # es) = closed_by es"

lemma closed_by_append [simp]: "closed_by (es @ fs) = closed_by es @ closed_by fs"
  by (induction es rule: closed_by.induct) simp_all

lemma closed_by_concat: "closed_by (concat ess) = concat (map closed_by ess)"
  by (induction ess) simp_all

text \<open>A loop that deletes the keys of a map it ranges over.\<close>

lemma seq_effects_same:
  assumes "\<And>x S. g (fst (f x S)) = g S" shows "g (fst (seq_effects f xs S)) = g S"
  by (induction xs arbitrary: S) (simp_all add: case_prod_beta assms)

lemma seq_effects_deletes:
  assumes "\<And>q s. g (fst (f q s)) = (g s)(q := None)"
  shows "g (fst (seq_effects f qs s)) = (\<lambda>q. if q \<in> set qs then None else g s q)"
  by (induction qs arbitrary: s) (auto simp: case_prod_beta assms fun_eq_iff)

text \<open>What such a loop closes: for distinct keys, the value of each.\<close>

lemma seq_effects_closed:
  assumes "\<And>q s. closed_by (snd (f q s)) = (case g s q of None \<Rightarrow> [] | Some x \<Rightarrow> cl x)"
    and "\<And>q s. g (fst (f q s)) = (g s)(q := None)" and "distinct qs"
  shows "closed_by (snd (seq_effects f qs s)) =
    concat (map (\<lambda>q. case g s q of None \<Rightarrow> [] | Some x \<Rightarrow> cl x) qs)"
  using assms(3)
proof (induction qs arbitrary: s)
  case (Cons q qs)
  have "map (\<lambda>r. case g (fst (f q s)) r of None \<Rightarrow> [] | Some x \<Rightarrow> cl x) qs =
      map (\<lambda>r. case g s r of None \<Rightarrow> [] | Some x \<Rightarrow> cl x) qs"
    using Cons.prems by (auto simp: assms(2))
  with Cons show ?case by (simp add: case_prod_beta assms(1) del: map_eq_conv)
qed simp

lemma concat_iterated:
  assumes "iterates m qs"
  shows "set (concat (map (\<lambda>q. case m q of None \<Rightarrow> [] | Some x \<Rightarrow> cl x) qs)) =
    {c. \<exists>q x. m q = Some x \<and> c \<in> set (cl x)}"
  using iteratesD(2) [OF assms] by (force split: option.splits)

lemma Session_Stop_closed:
  "set (closed_by (map OnConn (snd (Session_Stop x)))) =
    (if sess_done x then {} else set_option (sess_fe x) \<union> set_option (sess_be x))"
  by (auto simp: Session_Stop_def close_effects_def split: option.splits)

text \<open>
  \<open>(*BufferedConn).Read\<close> with a slice of \<open>n\<close> bytes: what the handshake left in the buffer comes
  first, then the reads of the connection.
\<close>

fun BufferedConn_Read :: "nat \<Rightarrow> reader \<Rightarrow> (string \<times> go_error option) \<times> reader" where
  "BufferedConn_Read n ([], []) = (([], Some timeout_error), ([], []))"
| "BufferedConn_Read n ([], Got s # evs) = ((take n s, None), (drop n s, evs))"
| "BufferedConn_Read n ([], Failed e # evs) = (([], Some e), ([], evs))"
| "BufferedConn_Read n (b # bs, evs) = ((take n (b # bs), None), (drop n (b # bs), evs))"

lemma BufferedConn_Read_bytes:
  "BufferedConn_Read n r = ((data, None), r') \<Longrightarrow> data @ reader_bytes r' = reader_bytes r"
  by (induction n r rule: BufferedConn_Read.induct) (auto simp: reader_bytes_def simp flip: append_assoc)

text \<open>\<open>handleConn\<close> up to the handshake and the check against the pool, which both servers do alike.\<close>

definition alloc_matches :: "Allocation option \<Rightarrow> string \<Rightarrow> bool" where
  "alloc_matches alloc sid \<longleftrightarrow> (case alloc of None \<Rightarrow> False | Some a \<Rightarrow> alloc_SessionID a = sid)"

subsection \<open>The book of one port\<close>

datatype pairing = Paired (pr_session: string) (pr_client: "conn option") (pr_server: "conn option")

record slot =
  sl_server :: "conn option"
  sl_client :: "conn option"
  sl_paired :: "pairing option"

definition free_slot :: slot where
  "free_slot = \<lparr>sl_server = None, sl_client = None, sl_paired = None\<rparr>"

definition a_admit :: "string \<Rightarrow> conn \<Rightarrow> slot \<Rightarrow> slot \<times> conn list" where
  "a_admit role c sl =
     (if sl_paired sl \<noteq> None then (sl, [c])
      else if role = ''server'' then
        (if sl_server sl \<noteq> None then (sl, [c]) else (sl\<lparr>sl_server := Some c\<rparr>, []))
      else if role = ''client'' then
        (if sl_client sl \<noteq> None then (sl, [c]) else (sl\<lparr>sl_client := Some c\<rparr>, []))
      else (sl, [c]))"

definition a_pair :: "Allocation option \<Rightarrow> slot \<Rightarrow> slot \<times> conn list" where
  "a_pair alloc sl =
     (case (sl_paired sl, sl_server sl, sl_client sl) of
        (None, Some sc, Some cc) \<Rightarrow>
          (case alloc of
             None \<Rightarrow> (free_slot, [sc, cc])
           | Some a \<Rightarrow> (free_slot\<lparr>sl_paired := Some (Paired (alloc_SessionID a) (Some cc) (Some sc))\<rparr>, []))
      | _ \<Rightarrow> (sl, []))"

definition a_keep_server :: "Allocation option \<Rightarrow> slot \<Rightarrow> slot \<times> conn list" where
  "a_keep_server alloc sl =
     (case (alloc, sl_server sl) of
        (None, Some c) \<Rightarrow> (sl\<lparr>sl_server := None\<rparr>, [c])
      | _ \<Rightarrow> (sl, []))"

definition a_keep_client :: "Allocation option \<Rightarrow> slot \<Rightarrow> slot \<times> conn list" where
  "a_keep_client alloc sl =
     (case (alloc, sl_client sl) of
        (None, Some c) \<Rightarrow> (sl\<lparr>sl_client := None\<rparr>, [c])
      | _ \<Rightarrow> (sl, []))"

definition a_end :: "slot \<Rightarrow> slot" where
  "a_end sl = sl\<lparr>sl_paired := None\<rparr>"

definition slot_conns :: "slot \<Rightarrow> conn list" where
  "slot_conns sl =
     (case sl_server sl of None \<Rightarrow> [] | Some c \<Rightarrow> [c]) @
     (case sl_client sl of None \<Rightarrow> [] | Some c \<Rightarrow> [c]) @
     (case sl_paired sl of None \<Rightarrow> []
      | Some p \<Rightarrow> (case pr_client p of None \<Rightarrow> [] | Some c \<Rightarrow> [c]) @
                  (case pr_server p of None \<Rightarrow> [] | Some c \<Rightarrow> [c]))"

lemma slot_conns_free [simp]: "slot_conns free_slot = []"
  by (simp add: slot_conns_def free_slot_def)

text \<open>A port with a session has nothing pending.\<close>

definition slot_ok :: "slot \<Rightarrow> bool" where
  "slot_ok sl \<longleftrightarrow> sl_paired sl \<noteq> None \<longrightarrow> sl_server sl = None \<and> sl_client sl = None"

lemma slot_ok_free [simp]: "slot_ok free_slot"
  by (simp add: slot_ok_def free_slot_def)

lemma slot_ok_steps:
  "slot_ok sl \<Longrightarrow> slot_ok (fst (a_admit role c sl))"
  "slot_ok sl \<Longrightarrow> slot_ok (fst (a_pair alloc sl))"
  "slot_ok sl \<Longrightarrow> slot_ok (fst (a_keep_server alloc sl))"
  "slot_ok sl \<Longrightarrow> slot_ok (fst (a_keep_client alloc sl))"
  "slot_ok sl \<Longrightarrow> slot_ok (a_end sl)"
  by (auto simp: slot_ok_def a_admit_def a_pair_def a_keep_server_def a_keep_client_def a_end_def
      free_slot_def split: option.splits)

subsection \<open>Events\<close>

text \<open>
  What happens to the book of a server, event by event: a connection that passed the check is
  admitted; a pairing is tried (while other goroutines make calls of the pool between its two pool
  calls); the maintenance looks at a pending server or client; a session's stop callback removes
  the session; and others call the pool.
\<close>

datatype srv_event =
    EvAdmit port string BufferedConn
  | EvPair time "pool_op list" port
  | EvKeepServer time port
  | EvKeepClient time port
  | EvEnded port
  | EvPool pool_op

fun ev_at :: "srv_event \<Rightarrow> port \<Rightarrow> bool" where
  "ev_at (EvAdmit r _ _) q \<longleftrightarrow> r = q"
| "ev_at (EvPair _ _ r) q \<longleftrightarrow> r = q"
| "ev_at (EvKeepServer _ r) q \<longleftrightarrow> r = q"
| "ev_at (EvKeepClient _ r) q \<longleftrightarrow> r = q"
| "ev_at (EvEnded r) q \<longleftrightarrow> r = q"
| "ev_at (EvPool _) q \<longleftrightarrow> False"

fun a_step :: "srv_event \<Rightarrow> Allocation option \<Rightarrow> slot \<Rightarrow> slot \<times> conn list" where
  "a_step (EvAdmit _ role bc) alloc sl = a_admit role (bc_conn bc) sl"
| "a_step (EvPair _ _ _) alloc sl = a_pair alloc sl"
| "a_step (EvKeepServer _ _) alloc sl = a_keep_server alloc sl"
| "a_step (EvKeepClient _ _) alloc sl = a_keep_client alloc sl"
| "a_step (EvEnded _) alloc sl = (a_end sl, [])"
| "a_step (EvPool _) alloc sl = (sl, [])"

text \<open>The connections an event brings in, and those it hands back with an ended session (the session
  has closed them).\<close>

fun ev_in :: "srv_event \<Rightarrow> conn list" where
  "ev_in (EvAdmit _ _ bc) = [bc_conn bc]"
| "ev_in _ = []"

definition pairing_conns :: "pairing option \<Rightarrow> conn list" where
  "pairing_conns pr =
     (case pr of None \<Rightarrow> []
      | Some p \<Rightarrow> (case pr_client p of None \<Rightarrow> [] | Some c \<Rightarrow> [c]) @
                  (case pr_server p of None \<Rightarrow> [] | Some c \<Rightarrow> [c]))"

fun ev_ended :: "srv_event \<Rightarrow> slot \<Rightarrow> conn list" where
  "ev_ended (EvEnded _) sl = pairing_conns (sl_paired sl)"
| "ev_ended _ sl = []"

lemma a_step_ok: "slot_ok sl \<Longrightarrow> slot_ok (fst (a_step ev alloc sl))"
  by (cases ev) (simp_all add: slot_ok_steps)

text \<open>Every event keeps each connection: in the book, closed or handed back, once.\<close>

lemma a_step_conserve:
  "mset (slot_conns (fst (a_step ev alloc sl))) + mset (snd (a_step ev alloc sl)) + mset (ev_ended ev sl)
     = mset (slot_conns sl) + mset (ev_in ev)"
  by (cases ev)
     (auto simp: slot_conns_def pairing_conns_def a_admit_def a_pair_def a_keep_server_def
       a_keep_client_def a_end_def free_slot_def split: option.splits)

text \<open>What an event does to the pool.\<close>

fun a_pool :: "srv_event \<Rightarrow> (port \<Rightarrow> slot) \<Rightarrow> Pool \<Rightarrow> Pool" where
  "a_pool (EvAdmit _ _ _) f p = p"
| "a_pool (EvPair now others q) f p =
     (if sl_paired (f q) = None \<and> sl_server (f q) \<noteq> None \<and> sl_client (f q) \<noteq> None
      then (case Pool_Allocation p q of
              None \<Rightarrow> p
            | Some a \<Rightarrow> snd (MarkOccupied q (alloc_SessionID a) (fold pool_do others p)))
      else p)"
| "a_pool (EvKeepServer now q) f p =
     (case (sl_server (f q), Pool_Allocation p q) of
        (Some _, Some a) \<Rightarrow> TouchReservation now q (alloc_SessionID a) p
      | _ \<Rightarrow> p)"
| "a_pool (EvKeepClient now q) f p =
     (case (sl_client (f q), Pool_Allocation p q) of
        (Some _, Some a) \<Rightarrow> TouchReservation now q (alloc_SessionID a) p
      | _ \<Rightarrow> p)"
| "a_pool (EvEnded _) f p = p"
| "a_pool (EvPool c) f p = pool_do c p"

lemma a_pool_inv [inv_intros]: "pool_inv p \<Longrightarrow> pool_inv (a_pool ev f p)"
  by (cases ev) (auto simp: inv_intros split: option.split)

text \<open>The abstract server: the books of all ports and the pool.\<close>

definition book_step :: "srv_event \<Rightarrow> (port \<Rightarrow> slot) \<times> Pool \<Rightarrow> (port \<Rightarrow> slot) \<times> Pool" where
  "book_step ev B =
     (let (f, p) = B
      in (\<lambda>q. if ev_at ev q then fst (a_step ev (Pool_Allocation p q) (f q)) else f q, a_pool ev f p))"

text \<open>A run of events under a step function, and what it did at one port: the connections closed
  by the server and those handed back with ended sessions.\<close>

fun run_srv :: "(srv_event \<Rightarrow> 's \<times> Pool \<Rightarrow> ('s \<times> Pool) \<times> srv_effect list) \<Rightarrow>
    srv_event list \<Rightarrow> 's \<times> Pool \<Rightarrow> 's \<times> Pool" where
  "run_srv step [] S = S"
| "run_srv step (ev # evs) S = run_srv step evs (fst (step ev S))"

fun closed_at :: "(srv_event \<Rightarrow> 's \<times> Pool \<Rightarrow> ('s \<times> Pool) \<times> srv_effect list) \<Rightarrow>
    port \<Rightarrow> srv_event list \<Rightarrow> 's \<times> Pool \<Rightarrow> conn list" where
  "closed_at step q [] S = []"
| "closed_at step q (ev # evs) S =
     (if ev_at ev q then closed_by (snd (step ev S)) else []) @ closed_at step q evs (fst (step ev S))"

fun ended_at :: "('s \<Rightarrow> port \<Rightarrow> slot) \<Rightarrow>
    (srv_event \<Rightarrow> 's \<times> Pool \<Rightarrow> ('s \<times> Pool) \<times> srv_effect list) \<Rightarrow>
    port \<Rightarrow> srv_event list \<Rightarrow> 's \<times> Pool \<Rightarrow> conn list" where
  "ended_at slot step q [] S = []"
| "ended_at slot step q (ev # evs) S =
     (if ev_at ev q then ev_ended ev (slot (fst S) q) else []) @ ended_at slot step q evs (fst (step ev S))"

definition admitted_at :: "port \<Rightarrow> srv_event list \<Rightarrow> conn list" where
  "admitted_at q evs = concat (map ev_in (filter (\<lambda>ev. ev_at ev q) evs))"

lemma mset_account:
  fixes a :: "'x multiset"
  assumes "a + c + e = s' + r" and "s' + k + d = s + i"
  shows "a + (k + c) + (d + e) = s + (i + r)"
proof -
  have "a + (k + c) + (d + e) = (a + c + e) + (k + d)" by (simp add: ac_simps)
  also have "\<dots> = (s' + k + d) + r" unfolding assms(1) by (simp add: ac_simps)
  also have "\<dots> = s + (i + r)" unfolding assms(2) by (simp add: ac_simps)
  finally show ?thesis .
qed

subsection \<open>The contract of a data server\<close>

locale pairing_server =
  fixes slot_at :: "'s \<Rightarrow> port \<Rightarrow> slot"
    and srv_ok :: "'s \<Rightarrow> bool"
    and srv_step :: "srv_event \<Rightarrow> 's \<times> Pool \<Rightarrow> ('s \<times> Pool) \<times> srv_effect list"
  assumes step_slot: "srv_ok s \<Longrightarrow> slot_at (fst (fst (srv_step ev (s, p)))) q =
      (if ev_at ev q then fst (a_step ev (Pool_Allocation p q) (slot_at s q)) else slot_at s q)"
    and step_closed: "srv_ok s \<Longrightarrow> ev_at ev q \<Longrightarrow>
      closed_by (snd (srv_step ev (s, p))) = snd (a_step ev (Pool_Allocation p q) (slot_at s q))"
    and step_pool: "srv_ok s \<Longrightarrow> snd (fst (srv_step ev (s, p))) = a_pool ev (slot_at s) p"
    and step_ok: "srv_ok s \<Longrightarrow> srv_ok (fst (fst (srv_step ev (s, p))))"
begin

text \<open>The implementation refines the abstract server.\<close>

lemma step_refines:
  assumes "srv_ok s"
  shows "(slot_at (fst (fst (srv_step ev (s, p)))), snd (fst (srv_step ev (s, p)))) =
    book_step ev (slot_at s, p)"
  using step_slot [OF assms, of ev p] step_pool [OF assms, of ev p] by (auto simp: book_step_def)

lemma run_refines:
  "srv_ok s \<Longrightarrow>
   (slot_at (fst (run_srv srv_step evs (s, p))), snd (run_srv srv_step evs (s, p))) =
    fold book_step evs (slot_at s, p)"
proof (induction evs arbitrary: s p)
  case (Cons ev evs)
  obtain s' p' where S': "fst (srv_step ev (s, p)) = (s', p')" by fastforce
  from Cons.prems have "srv_ok s'" using step_ok [of s ev p] by (simp add: S')
  from Cons.IH [OF this, of p'] step_refines [OF Cons.prems, of ev p] show ?case by (simp add: S')
qed simp

lemma run_conserves:
  "srv_ok s \<Longrightarrow>
   mset (slot_conns (slot_at (fst (run_srv srv_step evs (s, p))) q)) + mset (closed_at srv_step q evs (s, p)) +
     mset (ended_at slot_at srv_step q evs (s, p))
   = mset (slot_conns (slot_at s q)) + mset (admitted_at q evs)"
  unfolding admitted_at_def
proof (induction evs arbitrary: s p)
  case (Cons ev evs)
  obtain s' p' where S': "fst (srv_step ev (s, p)) = (s', p')" by fastforce
  from Cons.prems have ok: "srv_ok s'" using step_ok [of s ev p] by (simp add: S')
  show ?case
  proof (cases "ev_at ev q")
    case True
    then show ?thesis
      using mset_account [OF Cons.IH [OF ok, of p'], of "mset (closed_by (snd (srv_step ev (s, p))))"
          "mset (ev_ended ev (slot_at s q))" "mset (slot_conns (slot_at s q))" "mset (ev_in ev)"]
        step_slot [OF Cons.prems, of ev p q] step_closed [OF Cons.prems True, of p]
        a_step_conserve [of ev "Pool_Allocation p q" "slot_at s q"]
      by (simp add: S')
  next
    case False
    then show ?thesis
      using Cons.IH [OF ok, of p'] step_slot [OF Cons.prems, of ev p q] by (simp add: S')
  qed
qed simp

lemma run_slot_ok:
  assumes "srv_ok s" and "slot_ok (slot_at s q)"
  shows "slot_ok (slot_at (fst (run_srv srv_step evs (s, p))) q)"
proof -
  have "slot_ok (f q) \<Longrightarrow> slot_ok (fst (fold book_step evs (f, p)) q)" for f and p
    by (induction evs arbitrary: f p) (auto simp: book_step_def a_step_ok)
  from this [of "slot_at s", OF assms(2), of p] show ?thesis
    unfolding run_refines [OF assms(1), of evs p, symmetric] by simp
qed

lemma run_pool_inv:
  assumes "srv_ok s" and "pool_inv p"
  shows "pool_inv (snd (run_srv srv_step evs (s, p)))"
proof -
  have "pool_inv p \<Longrightarrow> pool_inv (snd (fold book_step evs (f, p)))" for f p
    by (induction evs arbitrary: f p) (auto simp: book_step_def inv_intros)
  from this [OF assms(2), of "slot_at s"] show ?thesis
    unfolding run_refines [OF assms(1), of evs p, symmetric] by simp
qed

end

end
