(* ===== verification/TcpServer.thy ===== *)
theory TcpServer
  imports Pairing
begin

section \<open>The TCP data server (v4/relay/tcp_server.go)\<close>

text \<open>
  The state of the server under its mutex, and one function per locked region of the source. Where
  a method gives up the mutex, or calls the pool twice, other goroutines may act in between: the
  function then takes what they do as an argument (\<open>env\<close> on the server's state, a list of calls on
  the pool). The order in which Go ranges over a map is an argument too.
\<close>

subsection \<open>State\<close>

record tcpServer =
  tcp_kind :: Kind
  tcp_zmq :: ZeroMQConfig
  tcp_listeners :: "port \<Rightarrow> listener option"
  tcp_pendingS :: "port \<Rightarrow> BufferedConn option"
  tcp_pendingC :: "port \<Rightarrow> BufferedConn option"
  tcp_sessions :: "port \<Rightarrow> Session option"
  tcp_maint :: bool

definition newTCPServer :: "Kind \<Rightarrow> ZeroMQConfig \<Rightarrow> tcpServer" where
  "newTCPServer kind zmq =
     \<lparr>tcp_kind = kind, tcp_zmq = zmq, tcp_listeners = Map.empty, tcp_pendingS = Map.empty,
      tcp_pendingC = Map.empty, tcp_sessions = Map.empty, tcp_maint = False\<rparr>"

subsection \<open>Listeners\<close>

text \<open>\<open>StartPort\<close>: \<open>listen\<close> is the answer of \<open>net.Listen\<close>, \<open>env\<close> what happens to the server while
  the mutex is free.\<close>

definition tcp_StartPort ::
    "go_error + listener \<Rightarrow> (tcpServer \<Rightarrow> tcpServer) \<Rightarrow> port \<Rightarrow> tcpServer \<Rightarrow>
      go_error option \<times> tcpServer \<times> srv_effect list" where
  "tcp_StartPort listen env port s0 =
     (let s = s0\<lparr>tcp_maint := True\<rparr>;
          es = (if tcp_maint s0 then [] else [GoMaintenance])
      in if tcp_listeners s port \<noteq> None then (None, s, es)
         else (case listen of
             Inl e \<Rightarrow> (Some (wrap_err CodeConflict ''tcp listen failed'' e), s, es)
           | Inr ln \<Rightarrow>
               (let s = env s in
                if tcp_listeners s port \<noteq> None then (None, s, es @ [CloseListener ln])
                else (None, s\<lparr>tcp_listeners := (tcp_listeners s)(port \<mapsto> ln)\<rparr>,
                      es @ [GoAccept port ln]))))"

text \<open>\<open>acceptLoop\<close>: every accepted connection gets a goroutine, the first error ends the loop.\<close>

fun tcp_acceptLoop :: "port \<Rightarrow> (go_error + conn) list \<Rightarrow> srv_effect list" where
  "tcp_acceptLoop port [] = []"
| "tcp_acceptLoop port (Inl e # rs) = []"
| "tcp_acceptLoop port (Inr c # rs) = GoHandle port c # tcp_acceptLoop port rs"

subsection \<open>A new connection\<close>

definition tcp_sockopts :: "tcpServer \<Rightarrow> bool \<Rightarrow> conn \<Rightarrow> srv_effect list" where
  "tcp_sockopts s is_tcp c =
     (if is_tcp \<and> tcp_kind s = KindZMQ then
        [SetNoDelay c] @
        (if zmq_SNDBUF (tcp_zmq s) > 0 then [SetWriteBuffer c (zmq_SNDBUF (tcp_zmq s))] else []) @
        (if zmq_RCVBUF (tcp_zmq s) > 0 then [SetReadBuffer c (zmq_RCVBUF (tcp_zmq s))] else []) @
        (if zmq_Linger (tcp_zmq s) \<ge> 0 then [SetLinger c (zmq_Linger (tcp_zmq s))] else [])
      else [])"

text \<open>The handshake and the check of the session id against the pool: a connection that fails either
  is closed, one that passes goes on with its role.\<close>

definition tcp_check ::
    "tcpServer \<Rightarrow> Pool \<Rightarrow> bool \<Rightarrow> port \<Rightarrow> conn \<Rightarrow> read_result list \<Rightarrow>
      (string \<times> BufferedConn) option \<times> srv_effect list" where
  "tcp_check s p is_tcp port c reads =
     (let es = tcp_sockopts s is_tcp c in
      case ReadHello reads of
        (Inl e, r) \<Rightarrow> (None, es @ [close_conn c])
      | (Inr h, r) \<Rightarrow>
          (if alloc_matches (Pool_Allocation p port) (hello_SessionID h)
           then (Some (hello_Role h, \<lparr>bc_conn = c, bc_reader = r\<rparr>), es)
           else (None, es @ [close_conn c])))"

definition tcp_admit ::
    "port \<Rightarrow> string \<Rightarrow> BufferedConn \<Rightarrow> tcpServer \<Rightarrow> tcpServer \<times> srv_effect list" where
  "tcp_admit port role bc s =
     (if tcp_sessions s port \<noteq> None then (s, [close_conn (bc_conn bc)])
      else if role = ''server'' then
        (if tcp_pendingS s port \<noteq> None then (s, [close_conn (bc_conn bc)])
         else (s\<lparr>tcp_pendingS := (tcp_pendingS s)(port \<mapsto> bc)\<rparr>, [GoTryPair port]))
      else if role = ''client'' then
        (if tcp_pendingC s port \<noteq> None then (s, [close_conn (bc_conn bc)])
         else (s\<lparr>tcp_pendingC := (tcp_pendingC s)(port \<mapsto> bc)\<rparr>, [GoTryPair port]))
      else (s, [close_conn (bc_conn bc)]))"

definition tcp_handleConn ::
    "(tcpServer \<Rightarrow> tcpServer) \<Rightarrow> bool \<Rightarrow> port \<Rightarrow> conn \<Rightarrow> read_result list \<Rightarrow> tcpServer \<Rightarrow> Pool \<Rightarrow>
      tcpServer \<times> srv_effect list" where
  "tcp_handleConn env is_tcp port c reads s p =
     (case tcp_check s p is_tcp port c reads of
        (None, es) \<Rightarrow> (env s, es)
      | (Some (role, bc), es) \<Rightarrow> (let (s', fs) = tcp_admit port role bc (env s) in (s', es @ fs)))"

subsection \<open>Pairing\<close>

definition tcp_tryPair ::
    "time \<Rightarrow> pool_op list \<Rightarrow> port \<Rightarrow> tcpServer \<times> Pool \<Rightarrow> (tcpServer \<times> Pool) \<times> srv_effect list" where
  "tcp_tryPair now others port S =
     (let (s, p) = S in
      if tcp_sessions s port \<noteq> None then (S, [])
      else (case (tcp_pendingS s port, tcp_pendingC s port) of
          (Some sc, Some cc) \<Rightarrow>
            (let s = s\<lparr>tcp_pendingS := (tcp_pendingS s)(port := None),
                       tcp_pendingC := (tcp_pendingC s)(port := None)\<rparr>
             in case Pool_Allocation p port of
                  None \<Rightarrow> ((s, p), [close_conn (bc_conn sc), close_conn (bc_conn cc)])
                | Some alloc \<Rightarrow>
                    (let sess = NewSession now (Kind_text (tcp_kind s)) port (alloc_SessionID alloc)
                           (alloc_ServerID alloc) (alloc_ClientID alloc)
                           (Some (bc_conn cc)) (Some (bc_conn sc));
                         s = s\<lparr>tcp_sessions := (tcp_sessions s)(port \<mapsto> sess)\<rparr>;
                         p = snd (MarkOccupied port (alloc_SessionID alloc) (fold pool_do others p))
                     in ((s, p), [GoSession port (alloc_SessionID alloc)])))
        | _ \<Rightarrow> (S, [])))"

text \<open>The stop callback of a session: first the locked removal, then the release of the port and
  the callback of the manager.\<close>

definition tcp_ended :: "port \<Rightarrow> tcpServer \<Rightarrow> tcpServer" where
  "tcp_ended port s = s\<lparr>tcp_sessions := (tcp_sessions s)(port := None)\<rparr>"

definition tcp_released :: "bool \<Rightarrow> port \<Rightarrow> string \<Rightarrow> Pool \<Rightarrow> Pool \<times> srv_effect list" where
  "tcp_released has_callback port sid p =
     (snd (Release port sid p), if has_callback then [OnSessionStop port sid] else [])"

definition tcp_TickPair ::
    "(time \<times> pool_op list \<times> port) list \<Rightarrow> tcpServer \<times> Pool \<Rightarrow> (tcpServer \<times> Pool) \<times> srv_effect list" where
  "tcp_TickPair tries S =
     seq_effects (\<lambda>(now, others, port). tcp_tryPair now others port) tries S"

subsection \<open>Maintenance\<close>

definition tcp_keepS :: "time \<Rightarrow> port \<Rightarrow> tcpServer \<times> Pool \<Rightarrow> (tcpServer \<times> Pool) \<times> srv_effect list" where
  "tcp_keepS now port S =
     (let (s, p) = S in
      case tcp_pendingS s port of
        None \<Rightarrow> (S, [])
      | Some c \<Rightarrow>
          (case Pool_Allocation p port of
             None \<Rightarrow> ((s\<lparr>tcp_pendingS := (tcp_pendingS s)(port := None)\<rparr>, p), [close_conn (bc_conn c)])
           | Some alloc \<Rightarrow> ((s, TouchReservation now port (alloc_SessionID alloc) p), [])))"

definition tcp_keepC :: "time \<Rightarrow> port \<Rightarrow> tcpServer \<times> Pool \<Rightarrow> (tcpServer \<times> Pool) \<times> srv_effect list" where
  "tcp_keepC now port S =
     (let (s, p) = S in
      case tcp_pendingC s port of
        None \<Rightarrow> (S, [])
      | Some c \<Rightarrow>
          (case Pool_Allocation p port of
             None \<Rightarrow> ((s\<lparr>tcp_pendingC := (tcp_pendingC s)(port := None)\<rparr>, p), [close_conn (bc_conn c)])
           | Some alloc \<Rightarrow> ((s, TouchReservation now port (alloc_SessionID alloc) p), [])))"

definition tcp_maintainPending ::
    "port list \<Rightarrow> port list \<Rightarrow> time \<Rightarrow> tcpServer \<times> Pool \<Rightarrow> (tcpServer \<times> Pool) \<times> srv_effect list" where
  "tcp_maintainPending orderS orderC now S =
     (let (S1, es) = seq_effects (tcp_keepS now) orderS S;
          (S2, fs) = seq_effects (tcp_keepC now) orderC S1
      in (S2, es @ fs))"

subsection \<open>Shutdown and snapshots\<close>

definition tcp_stopL :: "port \<Rightarrow> tcpServer \<Rightarrow> tcpServer \<times> srv_effect list" where
  "tcp_stopL port s =
     (case tcp_listeners s port of None \<Rightarrow> (s, [])
      | Some ln \<Rightarrow> (s\<lparr>tcp_listeners := (tcp_listeners s)(port := None)\<rparr>, [CloseListener ln]))"

definition tcp_stopS :: "port \<Rightarrow> tcpServer \<Rightarrow> tcpServer \<times> srv_effect list" where
  "tcp_stopS port s =
     (case tcp_pendingS s port of None \<Rightarrow> (s, [])
      | Some c \<Rightarrow> (s\<lparr>tcp_pendingS := (tcp_pendingS s)(port := None)\<rparr>, [close_conn (bc_conn c)]))"

definition tcp_stopC :: "port \<Rightarrow> tcpServer \<Rightarrow> tcpServer \<times> srv_effect list" where
  "tcp_stopC port s =
     (case tcp_pendingC s port of None \<Rightarrow> (s, [])
      | Some c \<Rightarrow> (s\<lparr>tcp_pendingC := (tcp_pendingC s)(port := None)\<rparr>, [close_conn (bc_conn c)]))"

definition tcp_stopP :: "port \<Rightarrow> tcpServer \<Rightarrow> tcpServer \<times> srv_effect list" where
  "tcp_stopP port s =
     (case tcp_sessions s port of None \<Rightarrow> (s, [])
      | Some sess \<Rightarrow> (s\<lparr>tcp_sessions := (tcp_sessions s)(port := None)\<rparr>,
                      map OnConn (snd (Session_Stop sess))))"

definition tcp_StopAll ::
    "port list \<Rightarrow> port list \<Rightarrow> port list \<Rightarrow> port list \<Rightarrow> tcpServer \<Rightarrow> tcpServer \<times> srv_effect list" where
  "tcp_StopAll orderL orderS orderC orderP s =
     (let (s, es1) = seq_effects tcp_stopL orderL s;
          (s, es2) = seq_effects tcp_stopS orderS s;
          (s, es3) = seq_effects tcp_stopC orderC s;
          (s, es4) = seq_effects tcp_stopP orderP s
      in (s, es1 @ es2 @ es3 @ es4))"

definition tcp_Sessions :: "port list \<Rightarrow> tcpServer \<Rightarrow> Session list" where
  "tcp_Sessions order s = List.map_filter (tcp_sessions s) order"

subsection \<open>The TCP server keeps the book of every port\<close>

definition tcp_slot :: "tcpServer \<Rightarrow> port \<Rightarrow> slot" where
  "tcp_slot s q =
     \<lparr>sl_server = map_option bc_conn (tcp_pendingS s q),
      sl_client = map_option bc_conn (tcp_pendingC s q),
      sl_paired = map_option (\<lambda>x. Paired (sess_id x) (sess_fe x) (sess_be x)) (tcp_sessions s q)\<rparr>"

fun tcp_step :: "srv_event \<Rightarrow> tcpServer \<times> Pool \<Rightarrow> (tcpServer \<times> Pool) \<times> srv_effect list" where
  "tcp_step (EvAdmit port role bc) S =
     (let (s', es) = tcp_admit port role bc (fst S) in ((s', snd S), es))"
| "tcp_step (EvPair now others port) S = tcp_tryPair now others port S"
| "tcp_step (EvKeepServer now port) S = tcp_keepS now port S"
| "tcp_step (EvKeepClient now port) S = tcp_keepC now port S"
| "tcp_step (EvEnded port) S = ((tcp_ended port (fst S), snd S), [])"
| "tcp_step (EvPool c) S = ((fst S, pool_do c (snd S)), [])"

lemma tcp_admit_slot:
  "tcp_slot (fst (tcp_admit port role bc s)) q =
     (if q = port then fst (a_admit role (bc_conn bc) (tcp_slot s q)) else tcp_slot s q)"
  "closed_by (snd (tcp_admit port role bc s)) = snd (a_admit role (bc_conn bc) (tcp_slot s port))"
  by (auto simp: tcp_admit_def a_admit_def tcp_slot_def)

lemma tcp_tryPair_slot:
  "tcp_slot (fst (fst (tcp_tryPair now others port (s, p)))) q =
     (if q = port then fst (a_pair (Pool_Allocation p q) (tcp_slot s q)) else tcp_slot s q)"
  "closed_by (snd (tcp_tryPair now others port (s, p))) =
     snd (a_pair (Pool_Allocation p port) (tcp_slot s port))"
  by (auto simp: tcp_tryPair_def a_pair_def tcp_slot_def free_slot_def Let_def NewSession_def
      split: option.splits)

lemma tcp_keep_slot:
  "tcp_slot (fst (fst (tcp_keepS now port (s, p)))) q =
     (if q = port then fst (a_keep_server (Pool_Allocation p q) (tcp_slot s q)) else tcp_slot s q)"
  "closed_by (snd (tcp_keepS now port (s, p))) =
     snd (a_keep_server (Pool_Allocation p port) (tcp_slot s port))"
  "tcp_slot (fst (fst (tcp_keepC now port (s, p)))) q =
     (if q = port then fst (a_keep_client (Pool_Allocation p q) (tcp_slot s q)) else tcp_slot s q)"
  "closed_by (snd (tcp_keepC now port (s, p))) =
     snd (a_keep_client (Pool_Allocation p port) (tcp_slot s port))"
  by (auto simp: tcp_keepS_def tcp_keepC_def a_keep_server_def a_keep_client_def tcp_slot_def
      split: option.splits)

lemma tcp_ended_slot:
  "tcp_slot (tcp_ended port s) q = (if q = port then a_end (tcp_slot s q) else tcp_slot s q)"
  by (simp add: tcp_ended_def a_end_def tcp_slot_def)

lemma tcp_step_pool: "snd (fst (tcp_step ev (s, p))) = a_pool ev (tcp_slot s) p"
  by (cases ev)
     (auto simp: case_prod_beta tcp_tryPair_def tcp_keepS_def tcp_keepC_def tcp_slot_def Let_def
       split: option.split)

interpretation tcp: pairing_server tcp_slot "\<lambda>s. True" tcp_step
proof
  show "tcp_slot (fst (fst (tcp_step ev (s, p)))) q =
      (if ev_at ev q then fst (a_step ev (Pool_Allocation p q) (tcp_slot s q)) else tcp_slot s q)" for ev s p q
    by (cases ev) (auto simp: case_prod_beta tcp_admit_slot tcp_tryPair_slot tcp_keep_slot tcp_ended_slot)
  show "ev_at ev q \<Longrightarrow>
      closed_by (snd (tcp_step ev (s, p))) = snd (a_step ev (Pool_Allocation p q) (tcp_slot s q))" for ev s p q
    by (cases ev) (auto simp: case_prod_beta tcp_admit_slot tcp_tryPair_slot tcp_keep_slot)
qed (rule tcp_step_pool TrueI)+

lemma tcp_slot_new [simp]: "tcp_slot (newTCPServer kind zmq) q = free_slot"
  by (simp add: tcp_slot_def newTCPServer_def free_slot_def)

text \<open>
  C1. The TCP server neither loses nor duplicates a connection: for any run of its handlers, in any
  interleaving with other callers of the pool, the connections admitted at a port are exactly those
  pending there or joined in its session, plus those the server closed, plus those of sessions that
  ended (which the session closes itself), each counted once.
\<close>

theorem tcp_connections_accounted:
  "mset (slot_conns (tcp_slot (fst (run_srv tcp_step evs (newTCPServer kind zmq, p))) q)) +
     mset (closed_at tcp_step q evs (newTCPServer kind zmq, p)) +
     mset (ended_at tcp_slot tcp_step q evs (newTCPServer kind zmq, p))
   = mset (admitted_at q evs)"
  using tcp.run_conserves [OF TrueI, where s = "newTCPServer kind zmq"] by simp

text \<open>
  At most one session per port, and nothing pending beside it: in any run of the TCP server a port
  with a session has no pending server and no pending client, so no second pairing can be
  formed on the port while the session lives; and the pool keeps its invariant.
\<close>

theorem tcp_session_exclusive:
  assumes "NewPool kind' start fin = Inr p"
    and "run_srv tcp_step evs (newTCPServer kind zmq, p) = (s, p')"
  shows "(tcp_sessions s q \<noteq> None \<longrightarrow>
      tcp_pendingS s q = None \<and> tcp_pendingC s q = None \<and>
      tcp_tryPair now others q (s, p') = ((s, p'), [])) \<and> pool_inv p'"
proof -
  have "slot_ok (tcp_slot s q)"
    using tcp.run_slot_ok [OF TrueI, where s = "newTCPServer kind zmq" and q = q and evs = evs and p = p] assms(2) by simp
  moreover have "pool_inv p'"
    using tcp.run_pool_inv [OF TrueI pool_inv_NewPool [OF assms(1)], where s = "newTCPServer kind zmq" and evs = evs] assms(2)
    by simp
  ultimately show ?thesis by (auto simp: slot_ok_def tcp_slot_def tcp_tryPair_def)
qed

definition ex_zmq :: ZeroMQConfig where "ex_zmq = cfg_ZeroMQ DefaultConfig"

lemma tcp_session_exclusive_witness:
  "pool_inv (snd (run_srv tcp_step [EvPair 0 [] 7] (newTCPServer KindZMQ ex_zmq,
     fold add_port [7..9] (empty_pool KindZMQ))))"
proof -
  let ?S = "run_srv tcp_step [EvPair 0 [] 7] (newTCPServer KindZMQ ex_zmq, fold add_port [7..9] (empty_pool KindZMQ))"
  have "NewPool KindZMQ 7 9 = Inr (fold add_port [7..9] (empty_pool KindZMQ))"
    by (simp add: NewPool_def)
  from tcp_session_exclusive [OF this, of "[EvPair 0 [] 7]" KindZMQ ex_zmq "fst ?S" "snd ?S"]
  show ?thesis by (simp only: prod.collapse simp_thms)
qed

subsection \<open>From two hellos to a session, and its end\<close>

lemma closed_by_sockopts [simp]: "closed_by (tcp_sockopts s is_tcp c) = []"
  by (simp add: tcp_sockopts_def)

lemma tcp_check_hello:
  assumes "role = ''server'' \<or> role = ''client''"
    and "plain_text sid" "solid sid" "plain_text ident" "solid ident"
    and "event_bytes reads = writeHello role sid ident @ rest"
    and "Pool_Allocation p port = Some a" and "alloc_SessionID a = sid"
  obtains r where "tcp_check s p is_tcp port c reads =
      (Some (role, \<lparr>bc_conn = c, bc_reader = r\<rparr>), tcp_sockopts s is_tcp c)" and "reader_bytes r = rest"
proof -
  obtain r where r: "ReadHello reads = (Inr \<lparr>hello_Role = role, hello_SessionID = sid, hello_ID = ident\<rparr>, r)"
    "reader_bytes r = rest"
    using ReadHello_parts [OF assms(1-6)] by blast
  with assms(7,8) show thesis by (intro that [of r]) (simp_all add: tcp_check_def alloc_matches_def)
qed

text \<open>A connection whose hello names the session of its port goes on to be admitted.\<close>

lemma tcp_handle_hello:
  assumes "role = ''server'' \<or> role = ''client''"
    and "plain_text sid" "solid sid" "plain_text ident" "solid ident"
    and "event_bytes reads = writeHello role sid ident @ rest"
    and "Pool_Allocation p port = Some a" and "alloc_SessionID a = sid"
  obtains bc s' es where "tcp_admit port role bc s = (s', es)" and "bc_conn bc = c"
    and "tcp_handleConn id is_tcp port c reads s p = (s', tcp_sockopts s is_tcp c @ es)"
proof -
  obtain r where k: "tcp_check s p is_tcp port c reads =
      (Some (role, \<lparr>bc_conn = c, bc_reader = r\<rparr>), tcp_sockopts s is_tcp c)"
    using tcp_check_hello [OF assms, of s is_tcp c] by blast
  obtain s' es where a: "tcp_admit port role \<lparr>bc_conn = c, bc_reader = r\<rparr> s = (s', es)" by fastforce
  show thesis
    by (rule that [OF a]) (simp_all add: tcp_handleConn_def k a)
qed

lemma tcp_slot_free_iff:
  "tcp_slot s q = free_slot \<longleftrightarrow>
     tcp_pendingS s q = None \<and> tcp_pendingC s q = None \<and> tcp_sessions s q = None"
  by (auto simp: tcp_slot_def free_slot_def)

lemma tcp_admit_fresh:
  "tcp_sessions s q = None \<Longrightarrow> tcp_pendingS s q = None \<Longrightarrow>
     tcp_admit q ''server'' bc s = (s\<lparr>tcp_pendingS := (tcp_pendingS s)(q \<mapsto> bc)\<rparr>, [GoTryPair q])"
  "tcp_sessions s q = None \<Longrightarrow> tcp_pendingC s q = None \<Longrightarrow>
     tcp_admit q ''client'' bc s = (s\<lparr>tcp_pendingC := (tcp_pendingC s)(q \<mapsto> bc)\<rparr>, [GoTryPair q])"
  by (simp_all add: tcp_admit_def)

text \<open>Admitting a server and a client on a free port, in either order.\<close>

lemma tcp_admit_both:
  assumes "tcp_slot s q = free_slot"
    and "r1 = ''server'' \<and> r2 = ''client'' \<or> r1 = ''client'' \<and> r2 = ''server''"
    and "tcp_admit q r1 b1 s = (s1, es1)" and "tcp_admit q r2 b2 s1 = (s2, es2)"
  shows "tcp_kind s2 = tcp_kind s \<and> tcp_sessions s2 q = None \<and>
    tcp_pendingS s2 q = Some (if r1 = ''server'' then b1 else b2) \<and>
    tcp_pendingC s2 q = Some (if r1 = ''client'' then b1 else b2) \<and> closed_by (es1 @ es2) = []"
proof -
  have free: "tcp_pendingS s q = None" "tcp_pendingC s q = None" "tcp_sessions s q = None"
    using assms(1) by (simp_all add: tcp_slot_free_iff)
  from assms(2) show ?thesis
  proof (elim disjE conjE)
    assume r: "r1 = ''server''" "r2 = ''client''"
    have "s1 = s\<lparr>tcp_pendingS := (tcp_pendingS s)(q \<mapsto> b1)\<rparr>" "es1 = [GoTryPair q]"
      using assms(3) tcp_admit_fresh(1) [OF free(3,1), of b1] by (simp_all add: r(1))
    moreover from this have "s2 = s1\<lparr>tcp_pendingC := (tcp_pendingC s1)(q \<mapsto> b2)\<rparr>" "es2 = [GoTryPair q]"
      using assms(4) tcp_admit_fresh(2) [of s1 q b2] free by (simp_all add: r(2))
    ultimately show ?thesis using free by (simp add: r(1))
  next
    assume r: "r1 = ''client''" "r2 = ''server''"
    have "s1 = s\<lparr>tcp_pendingC := (tcp_pendingC s)(q \<mapsto> b1)\<rparr>" "es1 = [GoTryPair q]"
      using assms(3) tcp_admit_fresh(2) [OF free(3,2), of b1] by (simp_all add: r(1))
    moreover from this have "s2 = s1\<lparr>tcp_pendingS := (tcp_pendingS s1)(q \<mapsto> b2)\<rparr>" "es2 = [GoTryPair q]"
      using assms(4) tcp_admit_fresh(1) [of s1 q b2] free by (simp_all add: r(2))
    ultimately show ?thesis using free by (simp add: r(1))
  qed
qed

definition peer_conn :: "string \<Rightarrow> string \<Rightarrow> conn \<Rightarrow> conn \<Rightarrow> conn" where
  "peer_conn role r1 c1 c2 = (if r1 = role then c1 else c2)"

text \<open>
  C2. Two peers that present the session of a reserved port get joined, whichever comes first: with
  nothing on the port, the two connections (a server and a client, each sending its hello in any
  fragmentation) are handled, pairing makes the port occupied by that very allocation and starts
  the session that copies between the two, nothing is closed; and when the session has stopped, its
  callback leaves the port idle and its book free.
\<close>

theorem tcp_two_hellos_make_session:
  assumes "pool_inv p" and "view_port p q = VReserved a" and "tcp_slot s q = free_slot"
    and "r1 = ''server'' \<and> r2 = ''client'' \<or> r1 = ''client'' \<and> r2 = ''server''"
    and "plain_text (alloc_SessionID a)" "solid (alloc_SessionID a)"
    and "plain_text id1" "solid id1" "plain_text id2" "solid id2"
    and "event_bytes reads1 = writeHello r1 (alloc_SessionID a) id1 @ rest1"
    and "event_bytes reads2 = writeHello r2 (alloc_SessionID a) id2 @ rest2"
  shows "let (s1, es1) = tcp_handleConn id True q c1 reads1 s p;
             (s2, es2) = tcp_handleConn id True q c2 reads2 s1 p;
             ((s3, p3), es3) = tcp_tryPair now [] q (s2, p);
             sid = alloc_SessionID a;
             (p4, es4) = tcp_released True q sid p3
         in tcp_sessions s3 q = Some (NewSession now (Kind_text (tcp_kind s)) q sid
               (alloc_ServerID a) (alloc_ClientID a)
               (Some (peer_conn ''client'' r1 c1 c2)) (Some (peer_conn ''server'' r1 c1 c2))) \<and>
            view_port p3 q = VOccupied a \<and> closed_by (es1 @ es2 @ es3) = [] \<and>
            tcp_slot (tcp_ended q s3) q = free_slot \<and> view_port p4 q = VIdle \<and>
            es4 = [OnSessionStop q sid]"
proof -
  have al: "Pool_Allocation p q = Some a"
    using pool_reg.allocation_view [OF assms(1), of q] assms(2) by simp
  have roles: "r1 = ''server'' \<or> r1 = ''client''" "r2 = ''server'' \<or> r2 = ''client''"
    using assms(4) by auto
  obtain b1 s1 es1 where a1: "tcp_admit q r1 b1 s = (s1, es1)" and b1: "bc_conn b1 = c1"
    and h1: "tcp_handleConn id True q c1 reads1 s p = (s1, tcp_sockopts s True c1 @ es1)"
    using tcp_handle_hello [OF roles(1) assms(5,6,7,8,11) al refl] by metis
  obtain b2 s2 es2 where a2: "tcp_admit q r2 b2 s1 = (s2, es2)" and b2: "bc_conn b2 = c2"
    and h2: "tcp_handleConn id True q c2 reads2 s1 p = (s2, tcp_sockopts s1 True c2 @ es2)"
    using tcp_handle_hello [OF roles(2) assms(5,6,9,10,12) al refl] by metis
  note both = tcp_admit_both [OF assms(3,4) a1 a2]
  have mark: "view_port (snd (MarkOccupied q (alloc_SessionID a) p)) q = VOccupied a"
    "pool_inv (snd (MarkOccupied q (alloc_SessionID a) p))"
    by (simp_all add: view_MarkOccupied assms(1,2) pool_inv_MarkOccupied)
  have conns: "bc_conn (if r1 = ''server'' then b1 else b2) = peer_conn ''server'' r1 c1 c2"
    "bc_conn (if r1 = ''client'' then b1 else b2) = peer_conn ''client'' r1 c1 c2"
    by (simp_all add: b1 b2 peer_conn_def)
  show ?thesis
    using both mark
    by (simp add: h1 h2 tcp_tryPair_def al conns Let_def tcp_released_def view_Release
        tcp_ended_def tcp_slot_free_iff)
qed

lemma ex_pool_reserved:
  obtains a where "view_port ex_pool 7 = VReserved a" "alloc_SessionID a = ''s''"
    "alloc_ReservedAt a = 5" "alloc_Port a = 7"
  by (simp add: ex_pool_def Reserve_def add_port_def empty_pool_def upto.simps view_port_def Let_def)

lemma tcp_two_hellos_make_session_witness:
  "let (s1, es1) = tcp_handleConn id True 7 1 [Got (writeHello ''server'' ''s'' ''b'')]
         (newTCPServer KindZMQ ex_zmq) ex_pool;
       (s2, es2) = tcp_handleConn id True 7 2 [Got (writeHello ''client'' ''s'' ''f'' @ ''data'')] s1 ex_pool;
       ((s3, p3), es3) = tcp_tryPair 9 [] 7 (s2, ex_pool);
       (p4, es4) = tcp_released True 7 ''s'' p3
   in map_option sess_id (tcp_sessions s3 7) = Some ''s'' \<and> view_port p4 7 = VIdle"
proof -
  obtain a where a: "view_port ex_pool 7 = VReserved a" "alloc_SessionID a = ''s''"
    using ex_pool_reserved by metis
  have plain: "plain_text ''s''" "solid ''s''" "plain_text ''b''" "solid ''b''" "plain_text ''f''" "solid ''f''"
    by (simp_all add: plain_char_def code_of_def solid_def visible_def)
  note th = tcp_two_hellos_make_session [OF ex_pool_inv a(1), where s = "newTCPServer KindZMQ ex_zmq" and
      ?r1.0 = "''server''" and ?r2.0 = "''client''" and ?id1.0 = "''b''" and ?id2.0 = "''f''" and
      ?reads1.0 = "[Got (writeHello ''server'' ''s'' ''b'')]" and
      ?reads2.0 = "[Got (writeHello ''client'' ''s'' ''f'' @ ''data'')]" and
      ?rest1.0 = "[]" and ?rest2.0 = "''data''" and ?c1.0 = 1 and ?c2.0 = 2 and now = 9, unfolded a(2),
      OF tcp_slot_new disjI1 [OF conjI [OF refl refl]] plain]
  show ?thesis
    using th by (simp add: case_prod_beta Let_def NewSession_def del: One_nat_def)
qed

text \<open>
  What becomes of a new data connection, on every branch: it is kept, as the pending server or
  client of its port, exactly when its hello is accepted, names the session the port is allocated
  to, no session runs there and nobody of its role is pending; then nothing is closed and a pairing
  is tried. On every other branch the server is unchanged and exactly this connection is closed.
\<close>

theorem tcp_handleConn_outcome:
  "case tcp_handleConn id is_tcp port c reads s p of (s', es) \<Rightarrow>
     if \<exists>h. fst (ReadHello reads) = Inr h \<and>
          map_option alloc_SessionID (Pool_Allocation p port) = Some (hello_SessionID h) \<and>
          tcp_sessions s port = None \<and>
          (if hello_Role h = ''server'' then tcp_pendingS s port = None else tcp_pendingC s port = None)
     then closed_by es = [] \<and> GoTryPair port \<in> set es \<and>
          (\<exists>h. fst (ReadHello reads) = Inr h \<and> tcp_slot s' port =
            (if hello_Role h = ''server'' then (tcp_slot s port)\<lparr>sl_server := Some c\<rparr>
             else (tcp_slot s port)\<lparr>sl_client := Some c\<rparr>)) \<and>
          (\<forall>q. q = port \<or> tcp_slot s' q = tcp_slot s q)
     else s' = s \<and> closed_by es = [c]"
proof -
  obtain res r where rh: "ReadHello reads = (res, r)" by (meson surj_pair)
  show ?thesis
  proof (cases res)
    case (Inl e)
    then show ?thesis by (simp add: tcp_handleConn_def tcp_check_def rh)
  next
    case (Inr h)
    have role: "hello_Role h = ''server'' \<or> hello_Role h = ''client''"
      using ReadHello_fields [of reads] rh Inr by auto
    have m: "alloc_matches (Pool_Allocation p port) (hello_SessionID h) \<longleftrightarrow>
        map_option alloc_SessionID (Pool_Allocation p port) = Some (hello_SessionID h)"
      by (simp add: alloc_matches_def split: option.split)
    show ?thesis
    proof (cases "map_option alloc_SessionID (Pool_Allocation p port) = Some (hello_SessionID h)")
      case False
      then have "tcp_handleConn id is_tcp port c reads s p = (s, tcp_sockopts s is_tcp c @ [close_conn c])"
        using Inr by (simp add: tcp_handleConn_def tcp_check_def rh m Let_def del: map_option_eq_Some)
      with False Inr show ?thesis by (simp add: rh del: map_option_eq_Some)
    next
      case True
      let ?bc = "\<lparr>bc_conn = c, bc_reader = r\<rparr>"
      have eq: "tcp_handleConn id is_tcp port c reads s p =
          (fst (tcp_admit port (hello_Role h) ?bc s),
           tcp_sockopts s is_tcp c @ snd (tcp_admit port (hello_Role h) ?bc s))"
        using True Inr by (simp add: tcp_handleConn_def tcp_check_def rh m Let_def case_prod_beta del: map_option_eq_Some)
      from role show ?thesis
        unfolding eq rh using True Inr
        by (elim disjE) (simp_all add: tcp_admit_def tcp_slot_def del: map_option_eq_Some)
    qed
  qed
qed

subsection \<open>Shutdown\<close>

text \<open>A loop that deletes keys empties the map it ranges over.\<close>

lemma stop_frames [simp]:
  "tcp_pendingS (fst (tcp_stopL q s)) = tcp_pendingS s" "tcp_pendingC (fst (tcp_stopL q s)) = tcp_pendingC s"
  "tcp_sessions (fst (tcp_stopL q s)) = tcp_sessions s"
  "tcp_listeners (fst (tcp_stopS q s)) = tcp_listeners s" "tcp_pendingC (fst (tcp_stopS q s)) = tcp_pendingC s"
  "tcp_sessions (fst (tcp_stopS q s)) = tcp_sessions s"
  "tcp_listeners (fst (tcp_stopC q s)) = tcp_listeners s" "tcp_pendingS (fst (tcp_stopC q s)) = tcp_pendingS s"
  "tcp_sessions (fst (tcp_stopC q s)) = tcp_sessions s"
  "tcp_listeners (fst (tcp_stopP q s)) = tcp_listeners s" "tcp_pendingS (fst (tcp_stopP q s)) = tcp_pendingS s"
  "tcp_pendingC (fst (tcp_stopP q s)) = tcp_pendingC s"
  by (simp_all add: tcp_stopL_def tcp_stopS_def tcp_stopC_def tcp_stopP_def split: option.split)

lemma stop_deletes [simp]:
  "tcp_listeners (fst (tcp_stopL q s)) = (tcp_listeners s)(q := None)"
  "tcp_pendingS (fst (tcp_stopS q s)) = (tcp_pendingS s)(q := None)"
  "tcp_pendingC (fst (tcp_stopC q s)) = (tcp_pendingC s)(q := None)"
  "tcp_sessions (fst (tcp_stopP q s)) = (tcp_sessions s)(q := None)"
  by (auto simp: tcp_stopL_def tcp_stopS_def tcp_stopC_def tcp_stopP_def split: option.split)

lemma stop_closed:
  "closed_by (snd (tcp_stopL q s)) = (case tcp_listeners s q of None \<Rightarrow> [] | Some x \<Rightarrow> [])"
  "closed_by (snd (tcp_stopS q s)) = (case tcp_pendingS s q of None \<Rightarrow> [] | Some x \<Rightarrow> [bc_conn x])"
  "closed_by (snd (tcp_stopC q s)) = (case tcp_pendingC s q of None \<Rightarrow> [] | Some x \<Rightarrow> [bc_conn x])"
  "closed_by (snd (tcp_stopP q s)) =
     (case tcp_sessions s q of None \<Rightarrow> [] | Some x \<Rightarrow> closed_by (map OnConn (snd (Session_Stop x))))"
  by (simp_all add: tcp_stopL_def tcp_stopS_def tcp_stopC_def tcp_stopP_def split: option.split)

text \<open>The listeners that are closed.\<close>

lemma stopL_closes:
  "distinct order \<Longrightarrow> CloseListener ln \<in> set (snd (seq_effects tcp_stopL order s)) \<longleftrightarrow>
     (\<exists>q \<in> set order. tcp_listeners s q = Some ln)"
proof (induction order arbitrary: s)
  case (Cons q order)
  have "(\<exists>x \<in> set order. tcp_listeners (fst (tcp_stopL q s)) x = Some ln) \<longleftrightarrow> (\<exists>x \<in> set order. tcp_listeners s x = Some ln)"
    using Cons.prems by (intro bex_cong refl) (auto simp: tcp_stopL_def split: option.split)
  moreover have "CloseListener ln \<in> set (snd (tcp_stopL q s)) \<longleftrightarrow> tcp_listeners s q = Some ln"
    by (auto simp: tcp_stopL_def split: option.split)
  ultimately show ?case using Cons by (simp add: case_prod_beta Let_def)
qed simp

lemma others_close_no_listener:
  "CloseListener ln \<notin> set (snd (seq_effects tcp_stopS order s))" "CloseListener ln \<notin> set (snd (seq_effects tcp_stopC order s))"
  "CloseListener ln \<notin> set (snd (seq_effects tcp_stopP order s))"
  by (induction order arbitrary: s;
      auto simp: case_prod_beta Let_def tcp_stopS_def tcp_stopC_def tcp_stopP_def split: option.split)+

text \<open>
  C33. \<open>StopAll\<close> leaves nothing behind, in whatever order the maps are ranged over: afterwards there is
  no listener, no pending connection and no session; the listeners closed are exactly those of the ports, and the
  connections closed are exactly the pending ones and the two of every session that was not already stopped.
\<close>

theorem tcp_StopAll_closes_all:
  assumes "iterates (tcp_listeners s) oL" "iterates (tcp_pendingS s) oS"
    and "iterates (tcp_pendingC s) oC" "iterates (tcp_sessions s) oP"
  shows "case tcp_StopAll oL oS oC oP s of (s', es) \<Rightarrow>
    (\<forall>q. tcp_listeners s' q = None \<and> tcp_slot s' q = free_slot) \<and>
    (\<forall>ln. CloseListener ln \<in> set es \<longleftrightarrow> (\<exists>q. tcp_listeners s q = Some ln)) \<and>
    set (closed_by es) =
      {c. \<exists>q bc. (tcp_pendingS s q = Some bc \<or> tcp_pendingC s q = Some bc) \<and> c = bc_conn bc} \<union>
      {c. \<exists>q x. tcp_sessions s q = Some x \<and> \<not> sess_done x \<and> (sess_fe x = Some c \<or> sess_be x = Some c)}"
proof -
  let ?s1 = "fst (seq_effects tcp_stopL oL s)"
  let ?s2 = "fst (seq_effects tcp_stopS oS ?s1)"
  let ?s3 = "fst (seq_effects tcp_stopC oC ?s2)"
  let ?s4 = "fst (seq_effects tcp_stopP oP ?s3)"
  note same = seq_effects_same [where g = tcp_listeners] seq_effects_same [where g = tcp_pendingS]
    seq_effects_same [where g = tcp_pendingC] seq_effects_same [where g = tcp_sessions]
  note del = seq_effects_deletes [where g = tcp_listeners, OF stop_deletes(1)]
    seq_effects_deletes [where g = tcp_pendingS, OF stop_deletes(2)]
    seq_effects_deletes [where g = tcp_pendingC, OF stop_deletes(3)]
    seq_effects_deletes [where g = tcp_sessions, OF stop_deletes(4)]
  have maps: "tcp_pendingS ?s1 = tcp_pendingS s" "tcp_pendingC ?s2 = tcp_pendingC s"
    "tcp_sessions ?s3 = tcp_sessions s"
    by (simp_all add: same)
  have "tcp_listeners ?s4 q = None" "tcp_slot ?s4 q = free_slot" for q
    using assms by (auto simp: tcp_slot_free_iff same del iterates_def)
  moreover have "closed_by (snd (seq_effects tcp_stopL oL s)) = []"
    by (subst seq_effects_closed [where g = tcp_listeners, OF stop_closed(1) stop_deletes(1)])
       (use assms in \<open>auto simp: iterates_def split: option.split\<close>)
  moreover have "set (closed_by (snd (seq_effects tcp_stopS oS ?s1))) =
      {c. \<exists>q bc. tcp_pendingS s q = Some bc \<and> c \<in> set [bc_conn bc]}"
    unfolding seq_effects_closed [where g = tcp_pendingS, OF stop_closed(2) stop_deletes(2) iteratesD(1) [OF assms(2)]]
      maps by (rule concat_iterated [OF assms(2)])
  moreover have "set (closed_by (snd (seq_effects tcp_stopC oC ?s2))) =
      {c. \<exists>q bc. tcp_pendingC s q = Some bc \<and> c \<in> set [bc_conn bc]}"
    unfolding seq_effects_closed [where g = tcp_pendingC, OF stop_closed(3) stop_deletes(3) iteratesD(1) [OF assms(3)]]
      maps by (rule concat_iterated [OF assms(3)])
  moreover have "set (closed_by (snd (seq_effects tcp_stopP oP ?s3))) =
      {c. \<exists>q x. tcp_sessions s q = Some x \<and> c \<in> set (closed_by (map OnConn (snd (Session_Stop x))))}"
    unfolding seq_effects_closed [where g = tcp_sessions, OF stop_closed(4) stop_deletes(4) iteratesD(1) [OF assms(4)]]
      maps by (rule concat_iterated [OF assms(4)])
  moreover have "CloseListener ln \<in> set (snd (tcp_StopAll oL oS oC oP s)) \<longleftrightarrow> (\<exists>q. tcp_listeners s q = Some ln)" for ln
    using stopL_closes [OF iteratesD(1) [OF assms(1)], of ln s] iteratesD(2) [OF assms(1)]
    by (auto simp: tcp_StopAll_def case_prod_beta Let_def others_close_no_listener)
  ultimately show ?thesis
    by (auto simp: tcp_StopAll_def case_prod_beta Let_def Session_Stop_closed split: if_splits)
qed

lemma tcp_StopAll_closes_all_witness:
  "case tcp_StopAll [] [7] [] [] (fst (tcp_admit 7 ''server'' \<lparr>bc_conn = 1, bc_reader = ([], [])\<rparr>
      (newTCPServer KindZMQ ex_zmq))) of (s', es) \<Rightarrow> set (closed_by es) = {1}"
proof -
  let ?s = "fst (tcp_admit 7 ''server'' \<lparr>bc_conn = 1, bc_reader = ([], [])\<rparr> (newTCPServer KindZMQ ex_zmq))"
  have s: "tcp_listeners ?s = Map.empty" "tcp_pendingS ?s = [7 \<mapsto> \<lparr>bc_conn = 1, bc_reader = ([], [])\<rparr>]"
    "tcp_pendingC ?s = Map.empty" "tcp_sessions ?s = Map.empty"
    by (simp_all add: tcp_admit_def newTCPServer_def)
  have "iterates (tcp_listeners ?s) []" "iterates (tcp_pendingS ?s) [7]" "iterates (tcp_pendingC ?s) []"
    "iterates (tcp_sessions ?s) []"
    unfolding s by (simp_all add: iterates_def)
  from tcp_StopAll_closes_all [OF this] show ?thesis
    unfolding s by (auto split: if_splits)
qed

subsection \<open>Pending connections keep reservations alive\<close>

text \<open>A round of the two tickers: the maintenance touches the reservation of a pending server at
  \<open>t\<close>, then the expiry sweep runs at \<open>e\<close>.\<close>

definition keep_round :: "duration \<Rightarrow> port \<Rightarrow> time \<times> port list \<times> time \<Rightarrow> tcpServer \<times> Pool \<Rightarrow> tcpServer \<times> Pool" where
  "keep_round maxAge q r S =
     (let (t, order, e) = r; (s, p) = fst (tcp_keepS t q S)
      in (s, snd (ReleaseExpiredReservations order maxAge e p)))"

lemma keep_round_reserved:
  assumes "pool_inv (snd S)" and "tcp_pendingS (fst S) q = Some c"
    and "view_port (snd S) q = VReserved a" and "alloc_SessionID a \<noteq> []" and "e - t \<le> maxAge"
  shows "pool_inv (snd (keep_round maxAge q (t, order, e) S)) \<and>
    tcp_pendingS (fst (keep_round maxAge q (t, order, e) S)) q = Some c \<and>
    (\<exists>a'. view_port (snd (keep_round maxAge q (t, order, e) S)) q = VReserved a' \<and>
       alloc_SessionID a' = alloc_SessionID a)"
proof -
  obtain s p where S: "S = (s, p)" by fastforce
  have al: "Pool_Allocation p q = Some a"
    using pool_reg.allocation_view [of p q] assms(1,3) by (simp add: S)
  let ?p = "TouchReservation t q (alloc_SessionID a) p"
  have inv: "pool_inv ?p" using assms(1) by (simp add: S pool_inv_TouchReservation)
  have v: "view_port ?p q = VReserved (a\<lparr>alloc_ReservedAt := t\<rparr>)"
    using assms by (simp add: S view_TouchReservation)
  have eq: "keep_round maxAge q (t, order, e) S = (s, snd (ReleaseExpiredReservations order maxAge e ?p))"
    using assms(2) al by (simp add: S keep_round_def tcp_keepS_def)
  have "view_port (snd (ReleaseExpiredReservations order maxAge e ?p)) q = VReserved (a\<lparr>alloc_ReservedAt := t\<rparr>)"
    using ReleaseExpired_view_any [OF inv, of order maxAge e q] assms(4,5) by (simp add: v v_expire_def)
  with inv assms(2) show ?thesis unfolding eq by (simp add: S pool_inv_ReleaseExpired)
qed

text \<open>
  A pending server connection holds its reservation for ever: as long as the maintenance ticks
  within the reservation's maximal age, no number of expiry sweeps frees the port, although nothing
  is ever read from the connection again. A peer that died after its hello keeps the port.
\<close>

theorem pending_holds_reservation:
  assumes "pool_inv p" and "tcp_pendingS s q = Some c" and "view_port p q = VReserved a"
    and "alloc_SessionID a \<noteq> []" and "list_all (\<lambda>(t, order, e). e - t \<le> maxAge) rounds"
  shows "case fold (keep_round maxAge q) rounds (s, p) of (s', p') \<Rightarrow>
    tcp_pendingS s' q = Some c \<and> (\<exists>a'. view_port p' q = VReserved a' \<and> alloc_SessionID a' = alloc_SessionID a)"
proof -
  have "pool_inv (snd S) \<Longrightarrow> tcp_pendingS (fst S) q = Some c \<Longrightarrow>
      (\<exists>a'. view_port (snd S) q = VReserved a' \<and> alloc_SessionID a' = alloc_SessionID a) \<Longrightarrow>
      list_all (\<lambda>(t, order, e). e - t \<le> maxAge) rounds \<Longrightarrow>
      tcp_pendingS (fst (fold (keep_round maxAge q) rounds S)) q = Some c \<and>
      (\<exists>a'. view_port (snd (fold (keep_round maxAge q) rounds S)) q = VReserved a' \<and>
        alloc_SessionID a' = alloc_SessionID a)" for S
  proof (induction rounds arbitrary: S)
    case (Cons r rounds)
    obtain t order e where r: "r = (t, order, e)" by (cases r) auto
    obtain a' where a': "view_port (snd S) q = VReserved a'" "alloc_SessionID a' = alloc_SessionID a"
      using Cons.prems(3) by blast
    have "e - t \<le> maxAge" using Cons.prems(4) by (simp add: r)
    from keep_round_reserved [OF Cons.prems(1,2) a'(1) _ this, of order] a'(2) assms(4)
    have "pool_inv (snd (keep_round maxAge q r S))" "tcp_pendingS (fst (keep_round maxAge q r S)) q = Some c"
      "\<exists>a'. view_port (snd (keep_round maxAge q r S)) q = VReserved a' \<and> alloc_SessionID a' = alloc_SessionID a"
      by (simp_all add: r)
    from Cons.IH [OF this] Cons.prems(4) show ?case by simp
  qed simp
  from this [of "(s, p)"] assms show ?thesis by (simp add: case_prod_beta)
qed

lemma pending_holds_reservation_witness:
  "case fold (keep_round 10 7) [(8, [7, 8, 9], 18), (18, [9, 8, 7], 28)]
      (fst (tcp_admit 7 ''server'' \<lparr>bc_conn = 1, bc_reader = ([], [])\<rparr> (newTCPServer KindZMQ ex_zmq)), ex_pool)
    of (s', p') \<Rightarrow> \<exists>a'. view_port p' 7 = VReserved a'"
proof -
  obtain a where a: "view_port ex_pool 7 = VReserved a" "alloc_SessionID a = ''s''"
    using ex_pool_reserved by metis
  let ?s = "fst (tcp_admit 7 ''server'' \<lparr>bc_conn = 1, bc_reader = ([], [])\<rparr> (newTCPServer KindZMQ ex_zmq))"
  have p: "tcp_pendingS ?s 7 = Some \<lparr>bc_conn = 1, bc_reader = ([], [])\<rparr>"
    by (simp add: tcp_admit_def newTCPServer_def)
  have "alloc_SessionID a \<noteq> []" by (simp add: a(2))
  from pending_holds_reservation [OF ex_pool_inv p a(1) this,
      where rounds = "[(8, [7, 8, 9], 18), (18, [9, 8, 7], 28)]" and maxAge = 10]
  show ?thesis by (auto simp: case_prod_beta)
qed

subsection \<open>Two races between sessions\<close>

text \<open>
  A pending connection is not tied to the session it presented: in this run a server presents
  the session \<open>s\<close> and is pending; the port is released and reserved for the session \<open>t\<close> before the
  next maintenance tick; the maintenance then keeps the stale connection (the port has an allocation)
  and the client of \<open>t\<close> is joined with the server of \<open>s\<close>, in a session recorded as \<open>t\<close>.
\<close>

theorem stale_server_joins_next_session:
  "let S0 = (newTCPServer KindZMQ ex_zmq, ex_pool);
       (chk1, es1) = tcp_check (fst S0) (snd S0) True 7 1 [Got (writeHello ''server'' ''s'' ''v'')];
       S1 = run_srv tcp_step [EvAdmit 7 ''server'' (snd (the chk1)), EvPool (OpRelease 7 ''s''),
         EvPool (OpReserve 6 ''t'' ''w'' ''d''), EvKeepServer 7 7] S0;
       (chk2, es2) = tcp_check (fst S1) (snd S1) True 7 2 [Got (writeHello ''client'' ''t'' ''d'')];
       S2 = run_srv tcp_step [EvAdmit 7 ''client'' (snd (the chk2)), EvPair 8 [] 7] S1
   in chk1 \<noteq> None \<and> chk2 \<noteq> None \<and>
      (case tcp_sessions (fst S2) 7 of None \<Rightarrow> False
       | Some x \<Rightarrow> sess_id x = ''t'' \<and> sess_be x = Some 1 \<and> sess_fe x = Some 2)"
proof -
  have plain: "plain_text ''s''" "solid ''s''" "plain_text ''v''" "solid ''v''" "plain_text ''t''" "solid ''t''"
    "plain_text ''d''" "solid ''d''"
    by (simp_all add: plain_char_def code_of_def solid_def visible_def)
  let ?s0 = "newTCPServer KindZMQ ex_zmq"
  obtain a where a: "Pool_Allocation ex_pool 7 = Some a" "alloc_SessionID a = ''s''"
    by (simp add: ex_pool_def Reserve_def add_port_def empty_pool_def upto.simps Let_def Pool_Allocation_def)
  obtain r1 where c1: "tcp_check ?s0 ex_pool True 7 1 [Got (writeHello ''server'' ''s'' ''v'')] =
      (Some (''server'', \<lparr>bc_conn = 1, bc_reader = r1\<rparr>), tcp_sockopts ?s0 True 1)"
    using tcp_check_hello [OF disjI1 [OF refl] plain(1-4), where reads = "[Got (writeHello ''server'' ''s'' ''v'')]"
        and rest = "[]" and p = ex_pool and port = 7 and a = a] a by simp metis
  let ?b1 = "\<lparr>bc_conn = 1, bc_reader = r1\<rparr>"
  let ?S1 = "run_srv tcp_step [EvAdmit 7 ''server'' ?b1, EvPool (OpRelease 7 ''s''),
         EvPool (OpReserve 6 ''t'' ''w'' ''d''), EvKeepServer 7 7] (?s0, ex_pool)"
  have S1: "fst ?S1 = ?s0\<lparr>tcp_pendingS := [7 \<mapsto> ?b1]\<rparr>"
    "map_option alloc_SessionID (Pool_Allocation (snd ?S1) 7) = Some ''t''"
    by (simp_all add: tcp_admit_def newTCPServer_def tcp_keepS_def ex_pool_def Reserve_def add_port_def
      empty_pool_def upto.simps Let_def Pool_Allocation_def Release_def session_at_def TouchReservation_def)
  then obtain a2 where a2: "Pool_Allocation (snd ?S1) 7 = Some a2" "alloc_SessionID a2 = ''t''" by auto
  obtain r2 where c2: "tcp_check (fst ?S1) (snd ?S1) True 7 2 [Got (writeHello ''client'' ''t'' ''d'')] =
      (Some (''client'', \<lparr>bc_conn = 2, bc_reader = r2\<rparr>), tcp_sockopts (fst ?S1) True 2)"
    using tcp_check_hello [OF disjI2 [OF refl] plain(5-8), where reads = "[Got (writeHello ''client'' ''t'' ''d'')]"
        and rest = "[]" and p = "snd ?S1" and port = 7 and a = a2] a2 by simp metis
  have S2: "tcp_sessions (fst (run_srv tcp_step [EvAdmit 7 ''client'' \<lparr>bc_conn = 2, bc_reader = r2\<rparr>,
      EvPair 8 [] 7] ?S1)) 7 =
      Some (NewSession 8 (Kind_text KindZMQ) 7 ''t'' (alloc_ServerID a2) (alloc_ClientID a2) (Some 2) (Some 1))"
    using a2 S1(1) by (simp del: One_nat_def add: tcp_admit_def tcp_tryPair_def newTCPServer_def Let_def case_prod_beta)
  show ?thesis
    unfolding Let_def fst_conv snd_conv c1 case_prod_conv option.sel c2 S2
    by (simp add: NewSession_def)
qed

text \<open>
  The stop callback can free the port of a newer session: it removes its session under the
  mutex and releases the port after giving it up. In this run both peers reconnect in between and
  are joined under the same allocation (\<open>MarkOccupied\<close> fails, its error is ignored); the late
  release then makes the port idle while the new session runs on it, so the next reservation hands
  out the same port.
\<close>

theorem late_release_frees_live_port:
  "let b = (\<lambda>c. \<lparr>bc_conn = c, bc_reader = ([], [])\<rparr>);
       (s, p) = run_srv tcp_step
         [EvAdmit 7 ''server'' (b 1), EvAdmit 7 ''client'' (b 2), EvPair 6 [] 7,
          EvEnded 7,
          EvAdmit 7 ''server'' (b 3), EvAdmit 7 ''client'' (b 4), EvPair 8 [] 7,
          EvPool (OpRelease 7 ''s'')] (newTCPServer KindZMQ ex_zmq, ex_pool)
   in (case tcp_sessions s 7 of None \<Rightarrow> False
       | Some x \<Rightarrow> sess_id x = ''s'' \<and> sess_be x = Some 3 \<and> sess_fe x = Some 4 \<and> \<not> sess_done x) \<and>
      view_port p 7 = VIdle \<and>
      map_option alloc_Port (case fst (Reserve 9 ''t'' ''w'' ''d'' p) of Inl e \<Rightarrow> None | Inr a \<Rightarrow> Some a) = Some 7"
  by (simp add: tcp_admit_def tcp_tryPair_def tcp_ended_def newTCPServer_def ex_pool_def Reserve_def
      add_port_def empty_pool_def upto.simps Let_def Pool_Allocation_def Release_def session_at_def
      MarkOccupied_def NewSession_def view_port_def)

end
