(* ===== verification/SrtServer.thy ===== *)
theory SrtServer
  imports TcpServer
begin

section \<open>The SRT data server (v4/relay/srt_server.go)\<close>

text \<open>
  The SRT server keeps a pending connection together with its raw SRT connection (the same object,
  kept for its statistics) and wraps a session with both ends. Listening, accepting and the raw
  connections come from the goSRT package; their answers are arguments. As for the TCP server there
  is one function per locked region, and what others do in between is an argument.
\<close>

subsection \<open>State\<close>

record srtPending =
  pend_raw :: conn
  pend_bc :: "BufferedConn option"

record srtSession =
  ss_Session :: Session
  ss_rawServer :: conn
  ss_rawClient :: conn
  ss_bcServer :: BufferedConn
  ss_bcClient :: BufferedConn

record srtServer =
  srt_listeners :: "port \<Rightarrow> listener option"
  srt_pendingS :: "port \<Rightarrow> srtPending option"
  srt_pendingC :: "port \<Rightarrow> srtPending option"
  srt_sessions :: "port \<Rightarrow> srtSession option"
  srt_maint :: bool

definition newSRTServer :: srtServer where
  "newSRTServer =
     \<lparr>srt_listeners = Map.empty, srt_pendingS = Map.empty, srt_pendingC = Map.empty,
      srt_sessions = Map.empty, srt_maint = False\<rparr>"

subsection \<open>Listeners\<close>

definition srt_StartPort ::
    "go_error + listener \<Rightarrow> (srtServer \<Rightarrow> srtServer) \<Rightarrow> port \<Rightarrow> srtServer \<Rightarrow>
      go_error option \<times> srtServer \<times> srv_effect list" where
  "srt_StartPort listen env port s0 =
     (let s = s0\<lparr>srt_maint := True\<rparr>;
          es = (if srt_maint s0 then [] else [GoMaintenance])
      in if srt_listeners s port \<noteq> None then (None, s, es)
         else (case listen of
             Inl e \<Rightarrow> (Some (wrap_err CodeConflict ''srt listen failed'' e), s, es)
           | Inr ln \<Rightarrow>
               (let s = env s in
                if srt_listeners s port \<noteq> None then (None, s, es @ [CloseListener ln])
                else (None, s\<lparr>srt_listeners := (srt_listeners s)(port \<mapsto> ln)\<rparr>,
                      es @ [GoAccept port ln]))))"

text \<open>\<open>acceptLoop\<close>: an error of \<open>Accept2\<close> ends the loop, an error of \<open>req.Accept\<close> skips the request.\<close>

fun srt_acceptLoop :: "port \<Rightarrow> (go_error + (go_error + conn)) list \<Rightarrow> srv_effect list" where
  "srt_acceptLoop port [] = []"
| "srt_acceptLoop port (Inl e # rs) = []"
| "srt_acceptLoop port (Inr (Inl e) # rs) = srt_acceptLoop port rs"
| "srt_acceptLoop port (Inr (Inr c) # rs) = GoHandle port c # srt_acceptLoop port rs"

subsection \<open>A new connection\<close>

definition srt_check ::
    "Pool \<Rightarrow> bool \<Rightarrow> port \<Rightarrow> conn \<Rightarrow> read_result list \<Rightarrow>
      (string \<times> srtPending) option \<times> srv_effect list" where
  "srt_check p is_srt port c reads =
     (if \<not> is_srt then (None, [close_conn c])
      else (case ReadHello reads of
        (Inl e, r) \<Rightarrow> (None, [close_conn c])
      | (Inr h, r) \<Rightarrow>
          (if alloc_matches (Pool_Allocation p port) (hello_SessionID h)
           then (Some (hello_Role h, \<lparr>pend_raw = c, pend_bc = Some \<lparr>bc_conn = c, bc_reader = r\<rparr>\<rparr>), [])
           else (None, [close_conn c]))))"

definition close_pending :: "srtPending \<Rightarrow> srv_effect list" where
  "close_pending x = (case pend_bc x of None \<Rightarrow> [] | Some bc \<Rightarrow> [close_conn (bc_conn bc)])"

definition srt_admit ::
    "port \<Rightarrow> string \<Rightarrow> srtPending \<Rightarrow> srtServer \<Rightarrow> srtServer \<times> srv_effect list" where
  "srt_admit port role x s =
     (if srt_sessions s port \<noteq> None then (s, close_pending x)
      else if role = ''server'' then
        (if srt_pendingS s port \<noteq> None then (s, close_pending x)
         else (s\<lparr>srt_pendingS := (srt_pendingS s)(port \<mapsto> x)\<rparr>, [GoTryPair port]))
      else if role = ''client'' then
        (if srt_pendingC s port \<noteq> None then (s, close_pending x)
         else (s\<lparr>srt_pendingC := (srt_pendingC s)(port \<mapsto> x)\<rparr>, [GoTryPair port]))
      else (s, close_pending x))"

definition srt_handleConn ::
    "(srtServer \<Rightarrow> srtServer) \<Rightarrow> bool \<Rightarrow> port \<Rightarrow> conn \<Rightarrow> read_result list \<Rightarrow> srtServer \<Rightarrow> Pool \<Rightarrow>
      srtServer \<times> srv_effect list" where
  "srt_handleConn env is_srt port c reads s p =
     (case srt_check p is_srt port c reads of
        (None, es) \<Rightarrow> (env s, es)
      | (Some (role, x), es) \<Rightarrow> (let (s', fs) = srt_admit port role x (env s) in (s', es @ fs)))"

subsection \<open>Pairing\<close>

definition srt_tryPair ::
    "time \<Rightarrow> pool_op list \<Rightarrow> port \<Rightarrow> srtServer \<times> Pool \<Rightarrow> (srtServer \<times> Pool) \<times> srv_effect list" where
  "srt_tryPair now others port S =
     (let (s, p) = S in
      if srt_sessions s port \<noteq> None then (S, [])
      else (let sp = srt_pendingS s port; cp = srt_pendingC s port;
                sc = Option.bind sp pend_bc; cc = Option.bind cp pend_bc
            in case (sc, cc) of
                 (Some sc, Some cc) \<Rightarrow>
                   (let s = s\<lparr>srt_pendingS := (srt_pendingS s)(port := None),
                              srt_pendingC := (srt_pendingC s)(port := None)\<rparr>
                    in case Pool_Allocation p port of
                         None \<Rightarrow> ((s, p), [close_conn (bc_conn sc), close_conn (bc_conn cc)])
                       | Some alloc \<Rightarrow>
                           (let sess = NewSession now ''srt'' port (alloc_SessionID alloc)
                                  (alloc_ServerID alloc) (alloc_ClientID alloc)
                                  (Some (bc_conn cc)) (Some (bc_conn sc));
                                ss = \<lparr>ss_Session = sess, ss_rawServer = pend_raw (the sp),
                                      ss_rawClient = pend_raw (the cp), ss_bcServer = sc, ss_bcClient = cc\<rparr>;
                                s = s\<lparr>srt_sessions := (srt_sessions s)(port \<mapsto> ss)\<rparr>;
                                p = snd (MarkOccupied port (alloc_SessionID alloc) (fold pool_do others p))
                            in ((s, p), [GoSession port (alloc_SessionID alloc)])))
               | _ \<Rightarrow> (S, [])))"

definition srt_ended :: "port \<Rightarrow> srtServer \<Rightarrow> srtServer" where
  "srt_ended port s = s\<lparr>srt_sessions := (srt_sessions s)(port := None)\<rparr>"

definition srt_released :: "bool \<Rightarrow> port \<Rightarrow> string \<Rightarrow> Pool \<Rightarrow> Pool \<times> srv_effect list" where
  "srt_released has_callback port sid p =
     (snd (Release port sid p), if has_callback then [OnSessionStop port sid] else [])"

subsection \<open>Maintenance\<close>

definition srt_keepS :: "time \<Rightarrow> port \<Rightarrow> srtServer \<times> Pool \<Rightarrow> (srtServer \<times> Pool) \<times> srv_effect list" where
  "srt_keepS now port S =
     (let (s, p) = S in
      case srt_pendingS s port of
        None \<Rightarrow> (S, [])
      | Some x \<Rightarrow>
          (case Pool_Allocation p port of
             None \<Rightarrow> ((s\<lparr>srt_pendingS := (srt_pendingS s)(port := None)\<rparr>, p), close_pending x)
           | Some alloc \<Rightarrow> ((s, TouchReservation now port (alloc_SessionID alloc) p), [])))"

definition srt_keepC :: "time \<Rightarrow> port \<Rightarrow> srtServer \<times> Pool \<Rightarrow> (srtServer \<times> Pool) \<times> srv_effect list" where
  "srt_keepC now port S =
     (let (s, p) = S in
      case srt_pendingC s port of
        None \<Rightarrow> (S, [])
      | Some x \<Rightarrow>
          (case Pool_Allocation p port of
             None \<Rightarrow> ((s\<lparr>srt_pendingC := (srt_pendingC s)(port := None)\<rparr>, p), close_pending x)
           | Some alloc \<Rightarrow> ((s, TouchReservation now port (alloc_SessionID alloc) p), [])))"

definition srt_maintainPending ::
    "port list \<Rightarrow> port list \<Rightarrow> time \<Rightarrow> srtServer \<times> Pool \<Rightarrow> (srtServer \<times> Pool) \<times> srv_effect list" where
  "srt_maintainPending orderS orderC now S =
     (let (S1, es) = seq_effects (srt_keepS now) orderS S;
          (S2, fs) = seq_effects (srt_keepC now) orderC S1
      in (S2, es @ fs))"

subsection \<open>Shutdown and snapshots\<close>

definition srt_stopL :: "port \<Rightarrow> srtServer \<Rightarrow> srtServer \<times> srv_effect list" where
  "srt_stopL port s =
     (case srt_listeners s port of None \<Rightarrow> (s, [])
      | Some ln \<Rightarrow> (s\<lparr>srt_listeners := (srt_listeners s)(port := None)\<rparr>, [CloseListener ln]))"

definition srt_stopS :: "port \<Rightarrow> srtServer \<Rightarrow> srtServer \<times> srv_effect list" where
  "srt_stopS port s =
     (case srt_pendingS s port of None \<Rightarrow> (s, [])
      | Some x \<Rightarrow> (s\<lparr>srt_pendingS := (srt_pendingS s)(port := None)\<rparr>, close_pending x))"

definition srt_stopC :: "port \<Rightarrow> srtServer \<Rightarrow> srtServer \<times> srv_effect list" where
  "srt_stopC port s =
     (case srt_pendingC s port of None \<Rightarrow> (s, [])
      | Some x \<Rightarrow> (s\<lparr>srt_pendingC := (srt_pendingC s)(port := None)\<rparr>, close_pending x))"

definition srt_stopP :: "port \<Rightarrow> srtServer \<Rightarrow> srtServer \<times> srv_effect list" where
  "srt_stopP port s =
     (case srt_sessions s port of None \<Rightarrow> (s, [])
      | Some ss \<Rightarrow> (s\<lparr>srt_sessions := (srt_sessions s)(port := None)\<rparr>,
                    map OnConn (snd (Session_Stop (ss_Session ss)))))"

definition srt_StopAll ::
    "port list \<Rightarrow> port list \<Rightarrow> port list \<Rightarrow> port list \<Rightarrow> srtServer \<Rightarrow> srtServer \<times> srv_effect list" where
  "srt_StopAll orderL orderS orderC orderP s =
     (let (s, es1) = seq_effects srt_stopL orderL s;
          (s, es2) = seq_effects srt_stopS orderS s;
          (s, es3) = seq_effects srt_stopC orderC s;
          (s, es4) = seq_effects srt_stopP orderP s
      in (s, es1 @ es2 @ es3 @ es4))"

definition srt_Sessions :: "port list \<Rightarrow> srtServer \<Rightarrow> Session list" where
  "srt_Sessions order s = map ss_Session (List.map_filter (srt_sessions s) order)"

subsection \<open>The SRT server keeps the book of every port\<close>

text \<open>The server only ever stores pending connections with their buffered connection.\<close>

definition srt_slot :: "srtServer \<Rightarrow> port \<Rightarrow> slot" where
  "srt_slot s q =
     \<lparr>sl_server = map_option bc_conn (Option.bind (srt_pendingS s q) pend_bc),
      sl_client = map_option bc_conn (Option.bind (srt_pendingC s q) pend_bc),
      sl_paired = map_option (\<lambda>x. Paired (sess_id (ss_Session x)) (sess_fe (ss_Session x))
        (sess_be (ss_Session x))) (srt_sessions s q)\<rparr>"

definition srt_ok :: "srtServer \<Rightarrow> bool" where
  "srt_ok s \<longleftrightarrow> (\<forall>q x. srt_pendingS s q = Some x \<or> srt_pendingC s q = Some x \<longrightarrow> pend_bc x \<noteq> None)"

definition srt_pend :: "BufferedConn \<Rightarrow> srtPending" where
  "srt_pend bc = \<lparr>pend_raw = bc_conn bc, pend_bc = Some bc\<rparr>"

fun srt_step :: "srv_event \<Rightarrow> srtServer \<times> Pool \<Rightarrow> (srtServer \<times> Pool) \<times> srv_effect list" where
  "srt_step (EvAdmit port role bc) S =
     (let (s', es) = srt_admit port role (srt_pend bc) (fst S) in ((s', snd S), es))"
| "srt_step (EvPair now others port) S = srt_tryPair now others port S"
| "srt_step (EvKeepServer now port) S = srt_keepS now port S"
| "srt_step (EvKeepClient now port) S = srt_keepC now port S"
| "srt_step (EvEnded port) S = ((srt_ended port (fst S), snd S), [])"
| "srt_step (EvPool c) S = ((fst S, pool_do c (snd S)), [])"

lemma srt_okD:
  "srt_ok s \<Longrightarrow> srt_pendingS s q = Some x \<Longrightarrow> \<exists>bc. pend_bc x = Some bc"
  "srt_ok s \<Longrightarrow> srt_pendingC s q = Some x \<Longrightarrow> \<exists>bc. pend_bc x = Some bc"
  by (auto simp: srt_ok_def)

lemma srt_slot_pending:
  assumes "srt_ok s"
  shows "sl_server (srt_slot s q) = None \<longleftrightarrow> srt_pendingS s q = None"
    and "sl_client (srt_slot s q) = None \<longleftrightarrow> srt_pendingC s q = None"
    and "sl_paired (srt_slot s q) = None \<longleftrightarrow> srt_sessions s q = None"
  using srt_okD [OF assms, of q]
  by (cases "srt_pendingS s q"; cases "srt_pendingC s q"; force simp: srt_slot_def)+

lemma srt_slot_pend:
  "srt_slot (s\<lparr>srt_pendingS := (srt_pendingS s)(port \<mapsto> srt_pend bc)\<rparr>) q =
     (if q = port then (srt_slot s q)\<lparr>sl_server := Some (bc_conn bc)\<rparr> else srt_slot s q)"
  "srt_slot (s\<lparr>srt_pendingC := (srt_pendingC s)(port \<mapsto> srt_pend bc)\<rparr>) q =
     (if q = port then (srt_slot s q)\<lparr>sl_client := Some (bc_conn bc)\<rparr> else srt_slot s q)"
  "closed_by (close_pending (srt_pend bc)) = [bc_conn bc]"
  by (simp_all add: srt_slot_def srt_pend_def close_pending_def)

lemma srt_admit_slot:
  assumes "srt_ok s"
  shows "srt_slot (fst (srt_admit port role (srt_pend bc) s)) q =
      (if q = port then fst (a_admit role (bc_conn bc) (srt_slot s q)) else srt_slot s q)"
    and "closed_by (snd (srt_admit port role (srt_pend bc) s)) =
      snd (a_admit role (bc_conn bc) (srt_slot s port))"
  by (simp_all add: srt_admit_def a_admit_def srt_slot_pend srt_slot_pending [OF assms])

lemma srt_tryPair_slot:
  "srt_slot (fst (fst (srt_tryPair now others port (s, p)))) q =
     (if q = port then fst (a_pair (Pool_Allocation p q) (srt_slot s q)) else srt_slot s q)"
  "closed_by (snd (srt_tryPair now others port (s, p))) =
     snd (a_pair (Pool_Allocation p port) (srt_slot s port))"
  by (auto simp: srt_tryPair_def a_pair_def srt_slot_def free_slot_def Let_def NewSession_def
      split: option.splits)

lemma srt_keep_slot:
  assumes "srt_ok s"
  shows "srt_slot (fst (fst (srt_keepS now port (s, p)))) q =
      (if q = port then fst (a_keep_server (Pool_Allocation p q) (srt_slot s q)) else srt_slot s q)"
    and "closed_by (snd (srt_keepS now port (s, p))) =
      snd (a_keep_server (Pool_Allocation p port) (srt_slot s port))"
    and "srt_slot (fst (fst (srt_keepC now port (s, p)))) q =
      (if q = port then fst (a_keep_client (Pool_Allocation p q) (srt_slot s q)) else srt_slot s q)"
    and "closed_by (snd (srt_keepC now port (s, p))) =
      snd (a_keep_client (Pool_Allocation p port) (srt_slot s port))"
  using srt_okD [OF assms, of port]
  by (auto simp: srt_keepS_def srt_keepC_def a_keep_server_def a_keep_client_def srt_slot_def
      close_pending_def split: option.splits)

lemma srt_ended_slot:
  "srt_slot (srt_ended port s) q = (if q = port then a_end (srt_slot s q) else srt_slot s q)"
  by (simp add: srt_ended_def a_end_def srt_slot_def)

lemma srt_step_pool:
  "srt_ok s \<Longrightarrow> snd (fst (srt_step ev (s, p))) = a_pool ev (srt_slot s) p"
  using srt_okD [of s]
  by (cases ev)
     (fastforce simp: case_prod_beta srt_tryPair_def srt_keepS_def srt_keepC_def srt_slot_def Let_def
       split: option.split)+

lemma srt_step_ok: "srt_ok s \<Longrightarrow> srt_ok (fst (fst (srt_step ev (s, p))))"
  by (cases ev)
     (auto simp: case_prod_beta srt_ok_def srt_admit_def srt_pend_def srt_tryPair_def srt_keepS_def
       srt_keepC_def srt_ended_def Let_def split: option.split if_splits)

interpretation srt: pairing_server srt_slot srt_ok srt_step
proof
  show "srt_ok s \<Longrightarrow> srt_slot (fst (fst (srt_step ev (s, p)))) q =
      (if ev_at ev q then fst (a_step ev (Pool_Allocation p q) (srt_slot s q)) else srt_slot s q)" for ev s p q
    by (cases ev) (auto simp: case_prod_beta srt_admit_slot srt_tryPair_slot srt_keep_slot srt_ended_slot)
  show "srt_ok s \<Longrightarrow> ev_at ev q \<Longrightarrow>
      closed_by (snd (srt_step ev (s, p))) = snd (a_step ev (Pool_Allocation p q) (srt_slot s q))" for ev s p q
    by (cases ev) (auto simp: case_prod_beta srt_admit_slot srt_tryPair_slot srt_keep_slot)
qed (simp_all add: srt_step_pool srt_step_ok)

lemma srt_new [simp]: "srt_ok newSRTServer" "srt_slot newSRTServer q = free_slot"
  by (simp_all add: srt_ok_def newSRTServer_def srt_slot_def free_slot_def)

text \<open>
  The SRT server neither loses nor duplicates a connection: for any run of its handlers, in any
  interleaving with other callers of the pool, the connections admitted at a port are exactly those
  pending there or joined in its session, those the server closed and those of sessions that ended.
\<close>

theorem srt_connections_accounted:
  "mset (slot_conns (srt_slot (fst (run_srv srt_step evs (newSRTServer, p))) q)) +
     mset (closed_at srt_step q evs (newSRTServer, p)) +
     mset (ended_at srt_slot srt_step q evs (newSRTServer, p))
   = mset (admitted_at q evs)"
  using srt.run_conserves [OF srt_new(1)] by simp

text \<open>
  C6. The two data servers are the same machine: under the same events and the same pool, the TCP
  server and the SRT server keep the same book of every port (who is pending, which session joins
  which connections) and leave the same pool.
\<close>

theorem srt_server_equals_tcp_server:
  "srt_slot (fst (run_srv srt_step evs (newSRTServer, p))) q =
     tcp_slot (fst (run_srv tcp_step evs (newTCPServer kind zmq, p))) q \<and>
   snd (run_srv srt_step evs (newSRTServer, p)) =
     snd (run_srv tcp_step evs (newTCPServer kind zmq, p))"
proof -
  have "srt_slot newSRTServer = tcp_slot (newTCPServer kind zmq)" by (simp add: fun_eq_iff)
  with srt.run_refines [OF srt_new(1), where evs = evs and p = p] tcp.run_refines [OF TrueI, where s = "newTCPServer kind zmq" and evs = evs and p = p]
  show ?thesis by simp (metis fst_conv snd_conv)
qed

end
