(* ===== verification/Float64.thy ===== *)
theory Float64
  imports Complex_Main Prelude
begin

section \<open>The float64 of Go\<close>

text \<open>
  A 64-bit binary float is not a number, an infinity or a rational; the two zeros are one value
  here, since nothing in the source tells them apart. An operation is the exact operation on
  rationals followed by \<open>rnd\<close>, the rounding to the nearest of the values with 53 significant bits
  and exponent at least -1074, ties to the even one; what does not fit becomes infinite. A comparison
  with NaN is false.
\<close>

datatype f64 = NaN | Inf bool | Fin rat

definition pow2 :: "int \<Rightarrow> rat" where
  "pow2 e = (if 0 \<le> e then 2 ^ nat e else 1 / 2 ^ nat (- e))"

text \<open>The exponent of a positive rational, found by doubling or halving from an exponent.\<close>

function ilog2_up :: "nat \<Rightarrow> rat \<Rightarrow> int \<Rightarrow> int" where
  "ilog2_up 0 r e = e"
| "ilog2_up (Suc n) r e =
     (if r < pow2 e then ilog2_up n r (e - 1)
      else if pow2 (e + 1) \<le> r then ilog2_up n r (e + 1) else e)"
  by pat_completeness auto
termination
  by (relation "measure fst") auto

definition round_even :: "rat \<Rightarrow> int" where
  "round_even x =
     (let f = \<lfloor>x\<rfloor>; d = x - of_int f
      in if d < 1 / 2 then f else if d > 1 / 2 then f + 1 else if even f then f else f + 1)"

text \<open>
  The exponent of the last place: the binade of the value less 52, or the least exponent. The
  search starts at exponent 0, so 1100 steps reach every binade of finite floats
  (\<open>ilog2_up_correct\<close>); a smaller value gets the least exponent and a larger one overflows anyway.
\<close>

definition ulp_exp :: "rat \<Rightarrow> int" where
  "ulp_exp a = max (-1074) (ilog2_up 1100 a 0 - 52)"

definition rnd :: "rat \<Rightarrow> f64" where
  "rnd r =
     (if r = 0 then Fin 0
      else let a = \<bar>r\<bar>; e = ulp_exp a; v = of_int (round_even (a / pow2 e)) * pow2 e
           in if 2 ^ 1024 \<le> v then Inf (r < 0) else Fin (sgn r * v))"

fun f_neg :: "f64 \<Rightarrow> f64" where
  "f_neg NaN = NaN" | "f_neg (Inf s) = Inf (\<not> s)" | "f_neg (Fin x) = Fin (- x)"

fun f_add :: "f64 \<Rightarrow> f64 \<Rightarrow> f64" where
  "f_add NaN y = NaN"
| "f_add (Inf s) NaN = NaN"
| "f_add (Inf s) (Inf t) = (if s = t then Inf s else NaN)"
| "f_add (Inf s) (Fin y) = Inf s"
| "f_add (Fin x) NaN = NaN"
| "f_add (Fin x) (Inf t) = Inf t"
| "f_add (Fin x) (Fin y) = rnd (x + y)"

definition f_sub :: "f64 \<Rightarrow> f64 \<Rightarrow> f64" where
  "f_sub x y = f_add x (f_neg y)"

text \<open>Multiplication and division by a positive constant, all the source needs.\<close>

fun f_scale :: "f64 \<Rightarrow> rat \<Rightarrow> f64" where
  "f_scale NaN c = NaN" | "f_scale (Inf s) c = Inf s" | "f_scale (Fin x) c = rnd (x * c)"

fun f_less :: "f64 \<Rightarrow> f64 \<Rightarrow> bool" where
  "f_less (Fin x) (Fin y) \<longleftrightarrow> x < y"
| "f_less (Fin x) (Inf s) \<longleftrightarrow> \<not> s"
| "f_less (Inf s) (Fin y) \<longleftrightarrow> s"
| "f_less (Inf s) (Inf t) \<longleftrightarrow> s \<and> \<not> t"
| "f_less _ _ \<longleftrightarrow> False"

fun f_le :: "f64 \<Rightarrow> f64 \<Rightarrow> bool" where
  "f_le NaN y \<longleftrightarrow> False"
| "f_le x NaN \<longleftrightarrow> False"
| "f_le x y \<longleftrightarrow> \<not> f_less y x"

definition f_of_int :: "int \<Rightarrow> f64" where
  "f_of_int i = rnd (of_int i)"

subsection \<open>Rounding respects small integer bounds\<close>

lemma pow2_pos [simp]: "0 < pow2 e"
  by (simp add: pow2_def)

lemma pow2_Suc: "pow2 (e + 1) = 2 * pow2 e"
proof (cases "0 \<le> e")
  case True
  then have "nat (e + 1) = Suc (nat e)" by simp
  with True show ?thesis by (simp add: pow2_def)
next
  case False
  then have "nat (- e) = Suc (nat (- (e + 1)))" by simp
  with False show ?thesis by (cases "e = -1") (simp_all add: pow2_def)
qed

lemma pow2_mono: "d \<le> e \<Longrightarrow> pow2 d \<le> pow2 e"
proof (induction e rule: int_ge_induct)
  case (step e)
  have "pow2 e \<le> pow2 (e + 1)" using pow2_pos [of e] unfolding pow2_Suc by linarith
  with step show ?case by linarith
qed simp

text \<open>The search never ends above the binade, when it starts below or in it.\<close>

lemma ilog2_up_bound:
  assumes "r < pow2 (k + 1)" and "e \<le> k" and "0 < r"
  shows "ilog2_up n r e \<le> k"
  using assms(2)
proof (induction n arbitrary: e)
  case (Suc n)
  show ?case
  proof (cases "pow2 (e + 1) \<le> r")
    case True
    then have "\<not> k + 1 \<le> e + 1" using assms(1) pow2_mono [of "k + 1" "e + 1"] by linarith
    then have "e + 1 \<le> k" by simp
    with Suc show ?thesis by simp
  next
    case False
    with Suc show ?thesis by simp
  qed
qed simp

text \<open>With enough steps the search finds the binade.\<close>

lemma ilog2_up_correct:
  assumes "pow2 k \<le> r" and "r < pow2 (k + 1)" and "\<bar>k - e\<bar> \<le> int n"
  shows "ilog2_up n r e = k"
  using assms(3)
proof (induction n arbitrary: e)
  case (Suc n)
  have up: "r < pow2 e \<longleftrightarrow> k < e"
    using assms(1,2) pow2_mono [of e k] pow2_mono [of "k + 1" e] by (cases "k < e") auto
  have down: "pow2 (e + 1) \<le> r \<longleftrightarrow> e < k"
    using assms(1,2) pow2_mono [of "e + 1" k] pow2_mono [of "k + 1" "e + 1"] by (cases "e < k") auto
  from Suc.prems Suc.IH [of "e - 1"] Suc.IH [of "e + 1"] show ?case
    by (auto simp: up down)
qed simp

lemma round_even_le: "x \<le> of_int k \<Longrightarrow> round_even x \<le> k"
proof -
  assume le: "x \<le> of_int k"
  show "round_even x \<le> k"
  proof (cases "\<lfloor>x\<rfloor> < k")
    case True
    then show ?thesis by (simp add: round_even_def Let_def)
  next
    case False
    with le have "x = of_int k" by (meson le_floor_iff linorder_not_less nle_le)
    then show ?thesis by (simp add: round_even_def)
  qed
qed

lemma round_even_nonneg: "0 \<le> x \<Longrightarrow> 0 \<le> round_even x"
  by (simp add: round_even_def Let_def)

lemma rnd_pos_le:
  assumes "0 < a" and "a \<le> of_int c" and "c < 2 ^ 53"
  obtains v where "rnd a = Fin v" and "0 \<le> v" and "v \<le> of_int c"
proof -
  let ?e = "ulp_exp a"
  have "a < pow2 (52 + 1)"
  proof -
    have "of_int c < (of_int (2 ^ 53) :: rat)" using assms(3) by (simp only: of_int_less_iff)
    then show ?thesis using assms(2) by (simp add: pow2_def)
  qed
  from ilog2_up_bound [OF this, of 0 1100] assms(1) have "?e \<le> 0" by (simp add: ulp_exp_def)
  then have inv: "1 / pow2 ?e = of_int (2 ^ nat (- ?e))"
    by (cases "?e = 0") (simp_all add: pow2_def)
  then have div: "x / pow2 ?e = x * of_int (2 ^ nat (- ?e))" for x
    by (metis times_divide_eq_right mult.right_neutral)
  have "a / pow2 ?e \<le> of_int c / pow2 ?e" using assms(2) by (simp add: divide_right_mono less_imp_le)
  also have "\<dots> = of_int (c * 2 ^ nat (- ?e))" by (simp add: div)
  finally have "round_even (a / pow2 ?e) \<le> c * 2 ^ nat (- ?e)" by (rule round_even_le)
  then have "of_int (round_even (a / pow2 ?e)) \<le> (of_int (c * 2 ^ nat (- ?e)) :: rat)"
    by (simp only: of_int_le_iff)
  also have "\<dots> = of_int c / pow2 ?e" by (simp add: div)
  finally have le: "of_int (round_even (a / pow2 ?e)) * pow2 ?e \<le> of_int c"
    by (simp add: pos_le_divide_eq)
  have "0 \<le> round_even (a / pow2 ?e)" using assms(1) by (simp add: round_even_nonneg less_imp_le)
  then have nn: "0 \<le> of_int (round_even (a / pow2 ?e)) * pow2 ?e" by (simp add: less_imp_le)
  have "(of_int c :: rat) < 2 ^ 1024"
  proof -
    have "c < 2 ^ 1024" using assms(3) by (rule order_less_le_trans) simp
    then have "(of_int c :: rat) < of_int (2 ^ 1024)" by (simp only: of_int_less_iff)
    then show ?thesis by simp
  qed
  with le have "\<not> 2 ^ 1024 \<le> of_int (round_even (a / pow2 ?e)) * pow2 ?e" by linarith
  then have "rnd a = Fin (of_int (round_even (a / pow2 ?e)) * pow2 ?e)"
    using assms(1) by (simp add: rnd_def Let_def)
  with nn le show thesis by (intro that)
qed

lemma rnd_neg: "r \<noteq> 0 \<Longrightarrow> rnd (- r) = f_neg (rnd r)"
  by (auto simp: rnd_def Let_def sgn_minus not_less)

text \<open>For a value between two small integers, rounding stays between them (one of them 0).\<close>

lemma rnd_le:
  assumes "r \<le> of_int c" and "0 \<le> c" and "c < 2 ^ 53"
  shows "rnd r = Inf True \<or> (\<exists>v. rnd r = Fin v \<and> v \<le> of_int c)"
proof (cases "0 < r")
  case True
  then show ?thesis using rnd_pos_le [OF True assms(1,3)] by metis
next
  case False
  show ?thesis
  proof (cases "r = 0")
    case True
    then show ?thesis using assms(2) by (simp add: rnd_def)
  next
    case neg: False
    let ?a = "\<bar>r\<bar>"
    have "0 \<le> (of_int (round_even (?a / pow2 (ulp_exp ?a))) * pow2 (ulp_exp ?a) :: rat)"
      by (simp add: round_even_nonneg less_imp_le)
    moreover have "(0 :: rat) \<le> of_int c" using assms(2) by simp
    ultimately show ?thesis
      using False neg by (auto simp: rnd_def Let_def)
  qed
qed

lemma rnd_nonneg:
  assumes "0 \<le> r"
  shows "rnd r = Inf False \<or> (\<exists>v. rnd r = Fin v \<and> 0 \<le> v)"
  using assms
  by (auto simp: rnd_def Let_def round_even_nonneg less_imp_le)

end
