(* ===== verification/Manager.thy ===== *)
theory Manager
  imports SrtServer Float64
begin

section \<open>The manager of the data plane (v4/relay/manager.go, metrics.go)\<close>

text \<open>
  The manager owns the two pools and the two data servers, starts them on their configured ranges,
  and runs two periodic tasks: the metrics, computed from the byte counters of the sessions, and the
  heartbeat check, which expires reservations and stops silent sessions. The time, the iteration
  orders and the answers of the listeners are arguments.
\<close>

subsection \<open>Decimal keys\<close>

text \<open>
  \<open>itoa\<close> fills a 16-byte array from its end. Its argument is a 64-bit int, so the negation of the
  least one is itself; an index below 0 panics, here \<open>None\<close>.
\<close>

definition wrap64 :: "int \<Rightarrow> int" where
  "wrap64 i = (i + 2 ^ 63) mod 2 ^ 64 - 2 ^ 63"

function itoa_loop :: "int \<Rightarrow> nat \<Rightarrow> string \<Rightarrow> (nat \<times> string) option" where
  "itoa_loop v i b =
     (if v > 0 then
        (if i = 0 then None
         else itoa_loop (v div 10) (i - 1) (digit_char (nat (v mod 10)) # b))
      else Some (i, b))"
  by pat_completeness auto
termination
  by (relation "measure (\<lambda>(v, i, b). nat v)") auto

declare itoa_loop.simps [simp del]

definition itoa :: "int \<Rightarrow> string option" where
  "itoa v0 =
     (if v0 = 0 then Some ''0''
      else let neg = v0 < 0; v = (if neg then wrap64 (- v0) else v0)
           in case itoa_loop v 16 [] of
                None \<Rightarrow> None
              | Some (i, b) \<Rightarrow>
                  if neg then (if i = 0 then None else Some (CHR ''-'' # b)) else Some b)"

subsection \<open>Metrics\<close>

record Metrics =
  met_Kind :: Kind
  met_Port :: port
  met_SessionID :: string
  met_ServerID :: string
  met_ClientID :: string
  met_MbpsUp :: f64
  met_MbpsDown :: f64
  met_RTTMs :: f64
  met_LossPct :: f64
  met_RetrPct :: f64
  met_Quality :: f64
  met_UpdatedAt :: time

definition minf :: "f64 \<Rightarrow> f64 \<Rightarrow> f64" where
  "minf a b = (if f_less a b then a else b)"

definition qualityScore :: "f64 \<Rightarrow> f64 \<Rightarrow> f64 \<Rightarrow> f64 \<Rightarrow> f64" where
  "qualityScore up down rttMs lossPct =
     (let score = Fin 100;
          score = f_sub score (minf (Fin 50) (f_scale lossPct 2));
          score = f_sub score (minf (Fin 30) (f_scale rttMs (1 / 10)));
          score = (if f_le (f_add up down) (Fin 0) then f_sub score (Fin 10) else score)
      in if f_less score (Fin 0) then Fin 0 else score)"

text \<open>What \<open>SnapshotStats\<close> reads from the raw connection of a session, in its order.\<close>

record Statistics =
  st_MsRTT :: f64
  st_MbpsSentRate :: f64
  st_MbpsRecvRate :: f64
  st_PktRecvLossRate :: f64
  st_PktSendLossRate :: f64

definition srt_stat :: "time \<Rightarrow> (conn \<Rightarrow> Statistics) \<Rightarrow> port \<times> srtSession \<Rightarrow> Metrics" where
  "srt_stat now stats ps =
     (let (port, ss) = ps; s = ss_Session ss; st = stats (ss_rawServer ss)
      in \<lparr>met_Kind = KindSRT, met_Port = port, met_SessionID = sess_id s, met_ServerID = sess_server s,
          met_ClientID = sess_client s, met_MbpsUp = st_MbpsSentRate st, met_MbpsDown = st_MbpsRecvRate st,
          met_RTTMs = st_MsRTT st, met_LossPct = st_PktRecvLossRate st, met_RetrPct = st_PktSendLossRate st,
          met_Quality = qualityScore (st_MbpsSentRate st) (st_MbpsRecvRate st) (st_MsRTT st)
            (st_PktRecvLossRate st),
          met_UpdatedAt = now\<rparr>)"

definition SnapshotStats :: "time \<Rightarrow> (conn \<Rightarrow> Statistics) \<Rightarrow> port list \<Rightarrow> srtServer \<Rightarrow> Metrics list" where
  "SnapshotStats now stats order s =
     map (srt_stat now stats) (List.map_filter (\<lambda>q. map_option (Pair q) (srt_sessions s q)) order)"

subsection \<open>State\<close>

record Manager =
  mgr_cfg :: Config
  mgr_ZMQPool :: Pool
  mgr_SRTPool :: Pool
  mgr_zmq :: tcpServer
  mgr_srt :: srtServer
  mgr_running :: bool
  mgr_metrics :: "string \<Rightarrow> Metrics option"
  mgr_prev :: "string \<Rightarrow> (int \<times> int \<times> int \<times> int) option"

text \<open>The options \<open>NewManager\<close> hands to goSRT with its defaults: latency, bandwidth, TTL and the idle
  timeout.\<close>

definition srt_options :: "Config \<Rightarrow> duration \<times> int \<times> int \<times> duration" where
  "srt_options cfg = (srt_Latency (cfg_GoSRT cfg) * millisecond, srt_MaxBW (cfg_GoSRT cfg),
     srt_IPTTL (cfg_GoSRT cfg), 8 * second)"

definition NewManager :: "Config \<Rightarrow> Pool \<Rightarrow> Pool \<Rightarrow> Manager" where
  "NewManager cfg zmqPool srtPool =
     \<lparr>mgr_cfg = cfg, mgr_ZMQPool = zmqPool, mgr_SRTPool = srtPool,
      mgr_zmq = newTCPServer KindZMQ (cfg_ZeroMQ cfg), mgr_srt = newSRTServer, mgr_running = False,
      mgr_metrics = Map.empty, mgr_prev = Map.empty\<rparr>"

subsection \<open>Start and stop\<close>

text \<open>A range that does not parse is the zero value, whose only port is 0.\<close>

definition range_or_zero :: "string \<Rightarrow> PortRange" where
  "range_or_zero s =
     (case ParsePortRange s of Inl e \<Rightarrow> \<lparr>range_Start = 0, range_End = 0\<rparr> | Inr r \<Rightarrow> r)"

fun start_ports ::
    "(port \<Rightarrow> 's \<Rightarrow> go_error option \<times> 's \<times> srv_effect list) \<Rightarrow> port list \<Rightarrow> 's \<Rightarrow>
      go_error option \<times> 's \<times> srv_effect list" where
  "start_ports f [] s = (None, s, [])"
| "start_ports f (q # qs) s =
     (case f q s of
        (Some e, s', es) \<Rightarrow> (Some e, s', es)
      | (None, s', es) \<Rightarrow> (let (r, s'', fs) = start_ports f qs s' in (r, s'', es @ fs)))"

definition Manager_Start ::
    "(Kind \<Rightarrow> port \<Rightarrow> go_error + listener) \<Rightarrow> Manager \<Rightarrow> go_error option \<times> Manager \<times> srv_effect list" where
  "Manager_Start listen m =
     (let zr = range_or_zero (zmq_PortRange (cfg_ZeroMQ (mgr_cfg m)));
          sr = range_or_zero (srt_PortRange (cfg_GoSRT (mgr_cfg m)));
          (r1, z, es) = start_ports (\<lambda>q. tcp_StartPort (listen KindZMQ q) id q)
             [range_Start zr..range_End zr] (mgr_zmq m);
          m1 = m\<lparr>mgr_zmq := z\<rparr>
      in case r1 of Some e \<Rightarrow> (Some e, m1, es)
         | None \<Rightarrow>
             (let (r2, s, fs) = start_ports (\<lambda>q. srt_StartPort (listen KindSRT q) id q)
                 [range_Start sr..range_End sr] (mgr_srt m1);
                  m2 = m1\<lparr>mgr_srt := s\<rparr>
              in case r2 of Some e \<Rightarrow> (Some e, m2, es @ fs)
                 | None \<Rightarrow> (None, m2\<lparr>mgr_running := True\<rparr>, es @ fs)))"

text \<open>\<open>Stop\<close> cancels the context, which ends the two tasks, and stops both servers; the iteration
  orders are those of the maps of each server.\<close>

definition Manager_Stop ::
    "port list \<times> port list \<times> port list \<times> port list \<Rightarrow> port list \<times> port list \<times> port list \<times> port list \<Rightarrow>
      Manager \<Rightarrow> Manager \<times> srv_effect list" where
  "Manager_Stop zo so m =
     (let (zl, zs, zc, zp) = zo; (sl, ss, sc, sp) = so;
          (z, es) = tcp_StopAll zl zs zc zp (mgr_zmq m);
          (s, fs) = srt_StopAll sl ss sc sp (mgr_srt m)
      in (m\<lparr>mgr_zmq := z, mgr_srt := s, mgr_running := False\<rparr>, es @ fs))"

definition SnapshotMetrics :: "string list \<Rightarrow> Manager \<Rightarrow> Metrics list" where
  "SnapshotMetrics order m = List.map_filter (mgr_metrics m) order"

subsection \<open>The periodic tasks\<close>

definition metric_key :: "string \<Rightarrow> string \<Rightarrow> port \<Rightarrow> string option" where
  "metric_key sid kind port = map_option (\<lambda>t. sid @ kind @ t) (itoa port)"

definition mbps :: "int \<Rightarrow> f64" where
  "mbps delta = f_scale (f_of_int (wrap64 (delta * 8))) (1 / 1000000)"

text \<open>One session of the first loop of \<open>updateMetrics\<close>; a panic of \<open>itoa\<close> is \<open>None\<close>.\<close>

definition zmq_metric ::
    "time \<Rightarrow> Session \<Rightarrow> (string \<Rightarrow> Metrics option) \<times> (string \<Rightarrow> (int \<times> int \<times> int \<times> int) option) \<Rightarrow>
      ((string \<Rightarrow> Metrics option) \<times> (string \<Rightarrow> (int \<times> int \<times> int \<times> int) option)) option" where
  "zmq_metric now sess acc =
     (let (mm, prev) = acc; (feIn, feOut, beIn, beOut) = Counters sess in
      case metric_key (sess_id sess) '':zmq:'' (sess_port sess) of
        None \<Rightarrow> None
      | Some key \<Rightarrow>
          (let (p0, p1, p2, p3) = (case prev key of None \<Rightarrow> (0, 0, 0, 0) | Some p \<Rightarrow> p);
               deltaIn = wrap64 ((feIn + beIn) - (p0 + p2));
               deltaOut = wrap64 ((feOut + beOut) - (p1 + p3))
           in Some (mm(key \<mapsto> \<lparr>met_Kind = KindZMQ, met_Port = sess_port sess,
                  met_SessionID = sess_id sess, met_ServerID = sess_server sess,
                  met_ClientID = sess_client sess, met_MbpsUp = mbps deltaIn, met_MbpsDown = mbps deltaOut,
                  met_RTTMs = Fin 0, met_LossPct = Fin 0, met_RetrPct = Fin 0,
                  met_Quality = qualityScore (mbps deltaIn) (mbps deltaOut) (Fin 0) (Fin 0),
                  met_UpdatedAt = now\<rparr>),
                prev(key \<mapsto> (feIn, feOut, beIn, beOut)))))"

definition srt_metric ::
    "Metrics \<Rightarrow> (string \<Rightarrow> Metrics option) \<Rightarrow> (string \<Rightarrow> Metrics option) option" where
  "srt_metric st mm =
     (case metric_key (met_SessionID st) '':srt:'' (met_Port st) of
        None \<Rightarrow> None | Some key \<Rightarrow> Some (mm(key \<mapsto> st)))"

fun fold_opt :: "('x \<Rightarrow> 'a \<Rightarrow> 'a option) \<Rightarrow> 'x list \<Rightarrow> 'a \<Rightarrow> 'a option" where
  "fold_opt f [] a = Some a"
| "fold_opt f (x # xs) a = Option.bind (f x a) (fold_opt f xs)"

definition updateMetrics ::
    "time \<Rightarrow> (conn \<Rightarrow> Statistics) \<Rightarrow> port list \<Rightarrow> port list \<Rightarrow> Manager \<Rightarrow> Manager option" where
  "updateMetrics now stats zorder sorder m =
     Option.bind (fold_opt (zmq_metric now) (tcp_Sessions zorder (mgr_zmq m)) (Map.empty, mgr_prev m))
       (\<lambda>(mm, prev). map_option (\<lambda>mm. m\<lparr>mgr_metrics := mm, mgr_prev := prev\<rparr>)
          (fold_opt srt_metric (SnapshotStats now stats sorder (mgr_srt m)) mm))"

definition silent :: "time \<Rightarrow> Session \<Rightarrow> bool" where
  "silent now sess = (let (feAge, beAge) = LastReadAges now sess in feAge > 6 * second \<or> beAge > 6 * second)"

definition zmq_beat :: "time \<Rightarrow> port \<Rightarrow> tcpServer \<Rightarrow> tcpServer \<times> srv_effect list" where
  "zmq_beat now q s =
     (case tcp_sessions s q of
        None \<Rightarrow> (s, [])
      | Some sess \<Rightarrow>
          if silent now sess
          then (s\<lparr>tcp_sessions := (tcp_sessions s)(q \<mapsto> fst (Session_Stop sess))\<rparr>,
                map OnConn (snd (Session_Stop sess)))
          else (s, []))"

definition srt_beat :: "time \<Rightarrow> port \<Rightarrow> srtServer \<Rightarrow> srtServer \<times> srv_effect list" where
  "srt_beat now q s =
     (case srt_sessions s q of
        None \<Rightarrow> (s, [])
      | Some ss \<Rightarrow>
          if silent now (ss_Session ss)
          then (s\<lparr>srt_sessions := (srt_sessions s)(q \<mapsto>
                   ss\<lparr>ss_Session := fst (Session_Stop (ss_Session ss))\<rparr>)\<rparr>,
                map OnConn (snd (Session_Stop (ss_Session ss))))
          else (s, []))"

definition checkHeartbeats ::
    "time \<Rightarrow> port list \<times> port list \<Rightarrow> port list \<times> port list \<Rightarrow> Manager \<Rightarrow> Manager \<times> srv_effect list" where
  "checkHeartbeats now poolOrders sessOrders m =
     (let maxAge = gw_AuthTimeout (cfg_Gateway (mgr_cfg m));
          (expiredZ, zp) = ReleaseExpiredReservations (fst poolOrders) maxAge now (mgr_ZMQPool m);
          (expiredS, sp) = ReleaseExpiredReservations (snd poolOrders) maxAge now (mgr_SRTPool m);
          (z, es) = seq_effects (zmq_beat now) (fst sessOrders) (mgr_zmq m);
          (s, fs) = seq_effects (srt_beat now) (snd sessOrders) (mgr_srt m)
      in (m\<lparr>mgr_ZMQPool := zp, mgr_SRTPool := sp, mgr_zmq := z, mgr_srt := s\<rparr>, es @ fs))"

subsection \<open>Keys\<close>

lemma itoa_loop_digits:
  "0 < v \<Longrightarrow> itoa_loop v i b =
     (if length (show_nat (nat v)) \<le> i
      then Some (i - length (show_nat (nat v)), show_nat (nat v) @ b) else None)"
proof (induction v i b rule: itoa_loop.induct)
  case (1 v i b)
  show ?case
  proof (cases "v < 10")
    case True
    then have "v div 10 = 0" "v mod 10 = v" using 1(2) by simp_all
    moreover have "show_nat (nat v) = [digit_char (nat v)]"
      using True 1(2) by (subst show_nat.simps) simp
    ultimately show ?thesis
      using 1(2) by (subst itoa_loop.simps) (auto simp: itoa_loop.simps [of 0])
  next
    case False
    then have d: "0 < v div 10" "nat (v div 10) = nat v div 10" "nat (v mod 10) = nat v mod 10"
      by (simp_all add: nat_div_distrib nat_mod_distrib)
    have sh: "show_nat (nat v) = show_nat (nat v div 10) @ [digit_char (nat v mod 10)]"
      using False by (subst show_nat.simps) simp
    show ?thesis
    proof (cases "i = 0")
      case True
      then show ?thesis using 1(2) by (subst itoa_loop.simps) simp
    next
      case i: False
      note IH = 1(1) [OF 1(2) i d(1)]
      show ?thesis
        using 1(2) i by (subst itoa_loop.simps) (auto simp: IH [unfolded d One_nat_def] d sh)
    qed
  qed
qed

lemma length_show_nat: "0 < k \<Longrightarrow> length (show_nat n) \<le> k \<longleftrightarrow> n < 10 ^ k"
proof (induction n arbitrary: k rule: show_nat.induct)
  case (1 n)
  show ?case
  proof (cases "n < 10")
    case True
    moreover have "(10 :: nat) \<le> 10 ^ k" using 1(2) by (cases k) simp_all
    ultimately show ?thesis using 1(2) by (subst show_nat.simps) (simp add: Suc_le_eq)
  next
    case False
    show ?thesis
    proof (cases "k = 1")
      case True
      then show ?thesis using False by (subst show_nat.simps) (simp add: Suc_le_eq not_le)
    next
      case k: False
      then obtain j where j: "k = Suc j" "0 < j" using 1(2) by (cases k) auto
      have "n div 10 < 10 ^ j \<longleftrightarrow> n < 10 ^ k" by (simp add: j div_less_iff_less_mult mult.commute)
      with 1(1) [OF False j(2)] False show ?thesis by (subst show_nat.simps) (simp add: j)
    qed
  qed
qed

lemma wrap64_id: "int64_min \<le> i \<Longrightarrow> i \<le> int64_max \<Longrightarrow> wrap64 i = i"
  by (simp add: wrap64_def int64_min_def int64_max_def)

lemma itoa_exact:
  assumes "int64_min \<le> v" and "v \<le> int64_max"
  shows "itoa v = (if v = int64_min then Some ''-''
    else if - (10 ^ 15) < v \<and> v < 10 ^ 16 then Some (show_int v) else None)"
proof -
  consider "v = 0" | "0 < v" | "v = int64_min" | "int64_min < v" "v < 0"
    using assms(1) by linarith
  then show ?thesis
  proof cases
    case 1
    then show ?thesis by (simp add: itoa_def int64_min_def show_int_def show_nat.simps digit_char_eval)
  next
    case 2
    have "length (show_nat (nat v)) \<le> 16 \<longleftrightarrow> v < 10 ^ 16"
      using length_show_nat [of 16 "nat v"] 2 by (simp add: nat_less_iff)
    with 2 show ?thesis
      by (simp add: itoa_def itoa_loop_digits show_int_def int64_min_def Let_def)
  next
    case 3
    then have "wrap64 (- v) = v" by (simp add: wrap64_def int64_min_def)
    with 3 show ?thesis by (simp add: itoa_def int64_min_def itoa_loop.simps)
  next
    case 4
    then have w: "wrap64 (- v) = - v" by (intro wrap64_id) (auto simp: int64_min_def int64_max_def)
    have l: "length (show_nat (nat (- v))) \<le> 15 \<longleftrightarrow> - v < 10 ^ 15"
      using length_show_nat [of 15 "nat (- v)"] 4 by (simp add: nat_less_iff)
    have "0 < - v" using 4 by simp
    then show ?thesis
      using 4 l by (auto simp: itoa_def w itoa_loop_digits show_int_def Let_def)
  qed
qed

text \<open>
  The hand-written \<open>itoa\<close> is the decimal formatting on every port and on all 64-bit values of up
  to 16 characters; beyond them it runs off its 16-byte array and panics, and on the least 64-bit
  value, which is its own negation, it returns a lone sign.
\<close>

theorem itoa_spec:
  assumes "int64_min \<le> v" and "v \<le> int64_max"
  shows "itoa v = (if v = int64_min then Some ''-''
    else if - (10 ^ 15) < v \<and> v < 10 ^ 16 then Some (show_int v) else None)"
  by (rule itoa_exact [OF assms])

lemma itoa_spec_witness:
  "itoa 2300 = Some (show_int 2300) \<and> itoa (10 ^ 16) = None"
  using itoa_spec [of 2300] itoa_spec [of "10 ^ 16"] by (simp add: int64_min_def int64_max_def)

lemma itoa_port: "0 \<le> q \<Longrightarrow> q \<le> 65535 \<Longrightarrow> itoa q = Some (show_int q)"
  using itoa_exact [of q] by (simp add: int64_min_def int64_max_def)

lemma show_int_port: "0 \<le> q \<Longrightarrow> show_int q = show_nat (nat q)"
  by (simp add: show_int_def)

text \<open>The text after the last colon of a key is the port, so a key determines session and port.\<close>

lemma colon_suffix:
  assumes "s @ CHR '':'' # a = t @ CHR '':'' # b" and "CHR '':'' \<notin> set a" and "CHR '':'' \<notin> set b"
  shows "s = t \<and> a = b"
proof -
  have eq: "rev a @ CHR '':'' # rev s = rev b @ CHR '':'' # rev t"
    using arg_cong [OF assms(1), of rev] by simp
  have "rev a = rev b"
    using arg_cong [OF eq, of "takeWhile (\<lambda>c. c \<noteq> CHR '':'')"] assms(2,3)
    by (simp only: cut_at_first(1) set_rev not_False_eq_True)
  with eq show ?thesis by simp
qed

lemma metric_key_inj:
  assumes "kind = k @ '':''" and "0 \<le> q" "q \<le> 65535" "0 \<le> r" "r \<le> 65535"
    and "metric_key sid kind q = metric_key sid' kind r"
  shows "sid = sid' \<and> q = r"
proof -
  have no: "CHR '':'' \<notin> set (show_nat n)" for n
    using show_nat_digits [of "CHR '':''" n] by (auto simp: is_digit_def)
  have "(sid @ k) @ CHR '':'' # show_nat (nat q) = (sid' @ k) @ CHR '':'' # show_nat (nat r)"
    using assms by (simp add: metric_key_def itoa_port show_int_port)
  from colon_suffix [OF this no no] have e: "sid = sid'" "show_nat (nat q) = show_nat (nat r)" by simp_all
  have "nat q = nat r" using arg_cong [OF e(2), of read_nat] by (simp only: read_nat_show_nat)
  then have "q = r" using assms(2,4) by (simp only: eq_nat_nat_iff)
  with e(1) show ?thesis by blast
qed

subsection \<open>The quality score\<close>

definition f_nonneg :: "f64 \<Rightarrow> bool" where
  "f_nonneg x \<longleftrightarrow> x = Inf False \<or> (\<exists>v. x = Fin v \<and> 0 \<le> v)"

definition at_most_100 :: "f64 \<Rightarrow> bool" where
  "at_most_100 x \<longleftrightarrow> x = Inf True \<or> (\<exists>v. x = Fin v \<and> v \<le> 100)"

lemma f_scale_nonneg: "f_nonneg x \<Longrightarrow> 0 \<le> c \<Longrightarrow> f_nonneg (f_scale x c)"
  using rnd_nonneg by (cases x) (simp_all add: f_nonneg_def)

lemma minf_penalty:
  assumes "f_nonneg x" and "0 \<le> c" obtains t where "minf (Fin c) x = Fin t" and "0 \<le> t" and "t \<le> c"
proof (cases x)
  case (Fin v)
  with assms that [of c] that [of v] show thesis
    by (cases "c < v") (simp_all add: f_nonneg_def minf_def)
qed (use assms that [of c] in \<open>auto simp: f_nonneg_def minf_def\<close>)

lemma f_sub_at_most:
  assumes "at_most_100 x" and "0 \<le> t" shows "at_most_100 (f_sub x (Fin t))"
proof (cases x)
  case (Fin v)
  then have "v - t \<le> of_int 100" using assms by (simp add: at_most_100_def)
  from rnd_le [OF this] show ?thesis by (simp add: Fin f_sub_def at_most_100_def)
qed (use assms in \<open>auto simp: f_sub_def at_most_100_def\<close>)

text \<open>
  The quality score of a link is a number between 0 and 100, with every rounding of the 64-bit
  floats accounted for, whenever the round-trip time and the loss are numbers of at least 0 (or
  infinite); the rates may be anything, also NaN.
\<close>

theorem qualityScore_bounded:
  assumes "f_nonneg rttMs" and "f_nonneg lossPct"
  shows "\<exists>q. qualityScore up down rttMs lossPct = Fin q \<and> 0 \<le> q \<and> q \<le> 100"
proof -
  obtain t1 where t1: "minf (Fin 50) (f_scale lossPct 2) = Fin t1" "0 \<le> t1"
    using minf_penalty [OF f_scale_nonneg [OF assms(2), of 2], of 50] by auto
  obtain t2 where t2: "minf (Fin 30) (f_scale rttMs (1 / 10)) = Fin t2" "0 \<le> t2"
    using minf_penalty [OF f_scale_nonneg [OF assms(1), of "1 / 10"], of 30] by auto
  let ?s = "f_sub (f_sub (Fin 100) (Fin t1)) (Fin t2)"
  have "at_most_100 ?s"
    by (intro f_sub_at_most t1(2) t2(2)) (simp add: at_most_100_def)
  then have "at_most_100 (if f_le (f_add up down) (Fin 0) then f_sub ?s (Fin 10) else ?s)" (is "at_most_100 ?t")
    using f_sub_at_most [of ?s 10] by simp
  then have "\<exists>q. (if f_less ?t (Fin 0) then Fin 0 else ?t) = Fin q \<and> 0 \<le> q \<and> q \<le> 100"
    by (auto simp: at_most_100_def)
  then show ?thesis by (simp add: qualityScore_def t1 t2 Let_def)
qed

lemma qualityScore_bounded_witness:
  "\<exists>q. qualityScore NaN (Fin 3) (Fin 20) (Inf False) = Fin q \<and> 0 \<le> q \<and> q \<le> 100"
  by (rule qualityScore_bounded) (simp_all add: f_nonneg_def)

subsection \<open>One metric per session\<close>

lemma metric_key_port:
  "0 \<le> sess_port s \<Longrightarrow> sess_port s \<le> 65535 \<Longrightarrow>
    metric_key (sess_id s) kind (sess_port s) = Some (sess_id s @ kind @ show_int (sess_port s))"
  by (simp add: metric_key_def itoa_port)

definition zmq_key :: "Session \<Rightarrow> string" where
  "zmq_key s = sess_id s @ '':zmq:'' @ show_int (sess_port s)"

definition session_metric :: "time \<Rightarrow> Session \<Rightarrow> (int \<times> int \<times> int \<times> int) option \<Rightarrow> Metrics" where
  "session_metric now s prev =
     (let (feIn, feOut, beIn, beOut) = Counters s;
          (p0, p1, p2, p3) = (case prev of None \<Rightarrow> (0, 0, 0, 0) | Some p \<Rightarrow> p);
          up = mbps (wrap64 ((feIn + beIn) - (p0 + p2)));
          down = mbps (wrap64 ((feOut + beOut) - (p1 + p3)))
      in \<lparr>met_Kind = KindZMQ, met_Port = sess_port s, met_SessionID = sess_id s,
          met_ServerID = sess_server s, met_ClientID = sess_client s, met_MbpsUp = up, met_MbpsDown = down,
          met_RTTMs = Fin 0, met_LossPct = Fin 0, met_RetrPct = Fin 0,
          met_Quality = qualityScore up down (Fin 0) (Fin 0), met_UpdatedAt = now\<rparr>)"

definition port_ok :: "Session \<Rightarrow> bool" where
  "port_ok s \<longleftrightarrow> 0 \<le> sess_port s \<and> sess_port s \<le> 65535"

lemma zmq_key_inj:
  "port_ok s \<Longrightarrow> port_ok t \<Longrightarrow> zmq_key s = zmq_key t \<Longrightarrow> sess_port s = sess_port t"
  using metric_key_inj [of "'':zmq:''" "'':zmq''" "sess_port s" "sess_port t" "sess_id s" "sess_id t"]
  by (simp add: zmq_key_def port_ok_def metric_key_port)

lemma zmq_metric_eq:
  assumes "port_ok s"
  shows "zmq_metric now s (mm, prev) =
    Some (mm(zmq_key s \<mapsto> session_metric now s (prev (zmq_key s))), prev(zmq_key s \<mapsto> Counters s))"
  using assms
  by (simp add: zmq_metric_def session_metric_def metric_key_port port_ok_def zmq_key_def Let_def
      split: prod.split)

lemma fold_zmq_metric:
  assumes "\<forall>s \<in> set xs. port_ok s" and "distinct (map sess_port xs)"
  shows "\<exists>mm' prev'. fold_opt (zmq_metric now) xs (mm, prev) = Some (mm', prev') \<and>
    (\<forall>s \<in> set xs. mm' (zmq_key s) = Some (session_metric now s (prev (zmq_key s))) \<and>
       prev' (zmq_key s) = Some (Counters s)) \<and>
    (\<forall>k. k \<notin> zmq_key ` set xs \<longrightarrow> mm' k = mm k \<and> prev' k = prev k)"
  using assms
proof (induction xs arbitrary: mm prev)
  case Nil
  then show ?case by simp
next
  case (Cons s xs)
  have ok: "port_ok s" using Cons.prems(1) by simp
  let ?mm = "mm(zmq_key s \<mapsto> session_metric now s (prev (zmq_key s)))"
  let ?prev = "prev(zmq_key s \<mapsto> Counters s)"
  have fresh: "zmq_key t \<noteq> zmq_key s" if "t \<in> set xs" for t
    using zmq_key_inj [OF ok, of t] Cons.prems that by auto
  have "\<forall>s \<in> set xs. port_ok s" "distinct (map sess_port xs)" using Cons.prems by simp_all
  from Cons.IH [OF this, of ?mm ?prev]
  obtain mm' prev' where IH: "fold_opt (zmq_metric now) xs (?mm, ?prev) = Some (mm', prev')"
    "\<forall>t \<in> set xs. mm' (zmq_key t) = Some (session_metric now t (?prev (zmq_key t))) \<and>
       prev' (zmq_key t) = Some (Counters t)"
    "\<forall>k. k \<notin> zmq_key ` set xs \<longrightarrow> mm' k = ?mm k \<and> prev' k = ?prev k"
    by blast
  have "zmq_key s \<notin> zmq_key ` set xs" using fresh by (metis imageE)
  with IH(3) have own: "mm' (zmq_key s) = Some (session_metric now s (prev (zmq_key s)))"
    "prev' (zmq_key s) = Some (Counters s)" by simp_all
  have "fold_opt (zmq_metric now) (s # xs) (mm, prev) = Some (mm', prev')"
    by (simp add: zmq_metric_eq [OF ok] IH(1))
  moreover have "\<forall>t \<in> set (s # xs). mm' (zmq_key t) = Some (session_metric now t (prev (zmq_key t))) \<and>
      prev' (zmq_key t) = Some (Counters t)"
    using own IH(2) fresh by simp
  moreover have "\<forall>k. k \<notin> zmq_key ` set (s # xs) \<longrightarrow> mm' k = mm k \<and> prev' k = prev k"
    using IH(3) by simp
  ultimately show ?case by blast
qed

definition srt_key :: "Metrics \<Rightarrow> string" where
  "srt_key st = met_SessionID st @ '':srt:'' @ show_int (met_Port st)"

definition met_ok :: "Metrics \<Rightarrow> bool" where
  "met_ok st \<longleftrightarrow> 0 \<le> met_Port st \<and> met_Port st \<le> 65535"

lemma srt_key_inj: "met_ok s \<Longrightarrow> met_ok t \<Longrightarrow> srt_key s = srt_key t \<Longrightarrow> met_Port s = met_Port t"
  using metric_key_inj [of "'':srt:''" "'':srt''" "met_Port s" "met_Port t" "met_SessionID s" "met_SessionID t"]
  by (simp add: srt_key_def met_ok_def metric_key_def itoa_port)

lemma keys_apart: "port_ok s \<Longrightarrow> met_ok t \<Longrightarrow> zmq_key s \<noteq> srt_key t"
proof
  assume ok: "port_ok s" "met_ok t" and eq: "zmq_key s = srt_key t"
  have no: "CHR '':'' \<notin> set (show_nat n)" for n
    using show_nat_digits [of "CHR '':''" n] by (auto simp: is_digit_def)
  have "(sess_id s @ '':zmq'') @ CHR '':'' # show_nat (nat (sess_port s)) =
      (met_SessionID t @ '':srt'') @ CHR '':'' # show_nat (nat (met_Port t))"
    using ok eq by (simp add: zmq_key_def srt_key_def port_ok_def met_ok_def show_int_port)
  from colon_suffix [OF this no no] have "rev (sess_id s @ '':zmq'') = rev (met_SessionID t @ '':srt'')"
    by simp
  then show False by simp
qed

lemma fold_srt_metric:
  assumes "\<forall>s \<in> set xs. met_ok s" and "distinct (map met_Port xs)"
  shows "\<exists>mm'. fold_opt srt_metric xs mm = Some mm' \<and>
    (\<forall>s \<in> set xs. mm' (srt_key s) = Some s) \<and> (\<forall>k. k \<notin> srt_key ` set xs \<longrightarrow> mm' k = mm k)"
  using assms
proof (induction xs arbitrary: mm)
  case (Cons s xs)
  have ok: "met_ok s" using Cons.prems(1) by simp
  have fresh: "srt_key t \<noteq> srt_key s" if "t \<in> set xs" for t
    using srt_key_inj [OF ok, of t] Cons.prems that by auto
  have "\<forall>s \<in> set xs. met_ok s" "distinct (map met_Port xs)" using Cons.prems by simp_all
  from Cons.IH [OF this, of "mm(srt_key s \<mapsto> s)"]
  obtain mm' where IH: "fold_opt srt_metric xs (mm(srt_key s \<mapsto> s)) = Some mm'"
    "\<forall>t \<in> set xs. mm' (srt_key t) = Some t"
    "\<forall>k. k \<notin> srt_key ` set xs \<longrightarrow> mm' k = (mm(srt_key s \<mapsto> s)) k"
    by blast
  have "srt_key s \<notin> srt_key ` set xs" using fresh by (metis imageE)
  with IH(3) have "mm' (srt_key s) = Some s" by simp
  moreover have "srt_metric s mm = Some (mm(srt_key s \<mapsto> s))"
    using ok by (simp add: srt_metric_def metric_key_def itoa_port met_ok_def srt_key_def)
  ultimately show ?case using IH by simp
qed simp

lemma map_filter_values:
  "set (List.map_filter f xs) = {y. \<exists>x \<in> set xs. f x = Some y}"
  by (force simp: List.map_filter_def)

lemma map_filter_keys:
  assumes "\<And>x y. f x = Some y \<Longrightarrow> g y = x"
  shows "map g (List.map_filter f xs) = filter (\<lambda>x. f x \<noteq> None) xs"
  by (induction xs) (auto simp: List.map_filter_simps assms split: option.split)

text \<open>The sessions of a server are filed under their own port, a 16-bit one.\<close>

definition filed :: "(port \<Rightarrow> Session option) \<Rightarrow> bool" where
  "filed m \<longleftrightarrow> (\<forall>q s. m q = Some s \<longrightarrow> sess_port s = q \<and> 0 \<le> q \<and> q \<le> 65535)"

text \<open>
  A metrics tick is exact and cannot panic: whatever order the maps are ranged over, the new
  metrics have one entry per running session and no other; the entry of a TCP session is computed
  from the difference of its byte counters to those remembered for it, which are then replaced by
  the current ones; that of an SRT session from its connection's statistics.
\<close>

theorem updateMetrics_exact:
  assumes "iterates (tcp_sessions (mgr_zmq m)) zorder" and "iterates (srt_sessions (mgr_srt m)) sorder"
    and "filed (tcp_sessions (mgr_zmq m))" and "filed (map_option ss_Session \<circ> srt_sessions (mgr_srt m))"
  shows "\<exists>m'. updateMetrics now stats zorder sorder m = Some m' \<and>
    (\<forall>q s. tcp_sessions (mgr_zmq m) q = Some s \<longrightarrow>
       mgr_metrics m' (zmq_key s) = Some (session_metric now s (mgr_prev m (zmq_key s))) \<and>
       mgr_prev m' (zmq_key s) = Some (Counters s)) \<and>
    (\<forall>q ss. srt_sessions (mgr_srt m) q = Some ss \<longrightarrow>
       mgr_metrics m' (srt_key (srt_stat now stats (q, ss))) = Some (srt_stat now stats (q, ss))) \<and>
    dom (mgr_metrics m') = zmq_key ` ran (tcp_sessions (mgr_zmq m)) \<union>
      {srt_key (srt_stat now stats (q, ss)) | q ss. srt_sessions (mgr_srt m) q = Some ss}"
proof -
  let ?zs = "tcp_Sessions zorder (mgr_zmq m)"
  let ?ss = "SnapshotStats now stats sorder (mgr_srt m)"
  have zset: "set ?zs = ran (tcp_sessions (mgr_zmq m))"
    using iteratesD(2) [OF assms(1)] by (auto simp: tcp_Sessions_def map_filter_values ran_def)
  have zok: "\<forall>s \<in> set ?zs. port_ok s"
    using assms(3) by (auto simp: zset ran_def filed_def port_ok_def)
  have "map sess_port ?zs = filter (\<lambda>q. tcp_sessions (mgr_zmq m) q \<noteq> None) zorder"
    unfolding tcp_Sessions_def by (rule map_filter_keys) (use assms(3) in \<open>auto simp: filed_def\<close>)
  then have zdist: "distinct (map sess_port ?zs)" using iteratesD(1) [OF assms(1)] by simp
  obtain mm prev where z: "fold_opt (zmq_metric now) ?zs (Map.empty, mgr_prev m) = Some (mm, prev)"
    "\<forall>s \<in> set ?zs. mm (zmq_key s) = Some (session_metric now s (mgr_prev m (zmq_key s))) \<and>
       prev (zmq_key s) = Some (Counters s)"
    "\<forall>k. k \<notin> zmq_key ` set ?zs \<longrightarrow> mm k = None \<and> prev k = mgr_prev m k"
    using fold_zmq_metric [OF zok zdist, of now Map.empty "mgr_prev m"] by blast
  have sset: "set ?ss = {srt_stat now stats (q, ss) | q ss. srt_sessions (mgr_srt m) q = Some ss}"
    using iteratesD(2) [OF assms(2)] by (auto simp: SnapshotStats_def map_filter_values image_iff)
  have sok: "\<forall>s \<in> set ?ss. met_ok s"
    using assms(4) by (auto simp: sset met_ok_def srt_stat_def Let_def filed_def)
  have "map met_Port ?ss = filter (\<lambda>q. srt_sessions (mgr_srt m) q \<noteq> None) sorder"
  proof -
    have "map met_Port ?ss = map fst (List.map_filter (\<lambda>q. map_option (Pair q) (srt_sessions (mgr_srt m) q)) sorder)"
      by (simp add: SnapshotStats_def srt_stat_def case_prod_beta Let_def)
    also have "\<dots> = filter (\<lambda>q. map_option (Pair q) (srt_sessions (mgr_srt m) q) \<noteq> None) sorder"
      by (rule map_filter_keys) auto
    finally show ?thesis by simp
  qed
  then have sdist: "distinct (map met_Port ?ss)" using iteratesD(1) [OF assms(2)] by simp
  obtain mm' where s: "fold_opt srt_metric ?ss mm = Some mm'" "\<forall>s \<in> set ?ss. mm' (srt_key s) = Some s"
    "\<forall>k. k \<notin> srt_key ` set ?ss \<longrightarrow> mm' k = mm k"
    using fold_srt_metric [OF sok sdist, of mm] by blast
  have apart: "zmq_key t \<notin> srt_key ` set ?ss" if "t \<in> set ?zs" for t
    using keys_apart zok sok that by (metis imageE)
  let ?m' = "m\<lparr>mgr_metrics := mm', mgr_prev := prev\<rparr>"
  have run: "updateMetrics now stats zorder sorder m = Some ?m'"
    by (simp add: updateMetrics_def z(1) s(1))
  have "mgr_metrics ?m' (zmq_key t) = Some (session_metric now t (mgr_prev m (zmq_key t))) \<and>
      mgr_prev ?m' (zmq_key t) = Some (Counters t)" if "t \<in> set ?zs" for t
    using z(2) s(3) apart [OF that] that by simp
  moreover have "dom mm' = zmq_key ` set ?zs \<union> srt_key ` set ?ss"
  proof (intro set_eqI iffI)
    fix k assume "k \<in> dom mm'"
    then show "k \<in> zmq_key ` set ?zs \<union> srt_key ` set ?ss" using z(3) s(3) by (cases "mm k") auto
  next
    fix k assume "k \<in> zmq_key ` set ?zs \<union> srt_key ` set ?ss"
    then show "k \<in> dom mm'" using z(2) s(2,3) apart by auto
  qed
  moreover have "srt_key ` set ?ss = {srt_key (srt_stat now stats (q, ss)) | q ss. srt_sessions (mgr_srt m) q = Some ss}"
    by (auto simp: sset)
  moreover have "mm' (srt_key (srt_stat now stats (q, ss))) = Some (srt_stat now stats (q, ss))"
    if "srt_sessions (mgr_srt m) q = Some ss" for q ss
    using s(2) that unfolding sset by blast
  ultimately show ?thesis
    by (intro exI [of _ ?m'] conjI run) (auto simp: zset ranI)
qed

definition ex_session :: Session where
  "ex_session = NewSession 0 ''zmq'' 7 ''s'' ''v'' ''c'' (Some 1) (Some 2)"

definition ex_manager :: Manager where
  "ex_manager = (NewManager DefaultConfig ex_pool ex_pool)
     \<lparr>mgr_zmq := (newTCPServer KindZMQ ex_zmq)\<lparr>tcp_sessions := [7 \<mapsto> ex_session]\<rparr>\<rparr>"

definition ex_stats :: "conn \<Rightarrow> Statistics" where
  "ex_stats c = \<lparr>st_MsRTT = Fin 1, st_MbpsSentRate = Fin 0, st_MbpsRecvRate = Fin 0, st_PktRecvLossRate = Fin 0,
     st_PktSendLossRate = Fin 0\<rparr>"

lemma updateMetrics_exact_witness:
  "\<exists>m'. updateMetrics 5 ex_stats [7] [] ex_manager = Some m' \<and> dom (mgr_metrics m') = {zmq_key ex_session}"
proof -
  have e: "tcp_sessions (mgr_zmq ex_manager) = [7 \<mapsto> ex_session]"
    "srt_sessions (mgr_srt ex_manager) = Map.empty"
    by (simp_all add: ex_manager_def NewManager_def newSRTServer_def)
  have "iterates (tcp_sessions (mgr_zmq ex_manager)) [7]" "iterates (srt_sessions (mgr_srt ex_manager)) []"
    "filed (tcp_sessions (mgr_zmq ex_manager))"
    "filed (map_option ss_Session \<circ> srt_sessions (mgr_srt ex_manager))"
    by (simp_all add: e iterates_def filed_def ex_session_def NewSession_def)
  from updateMetrics_exact [OF this, of 5 ex_stats] show ?thesis by (auto simp: e)
qed

subsection \<open>The heartbeat check\<close>

definition beat :: "time \<Rightarrow> Session \<Rightarrow> Session" where
  "beat now s = (if silent now s then fst (Session_Stop s) else s)"

lemma zmq_beat_sessions:
  "tcp_sessions (fst (zmq_beat now q s)) = (tcp_sessions s)(q := map_option (beat now) (tcp_sessions s q))"
  by (auto simp: zmq_beat_def beat_def split: option.split)

lemma srt_beat_sessions:
  "map_option ss_Session \<circ> srt_sessions (fst (srt_beat now q s)) =
     (map_option ss_Session \<circ> srt_sessions s)
       (q := map_option (beat now) ((map_option ss_Session \<circ> srt_sessions s) q))"
  by (auto simp: srt_beat_def beat_def fun_eq_iff split: option.split)

lemma seq_effects_updates:
  assumes "\<And>q s. g (fst (f q s)) = (g s)(q := h (g s q))" and "distinct qs"
  shows "g (fst (seq_effects f qs s)) q = (if q \<in> set qs then h (g s q) else g s q)"
  using assms(2) by (induction qs arbitrary: s) (auto simp: case_prod_beta assms(1))

text \<open>
  C36. The heartbeat check stops exactly the silent sessions and expires exactly the old
  reservations: a session of either server is stopped when one of its sides has not delivered a byte
  for more than six seconds, and is left alone otherwise; a port of either pool is freed when its
  reservation is older than the authentication timeout, and keeps its state otherwise.
\<close>

theorem checkHeartbeats_exact:
  assumes "pool_inv (mgr_ZMQPool m)" "pool_inv (mgr_SRTPool m)"
    and "iterates (pool_state (mgr_ZMQPool m)) zpo" "iterates (pool_state (mgr_SRTPool m)) spo"
    and "iterates (tcp_sessions (mgr_zmq m)) zo" "iterates (srt_sessions (mgr_srt m)) so"
  shows "case checkHeartbeats now (zpo, spo) (zo, so) m of (m', es) \<Rightarrow>
    (\<forall>q. tcp_sessions (mgr_zmq m') q =
       map_option (\<lambda>s. if silent now s then fst (Session_Stop s) else s) (tcp_sessions (mgr_zmq m) q)) \<and>
    (\<forall>q. map_option ss_Session (srt_sessions (mgr_srt m') q) =
       map_option (\<lambda>s. if silent now (ss_Session s) then fst (Session_Stop (ss_Session s)) else ss_Session s)
         (srt_sessions (mgr_srt m) q)) \<and>
    (\<forall>q. view_port (mgr_ZMQPool m') q =
       v_expire (gw_AuthTimeout (cfg_Gateway (mgr_cfg m))) now (view_port (mgr_ZMQPool m) q)) \<and>
    (\<forall>q. view_port (mgr_SRTPool m') q =
       v_expire (gw_AuthTimeout (cfg_Gateway (mgr_cfg m))) now (view_port (mgr_SRTPool m) q))"
proof -
  have "tcp_sessions (fst (seq_effects (zmq_beat now) zo (mgr_zmq m))) q =
      map_option (beat now) (tcp_sessions (mgr_zmq m) q)" for q
    using seq_effects_updates [where g = tcp_sessions and f = "zmq_beat now" and h = "map_option (beat now)", OF zmq_beat_sessions iteratesD(1) [OF assms(5)]]
      iteratesD(2) [OF assms(5)] by (cases "tcp_sessions (mgr_zmq m) q") auto
  moreover have "(map_option ss_Session \<circ> srt_sessions (fst (seq_effects (srt_beat now) so (mgr_srt m)))) q =
      map_option (beat now) ((map_option ss_Session \<circ> srt_sessions (mgr_srt m)) q)" for q
    using seq_effects_updates [where g = "\<lambda>s. map_option ss_Session \<circ> srt_sessions s"
        and f = "srt_beat now" and h = "map_option (beat now)", OF srt_beat_sessions iteratesD(1) [OF assms(6)]]
      iteratesD(2) [OF assms(6)] by (cases "srt_sessions (mgr_srt m) q") auto
  ultimately show ?thesis
    using ReleaseExpired_view [OF assms(1,3)] ReleaseExpired_view [OF assms(2,4)]
    by (simp add: checkHeartbeats_def case_prod_beta Let_def beat_def [abs_def] option.map_comp o_def)
qed

lemma checkHeartbeats_exact_witness:
  "case checkHeartbeats (7 * second) ([7, 8, 9], [9, 8, 7]) ([7], []) ex_manager of (m', es) \<Rightarrow>
     map_option sess_done (tcp_sessions (mgr_zmq m') 7) = Some True"
proof -
  have e: "tcp_sessions (mgr_zmq ex_manager) = [7 \<mapsto> ex_session]" "srt_sessions (mgr_srt ex_manager) = Map.empty"
    "mgr_ZMQPool ex_manager = ex_pool" "mgr_SRTPool ex_manager = ex_pool"
    by (simp_all add: ex_manager_def NewManager_def newSRTServer_def)
  have "pool_inv (mgr_ZMQPool ex_manager)" "pool_inv (mgr_SRTPool ex_manager)"
    "iterates (pool_state (mgr_ZMQPool ex_manager)) [7, 8, 9]"
    "iterates (pool_state (mgr_SRTPool ex_manager)) [9, 8, 7]"
    "iterates (tcp_sessions (mgr_zmq ex_manager)) [7]" "iterates (srt_sessions (mgr_srt ex_manager)) []"
    by (simp_all add: e ex_pool_inv iterates_ex_pool iterates_def [of _ "[7]"] iterates_def [of _ "[]"])
  from checkHeartbeats_exact [OF this, of "7 * second"] show ?thesis
    by (simp add: e case_prod_beta silent_def LastReadAges_def ex_session_def NewSession_def new_lane_def second_def)
qed

subsection \<open>Starting\<close>

definition listens :: "(port \<Rightarrow> go_error + listener) \<Rightarrow> port list \<Rightarrow> bool" where
  "listens l qs \<longleftrightarrow> list_all (\<lambda>q. \<not> isl (l q)) qs"

text \<open>Starting ports that are not listening yet: it succeeds when every listener can be opened, and
  then exactly those ports have been added.\<close>

lemma start_ports_spec:
  assumes "\<And>q s. g s q = None \<Longrightarrow> (case l q of
      Inl e \<Rightarrow> fst (f q s) \<noteq> None
    | Inr lst \<Rightarrow> fst (f q s) = None \<and> g (fst (snd (f q s))) = (g s)(q \<mapsto> lst))"
    and "distinct qs" and "\<forall>q \<in> set qs. g s q = None"
  shows "(fst (start_ports f qs s) = None \<longleftrightarrow> listens l qs) \<and>
    (listens l qs \<longrightarrow> g (fst (snd (start_ports f qs s))) =
       (\<lambda>q. if q \<in> set qs then Some (projr (l q)) else g s q))"
  using assms(2,3)
proof (induction qs arbitrary: s)
  case (Cons q qs)
  obtain r s' es where f: "f q s = (r, s', es)" by (metis prod_cases3)
  show ?case
  proof (cases "l q")
    case (Inl e)
    then have "r \<noteq> None" using assms(1) [of s q] Cons.prems(2) by (simp add: f)
    then show ?thesis using Inl by (auto simp: f listens_def)
  next
    case (Inr lst)
    then have "r = None" and s': "g s' = (g s)(q \<mapsto> lst)"
      using assms(1) [of s q] Cons.prems(2) by (simp_all add: f)
    moreover have "\<forall>q \<in> set qs. g s' q = None" using Cons.prems by (auto simp: s')
    ultimately show ?thesis
      using Cons.IH [of s'] Cons.prems(1) Inr
      by (auto simp: f listens_def case_prod_beta Let_def fun_eq_iff)
  qed
qed (simp add: listens_def)

lemma tcp_StartPort_step:
  "tcp_listeners s q = None \<Longrightarrow> (case l of
      Inl e \<Rightarrow> fst (tcp_StartPort l id q s) \<noteq> None
    | Inr lst \<Rightarrow> fst (tcp_StartPort l id q s) = None \<and>
        tcp_listeners (fst (snd (tcp_StartPort l id q s))) = (tcp_listeners s)(q \<mapsto> lst))"
  by (simp add: tcp_StartPort_def Let_def split: sum.split)

lemma srt_StartPort_step:
  "srt_listeners s q = None \<Longrightarrow> (case l of
      Inl e \<Rightarrow> fst (srt_StartPort l id q s) \<noteq> None
    | Inr lst \<Rightarrow> fst (srt_StartPort l id q s) = None \<and>
        srt_listeners (fst (snd (srt_StartPort l id q s))) = (srt_listeners s)(q \<mapsto> lst))"
  by (simp add: srt_StartPort_def Let_def split: sum.split)

definition cfg_ports :: "string \<Rightarrow> port list" where
  "cfg_ports s = [range_Start (range_or_zero s)..range_End (range_or_zero s)]"

text \<open>
  Starting the data plane: on a new manager it succeeds exactly when the operating system lets it
  listen on every port of both configured ranges; then each of the two servers listens on exactly
  the ports of its range and the periodic tasks run. Otherwise they do not run.
\<close>

theorem Manager_Start_listens:
  "case Manager_Start listen (NewManager cfg zp sp) of (r, m, es) \<Rightarrow>
     let zq = cfg_ports (zmq_PortRange (cfg_ZeroMQ cfg)); sq = cfg_ports (srt_PortRange (cfg_GoSRT cfg))
     in (r = None) = (listens (listen KindZMQ) zq \<and> listens (listen KindSRT) sq) \<and>
        mgr_running m = (r = None) \<and>
        (case r of
           Some e \<Rightarrow> True
         | None \<Rightarrow>
           tcp_listeners (mgr_zmq m) = (\<lambda>q. if q \<in> set zq then Some (projr (listen KindZMQ q)) else None) \<and>
           srt_listeners (mgr_srt m) = (\<lambda>q. if q \<in> set sq then Some (projr (listen KindSRT q)) else None))"
proof -
  let ?zq = "cfg_ports (zmq_PortRange (cfg_ZeroMQ cfg))"
  let ?sq = "cfg_ports (srt_PortRange (cfg_GoSRT cfg))"
  let ?z = "start_ports (\<lambda>q. tcp_StartPort (listen KindZMQ q) id q) ?zq (newTCPServer KindZMQ (cfg_ZeroMQ cfg))"
  let ?s = "start_ports (\<lambda>q. srt_StartPort (listen KindSRT q) id q) ?sq newSRTServer"
  have dist: "distinct (cfg_ports t)" for t by (simp add: cfg_ports_def)
  have new: "tcp_listeners (newTCPServer KindZMQ (cfg_ZeroMQ cfg)) = (\<lambda>q. None)"
    "srt_listeners newSRTServer = (\<lambda>q. None)"
    by (simp_all add: newTCPServer_def newSRTServer_def)
  have z: "(fst ?z = None \<longleftrightarrow> listens (listen KindZMQ) ?zq) \<and> (listens (listen KindZMQ) ?zq \<longrightarrow>
      tcp_listeners (fst (snd ?z)) = (\<lambda>q. if q \<in> set ?zq then Some (projr (listen KindZMQ q)) else None))"
    using start_ports_spec [where g = tcp_listeners and l = "listen KindZMQ" and qs = ?zq
        and f = "\<lambda>q. tcp_StartPort (listen KindZMQ q) id q" and s = "newTCPServer KindZMQ (cfg_ZeroMQ cfg)",
        OF tcp_StartPort_step dist]
    by (simp only: new) simp
  have s: "(fst ?s = None \<longleftrightarrow> listens (listen KindSRT) ?sq) \<and> (listens (listen KindSRT) ?sq \<longrightarrow>
      srt_listeners (fst (snd ?s)) = (\<lambda>q. if q \<in> set ?sq then Some (projr (listen KindSRT q)) else None))"
    using start_ports_spec [where g = srt_listeners and l = "listen KindSRT" and qs = ?sq
        and f = "\<lambda>q. srt_StartPort (listen KindSRT q) id q" and s = newSRTServer,
        OF srt_StartPort_step dist]
    by (simp only: new) simp
  show ?thesis
    using z s
    by (cases "fst ?z"; cases "fst ?s")
       (auto simp: Manager_Start_def NewManager_def Let_def case_prod_beta cfg_ports_def)
qed

end
