(* ===== verification/Hub.thy ===== *)
theory Hub
  imports Manager "HOL-Library.Char_ord" "HOL-Library.List_Lexorder"
begin

section \<open>The control plane (v4/control/protocol.go, server.go)\<close>

text \<open>
  The hub registers back ends (servers) and front ends (clients) on control connections, answers
  pairing requests by reserving ports for a server with spare capacity, and broadcasts its state.
  Each function runs under the hub's mutex or calls one pool method at a time; what others do to
  the pools between the choice of a server and the reservation is an argument. The results of
  reading the next JSON value from a connection, the outcome of each send, random ids, times and map
  orders are arguments. A \<open>*Client\<close> is identified by its connection, which it owns alone; the hub's
  maps hold such references, and the objects are in \<open>hub_objects\<close>.
\<close>

subsection \<open>Messages\<close>

datatype MessageType =
    MsgRegister | MsgRegisterAck | MsgPairRequest | MsgPairGrant | MsgPairError | MsgStatus
  | MsgTelemetry | MsgError | MsgPortState | MsgPortConflict

fun MessageType_text :: "MessageType \<Rightarrow> string" where
  "MessageType_text MsgRegister = ''register''"
| "MessageType_text MsgRegisterAck = ''register_ack''"
| "MessageType_text MsgPairRequest = ''pair_request''"
| "MessageType_text MsgPairGrant = ''pair_grant''"
| "MessageType_text MsgPairError = ''pair_error''"
| "MessageType_text MsgStatus = ''status''"
| "MessageType_text MsgTelemetry = ''telemetry''"
| "MessageType_text MsgError = ''error''"
| "MessageType_text MsgPortState = ''port_state''"
| "MessageType_text MsgPortConflict = ''port_conflict''"

definition RoleServer :: string where "RoleServer = ''server''"
definition RoleClient :: string where "RoleClient = ''client''"

record RegisterPayload =
  reg_Role :: string
  reg_ID :: string
  reg_Token :: string
  reg_MaxConn :: int

record PairRequestPayload =
  pr_RequestID :: string
  pr_ServerID :: string
  pr_NeedZMQ :: bool
  pr_NeedSRT :: bool

record PairGrantPayload =
  pg_RequestID :: string
  pg_SessionID :: string
  pg_ServerID :: string
  pg_ClientID :: string
  pg_ServerToken :: string
  pg_ClientToken :: string
  pg_ZMQPort :: port
  pg_SRTPort :: port

record ServerStatusPayload =
  ssp_ServerID :: string
  ssp_OccupiedPorts :: "port list"
  ssp_Remaining :: int
  ssp_CPUPercent :: f64
  ssp_MemMB :: f64

record TelemetryPayload =
  tp_Kind :: string
  tp_Port :: port
  tp_SessionID :: string
  tp_ServerID :: string
  tp_ClientID :: string
  tp_MbpsUp :: f64
  tp_MbpsDown :: f64
  tp_RTTMs :: f64
  tp_LossPct :: f64
  tp_RetrPct :: f64
  tp_Quality :: f64

record PortStateKindPayload =
  psk_Total :: nat
  psk_Idle :: nat
  psk_Reserved :: nat
  psk_Occupied :: nat
  psk_Blocked :: nat
  psk_IdlePorts :: "port list"

record PortStatePayload =
  ps_ZMQ :: PortStateKindPayload
  ps_SRT :: PortStateKindPayload

record HealthStatusPayload =
  hs_Status :: string
  hs_StartedAtUnixMs :: int
  hs_NowUnixMs :: int
  hs_Connections :: nat
  hs_BroadcastUnixMs :: int
  hs_PortState :: PortStatePayload

datatype payload =
    RegisterAck string int string
  | PairGrant PairGrantPayload
  | ErrorPayload int string
  | ServerStatus "ServerStatusPayload list"
  | Telemetry "TelemetryPayload list"
  | PortState PortStatePayload

datatype Envelope = Envelope MessageType payload

subsection \<open>Reading messages\<close>

text \<open>
  An incoming value is decoded into an \<open>Envelope\<close>, whose payload is generic; the payload is then
  written back and decoded into its struct. The detour turns an object into a map, so its members
  come in the order of their keys and the last of several equal keys counts, and turns a number
  into a 64-bit float, so an integer field takes any spelling of an integer up to 2^53 in size (a
  larger number, which only a hostile peer sends, is an error of its field here).
\<close>

definition num_rat :: "string \<Rightarrow> rat" where
  "num_rat t =
     (let neg = has_prefix t ''-''; s = (if neg then tl t else t);
          ip = takeWhile is_digit s; r = drop (length ip) s;
          fp = (if has_prefix r ''.'' then takeWhile is_digit (tl r) else []);
          x = dropWhile (\<lambda>c. c \<noteq> CHR ''e'' \<and> c \<noteq> CHR ''E'') r;
          e = (if x = [] then 0 else case atoi (tl x) of None \<Rightarrow> 0 | Some i \<Rightarrow> i);
          m = of_nat (read_nat (ip @ fp)) / 10 ^ length fp;
          v = (if 0 \<le> e then m * 10 ^ nat e else m / 10 ^ nat (- e))
      in if neg then - v else v)"

definition num_int :: "string \<Rightarrow> int option" where
  "num_int t =
     (case rnd (num_rat t) of
        Fin v \<Rightarrow> if of_int \<lfloor>v\<rfloor> = v \<and> \<bar>v\<bar> \<le> 2 ^ 53 then Some \<lfloor>v\<rfloor> else None
      | _ \<Rightarrow> None)"

type_synonym 'a setter = "json \<Rightarrow> 'a \<Rightarrow> 'a option"

fun set_string :: "(string \<Rightarrow> 'a \<Rightarrow> 'a) \<Rightarrow> 'a setter" where
  "set_string f (JStr s) a = Some (f s a)"
| "set_string f JNull a = Some a"
| "set_string f _ a = None"

fun set_bool :: "(bool \<Rightarrow> 'a \<Rightarrow> 'a) \<Rightarrow> 'a setter" where
  "set_bool f (JBool b) a = Some (f b a)"
| "set_bool f JNull a = Some a"
| "set_bool f _ a = None"

fun set_int :: "(int \<Rightarrow> 'a \<Rightarrow> 'a) \<Rightarrow> 'a setter" where
  "set_int f (JNum t) a = map_option (\<lambda>i. f i a) (num_int t)"
| "set_int f JNull a = Some a"
| "set_int f _ a = None"

definition decode_member :: "(string \<times> 'a setter) list \<Rightarrow> string \<times> json \<Rightarrow> 'a \<times> bool \<Rightarrow> 'a \<times> bool" where
  "decode_member fds m acc =
     (let (k, v) = m; (a, ok) = acc in
      case find (\<lambda>(name, put). field_match k name) fds of
        None \<Rightarrow> acc
      | Some (name, put) \<Rightarrow> (case put v a of Some a' \<Rightarrow> (a', ok) | None \<Rightarrow> (a, False)))"

text \<open>The decoded struct, filled as far as it goes, and whether there was no error.\<close>

definition decode_struct :: "(string \<times> 'a setter) list \<Rightarrow> json \<Rightarrow> 'a \<Rightarrow> 'a \<times> bool" where
  "decode_struct fds v zero =
     (case v of
        JObj ms \<Rightarrow> fold (decode_member fds) ms (zero, True)
      | JNull \<Rightarrow> (zero, True)
      | _ \<Rightarrow> (zero, False))"

definition generic :: "json \<Rightarrow> json" where
  "generic v =
     (case v of
        JObj ms \<Rightarrow> JObj (map (\<lambda>k. (k, the (map_of (rev ms) k))) (sort (remdups (map fst ms))))
      | _ \<Rightarrow> v)"

definition decode_envelope :: "json \<Rightarrow> (string \<times> json) option" where
  "decode_envelope v =
     (let ((ty, pl), ok) = decode_struct
        [(''type'', set_string (\<lambda>s (ty, pl). (s, pl))), (''payload'', \<lambda>v (ty, pl). Some (ty, v))]
        v ('''', JNull)
      in if ok then Some (ty, pl) else None)"

definition decode_register :: "json \<Rightarrow> RegisterPayload" where
  "decode_register pl =
     fst (decode_struct
       [(''role'', set_string (\<lambda>s r. r\<lparr>reg_Role := s\<rparr>)), (''id'', set_string (\<lambda>s r. r\<lparr>reg_ID := s\<rparr>)),
        (''token'', set_string (\<lambda>s r. r\<lparr>reg_Token := s\<rparr>)),
        (''max_conn'', set_int (\<lambda>i r. r\<lparr>reg_MaxConn := i\<rparr>))]
       (generic pl) \<lparr>reg_Role = '''', reg_ID = '''', reg_Token = '''', reg_MaxConn = 0\<rparr>)"

definition decode_pair_request :: "json \<Rightarrow> PairRequestPayload option" where
  "decode_pair_request pl =
     (let (r, ok) = decode_struct
        [(''request_id'', set_string (\<lambda>s r. r\<lparr>pr_RequestID := s\<rparr>)),
         (''server_id'', set_string (\<lambda>s r. r\<lparr>pr_ServerID := s\<rparr>)),
         (''need_zmq'', set_bool (\<lambda>b r. r\<lparr>pr_NeedZMQ := b\<rparr>)),
         (''need_srt'', set_bool (\<lambda>b r. r\<lparr>pr_NeedSRT := b\<rparr>)),
         (''qos'', \<lambda>v r. Some r)]
        (generic pl) \<lparr>pr_RequestID = '''', pr_ServerID = '''', pr_NeedZMQ = False, pr_NeedSRT = False\<rparr>
      in if ok then Some r else None)"

subsection \<open>State\<close>

record Client =
  cl_Conn :: conn
  cl_Role :: string
  cl_ID :: string
  cl_Token :: string
  cl_MaxConn :: int
  cl_Auth :: AuthStatus
  cl_closed :: bool

text \<open>The connections registered, in the order of their registration, are the keys of the Go map
  \<open>clients\<close>; \<open>servers\<close> and \<open>fe\<close> map an id to the connection of its client.\<close>

record Hub =
  hub_cfg :: Config
  hub_zmqPool :: Pool
  hub_srtPool :: Pool
  hub_objects :: "conn \<Rightarrow> Client option"
  hub_clients :: "conn list"
  hub_servers :: "string \<Rightarrow> conn option"
  hub_fe :: "string \<Rightarrow> conn option"
  hub_gwStatus :: GatewayStatus
  hub_started :: time
  hub_lastBroadcast :: int

datatype hub_effect =
    SendTo conn Envelope
  | CloseCtl conn
  | WriteBytes conn string
  | GoPairLoop conn PairRequestPayload
  | SleepFor duration

definition NewHub :: "time \<Rightarrow> Config \<Rightarrow> Pool \<Rightarrow> Pool \<Rightarrow> Hub" where
  "NewHub now cfg zmqPool srtPool =
     \<lparr>hub_cfg = cfg, hub_zmqPool = zmqPool, hub_srtPool = srtPool, hub_objects = Map.empty,
      hub_clients = [], hub_servers = Map.empty, hub_fe = Map.empty, hub_gwStatus = GatewayStarting,
      hub_started = now, hub_lastBroadcast = 0\<rparr>"

subsection \<open>Clients\<close>

text \<open>\<open>Send\<close> fails on a closed client without touching the connection; \<open>ok\<close> is the outcome of the
  write.\<close>

definition Client_Send :: "bool \<Rightarrow> Client \<Rightarrow> Envelope \<Rightarrow> bool \<times> hub_effect list" where
  "Client_Send ok c msg = (if cl_closed c then (False, []) else (ok, [SendTo (cl_Conn c) msg]))"

definition Client_Close :: "conn \<Rightarrow> Hub \<Rightarrow> Hub \<times> hub_effect list" where
  "Client_Close k h =
     (case hub_objects h k of
        None \<Rightarrow> (h, [])
      | Some c \<Rightarrow>
          if cl_closed c then (h, [])
          else (h\<lparr>hub_objects := (hub_objects h)(k \<mapsto> c\<lparr>cl_closed := True\<rparr>)\<rparr>, [CloseCtl k]))"

text \<open>The checks before the mutex, which also default the capacity, and the locked registration.\<close>

definition check_client :: "Client \<Rightarrow> go_error + Client" where
  "check_client c =
     (if cl_ID c = '''' \<or> cl_Token c = ''''
      then Inl (new_err CodeBadRequest ''missing id/token'')
      else let c = (if cl_MaxConn c \<le> 0 then c\<lparr>cl_MaxConn := 1\<rparr> else c)
           in if cl_Role c \<noteq> RoleServer \<and> cl_Role c \<noteq> RoleClient
              then Inl (new_err CodeBadRequest ''invalid role'') else Inr c)"

definition validateAndRegister :: "Client \<Rightarrow> Hub \<Rightarrow> go_error option \<times> Hub" where
  "validateAndRegister c0 h =
     (case check_client c0 of
        Inl e \<Rightarrow> (Some e, h)
      | Inr c \<Rightarrow>
          if int (length (hub_clients h)) \<ge> gw_MaxConnections (cfg_Gateway (hub_cfg h))
          then (Some (new_err CodeUnavailable ''max connections reached''), h)
          else if cl_Role c = RoleServer \<and> hub_servers h (cl_ID c) \<noteq> None
          then (Some (new_err CodeConflict ''duplicate server id''), h)
          else if cl_Role c \<noteq> RoleServer \<and> hub_fe h (cl_ID c) \<noteq> None
          then (Some (new_err CodeConflict ''duplicate client id''), h)
          else (let h1 = (if cl_Role c = RoleServer
                          then h\<lparr>hub_servers := (hub_servers h)(cl_ID c \<mapsto> cl_Conn c)\<rparr>
                          else h\<lparr>hub_fe := (hub_fe h)(cl_ID c \<mapsto> cl_Conn c)\<rparr>)
                in (None, h1\<lparr>hub_clients := (if cl_Conn c \<in> set (hub_clients h1) then hub_clients h1
                                             else hub_clients h1 @ [cl_Conn c]),
                             hub_objects := (hub_objects h1)(cl_Conn c \<mapsto> c\<lparr>cl_Auth := AuthApproved\<rparr>)\<rparr>)))"

definition unregister :: "Client \<Rightarrow> Hub \<Rightarrow> Hub" where
  "unregister c h =
     (let h = h\<lparr>hub_clients := filter (\<lambda>k. k \<noteq> cl_Conn c) (hub_clients h)\<rparr>
      in if cl_Role c = RoleServer
         then (if hub_servers h (cl_ID c) = Some (cl_Conn c)
               then h\<lparr>hub_servers := (hub_servers h)(cl_ID c := None)\<rparr> else h)
         else (if hub_fe h (cl_ID c) = Some (cl_Conn c)
               then h\<lparr>hub_fe := (hub_fe h)(cl_ID c := None)\<rparr> else h))"

definition connectionCount :: "Hub \<Rightarrow> nat" where
  "connectionCount h = length (hub_clients h)"

text \<open>\<open>Broadcast\<close>: the open clients in some order; one whose send fails is closed.\<close>

definition broadcast_one :: "(conn \<Rightarrow> bool) \<Rightarrow> Envelope \<Rightarrow> conn \<Rightarrow> Hub \<Rightarrow> Hub \<times> hub_effect list" where
  "broadcast_one ok env k h =
     (case hub_objects h k of
        None \<Rightarrow> (h, [])
      | Some c \<Rightarrow>
          (let (sent, es) = Client_Send (ok k) c env
           in if sent then (h, es) else (let (h', fs) = Client_Close k h in (h', es @ fs))))"

definition Broadcast :: "(conn \<Rightarrow> bool) \<Rightarrow> conn list \<Rightarrow> Envelope \<Rightarrow> Hub \<Rightarrow> Hub \<times> hub_effect list" where
  "Broadcast ok order env h =
     seq_effects (broadcast_one ok env)
       (filter (\<lambda>k. case hub_objects h k of None \<Rightarrow> False | Some c \<Rightarrow> \<not> cl_closed c) order) h"

subsection \<open>Capacity\<close>

definition poolOccupiedPorts :: "Pool \<Rightarrow> string \<Rightarrow> port list" where
  "poolOccupiedPorts p serverID =
     filter (\<lambda>port. case Pool_Allocation p port of None \<Rightarrow> False | Some a \<Rightarrow> alloc_ServerID a = serverID)
       (snap_OccupiedPorts (Pool_Snapshot p))"

definition occupiedPortsForServer :: "Pool \<Rightarrow> Pool \<Rightarrow> string \<Rightarrow> port list" where
  "occupiedPortsForServer zmqPool srtPool serverID =
     sort (poolOccupiedPorts zmqPool serverID @ poolOccupiedPorts srtPool serverID)"

text \<open>The order in which \<open>tryPairOnce\<close> sorts its candidates: more capacity first, then by id.\<close>

datatype cand = Cand (cand_remaining: int) (cand_ID: string)

definition cand_before :: "cand \<Rightarrow> cand \<Rightarrow> bool" where
  "cand_before a b \<longleftrightarrow>
     (if cand_remaining a \<noteq> cand_remaining b then cand_remaining b < cand_remaining a
      else cand_ID a < cand_ID b)"

instantiation cand :: linorder
begin

definition less_cand :: "cand \<Rightarrow> cand \<Rightarrow> bool" where
  "less_cand a b \<longleftrightarrow> cand_before a b"

definition less_eq_cand :: "cand \<Rightarrow> cand \<Rightarrow> bool" where
  "less_eq_cand a b \<longleftrightarrow> a = b \<or> a < (b :: cand)"

instance
proof
  fix x y z :: cand
  show "x < y \<longleftrightarrow> x \<le> y \<and> \<not> y \<le> x"
    by (auto simp: less_eq_cand_def less_cand_def cand_before_def)
  show "x \<le> x" by (simp add: less_eq_cand_def)
  show "x \<le> y \<Longrightarrow> y \<le> z \<Longrightarrow> x \<le> z"
    by (auto simp: less_eq_cand_def less_cand_def cand_before_def split: if_splits)
  show "x \<le> y \<Longrightarrow> y \<le> x \<Longrightarrow> x = y"
    by (auto simp: less_eq_cand_def less_cand_def cand_before_def split: if_splits)
  show "x \<le> y \<or> y \<le> x"
    by (cases x; cases y) (auto simp: less_eq_cand_def less_cand_def cand_before_def)
qed

end

subsection \<open>Pairing\<close>

text \<open>\<open>newID\<close> from 16 random bytes, or from the time when there are none.\<close>

definition hex_letters :: string where "hex_letters = ''0123456789abcdef''"

fun hex_nat :: "nat \<Rightarrow> string" where
  "hex_nat n = (if n < 16 then [hex_letters ! n] else hex_nat (n div 16) @ [hex_letters ! (n mod 16)])"

declare hex_nat.simps [simp del]

definition newID :: "nat + nat list \<Rightarrow> string" where
  "newID rand =
     (case rand of
        Inl now \<Rightarrow> CHR ''s'' # hex_nat now
      | Inr bytes \<Rightarrow> map (\<lambda>b. hex_letters ! (b mod length hex_letters)) (take 16 bytes))"

text \<open>The servers a request may go to, in the order of the map, and the candidates with capacity.\<close>

definition request_servers :: "string list \<Rightarrow> PairRequestPayload \<Rightarrow> Hub \<Rightarrow> Client list" where
  "request_servers order pr h =
     (if pr_ServerID pr \<noteq> ''''
      then (case Option.bind (hub_servers h (pr_ServerID pr)) (hub_objects h) of None \<Rightarrow> [] | Some s \<Rightarrow> [s])
      else List.map_filter (\<lambda>i. Option.bind (hub_servers h i) (hub_objects h)) order)"

definition remaining_of :: "Hub \<Rightarrow> Client \<Rightarrow> int" where
  "remaining_of h s =
     cl_MaxConn s - int (length (occupiedPortsForServer (hub_zmqPool h) (hub_srtPool h) (cl_ID s)))"

definition candidates :: "Hub \<Rightarrow> Client list \<Rightarrow> (cand \<times> Client) list" where
  "candidates h servers =
     map (\<lambda>s. (Cand (remaining_of h s) (cl_ID s), s)) (filter (\<lambda>s. remaining_of h s > 0) servers)"

text \<open>The reservations of one attempt: a failed SRT reservation gives the ZMQ port back.\<close>

definition reserve_ports ::
    "time \<Rightarrow> string \<Rightarrow> string \<Rightarrow> string \<Rightarrow> PairRequestPayload \<Rightarrow> Pool \<times> Pool \<Rightarrow>
      (go_error + port \<times> port) \<times> Pool \<times> Pool" where
  "reserve_ports now sid srv cli pr ps =
     (let (zp, sp) = ps;
          (rz, zp1) = (if pr_NeedZMQ pr
            then (let (r, p) = Reserve now sid srv cli zp in (case r of Inl e \<Rightarrow> Inl e | Inr a \<Rightarrow> Inr (alloc_Port a), p))
            else (Inr 0, zp))
      in case rz of Inl e \<Rightarrow> (Inl e, zp1, sp)
         | Inr zmqPort \<Rightarrow>
             (let (rs, sp1) = (if pr_NeedSRT pr
                then (let (r, p) = Reserve now sid srv cli sp in (case r of Inl e \<Rightarrow> Inl e | Inr a \<Rightarrow> Inr (alloc_Port a), p))
                else (Inr 0, sp))
              in case rs of
                   Inl e \<Rightarrow> (Inl e, if zmqPort \<noteq> 0 then snd (Release zmqPort sid zp1) else zp1, sp1)
                 | Inr srtPort \<Rightarrow>
                     if zmqPort = 0 \<and> srtPort = 0
                     then (Inl (new_err CodeBadRequest ''need_zmq/need_srt both false''), zp1, sp1)
                     else (Inr (zmqPort, srtPort), zp1, sp1)))"

definition tryPairOnce ::
    "string list \<Rightarrow> pool_op list \<times> pool_op list \<Rightarrow> string \<Rightarrow> time \<Rightarrow> Client \<Rightarrow> PairRequestPayload \<Rightarrow> Hub \<Rightarrow>
      (go_error + PairGrantPayload) \<times> Hub" where
  "tryPairOnce order others sid now c pr h =
     (let servers = request_servers order pr h in
      if servers = [] then (Inl (new_err CodeUnavailable ''no server online''), h)
      else (case sort_key fst (candidates h servers) of
          [] \<Rightarrow> (Inl (new_err CodeUnavailable ''no server capacity''), h)
        | (k, server) # rest \<Rightarrow>
            (let (r, zp, sp) = reserve_ports now sid (cl_ID server) (cl_ID c) pr
                   (fold pool_do (fst others) (hub_zmqPool h), fold pool_do (snd others) (hub_srtPool h));
                 h' = h\<lparr>hub_zmqPool := zp, hub_srtPool := sp\<rparr>
             in case r of
                  Inl e \<Rightarrow> (Inl e, h')
                | Inr (zmqPort, srtPort) \<Rightarrow>
                    (Inr \<lparr>pg_RequestID = pr_RequestID pr, pg_SessionID = sid, pg_ServerID = cl_ID server,
                          pg_ClientID = cl_ID c, pg_ServerToken = cl_Token server, pg_ClientToken = cl_Token c,
                          pg_ZMQPort = zmqPort, pg_SRTPort = srtPort\<rparr>, h'))))"

text \<open>What surrounds one attempt of \<open>pairLoop\<close>: whether the context is done, what others did to the
  hub since the last attempt, and the arguments of \<open>tryPairOnce\<close> and of the sends.\<close>

record attempt =
  at_done :: bool
  at_env :: "Hub \<Rightarrow> Hub"
  at_order :: "string list"
  at_others :: "pool_op list \<times> pool_op list"
  at_sid :: string
  at_now :: time

definition send_to :: "conn \<Rightarrow> Envelope \<Rightarrow> Hub \<Rightarrow> hub_effect list" where
  "send_to k env h =
     (case hub_objects h k of None \<Rightarrow> [] | Some c \<Rightarrow> snd (Client_Send True c env))"

definition grant_effects :: "conn \<Rightarrow> PairGrantPayload \<Rightarrow> Hub \<Rightarrow> hub_effect list" where
  "grant_effects k g h =
     send_to k (Envelope MsgPairGrant (PairGrant g)) h @
     (case hub_servers h (pg_ServerID g) of
        None \<Rightarrow> [] | Some s \<Rightarrow> send_to s (Envelope MsgPairGrant (PairGrant g)) h)"

fun pairLoop :: "(nat \<Rightarrow> attempt) \<Rightarrow> nat \<Rightarrow> Client \<Rightarrow> PairRequestPayload \<Rightarrow> Hub \<Rightarrow> Hub \<times> hub_effect list" where
  "pairLoop ats 0 c pr h =
     (h, send_to (cl_Conn c) (Envelope MsgPairError (ErrorPayload CodeNoPortTimeout ''no port available'')) h)"
| "pairLoop ats (Suc n) c pr h0 =
     (let a = ats n; h = at_env a h0 in
      if at_done a then (h, [])
      else (case tryPairOnce (at_order a) (at_others a) (at_sid a) (at_now a) c pr h of
          (Inr g, h') \<Rightarrow> (h', grant_effects (cl_Conn c) g h')
        | (Inl e, h') \<Rightarrow>
            if errors_Code (Some e) \<noteq> CodeUnavailable
            then (h', send_to (cl_Conn c)
                   (Envelope MsgPairError (ErrorPayload (errors_Code (Some e)) (error_text e))) h')
            else (let (h'', es) = pairLoop ats n c pr h' in (h'', SleepFor (5 * second) # es))))"

definition pair_request_loop :: "(nat \<Rightarrow> attempt) \<Rightarrow> Client \<Rightarrow> PairRequestPayload \<Rightarrow> Hub \<Rightarrow> Hub \<times> hub_effect list" where
  "pair_request_loop ats c pr h = pairLoop ats 50 c pr h"

definition handlePairRequest :: "string \<Rightarrow> Client \<Rightarrow> PairRequestPayload \<Rightarrow> Hub \<Rightarrow> hub_effect list" where
  "handlePairRequest fresh c pr h =
     (if cl_Role c \<noteq> RoleClient
      then send_to (cl_Conn c) (Envelope MsgError (ErrorPayload CodeBadRequest ''only client can pair_request'')) h
      else [GoPairLoop (cl_Conn c) (if pr_RequestID pr = '''' then pr\<lparr>pr_RequestID := fresh\<rparr> else pr)])"

subsection \<open>State, status and telemetry\<close>

definition kind_payload :: "Snapshot \<Rightarrow> bool \<Rightarrow> PortStateKindPayload" where
  "kind_payload s idle =
     \<lparr>psk_Total = snap_Total s, psk_Idle = snap_Idle s, psk_Reserved = snap_Reserved s,
      psk_Occupied = snap_Occupied s, psk_Blocked = snap_Blocked s,
      psk_IdlePorts = (if idle then snap_IdlePorts s else [])\<rparr>"

definition portStatePayload :: "bool \<Rightarrow> Hub \<Rightarrow> PortStatePayload" where
  "portStatePayload includeIdlePorts h =
     \<lparr>ps_ZMQ = kind_payload (Pool_Snapshot (hub_zmqPool h)) includeIdlePorts,
      ps_SRT = kind_payload (Pool_Snapshot (hub_srtPool h)) includeIdlePorts\<rparr>"

definition server_status :: "f64 \<Rightarrow> f64 \<Rightarrow> Hub \<Rightarrow> Client \<Rightarrow> ServerStatusPayload" where
  "server_status cpu mem h s =
     (let ports = occupiedPortsForServer (hub_zmqPool h) (hub_srtPool h) (cl_ID s);
          remaining = cl_MaxConn s - int (length ports)
      in \<lparr>ssp_ServerID = cl_ID s, ssp_OccupiedPorts = ports,
          ssp_Remaining = (if remaining < 0 then 0 else remaining),
          ssp_CPUPercent = cpu, ssp_MemMB = mem\<rparr>)"

definition broadcastStatus ::
    "string list \<Rightarrow> f64 \<Rightarrow> f64 \<Rightarrow> time \<Rightarrow> (conn \<Rightarrow> bool) \<Rightarrow> (conn \<Rightarrow> bool) \<Rightarrow> conn list \<Rightarrow> conn list \<Rightarrow>
      Hub \<Rightarrow> Hub \<times> hub_effect list" where
  "broadcastStatus order cpu mem now ok1 ok2 corder1 corder2 h =
     (let servers = List.map_filter (\<lambda>i. Option.bind (hub_servers h i) (hub_objects h)) order;
          payload = map (server_status cpu mem h) servers;
          h = h\<lparr>hub_lastBroadcast := unix_milli now\<rparr>;
          (h, es) = Broadcast ok1 corder1 (Envelope MsgStatus (ServerStatus payload)) h;
          (h, fs) = Broadcast ok2 corder2 (Envelope MsgPortState (PortState (portStatePayload False h))) h
      in (h, es @ fs))"

definition telemetry_of :: "Metrics \<Rightarrow> TelemetryPayload" where
  "telemetry_of m =
     \<lparr>tp_Kind = Kind_text (met_Kind m), tp_Port = met_Port m, tp_SessionID = met_SessionID m,
      tp_ServerID = met_ServerID m, tp_ClientID = met_ClientID m, tp_MbpsUp = met_MbpsUp m,
      tp_MbpsDown = met_MbpsDown m, tp_RTTMs = met_RTTMs m, tp_LossPct = met_LossPct m,
      tp_RetrPct = met_RetrPct m, tp_Quality = met_Quality m\<rparr>"

definition telemetry_tick ::
    "string list \<Rightarrow> (conn \<Rightarrow> bool) \<Rightarrow> conn list \<Rightarrow> Manager \<Rightarrow> Hub \<Rightarrow> Hub \<times> hub_effect list" where
  "telemetry_tick morder ok corder m h =
     Broadcast ok corder (Envelope MsgTelemetry (Telemetry (map telemetry_of (SnapshotMetrics morder m)))) h"

subsection \<open>The status page\<close>

definition int_list_json :: "int list \<Rightarrow> json" where
  "int_list_json xs = JArr (map json_int xs)"

definition kind_json :: "PortStateKindPayload \<Rightarrow> json" where
  "kind_json p =
     JObj ([(''total'', json_int (int (psk_Total p))), (''idle'', json_int (int (psk_Idle p))),
            (''reserved'', json_int (int (psk_Reserved p))), (''occupied'', json_int (int (psk_Occupied p))),
            (''blocked'', json_int (int (psk_Blocked p)))] @
           (if psk_IdlePorts p = [] then [] else [(''idle_ports'', int_list_json (psk_IdlePorts p))]))"

definition port_state_json :: "PortStatePayload \<Rightarrow> json" where
  "port_state_json p = JObj [(''zmq'', kind_json (ps_ZMQ p)), (''srt'', kind_json (ps_SRT p))]"

definition health_json :: "HealthStatusPayload \<Rightarrow> json" where
  "health_json hs =
     JObj [(''status'', JStr (hs_Status hs)), (''started_at_unix_ms'', json_int (hs_StartedAtUnixMs hs)),
           (''now_unix_ms'', json_int (hs_NowUnixMs hs)), (''connections'', json_int (int (hs_Connections hs))),
           (''broadcast_unix_ms'', json_int (hs_BroadcastUnixMs hs)),
           (''port_state'', port_state_json (hs_PortState hs))]"

definition crlf :: string where "crlf = [CHR 0x0D, CHR 0x0A]"

definition health_of :: "time \<Rightarrow> Hub \<Rightarrow> HealthStatusPayload" where
  "health_of now h =
     \<lparr>hs_Status = GatewayStatus_String (hub_gwStatus h), hs_StartedAtUnixMs = unix_milli (hub_started h),
      hs_NowUnixMs = unix_milli now, hs_Connections = connectionCount h,
      hs_BroadcastUnixMs = hub_lastBroadcast h, hs_PortState = portStatePayload False h\<rparr>"

definition handleHTTP :: "time \<Rightarrow> go_error + string \<Rightarrow> conn \<Rightarrow> Hub \<Rightarrow> hub_effect list" where
  "handleHTTP now line conn h =
     (case line of
        Inl e \<Rightarrow> [CloseCtl conn]
      | Inr line \<Rightarrow>
          (let parts = split_on CHR '' '' (trim_space line);
               path = (if length parts \<ge> 2 then parts ! 1 else '''')
           in if path \<noteq> ''/status''
              then [WriteBytes conn (''HTTP/1.1 404 Not Found'' @ crlf @ ''Content-Length: 0'' @ crlf @ crlf),
                    CloseCtl conn]
              else (let body = encode_json (health_json (health_of now h));
                        resp = ''HTTP/1.1 200 OK'' @ crlf @ ''Content-Type: application/json'' @ crlf @
                          ''Content-Length: '' @ show_int (int (length body)) @ crlf @ crlf
                    in [WriteBytes conn resp, WriteBytes conn body, CloseCtl conn])))"

subsection \<open>A control connection\<close>

text \<open>
  \<open>handleConn\<close> in its phases. The first value must be a register message; \<open>Enc.Encode\<close> and
  \<open>conn.Close\<close> act on the connection directly, before there is a registered client.
\<close>

definition ack_error :: "conn \<Rightarrow> int \<Rightarrow> string \<Rightarrow> hub_effect list" where
  "ack_error conn code msg =
     [SendTo conn (Envelope MsgRegisterAck (RegisterAck ''error'' code msg)), CloseCtl conn]"

definition new_client :: "conn \<Rightarrow> RegisterPayload \<Rightarrow> Client" where
  "new_client conn reg =
     \<lparr>cl_Conn = conn, cl_Role = reg_Role reg, cl_ID = trim_space (reg_ID reg),
      cl_Token = trim_space (reg_Token reg), cl_MaxConn = reg_MaxConn reg, cl_Auth = AuthPending,
      cl_closed = False\<rparr>"

definition handle_first :: "conn \<Rightarrow> go_error + json \<Rightarrow> Hub \<Rightarrow> bool \<times> Hub \<times> hub_effect list" where
  "handle_first conn first h =
     (case Option.bind (case first of Inl e \<Rightarrow> None | Inr v \<Rightarrow> Some v) decode_envelope of
        None \<Rightarrow> (False, h, [CloseCtl conn])
      | Some (ty, pl) \<Rightarrow>
          if ty \<noteq> MessageType_text MsgRegister
          then (False, h, ack_error conn CodeBadRequest ''first message must be register'')
          else (let client = new_client conn (decode_register pl)
                in case validateAndRegister client h of
                     (Some e, h') \<Rightarrow> (False, h', ack_error conn (errors_Code (Some e)) (error_text e))
                   | (None, h') \<Rightarrow>
                       (True, h', [SendTo conn (Envelope MsgRegisterAck (RegisterAck ''ok'' 0 ''''))])))"

text \<open>The deferred exit, and one message of the loop: \<open>None\<close> leaves the loop.\<close>

definition leave :: "conn \<Rightarrow> Hub \<Rightarrow> Hub \<times> hub_effect list" where
  "leave conn h =
     (case hub_objects h conn of
        None \<Rightarrow> (h, [])
      | Some c \<Rightarrow> Client_Close conn (unregister c h))"

definition handle_message :: "string \<Rightarrow> conn \<Rightarrow> go_error + json \<Rightarrow> Hub \<Rightarrow> hub_effect list option" where
  "handle_message fresh conn msg h =
     (case Option.bind (case msg of Inl e \<Rightarrow> None | Inr v \<Rightarrow> Some v) decode_envelope of
        None \<Rightarrow> None
      | Some (ty, pl) \<Rightarrow>
          if ty = MessageType_text MsgPairRequest
          then (case decode_pair_request pl of
                  None \<Rightarrow> Some (send_to conn (Envelope MsgError (ErrorPayload CodeBadRequest ''invalid pair_request'')) h)
                | Some pr \<Rightarrow>
                    (case hub_objects h conn of
                       None \<Rightarrow> Some []
                     | Some c \<Rightarrow> Some (handlePairRequest fresh c pr h)))
          else Some [])"

text \<open>The loop over the messages of a connection; each comes with what others did to the hub since
  the last one. An exhausted list is a connection that ended.\<close>

fun message_loop ::
    "conn \<Rightarrow> (bool \<times> (Hub \<Rightarrow> Hub) \<times> string \<times> (go_error + json)) list \<Rightarrow> Hub \<Rightarrow> Hub \<times> hub_effect list" where
  "message_loop conn [] h = leave conn h"
| "message_loop conn ((ctx_done, env, fresh, msg) # ms) h0 =
     (let h = env h0 in
      if ctx_done then leave conn h
      else (case handle_message fresh conn msg h of
          None \<Rightarrow> leave conn h
        | Some es \<Rightarrow> (let (h', fs) = message_loop conn ms h in (h', es @ fs))))"

definition Hub_handleConn ::
    "string \<Rightarrow> time \<Rightarrow> go_error + string \<Rightarrow> go_error + json \<Rightarrow>
      (bool \<times> (Hub \<Rightarrow> Hub) \<times> string \<times> (go_error + json)) list \<Rightarrow> conn \<Rightarrow> Hub \<Rightarrow> Hub \<times> hub_effect list" where
  "Hub_handleConn peeked now http_line first msgs conn h =
     (if has_prefix peeked ''GET '' then (h, handleHTTP now http_line conn h)
      else (case handle_first conn first h of
          (False, h', es) \<Rightarrow> (h', es)
        | (True, h', es) \<Rightarrow> (let (h'', fs) = message_loop conn msgs h' in (h'', es @ fs))))"

text \<open>\<open>Start\<close> and its accept loop: the outcome of listening, then what each \<open>Accept\<close> returns, an error
  being the closed listener or another one. The two broadcast loops and a connection each get a
  goroutine.\<close>

datatype start_effect = ListenOn int | GoStatusLoop | GoTelemetryLoop | GoHandleConn conn

datatype accepted = AcceptConn conn | AcceptClosed | AcceptError

fun accept_conns :: "accepted list \<Rightarrow> start_effect list" where
  "accept_conns [] = []"
| "accept_conns (AcceptConn k # as) = GoHandleConn k # accept_conns as"
| "accept_conns (AcceptClosed # as) = []"
| "accept_conns (AcceptError # as) = accept_conns as"

definition Hub_Start ::
    "go_error option \<Rightarrow> accepted list \<Rightarrow> Hub \<Rightarrow> go_error option \<times> Hub \<times> start_effect list" where
  "Hub_Start listen_err accepts h =
     (let listen = ListenOn (gw_TCPPort (cfg_Gateway (hub_cfg h))) in
      case listen_err of
        Some e \<Rightarrow> (Some e, h, [listen])
      | None \<Rightarrow> (None, h\<lparr>hub_gwStatus := GatewayRunning\<rparr>,
                 [listen, GoStatusLoop, GoTelemetryLoop] @ accept_conns accepts))"

subsection \<open>The registry invariant\<close>

text \<open>
  The connections are distinct, at most as many as configured, and each belongs to one approved
  client, entered under its id in the map of its role; the two maps have no other entries.
\<close>

definition entered :: "Hub \<Rightarrow> conn \<Rightarrow> bool" where
  "entered h k \<longleftrightarrow>
     (case hub_objects h k of
        None \<Rightarrow> False
      | Some c \<Rightarrow> cl_Conn c = k \<and> cl_ID c \<noteq> '''' \<and> cl_Auth c = AuthApproved \<and> 0 < cl_MaxConn c \<and>
          (if cl_Role c = RoleServer then hub_servers h (cl_ID c) = Some k
           else cl_Role c = RoleClient \<and> hub_fe h (cl_ID c) = Some k))"

definition hub_inv :: "Hub \<Rightarrow> bool" where
  "hub_inv h \<longleftrightarrow>
     distinct (hub_clients h) \<and> (\<forall>k \<in> set (hub_clients h). entered h k) \<and>
     (\<forall>i k. hub_servers h i = Some k \<longrightarrow> k \<in> set (hub_clients h) \<and>
        (\<exists>c. hub_objects h k = Some c \<and> cl_ID c = i \<and> cl_Role c = RoleServer)) \<and>
     (\<forall>i k. hub_fe h i = Some k \<longrightarrow> k \<in> set (hub_clients h) \<and>
        (\<exists>c. hub_objects h k = Some c \<and> cl_ID c = i \<and> cl_Role c \<noteq> RoleServer)) \<and>
     (hub_clients h = [] \<or>
        int (length (hub_clients h)) \<le> gw_MaxConnections (cfg_Gateway (hub_cfg h)))"

lemma hub_invD:
  assumes "hub_inv h"
  shows "distinct (hub_clients h)" "k \<in> set (hub_clients h) \<Longrightarrow> entered h k"
    "hub_servers h i = Some k \<Longrightarrow> k \<in> set (hub_clients h)"
    "hub_servers h i = Some k \<Longrightarrow> \<exists>c. hub_objects h k = Some c \<and> cl_ID c = i \<and> cl_Role c = RoleServer"
    "hub_fe h i = Some k \<Longrightarrow> k \<in> set (hub_clients h)"
    "hub_fe h i = Some k \<Longrightarrow> \<exists>c. hub_objects h k = Some c \<and> cl_ID c = i \<and> cl_Role c \<noteq> RoleServer"
    "hub_clients h = [] \<or> int (length (hub_clients h)) \<le> gw_MaxConnections (cfg_Gateway (hub_cfg h))"
  using assms by (auto simp: hub_inv_def)

lemma entered_iff:
  "entered h k \<longleftrightarrow> (\<exists>c. hub_objects h k = Some c \<and> cl_Conn c = k \<and> cl_ID c \<noteq> [] \<and>
     cl_Auth c = AuthApproved \<and> 0 < cl_MaxConn c \<and>
     (if cl_Role c = RoleServer then hub_servers h (cl_ID c) = Some k
      else cl_Role c = RoleClient \<and> hub_fe h (cl_ID c) = Some k))"
  by (auto simp: entered_def split: option.splits)

lemma hub_inv_NewHub [inv_intros]: "hub_inv (NewHub now cfg zp sp)"
  by (simp add: hub_inv_def NewHub_def)

lemma check_client_Inr:
  "check_client c = Inr d \<Longrightarrow> cl_Conn d = cl_Conn c \<and> cl_ID d = cl_ID c \<and> cl_ID c \<noteq> [] \<and>
     cl_Role d = cl_Role c \<and> (cl_Role c = RoleServer \<or> cl_Role c = RoleClient) \<and> 0 < cl_MaxConn d \<and>
     cl_closed d = cl_closed c \<and> cl_Token d = cl_Token c \<and> cl_Token c \<noteq> []"
  by (auto simp: check_client_def Let_def split: if_splits)

text \<open>Registration, when it succeeds, on each role.\<close>

lemma validateAndRegister_None:
  assumes "validateAndRegister c h = (None, h')"
  obtains d where "check_client c = Inr d"
    and "int (length (hub_clients h)) < gw_MaxConnections (cfg_Gateway (hub_cfg h))"
    and "if cl_Role d = RoleServer then hub_servers h (cl_ID d) = None else hub_fe h (cl_ID d) = None"
    and "hub_servers h' = (if cl_Role d = RoleServer then (hub_servers h)(cl_ID d \<mapsto> cl_Conn d) else hub_servers h)"
    and "hub_fe h' = (if cl_Role d = RoleServer then hub_fe h else (hub_fe h)(cl_ID d \<mapsto> cl_Conn d))"
    and "hub_clients h' = (if cl_Conn d \<in> set (hub_clients h) then hub_clients h else hub_clients h @ [cl_Conn d])"
    and "hub_objects h' = (hub_objects h)(cl_Conn d \<mapsto> d\<lparr>cl_Auth := AuthApproved\<rparr>)"
    and "hub_cfg h' = hub_cfg h"
proof (cases "check_client c")
  case (Inl e)
  with assms show thesis by (simp add: validateAndRegister_def)
next
  case (Inr d)
  show thesis
    by (rule that [OF Inr])
       (use assms in \<open>auto simp: validateAndRegister_def Inr Let_def split: if_splits\<close>)
qed

lemma hub_inv_register [inv_intros]:
  assumes "hub_inv h" and "cl_Conn c \<notin> set (hub_clients h)"
  shows "hub_inv (snd (validateAndRegister c h))"
proof (cases "fst (validateAndRegister c h) = None")
  case False
  then have "snd (validateAndRegister c h) = h"
    by (auto simp: validateAndRegister_def Let_def split: sum.splits if_splits)
  with assms show ?thesis by simp
next
  case True
  then obtain h' where h': "validateAndRegister c h = (None, h')" by (metis prod.collapse)
  from h' obtain d where d: "check_client c = Inr d"
    "int (length (hub_clients h)) < gw_MaxConnections (cfg_Gateway (hub_cfg h))"
    "if cl_Role d = RoleServer then hub_servers h (cl_ID d) = None else hub_fe h (cl_ID d) = None"
    "hub_servers h' = (if cl_Role d = RoleServer then (hub_servers h)(cl_ID d \<mapsto> cl_Conn d) else hub_servers h)"
    "hub_fe h' = (if cl_Role d = RoleServer then hub_fe h else (hub_fe h)(cl_ID d \<mapsto> cl_Conn d))"
    "hub_clients h' = (if cl_Conn d \<in> set (hub_clients h) then hub_clients h else hub_clients h @ [cl_Conn d])"
    "hub_objects h' = (hub_objects h)(cl_Conn d \<mapsto> d\<lparr>cl_Auth := AuthApproved\<rparr>)"
    "hub_cfg h' = hub_cfg h"
    by (rule validateAndRegister_None)
  note cd = check_client_Inr [OF d(1)]
  have new: "cl_Conn d \<notin> set (hub_clients h)" using assms(2) cd by simp
  have own: "entered h' (cl_Conn d)" using cd by (auto simp: entered_iff d)
  have old: "entered h' k" if k: "k \<in> set (hub_clients h)" for k
  proof -
    obtain e where e: "hub_objects h k = Some e" "cl_Conn e = k" "cl_ID e \<noteq> []" "cl_Auth e = AuthApproved"
      "0 < cl_MaxConn e" "if cl_Role e = RoleServer then hub_servers h (cl_ID e) = Some k
        else cl_Role e = RoleClient \<and> hub_fe h (cl_ID e) = Some k"
      using hub_invD(2) [OF assms(1) k] by (auto simp: entered_iff)
    have "k \<noteq> cl_Conn d" using k new by blast
    with e d(3) show ?thesis by (auto simp: entered_iff d split: if_splits)
  qed
  have ref: "k \<in> set (hub_clients h) \<Longrightarrow> k \<noteq> cl_Conn d" for k using new by blast
  have "hub_inv h'"
    unfolding hub_inv_def
  proof (intro conjI allI ballI impI)
    show "distinct (hub_clients h')" using hub_invD(1) [OF assms(1)] new by (simp add: d)
    show "entered h' k" if "k \<in> set (hub_clients h')" for k using that own old new by (auto simp: d)
    show "k \<in> set (hub_clients h')" if "hub_servers h' i = Some k" for i k
      using that hub_invD(3) [OF assms(1), of i k] by (auto simp: d split: if_splits)
    show "k \<in> set (hub_clients h')" if "hub_fe h' i = Some k" for i k
      using that hub_invD(5) [OF assms(1), of i k] by (auto simp: d split: if_splits)
    show "\<exists>c. hub_objects h' k = Some c \<and> cl_ID c = i \<and> cl_Role c = RoleServer"
      if "hub_servers h' i = Some k" for i k
      using that hub_invD(3,4) [OF assms(1), of i k] ref [of k] by (auto simp: d split: if_splits)
    show "\<exists>c. hub_objects h' k = Some c \<and> cl_ID c = i \<and> cl_Role c \<noteq> RoleServer"
      if "hub_fe h' i = Some k" for i k
      using that hub_invD(5,6) [OF assms(1), of i k] ref [of k] by (auto simp: d split: if_splits)
    show "hub_clients h' = [] \<or> int (length (hub_clients h')) \<le> gw_MaxConnections (cfg_Gateway (hub_cfg h'))"
      using d(2) new unfolding d by simp
  qed
  then show ?thesis by (simp add: h')
qed

lemma unregister_parts:
  "hub_clients (unregister c h) = filter (\<lambda>k. k \<noteq> cl_Conn c) (hub_clients h)"
  "hub_objects (unregister c h) = hub_objects h" "hub_cfg (unregister c h) = hub_cfg h"
  "hub_servers (unregister c h) i =
     (if cl_Role c = RoleServer \<and> i = cl_ID c \<and> hub_servers h i = Some (cl_Conn c) then None else hub_servers h i)"
  "hub_fe (unregister c h) i =
     (if cl_Role c \<noteq> RoleServer \<and> i = cl_ID c \<and> hub_fe h i = Some (cl_Conn c) then None else hub_fe h i)"
  by (auto simp: unregister_def Let_def)

lemma hub_inv_unregister [inv_intros]:
  assumes "hub_inv h" and "hub_objects h (cl_Conn c) = Some c"
  shows "hub_inv (unregister c h)"
  unfolding hub_inv_def
proof (intro conjI allI ballI impI)
  let ?h = "unregister c h"
  show "distinct (hub_clients ?h)" using hub_invD(1) [OF assms(1)] by (simp add: unregister_parts)
  show "entered ?h k" if "k \<in> set (hub_clients ?h)" for k
  proof -
    have k: "k \<in> set (hub_clients h)" "k \<noteq> cl_Conn c" using that by (auto simp: unregister_parts)
    obtain e where e: "hub_objects h k = Some e" "cl_Conn e = k" "cl_ID e \<noteq> []" "cl_Auth e = AuthApproved"
      "0 < cl_MaxConn e" "if cl_Role e = RoleServer then hub_servers h (cl_ID e) = Some k
        else cl_Role e = RoleClient \<and> hub_fe h (cl_ID e) = Some k"
      using hub_invD(2) [OF assms(1) k(1)] by (auto simp: entered_iff)
    then show ?thesis using k(2) by (simp add: entered_def unregister_parts split: if_splits)
  qed
  show "k \<in> set (hub_clients ?h)" if "hub_servers ?h i = Some k" for i k
    using that hub_invD(3,4) [OF assms(1), of i k] assms(2) by (auto simp: unregister_parts split: if_splits)
  show "k \<in> set (hub_clients ?h)" if "hub_fe ?h i = Some k" for i k
    using that hub_invD(5,6) [OF assms(1), of i k] assms(2) by (auto simp: unregister_parts split: if_splits)
  show "\<exists>c. hub_objects ?h k = Some c \<and> cl_ID c = i \<and> cl_Role c = RoleServer"
    if "hub_servers ?h i = Some k" for i k
    using that hub_invD(4) [OF assms(1), of i k] by (simp add: unregister_parts split: if_splits)
  show "\<exists>c. hub_objects ?h k = Some c \<and> cl_ID c = i \<and> cl_Role c \<noteq> RoleServer"
    if "hub_fe ?h i = Some k" for i k
    using that hub_invD(6) [OF assms(1), of i k] by (simp add: unregister_parts split: if_splits)
  have "length (filter (\<lambda>k. k \<noteq> cl_Conn c) (hub_clients h)) \<le> length (hub_clients h)" by (rule length_filter_le)
  with hub_invD(7) [OF assms(1)]
  show "hub_clients ?h = [] \<or> int (length (hub_clients ?h)) \<le> gw_MaxConnections (cfg_Gateway (hub_cfg ?h))"
    unfolding unregister_parts by (elim disjE) (simp, intro disjI2, linarith)
qed

text \<open>Closing a client and changing the pools or the clock keep the invariant.\<close>

lemma entered_close:
  "hub_objects h k = Some c \<Longrightarrow>
     entered (h\<lparr>hub_objects := (hub_objects h)(k \<mapsto> c\<lparr>cl_closed := True\<rparr>)\<rparr>) j = entered h j"
  by (cases "hub_objects h j") (auto simp: entered_def)

lemma hub_inv_objects:
  assumes "hub_inv h" and "hub_objects h k = Some c"
  shows "hub_inv (h\<lparr>hub_objects := (hub_objects h)(k \<mapsto> c\<lparr>cl_closed := True\<rparr>)\<rparr>)"
  using assms by (simp add: hub_inv_def entered_close) (metis option.inject)

lemma hub_inv_Close [inv_intros]: "hub_inv h \<Longrightarrow> hub_inv (fst (Client_Close k h))"
  by (auto simp: Client_Close_def hub_inv_objects split: option.split)

lemma entered_frame:
  "entered (h\<lparr>hub_zmqPool := zp, hub_srtPool := sp\<rparr>) k = entered h k"
  "entered (h\<lparr>hub_lastBroadcast := t\<rparr>) k = entered h k"
  by (cases "hub_objects h k"; simp add: entered_def)+

lemma hub_inv_frame:
  "hub_inv h \<Longrightarrow> hub_inv (h\<lparr>hub_zmqPool := zp, hub_srtPool := sp\<rparr>)"
  "hub_inv h \<Longrightarrow> hub_inv (h\<lparr>hub_lastBroadcast := t\<rparr>)"
  by (simp_all add: hub_inv_def entered_frame)

lemma hub_inv_Broadcast [inv_intros]: "hub_inv h \<Longrightarrow> hub_inv (fst (Broadcast ok order env h))"
  unfolding Broadcast_def
  by (rule seq_effects_inv)
     (auto simp: broadcast_one_def case_prod_beta Let_def hub_inv_Close split: option.split)

end
