(* ===== verification/HubRun.thy ===== *)
theory HubRun
  imports Hub
begin

section \<open>Runs of the control plane\<close>

text \<open>
  What the hub promises over any run: the registry stays consistent, a grant names ports reserved
  for exactly that session, a failed attempt reserves nothing, the choice of the server does not
  depend on the order of a map, a pairing request is answered once, and every message carries the
  payload its type announces.
\<close>

subsection \<open>Reservations\<close>

text \<open>\<open>port\<close> of the pool \<open>p\<close> was handed to the session, or nothing was asked for.\<close>

definition handed ::
    "time \<Rightarrow> string \<Rightarrow> string \<Rightarrow> string \<Rightarrow> bool \<Rightarrow> port \<Rightarrow> Pool \<Rightarrow> Pool \<Rightarrow> bool" where
  "handed now sid srv cli need port p p' \<longleftrightarrow>
     (if need
      then 0 < port \<and> view_port p port = VIdle \<and> (\<forall>q. view_port p q = VIdle \<longrightarrow> port \<le> q) \<and>
        (\<exists>a. alloc_Port a = port \<and> alloc_SessionID a = sid \<and> alloc_ServerID a = srv \<and>
           alloc_ClientID a = cli \<and> alloc_ReservedAt a = now \<and>
           (\<forall>q. view_port p' q = (if q = port then VReserved a else view_port p q)))
      else port = 0 \<and> p' = p)"

definition same_ports :: "Pool \<Rightarrow> Pool \<Rightarrow> bool" where
  "same_ports p p' \<longleftrightarrow> (\<forall>q. view_port p' q = view_port p q)"

lemma same_ports_refl [simp]: "same_ports p p"
  by (simp add: same_ports_def)

lemma view_idle_pos: "pool_inv p \<Longrightarrow> view_port p q = VIdle \<Longrightarrow> 0 < q"
  using pool_inv_known pool_invD(6) by (auto simp: idle_view)

lemma Reserve_cases:
  assumes "pool_inv p"
  obtains "Reserve now sid srv cli p = (Inl (new_err CodeUnavailable ''no available port''), p)"
      "\<And>q. view_port p q \<noteq> VIdle"
    | a p' where "Reserve now sid srv cli p = (Inr a, p')" "pool_inv p'" "0 < alloc_Port a"
      "handed now sid srv cli True (alloc_Port a) p p'"
      "same_ports p (snd (Release (alloc_Port a) sid p'))"
proof (cases "find (\<lambda>port. pool_state p port = Some PortIdle) (pool_ports p)")
  case None
  then have "view_port p q \<noteq> VIdle" for q
    using pool_inv_known [OF assms] by (auto simp: find_None_iff idle_view)
  with None that(1) show thesis by (simp add: Reserve_def)
next
  case (Some r)
  define a where "a = \<lparr>alloc_Kind = pool_kind p, alloc_Port = r, alloc_SessionID = sid,
    alloc_ServerID = srv, alloc_ClientID = cli, alloc_ReservedAt = now\<rparr>"
  define p' where "p' = p\<lparr>pool_state := (pool_state p)(r \<mapsto> PortReserved), pool_alloc := (pool_alloc p)(r \<mapsto> a)\<rparr>"
  have res: "Reserve now sid srv cli p = (Inr a, p')"
    by (simp add: Reserve_def Some a_def p'_def Let_def)
  have v: "view_port p' q = (if q = r then VReserved a else view_port p q)" for q
    by (simp add: p'_def view_reserved)
  have idle: "view_port p r = VIdle" using find_idle [OF Some] by (simp add: idle_view)
  have least: "r \<le> q" if "view_port p q = VIdle" for q
    using that find_sorted_least [OF pool_invD(1) [OF assms] Some, of q] pool_inv_known [OF assms, of q]
    by (simp add: idle_view)
  have inv: "pool_inv p'" using pool_inv_Reserve [OF assms, of now sid srv cli] by (simp add: res)
  have aP: "alloc_Port a = r" "alloc_SessionID a = sid" "alloc_ServerID a = srv" "alloc_ClientID a = cli"
    "alloc_ReservedAt a = now"
    by (simp_all add: a_def)
  show thesis
  proof (rule that(2) [OF res inv])
    show "0 < alloc_Port a" using view_idle_pos [OF assms idle] by (simp add: aP)
    then show "handed now sid srv cli True (alloc_Port a) p p'"
      using idle least v aP by (auto simp: handed_def)
    show "same_ports p (snd (Release (alloc_Port a) sid p'))"
      using v idle by (auto simp: same_ports_def view_Release [OF inv] aP)
  qed
qed

text \<open>Two reservations in a row: both ports, or an error and nothing reserved.\<close>

lemma reserve_ports_spec:
  assumes "pool_inv zp" and "pool_inv sp"
  shows "case reserve_ports now sid srv cli pr (zp, sp) of
      (Inl e, zp', sp') \<Rightarrow> same_ports zp zp' \<and> same_ports sp sp' \<and> pool_inv zp' \<and> pool_inv sp' \<and>
        (if pr_NeedZMQ pr \<or> pr_NeedSRT pr
         then errors_Code (Some e) = CodeUnavailable \<and>
           (pr_NeedZMQ pr \<and> (\<forall>q. view_port zp q \<noteq> VIdle) \<or> pr_NeedSRT pr \<and> (\<forall>q. view_port sp q \<noteq> VIdle))
         else errors_Code (Some e) = CodeBadRequest)
    | (Inr (z, s), zp', sp') \<Rightarrow> handed now sid srv cli (pr_NeedZMQ pr) z zp zp' \<and>
        handed now sid srv cli (pr_NeedSRT pr) s sp sp' \<and> (pr_NeedZMQ pr \<or> pr_NeedSRT pr) \<and>
        pool_inv zp' \<and> pool_inv sp'"
proof (cases "pr_NeedZMQ pr")
  case False
  show ?thesis
    by (cases rule: Reserve_cases [OF assms(2), of now sid srv cli])
       (use False assms in \<open>auto simp: reserve_ports_def handed_def\<close>)
next
  case True
  show ?thesis
  proof (cases rule: Reserve_cases [OF assms(1), of now sid srv cli])
    case 1
    then show ?thesis using True assms by (auto simp: reserve_ports_def)
  next
    case (2 a zp1)
    note z = 2
    have zinv: "pool_inv (snd (Release (alloc_Port a) sid zp1))" using z(2) by (rule pool_inv_Release)
    show ?thesis
    proof (cases rule: Reserve_cases [OF assms(2), of now sid srv cli])
      case 1
      then show ?thesis using True assms z zinv by (auto simp: reserve_ports_def handed_def)
    next
      case (2 b sp1)
      then show ?thesis using True assms z by (auto simp: reserve_ports_def handed_def)
    qed
  qed
qed

subsection \<open>The choice of the server\<close>

definition eligible :: "PairRequestPayload \<Rightarrow> Hub \<Rightarrow> Client set" where
  "eligible pr h =
     {s. \<exists>i k. hub_servers h i = Some k \<and> hub_objects h k = Some s \<and> (pr_ServerID pr = '''' \<or> i = pr_ServerID pr)}"

lemma map_filter_set: "set (List.map_filter f xs) = {y. \<exists>x \<in> set xs. f x = Some y}"
  by (force simp: List.map_filter_def)

lemma request_servers_eligible:
  assumes "iterates (hub_servers h) order"
  shows "set (request_servers order pr h) = eligible pr h"
  using iteratesD(2) [OF assms]
  by (cases "hub_servers h (pr_ServerID pr)"; cases "pr_ServerID pr = []")
     (auto simp: request_servers_def eligible_def map_filter_set bind_eq_Some_conv split: option.split)

lemma eligible_id:
  assumes "hub_inv h" and "s \<in> eligible pr h"
  shows "hub_servers h (cl_ID s) = Some (cl_Conn s)" "hub_objects h (cl_Conn s) = Some s"
    "cl_Role s = RoleServer" "0 < cl_MaxConn s"
proof -
  obtain i k where ik: "hub_servers h i = Some k" "hub_objects h k = Some s"
    using assms(2) by (auto simp: eligible_def)
  have k: "k \<in> set (hub_clients h)" and id: "cl_ID s = i" "cl_Role s = RoleServer"
    using hub_invD(3,4) [OF assms(1) ik(1)] ik(2) by auto
  show "cl_Role s = RoleServer" by (rule id)
  show "hub_servers h (cl_ID s) = Some (cl_Conn s)" "hub_objects h (cl_Conn s) = Some s" "0 < cl_MaxConn s"
    using hub_invD(2) [OF assms(1) k] ik id by (auto simp: entered_def)
qed

lemma eligible_inj: "hub_inv h \<Longrightarrow> s \<in> eligible pr h \<Longrightarrow> t \<in> eligible pr h \<Longrightarrow> cl_ID s = cl_ID t \<Longrightarrow> s = t"
  using eligible_id(1,2) by (metis option.inject)

lemma candidates_set:
  "set (candidates h ss) = {(Cand (remaining_of h s) (cl_ID s), s) |s. s \<in> set ss \<and> 0 < remaining_of h s}"
  by (auto simp: candidates_def)

lemma sort_key_hd:
  assumes "sort_key f xs = x # rest"
  shows "x \<in> set xs" and "y \<in> set xs \<Longrightarrow> f x \<le> f y"
proof -
  have s: "set xs = set (x # rest)" by (metis assms set_sort)
  have "sorted (map f (x # rest))" by (metis assms sorted_sort_key)
  with s show "y \<in> set xs \<Longrightarrow> f x \<le> f y" by auto
  from s show "x \<in> set xs" by simp
qed

text \<open>The server chosen: eligible, with capacity, and the best of those in the order of the code.\<close>

definition best_server :: "PairRequestPayload \<Rightarrow> Hub \<Rightarrow> Client \<Rightarrow> bool" where
  "best_server pr h s \<longleftrightarrow>
     s \<in> eligible pr h \<and> 0 < remaining_of h s \<and>
     (\<forall>t \<in> eligible pr h. remaining_of h t \<le> remaining_of h s \<and>
        (remaining_of h t = remaining_of h s \<longrightarrow> cl_ID s \<le> cl_ID t))"

lemma best_server_unique:
  assumes "hub_inv h" and "best_server pr h s" and "best_server pr h t"
  shows "s = t"
proof -
  have "remaining_of h s = remaining_of h t" using assms(2,3) by (force simp: best_server_def)
  then have "cl_ID s = cl_ID t" using assms(2,3) by (force simp: best_server_def)
  with assms show ?thesis by (auto simp: best_server_def intro: eligible_inj)
qed

lemma chosen_is_best:
  assumes "iterates (hub_servers h) order"
    and "sort_key fst (candidates h (request_servers order pr h)) = (k, s) # rest"
  shows "best_server pr h s"
proof -
  note hd = sort_key_hd [OF assms(2)]
  have s: "k = Cand (remaining_of h s) (cl_ID s)" "s \<in> eligible pr h" "0 < remaining_of h s"
    using hd(1) by (auto simp: candidates_set request_servers_eligible [OF assms(1)])
  have "remaining_of h t \<le> remaining_of h s \<and> (remaining_of h t = remaining_of h s \<longrightarrow> cl_ID s \<le> cl_ID t)"
    if "t \<in> eligible pr h" for t
  proof (cases "0 < remaining_of h t")
    case True
    then have "k \<le> Cand (remaining_of h t) (cl_ID t)"
      using hd(2) [of "(Cand (remaining_of h t) (cl_ID t), t)"] that
      by (auto simp: candidates_set request_servers_eligible [OF assms(1)])
    then show ?thesis by (auto simp: s(1) less_eq_cand_def less_cand_def cand_before_def split: if_splits)
  qed (use s(3) in auto)
  with s show ?thesis by (simp add: best_server_def)
qed

lemma no_candidates:
  assumes "iterates (hub_servers h) order"
  shows "sort_key fst (candidates h (request_servers order pr h)) = [] \<longleftrightarrow>
    (\<forall>s \<in> eligible pr h. remaining_of h s \<le> 0)"
proof -
  have "sort_key fst cs = [] \<longleftrightarrow> cs = []" for cs :: "(cand \<times> Client) list"
    by (metis length_0_conv length_sort)
  then show ?thesis
    by (simp add: candidates_def filter_empty_conv request_servers_eligible [OF assms] linorder_not_less)
qed

subsection \<open>One attempt to pair\<close>

text \<open>The hub of an attempt differs in its pools only.\<close>

lemma tryPairOnce_frame:
  "\<exists>zp sp. snd (tryPairOnce order others sid now c pr h) = h\<lparr>hub_zmqPool := zp, hub_srtPool := sp\<rparr>"
proof -
  have id: "\<exists>zp sp. h = h\<lparr>hub_zmqPool := zp, hub_srtPool := sp\<rparr>"
    by (rule exI [of _ "hub_zmqPool h"], rule exI [of _ "hub_srtPool h"]) simp
  show ?thesis
    unfolding tryPairOnce_def Let_def using id
    by (auto split: list.split prod.split sum.split)
qed

lemma others_inv:
  assumes "pool_inv (hub_zmqPool h)" and "pool_inv (hub_srtPool h)"
  shows "pool_inv (fold pool_do (fst others) (hub_zmqPool h))" "pool_inv (fold pool_do (snd others) (hub_srtPool h))"
  using assms by (simp_all add: pool_inv_run)

text \<open>
  C14. One attempt to pair (\<open>tryPairOnce\<close>), in any order of the map of servers and with any calls of
  others on the pools between the choice and the reservations. A grant goes to the best server: one
  that may be chosen (the one asked for, or any), has capacity left, and no such server has more, the
  least id winning a tie; its ids and tokens are in the grant, and each port asked for was the lowest
  idle one and is now reserved for this session, server and client, no other port having changed; a
  port not asked for is 0 and its pool untouched. An error means that every port of both pools is as it was, and
  its code is 400 exactly when neither kind of port was asked for and a server had capacity, and 504
  otherwise. The registry is not touched.
\<close>

theorem tryPairOnce_exact:
  assumes "hub_inv h" and "pool_inv (hub_zmqPool h)" and "pool_inv (hub_srtPool h)"
    and "iterates (hub_servers h) order"
  shows "(let zp = fold pool_do (fst others) (hub_zmqPool h); sp = fold pool_do (snd others) (hub_srtPool h);
              (r, h') = tryPairOnce order others sid now c pr h
          in h' = h\<lparr>hub_zmqPool := hub_zmqPool h', hub_srtPool := hub_srtPool h'\<rparr> \<and>
             (case r of
                Inr g \<Rightarrow> \<exists>s. best_server pr h s \<and>
                  g = \<lparr>pg_RequestID = pr_RequestID pr, pg_SessionID = sid, pg_ServerID = cl_ID s,
                       pg_ClientID = cl_ID c, pg_ServerToken = cl_Token s, pg_ClientToken = cl_Token c,
                       pg_ZMQPort = pg_ZMQPort g, pg_SRTPort = pg_SRTPort g\<rparr> \<and>
                  (pr_NeedZMQ pr \<or> pr_NeedSRT pr) \<and>
                  handed now sid (cl_ID s) (cl_ID c) (pr_NeedZMQ pr) (pg_ZMQPort g) zp (hub_zmqPool h') \<and>
                  handed now sid (cl_ID s) (cl_ID c) (pr_NeedSRT pr) (pg_SRTPort g) sp (hub_srtPool h')
              | Inl e \<Rightarrow>
                  (if \<exists>s \<in> eligible pr h. 0 < remaining_of h s
                   then same_ports zp (hub_zmqPool h') \<and> same_ports sp (hub_srtPool h') \<and>
                     errors_Code (Some e) = (if pr_NeedZMQ pr \<or> pr_NeedSRT pr then CodeUnavailable else CodeBadRequest)
                   else h' = h \<and> errors_Code (Some e) = CodeUnavailable)))"
proof (cases "sort_key fst (candidates h (request_servers order pr h))")
  case Nil
  with no_candidates [OF assms(4), of pr]
  have none: "\<not> (\<exists>s \<in> eligible pr h. 0 < remaining_of h s)" by (auto simp: not_less)
  obtain msg where eq: "tryPairOnce order others sid now c pr h = (Inl (new_err CodeUnavailable msg), h)"
    by (cases "request_servers order pr h = []") (simp_all add: tryPairOnce_def Nil)
  show ?thesis using none by (simp add: eq Let_def)
next
  case (Cons k_s rest)
  obtain k s where ks: "k_s = (k, s)" by (cases k_s)
  note hd = Cons [unfolded ks]
  have best: "best_server pr h s" by (rule chosen_is_best [OF assms(4) hd])
  then have some: "\<exists>s \<in> eligible pr h. 0 < remaining_of h s" by (auto simp: best_server_def)
  have ne: "request_servers order pr h \<noteq> []"
    using hd by (auto simp: candidates_def)
  obtain r zp' sp' where r: "reserve_ports now sid (cl_ID s) (cl_ID c) pr
      (fold pool_do (fst others) (hub_zmqPool h), fold pool_do (snd others) (hub_srtPool h)) = (r, zp', sp')"
    by (metis prod_cases3)
  have eq: "tryPairOnce order others sid now c pr h =
     (case r of Inl e \<Rightarrow> (Inl e, h\<lparr>hub_zmqPool := zp', hub_srtPool := sp'\<rparr>)
      | Inr (z, q) \<Rightarrow> (Inr \<lparr>pg_RequestID = pr_RequestID pr, pg_SessionID = sid, pg_ServerID = cl_ID s,
                       pg_ClientID = cl_ID c, pg_ServerToken = cl_Token s, pg_ClientToken = cl_Token c,
                       pg_ZMQPort = z, pg_SRTPort = q\<rparr>, h\<lparr>hub_zmqPool := zp', hub_srtPool := sp'\<rparr>))"
    unfolding tryPairOnce_def Let_def hd list.case prod.case r using ne
    by (cases r) (simp_all add: case_prod_beta)
  note spec = reserve_ports_spec [OF others_inv(1) [OF assms(2,3), of others] others_inv(2) [OF assms(2,3), of others],
      of pr now sid "cl_ID s" "cl_ID c", unfolded r prod.case]
  show ?thesis
  proof (cases r)
    case (Inl e)
    with spec some show ?thesis by (auto simp: eq Let_def)
  next
    case (Inr zs)
    with spec best show ?thesis by (cases zs) (auto simp: eq Let_def)
  qed
qed

text \<open>
  The order in which Go iterates over the map of servers does not matter: in any two orders an
  attempt to pair has the same result and leaves the same hub.
\<close>

theorem tryPairOnce_map_order:
  assumes "hub_inv h" and "iterates (hub_servers h) order" and "iterates (hub_servers h) order'"
  shows "tryPairOnce order others sid now c pr h = tryPairOnce order' others sid now c pr h"
proof -
  have empty: "request_servers order pr h = [] \<longleftrightarrow> request_servers order' pr h = []"
    using request_servers_eligible [OF assms(2), of pr] request_servers_eligible [OF assms(3), of pr]
    by (metis set_empty)
  show ?thesis
  proof (cases "sort_key fst (candidates h (request_servers order pr h))")
    case Nil
    then have "sort_key fst (candidates h (request_servers order' pr h)) = []"
      using no_candidates [OF assms(2), of pr] no_candidates [OF assms(3), of pr] by blast
    with Nil empty show ?thesis by (simp add: tryPairOnce_def Let_def)
  next
    case (Cons x xs)
    then have "sort_key fst (candidates h (request_servers order' pr h)) \<noteq> []"
      using no_candidates [OF assms(2), of pr] no_candidates [OF assms(3), of pr] by auto
    then obtain y ys where Cons': "sort_key fst (candidates h (request_servers order' pr h)) = y # ys"
      by (meson neq_Nil_conv)
    obtain k s k' s' where xy: "x = (k, s)" "y = (k', s')" by (meson surj_pair)
    have "s = s'"
      using best_server_unique [OF assms(1) chosen_is_best [OF assms(2) Cons [unfolded xy]]
          chosen_is_best [OF assms(3) Cons' [unfolded xy]]] .
    with empty show ?thesis by (simp add: tryPairOnce_def Let_def Cons Cons' xy)
  qed
qed

subsection \<open>The loop of a pairing request\<close>

definition sleeps :: "nat \<Rightarrow> hub_effect list" where
  "sleeps n = replicate n (SleepFor (5 * second))"

text \<open>How the loop with \<open>m\<close> attempts left can end after \<open>n\<close> failed ones, with the effects \<open>rest\<close>.\<close>

definition loop_end ::
    "(nat \<Rightarrow> attempt) \<Rightarrow> Client \<Rightarrow> PairRequestPayload \<Rightarrow> nat \<Rightarrow> nat \<Rightarrow> Hub \<Rightarrow> hub_effect list \<Rightarrow> bool" where
  "loop_end ats c pr m n h' rest \<longleftrightarrow>
     (if n = m
      then rest = send_to (cl_Conn c) (Envelope MsgPairError (ErrorPayload CodeNoPortTimeout ''no port available'')) h'
      else n < m \<and> (let a = ats (m - 1 - n) in
        if at_done a then rest = []
        else (\<exists>hn. case tryPairOnce (at_order a) (at_others a) (at_sid a) (at_now a) c pr hn of
            (Inr g, hg) \<Rightarrow> hg = h' \<and> rest = grant_effects (cl_Conn c) g h'
          | (Inl e, he) \<Rightarrow> he = h' \<and> errors_Code (Some e) \<noteq> CodeUnavailable \<and>
              rest = send_to (cl_Conn c)
                (Envelope MsgPairError (ErrorPayload (errors_Code (Some e)) (error_text e))) h')))"

lemma loop_end_Suc:
  assumes "loop_end ats c pr m n h' rest"
  shows "loop_end ats c pr (Suc m) (Suc n) h' rest"
proof (cases "n = m")
  case False
  then have "Suc m - 1 - Suc n = m - 1 - n" "Suc n < Suc m \<longleftrightarrow> n < m" by auto
  with assms False show ?thesis by (simp add: loop_end_def)
qed (use assms in \<open>simp add: loop_end_def\<close>)

lemma pairLoop_ends:
  "\<exists>n \<le> m. \<exists>rest. snd (pairLoop ats m c pr h) = sleeps n @ rest \<and>
     loop_end ats c pr m n (fst (pairLoop ats m c pr h)) rest"
proof (induction m arbitrary: h)
  case 0
  show ?case by (simp add: sleeps_def loop_end_def)
next
  case (Suc m)
  let ?a = "ats m"
  let ?h = "at_env ?a h"
  obtain r h1 where t: "tryPairOnce (at_order ?a) (at_others ?a) (at_sid ?a) (at_now ?a) c pr ?h = (r, h1)"
    by (meson surj_pair)
  consider "at_done ?a" | g where "\<not> at_done ?a" "r = Inr g"
    | e where "\<not> at_done ?a" "r = Inl e" "errors_Code (Some e) \<noteq> CodeUnavailable"
    | e where "\<not> at_done ?a" "r = Inl e" "errors_Code (Some e) = CodeUnavailable"
    by (cases r) auto
  then show ?case
  proof cases
    case 1
    then show ?thesis by (auto simp: sleeps_def loop_end_def Let_def intro!: exI [of _ 0])
  next
    case 2
    have "loop_end ats c pr (Suc m) 0 h1 (grant_effects (cl_Conn c) g h1)"
      using 2 t by (auto simp: loop_end_def Let_def intro!: exI [of _ ?h])
    with 2 t show ?thesis by (auto simp: sleeps_def Let_def intro!: exI [of _ 0])
  next
    case 3
    have "loop_end ats c pr (Suc m) 0 h1 (send_to (cl_Conn c)
        (Envelope MsgPairError (ErrorPayload (errors_Code (Some e)) (error_text e))) h1)"
      using 3 t by (auto simp: loop_end_def Let_def intro!: exI [of _ ?h])
    with 3 t show ?thesis by (auto simp: sleeps_def Let_def intro!: exI [of _ 0])
  next
    case 4
    from Suc [of h1] obtain n rest where n: "n \<le> m" "snd (pairLoop ats m c pr h1) = sleeps n @ rest"
      "loop_end ats c pr m n (fst (pairLoop ats m c pr h1)) rest" by blast
    have "snd (pairLoop ats (Suc m) c pr h) = sleeps (Suc n) @ rest"
      "fst (pairLoop ats (Suc m) c pr h) = fst (pairLoop ats m c pr h1)"
      using 4 t n(2) by (simp_all add: Let_def sleeps_def case_prod_beta)
    with loop_end_Suc [OF n(3)] n(1) show ?thesis by (intro exI [of _ "Suc n"]) auto
  qed
qed

text \<open>
  C37. A pairing request comes to an end. Whatever others do in between, the loop makes at most 50
  attempts, five seconds apart, and ends in one of four ways: cancelled with its context, without an
  answer; with the grant of its last attempt, sent to the client and to the server of the grant; with
  the error of its last attempt when its code is not 504; or, after 50 attempts, with the error 505.
\<close>

theorem pairLoop_answers:
  "\<exists>n \<le> 50. \<exists>rest. snd (pair_request_loop ats c pr h) = sleeps n @ rest \<and>
     loop_end ats c pr 50 n (fst (pair_request_loop ats c pr h)) rest"
  unfolding pair_request_loop_def by (rule pairLoop_ends)

subsection \<open>Registration\<close>

text \<open>
  Registration on every branch. It succeeds exactly when the id and the token are not empty, the
  role is one of the two, fewer clients than the maximum are registered and the id is free among the
  clients of the role; then the client is found by its id and by its connection, approved and with a
  capacity of at least one, the count grows by one, and no other entry changes. Otherwise the hub is
  unchanged and the code is 400 for a malformed request, 504 when the hub is full and 409 for a
  duplicate id.
\<close>

theorem validateAndRegister_exact:
  assumes "cl_Conn c \<notin> set (hub_clients h)"
  shows "(let (err, h') = validateAndRegister c h;
              wellformed = (cl_ID c \<noteq> '''' \<and> cl_Token c \<noteq> '''' \<and> (cl_Role c = RoleServer \<or> cl_Role c = RoleClient));
              full = (gw_MaxConnections (cfg_Gateway (hub_cfg h)) \<le> int (connectionCount h));
              free = (if cl_Role c = RoleServer then hub_servers h (cl_ID c) = None else hub_fe h (cl_ID c) = None)
          in (err = None \<longleftrightarrow> wellformed \<and> \<not> full \<and> free) \<and>
             (err \<noteq> None \<longrightarrow> h' = h \<and>
                errors_Code err = (if \<not> wellformed then CodeBadRequest else if full then CodeUnavailable else CodeConflict)) \<and>
             (err = None \<longrightarrow> connectionCount h' = Suc (connectionCount h) \<and>
                (if cl_Role c = RoleServer
                 then hub_servers h' = (hub_servers h)(cl_ID c \<mapsto> cl_Conn c) \<and> hub_fe h' = hub_fe h
                 else hub_fe h' = (hub_fe h)(cl_ID c \<mapsto> cl_Conn c) \<and> hub_servers h' = hub_servers h) \<and>
                (\<exists>d. hub_objects h' = (hub_objects h)(cl_Conn c \<mapsto> d) \<and>
                   d = c\<lparr>cl_MaxConn := (if cl_MaxConn c \<le> 0 then 1 else cl_MaxConn c), cl_Auth := AuthApproved\<rparr>)))"
proof -
  let ?full = "gw_MaxConnections (cfg_Gateway (hub_cfg h)) \<le> int (length (hub_clients h))"
  let ?free = "if cl_Role c = RoleServer then hub_servers h (cl_ID c) = None else hub_fe h (cl_ID c) = None"
  consider e where "check_client c = Inl e" | d where "check_client c = Inr d" "?full"
    | d where "check_client c = Inr d" "\<not> ?full" "\<not> ?free"
    | d where "check_client c = Inr d" "\<not> ?full" "?free"
    by (cases "check_client c") auto
  then show ?thesis
  proof cases
    case 1
    then show ?thesis
      by (auto simp: validateAndRegister_def check_client_def Let_def CodeBadRequest_def split: if_splits)
  next
    case 2
    with check_client_Inr [OF 2(1)] show ?thesis
      by (auto simp: validateAndRegister_def connectionCount_def CodeUnavailable_def)
  next
    case 3
    with check_client_Inr [OF 3(1)] show ?thesis
      by (auto simp: validateAndRegister_def connectionCount_def CodeConflict_def split: if_splits)
  next
    case 4
    have d: "d = (if cl_MaxConn c \<le> 0 then c\<lparr>cl_MaxConn := 1\<rparr> else c)"
      using 4(1) by (simp add: check_client_def Let_def split: if_splits)
    from 4 check_client_Inr [OF 4(1)] assms show ?thesis
      by (auto simp: validateAndRegister_def connectionCount_def d Let_def split: if_splits)
  qed
qed

subsection \<open>Reachable hubs\<close>

text \<open>Any goroutine may take any of these steps at any time; only registration is by a connection
  that is not registered, because \<open>handleConn\<close> registers its own connection once.\<close>

inductive hub_step :: "Hub \<Rightarrow> Hub \<Rightarrow> bool" where
  start: "hub_step h (fst (snd (Hub_Start err accepts h)))"
| register: "cl_Conn c \<notin> set (hub_clients h) \<Longrightarrow> hub_step h (snd (validateAndRegister c h))"
| leaves: "hub_step h (fst (leave k h))"
| pair: "hub_step h (snd (tryPairOnce order others sid now c pr h))"
| pools: "hub_step h (h\<lparr>hub_zmqPool := fold pool_do zs (hub_zmqPool h), hub_srtPool := fold pool_do ss (hub_srtPool h)\<rparr>)"
| status: "hub_step h (fst (broadcastStatus order cpu mem now ok1 ok2 ks1 ks2 h))"
| telemetry: "hub_step h (fst (telemetry_tick morder ok ks m h))"

definition hub_ok :: "Hub \<Rightarrow> bool" where
  "hub_ok h \<longleftrightarrow> hub_inv h \<and> (\<forall>k c. hub_objects h k = Some c \<longrightarrow> cl_Conn c = k) \<and>
     pool_inv (hub_zmqPool h) \<and> pool_inv (hub_srtPool h)"

lemma hub_okD:
  assumes "hub_ok h"
  shows "hub_inv h" "hub_objects h k = Some c \<Longrightarrow> cl_Conn c = k" "pool_inv (hub_zmqPool h)" "pool_inv (hub_srtPool h)"
  using assms by (auto simp: hub_ok_def)

lemma hub_ok_pools:
  "hub_ok h \<Longrightarrow> pool_inv zp \<Longrightarrow> pool_inv sp \<Longrightarrow> hub_ok (h\<lparr>hub_zmqPool := zp, hub_srtPool := sp\<rparr>)"
  by (simp add: hub_ok_def hub_inv_frame)

lemma hub_ok_Close: "hub_ok h \<Longrightarrow> hub_ok (fst (Client_Close k h))"
  unfolding hub_ok_def
  by (intro conjI hub_inv_Close) (auto simp: Client_Close_def split: option.splits if_splits)

lemma hub_ok_Broadcast: "hub_ok h \<Longrightarrow> hub_ok (fst (Broadcast ok order env h))"
  unfolding Broadcast_def
  by (rule seq_effects_inv)
     (auto simp: broadcast_one_def case_prod_beta Let_def hub_ok_Close split: option.split)

lemma hub_ok_clock: "hub_ok h \<Longrightarrow> hub_ok (h\<lparr>hub_lastBroadcast := t\<rparr>)"
  by (simp add: hub_ok_def hub_inv_frame)

lemma hub_ok_register:
  assumes "hub_ok h" and "cl_Conn c \<notin> set (hub_clients h)"
  shows "hub_ok (snd (validateAndRegister c h))"
proof (cases "validateAndRegister c h")
  case (Pair err h')
  have "hub_inv h'" using hub_inv_register [OF hub_okD(1) [OF assms(1)] assms(2)] by (simp add: Pair)
  moreover have "hub_zmqPool h' = hub_zmqPool h \<and> hub_srtPool h' = hub_srtPool h \<and>
    (h' = h \<or> (\<exists>d. cl_Conn d = cl_Conn c \<and> hub_objects h' = (hub_objects h)(cl_Conn c \<mapsto> d)))"
  proof (cases err)
    case None
    then obtain d where d: "check_client c = Inr d"
      "hub_objects h' = (hub_objects h)(cl_Conn d \<mapsto> d\<lparr>cl_Auth := AuthApproved\<rparr>)"
      using Pair by (auto elim: validateAndRegister_None)
    have "hub_zmqPool h' = hub_zmqPool h \<and> hub_srtPool h' = hub_srtPool h"
      using Pair by (auto simp: validateAndRegister_def Let_def split: sum.splits if_splits)
    with d check_client_Inr [OF d(1)] show ?thesis
      by (intro conjI disjI2 exI [of _ "d\<lparr>cl_Auth := AuthApproved\<rparr>"]) simp_all
  qed (use Pair in \<open>auto simp: validateAndRegister_def Let_def split: sum.splits if_splits\<close>)
  ultimately show ?thesis using assms(1) by (auto simp: hub_ok_def Pair split: if_splits)
qed

lemma hub_ok_leave:
  assumes "hub_ok h"
  shows "hub_ok (fst (leave k h))"
proof (cases "hub_objects h k")
  case (Some c)
  then have "cl_Conn c = k" using assms hub_okD(2) by blast
  then have "hub_inv (unregister c h)" using hub_inv_unregister [OF hub_okD(1) [OF assms]] Some by simp
  moreover have "hub_zmqPool (unregister c h) = hub_zmqPool h" "hub_srtPool (unregister c h) = hub_srtPool h"
    by (simp_all add: unregister_def Let_def)
  ultimately have "hub_ok (unregister c h)"
    using assms by (simp add: hub_ok_def unregister_parts)
  with Some show ?thesis by (simp add: leave_def hub_ok_Close)
qed (use assms in \<open>simp add: leave_def\<close>)

lemma hub_ok_pair:
  assumes "hub_ok h"
  shows "hub_ok (snd (tryPairOnce order others sid now c pr h))"
proof (cases "sort_key fst (candidates h (request_servers order pr h))")
  case (Cons ks rest)
  obtain k s where ks: "ks = (k, s)" by (meson surj_pair)
  obtain r zp sp where r: "reserve_ports now sid (cl_ID s) (cl_ID c) pr
      (fold pool_do (fst others) (hub_zmqPool h), fold pool_do (snd others) (hub_srtPool h)) = (r, zp, sp)"
    by (metis prod_cases3)
  have "pool_inv zp \<and> pool_inv sp"
    using reserve_ports_spec [OF others_inv(1) [OF hub_okD(3,4) [OF assms], of others]
        others_inv(2) [OF hub_okD(3,4) [OF assms], of others], of pr now sid "cl_ID s" "cl_ID c", unfolded r]
    by (auto split: sum.splits)
  with assms show ?thesis
    by (auto simp: tryPairOnce_def Let_def Cons ks r hub_ok_pools split: sum.split)
qed (use assms in \<open>simp add: tryPairOnce_def Let_def\<close>)

lemma hub_step_ok: "hub_step h h' \<Longrightarrow> hub_ok h \<Longrightarrow> hub_ok h'"
proof (induction rule: hub_step.induct)
  case (start h err accepts)
  have "entered (h\<lparr>hub_gwStatus := g\<rparr>) k = entered h k" for g k
    by (cases "hub_objects h k") (simp_all add: entered_def)
  then have "hub_ok (h\<lparr>hub_gwStatus := g\<rparr>)" for g using start by (simp add: hub_ok_def hub_inv_def)
  then show ?case using start by (cases err) (simp_all add: Hub_Start_def Let_def)
next
  case (pools h zs ss)
  then show ?case by (auto intro!: hub_ok_pools pool_inv_run dest: hub_okD)
next
  case (status h order cpu mem now ok1 ok2 ks1 ks2)
  then show ?case
    by (simp add: broadcastStatus_def Let_def case_prod_beta hub_ok_Broadcast hub_ok_clock)
qed (simp_all add: hub_ok_register hub_ok_leave hub_ok_pair telemetry_tick_def hub_ok_Broadcast)

lemma hub_ok_NewHub: "pool_inv zp \<Longrightarrow> pool_inv sp \<Longrightarrow> hub_ok (NewHub now cfg zp sp)"
  using hub_inv_NewHub [of now cfg zp sp] by (simp add: hub_ok_def) (simp add: NewHub_def)

lemma hub_reach_ok: "hub_step\<^sup>*\<^sup>* h h' \<Longrightarrow> hub_ok h \<Longrightarrow> hub_ok h'"
  by (induction rule: rtranclp_induct) (auto intro: hub_step_ok)

text \<open>
  C20. In every run of the hub, in any interleaving of its goroutines, the registry is consistent: no
  connection is registered twice, at most the configured number is, a registered connection belongs
  to one approved client with an id, a capacity and a role, which is found by its id in the map of
  its role, the maps have no other entries, and no two clients of one role share an id. Both port
  pools keep their invariant.
\<close>

theorem hub_registry:
  assumes "hub_step\<^sup>*\<^sup>* (NewHub now cfg zp sp) h" and "pool_inv zp" and "pool_inv sp"
  shows "distinct (hub_clients h) \<and>
    (hub_clients h = [] \<or> int (connectionCount h) \<le> gw_MaxConnections (cfg_Gateway (hub_cfg h))) \<and>
    (\<forall>k \<in> set (hub_clients h). entered h k) \<and>
    (\<forall>i k. hub_servers h i = Some k \<longrightarrow> k \<in> set (hub_clients h) \<and>
       (\<exists>c. hub_objects h k = Some c \<and> cl_ID c = i \<and> cl_Role c = RoleServer)) \<and>
    (\<forall>i k. hub_fe h i = Some k \<longrightarrow> k \<in> set (hub_clients h) \<and>
       (\<exists>c. hub_objects h k = Some c \<and> cl_ID c = i \<and> cl_Role c = RoleClient)) \<and>
    (\<forall>j k c d. j \<in> set (hub_clients h) \<longrightarrow> k \<in> set (hub_clients h) \<longrightarrow> hub_objects h j = Some c \<longrightarrow>
       hub_objects h k = Some d \<longrightarrow> cl_Role c = cl_Role d \<longrightarrow> cl_ID c = cl_ID d \<longrightarrow> j = k) \<and>
    pool_inv (hub_zmqPool h) \<and> pool_inv (hub_srtPool h)"
proof -
  have ok: "hub_ok h" using hub_reach_ok [OF assms(1) hub_ok_NewHub] assms(2,3) .
  note inv = hub_okD(1) [OF ok]
  have role: "cl_Role c = RoleClient" if "hub_fe h i = Some k" "hub_objects h k = Some c" for i k c
    using hub_invD(2) [OF inv hub_invD(5) [OF inv that(1)]] hub_invD(6) [OF inv that(1)] that(2)
    by (auto simp: entered_def split: if_splits)
  have uniq: "j = k" if "j \<in> set (hub_clients h)" "k \<in> set (hub_clients h)" "hub_objects h j = Some c"
    "hub_objects h k = Some d" "cl_Role c = cl_Role d" "cl_ID c = cl_ID d" for j k c d
    using hub_invD(2) [OF inv that(1)] hub_invD(2) [OF inv that(2)] that(3-6)
    by (auto simp: entered_def split: if_splits)
  have fe: "\<exists>c. hub_objects h k = Some c \<and> cl_ID c = i \<and> cl_Role c = RoleClient" if "hub_fe h i = Some k" for i k
    using hub_invD(6) [OF inv that] role [OF that] by blast
  show ?thesis
    using hub_invD(1,2,3,4,5,7) [OF inv] fe uniq hub_okD(3,4) [OF ok]
    unfolding connectionCount_def by (intro conjI allI impI ballI) assumption+
qed

subsection \<open>Typed messages\<close>

text \<open>The payload each message type announces.\<close>

fun typed :: "Envelope \<Rightarrow> bool" where
  "typed (Envelope MsgRegisterAck (RegisterAck _ _ _)) \<longleftrightarrow> True"
| "typed (Envelope MsgPairGrant (PairGrant _)) \<longleftrightarrow> True"
| "typed (Envelope MsgPairError (ErrorPayload _ _)) \<longleftrightarrow> True"
| "typed (Envelope MsgError (ErrorPayload _ _)) \<longleftrightarrow> True"
| "typed (Envelope MsgStatus (ServerStatus _)) \<longleftrightarrow> True"
| "typed (Envelope MsgTelemetry (Telemetry _)) \<longleftrightarrow> True"
| "typed (Envelope MsgPortState (PortState _)) \<longleftrightarrow> True"
| "typed _ \<longleftrightarrow> False"

fun typed_effect :: "hub_effect \<Rightarrow> bool" where
  "typed_effect (SendTo k e) \<longleftrightarrow> typed e"
| "typed_effect _ \<longleftrightarrow> True"

abbreviation typed_effects :: "hub_effect list \<Rightarrow> bool" where
  "typed_effects es \<equiv> list_all typed_effect es"

named_theorems typing

lemma typed_send [typing]: "typed env \<Longrightarrow> typed_effects (send_to k env h)"
  by (simp add: send_to_def Client_Send_def split: option.split)

lemma typed_Close [typing]: "typed_effects (snd (Client_Close k h))"
  by (simp add: Client_Close_def split: option.split)

lemma typed_seq: "(\<And>x S. typed_effects (snd (f x S))) \<Longrightarrow> typed_effects (snd (seq_effects f xs S))"
  by (induction xs arbitrary: S) (simp_all add: case_prod_beta Let_def)

lemma typed_Broadcast [typing]: "typed env \<Longrightarrow> typed_effects (snd (Broadcast ok order env h))"
  unfolding Broadcast_def
  by (rule typed_seq)
     (auto simp: broadcast_one_def Client_Send_def case_prod_beta Let_def typing split: option.split)

lemma typed_status [typing]: "typed_effects (snd (broadcastStatus order cpu mem now ok1 ok2 ks1 ks2 h))"
  by (simp add: broadcastStatus_def case_prod_beta Let_def typing)

lemma typed_telemetry [typing]: "typed_effects (snd (telemetry_tick morder ok ks m h))"
  by (simp add: telemetry_tick_def typing)

lemma typed_grant [typing]: "typed_effects (grant_effects k g h)"
  by (simp add: grant_effects_def typing split: option.split)

lemma typed_sleeps [typing]: "typed_effects (sleeps n)"
  by (simp add: sleeps_def list_all_iff)

lemma typed_result:
  "(case rh of (Inr g, hg) \<Rightarrow> hg = h' \<and> rest = grant_effects k g h'
    | (Inl e, he) \<Rightarrow> he = h' \<and> errors_Code (Some e) \<noteq> CodeUnavailable \<and>
        rest = send_to k (Envelope MsgPairError (ErrorPayload (errors_Code (Some e)) (error_text e))) h') \<Longrightarrow>
   typed_effects rest"
  by (cases rh; cases "fst rh") (auto simp: typing)

lemma typed_loop_end: "loop_end ats c pr m n h' rest \<Longrightarrow> typed_effects rest"
proof (cases "n = m \<or> at_done (ats (m - 1 - n))")
  case False
  assume "loop_end ats c pr m n h' rest"
  with False show ?thesis
    unfolding loop_end_def Let_def by (simp only: de_Morgan_disj if_False) (elim conjE exE, erule typed_result)
qed (auto simp: loop_end_def Let_def typing split: if_splits)

lemma typed_pair_loop [typing]: "typed_effects (snd (pair_request_loop ats c pr h))"
  using pairLoop_ends [of 50 ats c pr h] typed_loop_end by (auto simp: pair_request_loop_def typing)

lemma typed_first [typing]: "typed_effects (snd (snd (handle_first conn first h)))"
  by (auto simp: handle_first_def ack_error_def Let_def split: option.split prod.split)

lemma typed_leave [typing]: "typed_effects (snd (leave k h))"
  by (simp add: leave_def typing split: option.split)

lemma typed_message: "handle_message fresh conn msg h = Some es \<Longrightarrow> typed_effects es"
  by (auto simp: handle_message_def handlePairRequest_def typing split: option.splits if_splits prod.splits)

lemma typed_messages [typing]: "typed_effects (snd (message_loop conn msgs h))"
proof (induction conn msgs h rule: message_loop.induct)
  case (2 conn ctx_done env fresh msg ms h0)
  then show ?case
    by (auto simp: typing Let_def case_prod_beta split: option.split dest: typed_message)
qed (simp add: typing)

lemma typed_http [typing]: "typed_effects (handleHTTP now line k h)"
  by (auto simp: handleHTTP_def Let_def split: sum.split)

text \<open>
  C38. Every message the control plane writes carries the payload its type announces: register_ack an
  acknowledgement, pair_grant a grant, pair_error and error a code and a text, status, telemetry and
  port_state their lists and counts; register, pair_request and port_conflict are never written.
\<close>

theorem hub_messages_typed:
  "typed_effects (snd (Hub_handleConn peeked now line first msgs conn h)) \<and>
   typed_effects (snd (pair_request_loop ats c pr h)) \<and>
   typed_effects (snd (broadcastStatus order cpu mem now ok1 ok2 ks1 ks2 h)) \<and>
   typed_effects (snd (telemetry_tick morder ok ks m h))"
proof -
  have "typed_effects (snd (Hub_handleConn peeked now line first msgs conn h))"
    using typed_first [of conn first h]
    by (cases "handle_first conn first h") (auto simp: Hub_handleConn_def case_prod_beta Let_def typing split: bool.split)
  then show ?thesis by (simp add: typing)
qed

subsection \<open>A small hub\<close>

definition ex_server :: Client where
  "ex_server = new_client 1 \<lparr>reg_Role = RoleServer, reg_ID = ''v'', reg_Token = ''t'', reg_MaxConn = 1\<rparr>"

definition ex_client :: Client where
  "ex_client = new_client 2 \<lparr>reg_Role = RoleClient, reg_ID = ''c'', reg_Token = ''u'', reg_MaxConn = 0\<rparr>"

definition ex_ports :: "Kind \<Rightarrow> port \<Rightarrow> Pool" where
  "ex_ports k i = add_port (i + 1) (add_port i (empty_pool k))"

definition ex_hub :: Hub where
  "ex_hub = snd (validateAndRegister ex_client (snd (validateAndRegister ex_server
     (NewHub 0 DefaultConfig (ex_ports KindZMQ 7) (ex_ports KindSRT 17)))))"

definition ex_request :: PairRequestPayload where
  "ex_request = \<lparr>pr_RequestID = ''r'', pr_ServerID = '''', pr_NeedZMQ = True, pr_NeedSRT = False\<rparr>"

lemma ex_names:
  "cl_ID ex_server = ''v''" "cl_Token ex_server = ''t''" "cl_Role ex_server = RoleServer" "cl_Conn ex_server = 1"
  "cl_MaxConn ex_server = 1" "cl_ID ex_client = ''c''" "cl_Token ex_client = ''u''" "cl_Role ex_client = RoleClient"
  "cl_Conn ex_client = 2" "cl_MaxConn ex_client = 0"
  by (simp_all add: ex_server_def ex_client_def new_client_def trim_space_solid_id solid_def visible_def)

lemma roles_differ [simp]: "RoleServer \<noteq> RoleClient" "RoleClient \<noteq> RoleServer"
  by (simp_all add: RoleServer_def RoleClient_def)

lemma ex_ports_inv: "0 < i \<Longrightarrow> i < 65535 \<Longrightarrow> pool_inv (ex_ports k i)"
  by (auto simp: pool_inv_def ex_ports_def add_port_def empty_pool_def held_def)

lemma ex_hub_eval:
  "hub_zmqPool ex_hub = ex_ports KindZMQ 7" "hub_srtPool ex_hub = ex_ports KindSRT 17"
  "hub_servers ex_hub = [''v'' \<mapsto> 1]" "hub_fe ex_hub = [''c'' \<mapsto> 2]" "hub_clients ex_hub = [1, 2]"
  "hub_objects ex_hub = [1 \<mapsto> ex_server\<lparr>cl_Auth := AuthApproved\<rparr>,
     2 \<mapsto> ex_client\<lparr>cl_MaxConn := 1, cl_Auth := AuthApproved\<rparr>]"
  "hub_cfg ex_hub = DefaultConfig"
  by (simp_all add: ex_hub_def validateAndRegister_def check_client_def ex_names NewHub_def DefaultConfig_def)

lemma ex_hub_run:
  "hub_step\<^sup>*\<^sup>* (NewHub 0 DefaultConfig (ex_ports KindZMQ 7) (ex_ports KindSRT 17)) ex_hub"
proof -
  let ?h0 = "NewHub 0 DefaultConfig (ex_ports KindZMQ 7) (ex_ports KindSRT 17)"
  let ?h1 = "snd (validateAndRegister ex_server ?h0)"
  have "hub_clients ?h1 = [1]"
    by (simp add: validateAndRegister_def check_client_def ex_names NewHub_def DefaultConfig_def)
  then have "hub_step ?h1 ex_hub"
    unfolding ex_hub_def by (intro hub_step.register) (simp add: ex_names)
  moreover have "hub_step ?h0 ?h1" by (intro hub_step.register) (simp add: NewHub_def)
  ultimately show ?thesis by auto
qed

lemma ex_hub_ok: "hub_ok ex_hub"
  by (rule hub_reach_ok [OF ex_hub_run hub_ok_NewHub]) (simp_all add: ex_ports_inv)

lemma ex_hub_order: "iterates (hub_servers ex_hub) [''v'']"
  by (simp add: iterates_def ex_hub_eval)

lemma hub_registry_witness:
  "distinct (hub_clients ex_hub) \<and> entered ex_hub 1 \<and> entered ex_hub 2"
  using hub_registry [OF ex_hub_run] by (simp add: ex_ports_inv ex_hub_eval)

lemma validateAndRegister_exact_witness:
  "fst (validateAndRegister (ex_server\<lparr>cl_Conn := 3\<rparr>) ex_hub) \<noteq> None"
  using validateAndRegister_exact [of "ex_server\<lparr>cl_Conn := 3\<rparr>" ex_hub]
  by (simp add: ex_hub_eval ex_names Let_def case_prod_beta)

text \<open>The same hub with a second server.\<close>

definition ex_server2 :: Client where
  "ex_server2 = new_client 3 \<lparr>reg_Role = RoleServer, reg_ID = ''w'', reg_Token = ''t'', reg_MaxConn = 1\<rparr>"

definition ex_hub2 :: Hub where
  "ex_hub2 = snd (validateAndRegister ex_server2 ex_hub)"

lemma ex_names2:
  "cl_ID ex_server2 = ''w''" "cl_Token ex_server2 = ''t''" "cl_Role ex_server2 = RoleServer" "cl_Conn ex_server2 = 3"
  by (simp_all add: ex_server2_def new_client_def trim_space_solid_id solid_def visible_def)

lemma tryPairOnce_map_order_witness:
  "tryPairOnce [''v'', ''w''] ([], []) ''s'' 1 ex_client ex_request ex_hub2 =
     tryPairOnce [''w'', ''v''] ([], []) ''s'' 1 ex_client ex_request ex_hub2"
proof (rule tryPairOnce_map_order)
  show "hub_inv ex_hub2"
    unfolding ex_hub2_def
    by (rule hub_inv_register [OF hub_okD(1) [OF ex_hub_ok]]) (simp add: ex_hub_eval ex_names2)
  have "hub_servers ex_hub2 = [''v'' \<mapsto> 1, ''w'' \<mapsto> 3]"
    by (simp add: ex_hub2_def validateAndRegister_def check_client_def ex_names2 ex_hub_eval DefaultConfig_def Let_def)
  then show "iterates (hub_servers ex_hub2) [''v'', ''w'']" "iterates (hub_servers ex_hub2) [''w'', ''v'']"
    by (auto simp: iterates_def)
qed

subsection \<open>Capacity\<close>

lemma ex_ports_eval:
  "pool_ports (ex_ports k i) = [i, i + 1]" "pool_state (ex_ports k i) = [i \<mapsto> PortIdle, i + 1 \<mapsto> PortIdle]"
  "pool_alloc (ex_ports k i) = Map.empty" "pool_kind (ex_ports k i) = k"
  by (simp_all add: ex_ports_def add_port_def empty_pool_def)

lemmas pair_eval = tryPairOnce_def request_servers_def candidates_def remaining_of_def
  occupiedPortsForServer_def poolOccupiedPorts_def Pool_Allocation_def reserve_ports_def Reserve_def
  MarkOccupied_def session_at_def Pool_Snapshot_def snap_port_def empty_snapshot_def List.map_filter_def

definition ex_grant :: "string \<Rightarrow> port \<Rightarrow> PairGrantPayload" where
  "ex_grant sid q = \<lparr>pg_RequestID = ''r'', pg_SessionID = sid, pg_ServerID = ''v'', pg_ClientID = ''c'',
     pg_ServerToken = ''t'', pg_ClientToken = ''u'', pg_ZMQPort = q, pg_SRTPort = 0\<rparr>"

text \<open>Two attempts in a row at the hub above, and the hub after them.\<close>

definition ex_hub3 :: Hub where
  "ex_hub3 = snd (tryPairOnce [''v''] ([], []) ''s'' 1 ex_client ex_request ex_hub)"

definition ex_hub4 :: Hub where
  "ex_hub4 = snd (tryPairOnce [''v''] ([], []) ''t'' 2 ex_client ex_request ex_hub3)"

lemma ex_pair1: "tryPairOnce [''v''] ([], []) ''s'' 1 ex_client ex_request ex_hub = (Inr (ex_grant ''s'' 7), ex_hub3)"
  by (simp add: ex_hub3_def pair_eval ex_hub_eval ex_ports_eval ex_names ex_request_def ex_grant_def Let_def)

definition ex_alloc :: "string \<Rightarrow> port \<Rightarrow> time \<Rightarrow> Allocation" where
  "ex_alloc sid q now = \<lparr>alloc_Kind = KindZMQ, alloc_Port = q, alloc_SessionID = sid, alloc_ServerID = ''v'',
     alloc_ClientID = ''c'', alloc_ReservedAt = now\<rparr>"

lemma ex_request_eval: "pr_RequestID ex_request = ''r''" "pr_ServerID ex_request = []" "pr_NeedZMQ ex_request"
  "\<not> pr_NeedSRT ex_request"
  by (simp_all add: ex_request_def)

lemma ex_hub3_eval:
  "pool_ports (hub_zmqPool ex_hub3) = [7, 8]"
  "pool_state (hub_zmqPool ex_hub3) = [7 \<mapsto> PortReserved, 8 \<mapsto> PortIdle]"
  "pool_alloc (hub_zmqPool ex_hub3) = [7 \<mapsto> ex_alloc ''s'' 7 1]" "pool_kind (hub_zmqPool ex_hub3) = KindZMQ"
  "hub_srtPool ex_hub3 = ex_ports KindSRT 17" "hub_servers ex_hub3 = [''v'' \<mapsto> 1]"
  "hub_objects ex_hub3 = hub_objects ex_hub"
  by (simp_all add: ex_hub3_def pair_eval ex_hub_eval ex_ports_eval ex_names ex_request_eval ex_alloc_def Let_def fun_upd_twist)

lemma ex_pair2: "tryPairOnce [''v''] ([], []) ''t'' 2 ex_client ex_request ex_hub3 = (Inr (ex_grant ''t'' 8), ex_hub4)"
  by (simp add: ex_hub4_def pair_eval ex_hub3_eval ex_hub_eval(6) ex_ports_eval ex_names ex_request_def ex_grant_def Let_def)

lemma ex_hub4_eval:
  "pool_ports (hub_zmqPool ex_hub4) = [7, 8]"
  "pool_state (hub_zmqPool ex_hub4) = [7 \<mapsto> PortReserved, 8 \<mapsto> PortReserved]"
  "pool_alloc (hub_zmqPool ex_hub4) = [7 \<mapsto> ex_alloc ''s'' 7 1, 8 \<mapsto> ex_alloc ''t'' 8 2]"
  "hub_srtPool ex_hub4 = ex_ports KindSRT 17"
  by (simp_all add: ex_hub4_def pair_eval ex_hub3_eval ex_hub_eval(6) ex_ports_eval ex_names ex_request_eval ex_alloc_def Let_def fun_upd_twist)

text \<open>
  The capacity a server announced is not a bound on its sessions, because only occupied ports
  count against it, not the ports already promised: at a server that registered for one session, two
  requests in a row are both granted; when both sessions have started, the server has two occupied
  ports, one more than it announced.
\<close>

theorem capacity_overshoot:
  "\<exists>g1 g2 h1 h2.
     cl_MaxConn ex_server = 1 \<and> hub_objects ex_hub 1 = Some (ex_server\<lparr>cl_Auth := AuthApproved\<rparr>) \<and>
     tryPairOnce [''v''] ([], []) ''s'' 1 ex_client ex_request ex_hub = (Inr g1, h1) \<and>
     tryPairOnce [''v''] ([], []) ''t'' 2 ex_client ex_request h1 = (Inr g2, h2) \<and>
     pg_ServerID g1 = cl_ID ex_server \<and> pg_ServerID g2 = cl_ID ex_server \<and>
     (let p = fold pool_do [OpMark (pg_ZMQPort g1) ''s'', OpMark (pg_ZMQPort g2) ''t''] (hub_zmqPool h2)
      in occupiedPortsForServer p (hub_srtPool h2) (cl_ID ex_server) = [7, 8])"
proof -
  have "occupiedPortsForServer (fold pool_do [OpMark 7 ''s'', OpMark 8 ''t''] (hub_zmqPool ex_hub4))
      (hub_srtPool ex_hub4) ''v'' = [7, 8]"
    by (simp add: pair_eval ex_hub4_eval ex_ports_eval ex_alloc_def Let_def)
  then show ?thesis
    using ex_pair1 ex_pair2
    by (intro exI [of _ "ex_grant ''s'' 7"] exI [of _ "ex_grant ''t'' 8"] exI [of _ ex_hub3] exI [of _ ex_hub4])
       (simp add: ex_names ex_hub_eval ex_grant_def)
qed

text \<open>One attempt, granted.\<close>

lemma tryPairOnce_exact_witness:
  "best_server ex_request ex_hub (ex_server\<lparr>cl_Auth := AuthApproved\<rparr>) \<and>
    handed 1 ''s'' ''v'' ''c'' True 7 (ex_ports KindZMQ 7) (hub_zmqPool ex_hub3) \<and>
    hub_srtPool ex_hub3 = ex_ports KindSRT 17"
proof -
  have one: "s = ex_server\<lparr>cl_Auth := AuthApproved\<rparr>" if "best_server ex_request ex_hub s" for s
    using that by (auto simp: best_server_def eligible_def ex_hub_eval split: if_splits)
  from tryPairOnce_exact [OF hub_okD(1,3,4) [OF ex_hub_ok] ex_hub_order, where others = "([], [])" and sid = "''s''"
      and now = 1 and c = ex_client and pr = ex_request]
  obtain s where s: "best_server ex_request ex_hub s"
    "handed 1 ''s'' (cl_ID s) (cl_ID ex_client) True 7 (ex_ports KindZMQ 7) (hub_zmqPool ex_hub3)"
    "handed 1 ''s'' (cl_ID s) (cl_ID ex_client) False 0 (ex_ports KindSRT 17) (hub_srtPool ex_hub3)"
    by (auto simp: ex_pair1 ex_grant_def ex_request_eval ex_hub_eval Let_def)
  with one [OF s(1)] show ?thesis by (simp add: ex_names handed_def [where need = False])
qed

end
