(* ===== verification/RingBuffer.thy ===== *)
theory RingBuffer
  imports Prelude
begin

section \<open>The byte queue of a relayed connection (v1/relay/buffer.go)\<close>

text \<open>
  \<open>RingBuffer\<close> is an unbounded-looking FIFO of bytes kept in a list of equal blocks from a pool: the
  writer fills the last block from \<open>writeOff\<close>, the reader empties the first one from \<open>readOff\<close>. It
  blocks the writer while it holds \<open>maxSize\<close> bytes or more and the reader while it is empty. Every
  method holds the mutex but for \<open>cond.Wait\<close>: blocking is a result of the operation, which is then
  repeated with what is left. The abstract queue it implements is the locale \<open>byte_fifo\<close>; the copy
  loops of a session rest on it alone. The code is the same in v2 and v3.
\<close>

subsection \<open>Data\<close>

definition buf_cap :: nat where "buf_cap = 32 * 1024"

record RingBuffer =
  rb_buffers :: "string list"
  rb_writeOff :: nat
  rb_readOff :: nat
  rb_currentSize :: int
  rb_maxSize :: int
  rb_closed :: bool
  rb_writeClosed :: bool

definition NewRingBuffer :: "int \<Rightarrow> RingBuffer" where
  "NewRingBuffer maxSize =
     \<lparr>rb_buffers = [], rb_writeOff = 0, rb_readOff = 0, rb_currentSize = 0, rb_maxSize = maxSize,
      rb_closed = False, rb_writeClosed = False\<rparr>"

text \<open>A block of the pool: of the fixed size, with any contents left over from its last use.\<close>

definition GetBuffer :: "(nat \<Rightarrow> char) \<Rightarrow> string" where
  "GetBuffer junk = map junk [0..<buf_cap]"

text \<open>\<open>copy(buf[off:], data)\<close> for data that fits.\<close>

definition copy_at :: "nat \<Rightarrow> string \<Rightarrow> string \<Rightarrow> string" where
  "copy_at off data buf = take off buf @ data @ drop (off + length data) buf"

subsection \<open>Writing\<close>

datatype write_result = WroteAll | WriteClosed | WriteBlocked | WritePanic

text \<open>The body of the loop of \<open>Write\<close> after its checks: a block to write to, then as much as fits.\<close>

definition current_block :: "(nat \<Rightarrow> char) \<Rightarrow> RingBuffer \<Rightarrow> RingBuffer" where
  "current_block junk rb =
     (if rb_buffers rb = [] \<or> rb_writeOff rb = length (last (rb_buffers rb))
      then rb\<lparr>rb_buffers := rb_buffers rb @ [GetBuffer junk], rb_writeOff := 0\<rparr> else rb)"

definition write_chunk :: "string \<Rightarrow> RingBuffer \<Rightarrow> nat \<times> RingBuffer" where
  "write_chunk remaining rb =
     (let currentBuf = last (rb_buffers rb);
          avail = length currentBuf - rb_writeOff rb;
          toWrite = min (length remaining) avail
      in (toWrite,
          rb\<lparr>rb_buffers := butlast (rb_buffers rb) @ [copy_at (rb_writeOff rb) (take toWrite remaining) currentBuf],
             rb_writeOff := rb_writeOff rb + toWrite,
             rb_currentSize := rb_currentSize rb + int toWrite\<rparr>))"

text \<open>An offset past its block would be a slice out of range; \<open>rb_Write_total\<close> shows there is none.\<close>

function rb_Write :: "(nat \<Rightarrow> char) \<Rightarrow> string \<Rightarrow> RingBuffer \<Rightarrow> nat \<times> write_result \<times> RingBuffer" where
  "rb_Write junk remaining rb =
     (if remaining = [] then (0, WroteAll, rb)
      else if rb_closed rb then (0, WriteClosed, rb)
      else if rb_writeClosed rb then (0, WriteClosed, rb)
      else if rb_currentSize rb \<ge> rb_maxSize rb then (0, WriteBlocked, rb)
      else (let rb1 = current_block junk rb in
        if rb_writeOff rb1 \<ge> length (last (rb_buffers rb1)) then (0, WritePanic, rb1)
        else (let (toWrite, rb2) = write_chunk remaining rb1;
                  (n, res, rb3) = rb_Write junk (drop toWrite remaining) rb2
              in (toWrite + n, res, rb3))))"
  by pat_completeness auto
termination
  by (relation "measure (\<lambda>(junk, remaining, rb). length remaining)")
     (auto simp: write_chunk_def Let_def)

declare rb_Write.simps [simp del]

subsection \<open>Reading\<close>

datatype take_result = ReadData string | ReadClosed | ReadEOF | ReadBlocked | ReadPanic

definition read_avail :: "RingBuffer \<Rightarrow> nat" where
  "read_avail rb =
     (if length (rb_buffers rb) = 1 then rb_writeOff rb - rb_readOff rb
      else length (hd (rb_buffers rb)) - rb_readOff rb)"

definition buffer_done :: "RingBuffer \<Rightarrow> bool" where
  "buffer_done rb =
     (if length (rb_buffers rb) = 1 then rb_readOff rb = rb_writeOff rb
      else rb_readOff rb = length (hd (rb_buffers rb)))"

definition drop_block :: "RingBuffer \<Rightarrow> RingBuffer" where
  "drop_block rb =
     (let rb = rb\<lparr>rb_buffers := tl (rb_buffers rb), rb_readOff := 0\<rparr>
      in if rb_buffers rb = [] then rb\<lparr>rb_writeOff := 0\<rparr> else rb)"

definition rb_Read :: "nat \<Rightarrow> RingBuffer \<Rightarrow> take_result \<times> RingBuffer" where
  "rb_Read plen rb =
     (if rb_currentSize rb \<le> 0
      then (if rb_closed rb then (ReadClosed, rb)
            else if rb_writeClosed rb then (ReadEOF, rb) else (ReadBlocked, rb))
      else if rb_buffers rb = [] then (ReadPanic, rb)
      else (let toRead = min plen (read_avail rb);
                data = take toRead (drop (rb_readOff rb) (hd (rb_buffers rb)));
                rb1 = rb\<lparr>rb_readOff := rb_readOff rb + toRead, rb_currentSize := rb_currentSize rb - int toRead\<rparr>
            in (ReadData data, if buffer_done rb1 then drop_block rb1 else rb1)))"

subsection \<open>Closing\<close>

definition cleanup :: "RingBuffer \<Rightarrow> RingBuffer" where
  "cleanup rb = rb\<lparr>rb_buffers := [], rb_currentSize := 0, rb_readOff := 0, rb_writeOff := 0\<rparr>"

definition rb_Close :: "RingBuffer \<Rightarrow> RingBuffer" where
  "rb_Close rb = (if rb_closed rb then rb else cleanup (rb\<lparr>rb_closed := True\<rparr>))"

definition rb_CloseWrite :: "RingBuffer \<Rightarrow> RingBuffer" where
  "rb_CloseWrite rb = rb\<lparr>rb_writeClosed := True\<rparr>"

definition rb_Flush :: "RingBuffer \<Rightarrow> RingBuffer" where
  "rb_Flush rb = cleanup rb"

subsection \<open>The contents\<close>

text \<open>The bytes in the queue: all blocks but the unwritten end of the last and the read start of the
  first.\<close>

definition content :: "RingBuffer \<Rightarrow> string" where
  "content rb =
     (if rb_buffers rb = [] then []
      else drop (rb_readOff rb) (concat (butlast (rb_buffers rb)) @ take (rb_writeOff rb) (last (rb_buffers rb))))"

definition rb_inv :: "RingBuffer \<Rightarrow> bool" where
  "rb_inv rb \<longleftrightarrow>
     (\<forall>b \<in> set (rb_buffers rb). length b = buf_cap) \<and>
     (if rb_buffers rb = [] then rb_readOff rb = 0 \<and> rb_writeOff rb = 0
      else rb_readOff rb < buf_cap \<and> 0 < rb_writeOff rb \<and> rb_writeOff rb \<le> buf_cap \<and>
        (length (rb_buffers rb) = 1 \<longrightarrow> rb_readOff rb < rb_writeOff rb)) \<and>
     rb_currentSize rb = int (length (content rb)) \<and>
     (rb_closed rb \<longrightarrow> rb_buffers rb = []) \<and>
     rb_currentSize rb \<le> max 0 (rb_maxSize rb - 1 + int buf_cap)"

lemma buf_cap_pos [simp]: "0 < buf_cap" "buf_cap \<noteq> 0"
  by (simp_all add: buf_cap_def)

lemma rb_invD:
  assumes "rb_inv rb"
  shows "b \<in> set (rb_buffers rb) \<Longrightarrow> length b = buf_cap"
    "rb_buffers rb \<noteq> [] \<Longrightarrow> rb_readOff rb < buf_cap" "rb_buffers rb \<noteq> [] \<Longrightarrow> 0 < rb_writeOff rb"
    "rb_writeOff rb \<le> buf_cap" "length (rb_buffers rb) = 1 \<Longrightarrow> rb_readOff rb < rb_writeOff rb"
    "rb_buffers rb = [] \<Longrightarrow> rb_readOff rb = 0" "rb_buffers rb = [] \<Longrightarrow> rb_writeOff rb = 0"
    "rb_currentSize rb = int (length (content rb))" "rb_closed rb \<Longrightarrow> rb_buffers rb = []"
    "rb_currentSize rb \<le> max 0 (rb_maxSize rb - 1 + int buf_cap)"
  using assms by (auto simp: rb_inv_def split: if_splits)

lemma content_Nil [simp]: "rb_buffers rb = [] \<Longrightarrow> content rb = []"
  by (simp add: content_def)

lemma content_empty_iff:
  assumes "rb_inv rb"
  shows "content rb = [] \<longleftrightarrow> rb_buffers rb = []"
proof
  assume empty: "content rb = []"
  show "rb_buffers rb = []"
  proof (rule ccontr)
    assume ne: "rb_buffers rb \<noteq> []"
    then obtain bs b where bs: "rb_buffers rb = bs @ [b]" by (metis append_butlast_last_id)
    have len: "length b = buf_cap" using rb_invD(1) [OF assms, of b] bs by simp
    from empty bs len rb_invD(4) [OF assms]
    have "length (concat bs) + rb_writeOff rb \<le> rb_readOff rb"
      by (auto simp: content_def min_def split: if_splits)
    moreover have "rb_readOff rb < length (concat bs) + rb_writeOff rb"
    proof (cases bs)
      case Nil
      then show ?thesis using rb_invD(5) [OF assms] bs by simp
    next
      case (Cons a as)
      then have "length a = buf_cap" using rb_invD(1) [OF assms, of a] bs by simp
      then show ?thesis using rb_invD(2) [OF assms ne] Cons by simp
    qed
    ultimately show False by simp
  qed
qed simp

lemma rb_inv_New: "rb_inv (NewRingBuffer m)"
  by (simp add: rb_inv_def NewRingBuffer_def content_def)

subsection \<open>Writing appends\<close>

lemma read_offset_le:
  assumes "rb_inv rb" and "rb_buffers rb = bs @ [b]"
  shows "rb_readOff rb \<le> length (concat bs) + rb_writeOff rb"
proof -
  have "content rb \<noteq> []" using content_empty_iff [OF assms(1)] assms(2) by simp
  then show ?thesis using assms(2) by (auto simp: content_def)
qed

lemma copy_at_take: "off \<le> length buf \<Longrightarrow> take (off + length d) (copy_at off d buf) = take off buf @ d"
  by (simp add: copy_at_def)

lemma copy_at_length: "off + length d \<le> length buf \<Longrightarrow> length (copy_at off d buf) = length buf"
  by (simp add: copy_at_def)

lemma GetBuffer_length [simp]: "length (GetBuffer junk) = buf_cap"
  by (simp add: GetBuffer_def)

text \<open>The block to write to: there is room in it, and its written part belongs to the contents.\<close>

lemma current_block_spec:
  assumes "rb_inv rb"
  obtains bs b where "rb_buffers (current_block junk rb) = bs @ [b]" "length b = buf_cap"
    "\<forall>c \<in> set bs. length c = buf_cap" "rb_writeOff (current_block junk rb) < buf_cap"
    "content rb = drop (rb_readOff rb) (concat bs @ take (rb_writeOff (current_block junk rb)) b)"
    "rb_readOff rb \<le> length (concat bs @ take (rb_writeOff (current_block junk rb)) b)"
    "bs = [] \<Longrightarrow> rb_readOff rb = 0 \<or> rb_readOff rb < rb_writeOff (current_block junk rb)"
    "rb_readOff rb < buf_cap"
proof (cases "rb_buffers rb = []")
  case True
  with rb_invD(6) [OF assms True] show thesis
    by (intro that [of "[]" "GetBuffer junk"]) (simp_all add: current_block_def)
next
  case False
  then obtain cs c where cs: "rb_buffers rb = cs @ [c]" by (metis append_butlast_last_id)
  note len = rb_invD(1) [OF assms]
  have c: "length c = buf_cap" using len cs by simp
  note r = read_offset_le [OF assms cs]
  show thesis
  proof (cases "rb_writeOff rb = buf_cap")
    case True
    then have "current_block junk rb = rb\<lparr>rb_buffers := (cs @ [c]) @ [GetBuffer junk], rb_writeOff := 0\<rparr>"
      using cs c by (simp add: current_block_def)
    then show thesis
      using cs c len True r rb_invD(2) [OF assms False]
      by (intro that [of "cs @ [c]" "GetBuffer junk"]) (auto simp: content_def)
  next
    case other: False
    then have eq: "current_block junk rb = rb" using cs c by (simp add: current_block_def)
    then show thesis
      using cs c len other r rb_invD(2,4,5) [OF assms] False
      by (intro that [of cs c]) (auto simp: content_def)
  qed
qed

lemma write_chunk_spec:
  assumes "rb_inv rb" and "\<not> rb_closed rb" and "rb_currentSize rb < rb_maxSize rb" and "remaining \<noteq> []"
    and "rb1 = current_block junk rb"
  shows "rb_writeOff rb1 < length (last (rb_buffers rb1))"
    and "fst (write_chunk remaining rb1) \<le> length remaining"
    and "content (snd (write_chunk remaining rb1)) = content rb @ take (fst (write_chunk remaining rb1)) remaining"
    and "rb_inv (snd (write_chunk remaining rb1))"
    and "\<not> rb_closed (snd (write_chunk remaining rb1))"
    and "rb_writeClosed (snd (write_chunk remaining rb1)) = rb_writeClosed rb"
    and "rb_maxSize (snd (write_chunk remaining rb1)) = rb_maxSize rb"
proof -
  obtain bs b where b: "rb_buffers rb1 = bs @ [b]" "length b = buf_cap" "\<forall>c \<in> set bs. length c = buf_cap"
    "rb_writeOff rb1 < buf_cap" "content rb = drop (rb_readOff rb) (concat bs @ take (rb_writeOff rb1) b)"
    "rb_readOff rb \<le> length (concat bs @ take (rb_writeOff rb1) b)"
    "bs = [] \<Longrightarrow> rb_readOff rb = 0 \<or> rb_readOff rb < rb_writeOff rb1" "rb_readOff rb < buf_cap"
    using current_block_spec [OF assms(1), of junk] unfolding assms(5) [symmetric] by metis
  have frame: "rb_readOff rb1 = rb_readOff rb" "rb_currentSize rb1 = rb_currentSize rb"
    "rb_maxSize rb1 = rb_maxSize rb" "rb_closed rb1 = rb_closed rb" "rb_writeClosed rb1 = rb_writeClosed rb"
    by (simp_all add: assms(5) current_block_def)
  show "rb_writeOff rb1 < length (last (rb_buffers rb1))" using b by simp
  define k where "k = min (length remaining) (buf_cap - rb_writeOff rb1)"
  define d where "d = take k remaining"
  have k: "0 < k" "k \<le> length remaining" "rb_writeOff rb1 + k \<le> buf_cap" "length d = k"
    using assms(4) b(4) by (auto simp: k_def d_def)
  define b' where "b' = copy_at (rb_writeOff rb1) d b"
  define rb2 where "rb2 = rb1\<lparr>rb_buffers := bs @ [b'], rb_writeOff := rb_writeOff rb1 + k,
    rb_currentSize := rb_currentSize rb1 + int k\<rparr>"
  have eq: "write_chunk remaining rb1 = (k, rb2)"
    by (simp add: write_chunk_def Let_def b(1,2) k_def [symmetric] d_def [symmetric] b'_def rb2_def)
  have b': "length b' = buf_cap" "take (rb_writeOff rb1 + k) b' = take (rb_writeOff rb1) b @ d"
    using k b(2,4) copy_at_take [of "rb_writeOff rb1" b d] by (simp_all add: b'_def copy_at_length)
  have content2: "content rb2 = content rb @ d"
    using b(5,6) b' by (simp add: content_def rb2_def frame)
  have "rb_inv rb2"
    unfolding rb_inv_def content2
    using b b' k assms(2,3) rb_invD(8) [OF assms(1)] by (auto simp: rb2_def frame)
  then show "fst (write_chunk remaining rb1) \<le> length remaining"
    "content (snd (write_chunk remaining rb1)) = content rb @ take (fst (write_chunk remaining rb1)) remaining"
    "rb_inv (snd (write_chunk remaining rb1))" "\<not> rb_closed (snd (write_chunk remaining rb1))"
    "rb_writeClosed (snd (write_chunk remaining rb1)) = rb_writeClosed rb"
    "rb_maxSize (snd (write_chunk remaining rb1)) = rb_maxSize rb"
    using k(2) content2 assms(2) by (simp_all add: eq d_def) (simp_all add: rb2_def frame)
qed

text \<open>\<open>Write\<close> never slices out of range, appends what it reports written, writes everything on an open
  queue with room, and leaves the flags alone.\<close>

lemma rb_Write_spec:
  assumes "rb_inv rb"
  shows "case rb_Write junk p rb of (n, res, rb') \<Rightarrow>
     rb_inv rb' \<and> n \<le> length p \<and> content rb' = content rb @ take n p \<and>
     rb_closed rb' = rb_closed rb \<and> rb_writeClosed rb' = rb_writeClosed rb \<and> rb_maxSize rb' = rb_maxSize rb \<and>
     (case res of WroteAll \<Rightarrow> n = length p
      | WriteClosed \<Rightarrow> n = 0 \<and> (rb_closed rb \<or> rb_writeClosed rb)
      | WriteBlocked \<Rightarrow> n < length p \<and> rb_maxSize rb \<le> rb_currentSize rb' \<and> \<not> rb_closed rb \<and> \<not> rb_writeClosed rb
      | WritePanic \<Rightarrow> False)"
  using assms
proof (induction junk p rb rule: rb_Write.induct)
  case (1 junk remaining rb)
  consider "remaining = []" | "remaining \<noteq> []" "rb_closed rb \<or> rb_writeClosed rb"
    | "remaining \<noteq> []" "\<not> rb_closed rb" "\<not> rb_writeClosed rb" "rb_maxSize rb \<le> rb_currentSize rb"
    | "remaining \<noteq> []" "\<not> rb_closed rb" "\<not> rb_writeClosed rb" "rb_currentSize rb < rb_maxSize rb"
    by linarith
  then show ?case
  proof cases
    case 4
    note chunk = write_chunk_spec [OF 1(2) 4(2,4,1) refl, of junk]
    obtain k rb2 where eq: "write_chunk remaining (current_block junk rb) = (k, rb2)" by (meson surj_pair)
    note chunk' = chunk [unfolded eq fst_conv snd_conv]
    obtain n res rb3 where rec: "rb_Write junk (drop k remaining) rb2 = (n, res, rb3)" by (metis prod_cases3)
    have step: "rb_Write junk remaining rb = (k + n, res, rb3)"
      using 4 chunk'(1) by (subst rb_Write.simps) (simp add: Let_def eq rec)
    have IH: "case rb_Write junk (drop k remaining) rb2 of (n, res, rb') \<Rightarrow>
     rb_inv rb' \<and> n \<le> length (drop k remaining) \<and> content rb' = content rb2 @ take n (drop k remaining) \<and>
     rb_closed rb' = rb_closed rb2 \<and> rb_writeClosed rb' = rb_writeClosed rb2 \<and> rb_maxSize rb' = rb_maxSize rb2 \<and>
     (case res of WroteAll \<Rightarrow> n = length (drop k remaining)
      | WriteClosed \<Rightarrow> n = 0 \<and> (rb_closed rb2 \<or> rb_writeClosed rb2)
      | WriteBlocked \<Rightarrow> n < length (drop k remaining) \<and> rb_maxSize rb2 \<le> rb_currentSize rb' \<and>
          \<not> rb_closed rb2 \<and> \<not> rb_writeClosed rb2
      | WritePanic \<Rightarrow> False)"
      by (rule 1(1) [OF _ _ _ _ refl _ eq [symmetric] refl]) (use 4 chunk' in auto)
    have "take (k + n) remaining = take k remaining @ take n (drop k remaining)" by (rule take_add)
    then show ?thesis
      using IH chunk' 4 unfolding rec step prod.case by (cases res) auto
  qed (use 1(2) in \<open>auto simp: rb_Write.simps\<close>)
qed

subsection \<open>Reading takes from the front\<close>

lemma content_Cons:
  "rb_buffers rb = b # c # cs \<Longrightarrow> rb_readOff rb \<le> length b \<Longrightarrow>
     content rb = drop (rb_readOff rb) b @ concat (butlast (c # cs)) @ take (rb_writeOff rb) (last (c # cs))"
  by (simp add: content_def)

lemma content_single: "rb_buffers rb = [b] \<Longrightarrow> content rb = drop (rb_readOff rb) (take (rb_writeOff rb) b)"
  by (simp add: content_def)

lemma drop_block_frame [simp]:
  "rb_closed (drop_block rb) = rb_closed rb" "rb_writeClosed (drop_block rb) = rb_writeClosed rb"
  "rb_maxSize (drop_block rb) = rb_maxSize rb"
  by (simp_all add: drop_block_def Let_def)

lemma rb_Read_data:
  assumes "rb_inv rb" and "0 < plen" and "content rb \<noteq> []"
  shows "\<exists>d rb'. rb_Read plen rb = (ReadData d, rb') \<and> rb_inv rb' \<and> d \<noteq> [] \<and> length d \<le> plen \<and>
    content rb = d @ content rb' \<and> rb_closed rb' = rb_closed rb \<and> rb_writeClosed rb' = rb_writeClosed rb \<and>
    rb_maxSize rb' = rb_maxSize rb"
proof -
  have ne: "rb_buffers rb \<noteq> []" and opened: "\<not> rb_closed rb"
    using assms(1,3) content_empty_iff rb_invD(9) by auto
  have pos: "\<not> rb_currentSize rb \<le> 0" using rb_invD(8) [OF assms(1)] assms(3) by simp
  define r where "r = rb_readOff rb"
  define w where "w = rb_writeOff rb"
  define k where "k = min plen (read_avail rb)"
  define rb1 where "rb1 = rb\<lparr>rb_readOff := r + k, rb_currentSize := rb_currentSize rb - int k\<rparr>"
  note size = rb_invD(8,10) [OF assms(1)]
  have r: "r < buf_cap" "w \<le> buf_cap" "0 < w" using rb_invD(2,3,4) [OF assms(1)] ne by (simp_all add: r_def w_def)
  have eq: "rb_Read plen rb = (ReadData (take k (drop r (hd (rb_buffers rb)))), if buffer_done rb1 then drop_block rb1 else rb1)"
    by (simp add: rb_Read_def pos ne Let_def k_def [symmetric] r_def [symmetric] rb1_def)
  define rb' where "rb' = (if buffer_done rb1 then drop_block rb1 else rb1)"
  have frame: "rb_closed rb' = rb_closed rb" "rb_writeClosed rb' = rb_writeClosed rb" "rb_maxSize rb' = rb_maxSize rb"
    by (simp_all add: rb'_def) (simp_all add: rb1_def)
  show ?thesis
  proof (cases "tl (rb_buffers rb)")
    case Nil
    then obtain b where b: "rb_buffers rb = [b]" using ne by (cases "rb_buffers rb") auto
    have len: "length b = buf_cap" using rb_invD(1) [OF assms(1)] b by simp
    have rw: "r < w" using rb_invD(5) [OF assms(1)] b by (simp add: r_def w_def)
    have k: "0 < k" "r + k \<le> w" using assms(2) rw b by (auto simp: k_def read_avail_def r_def w_def)
    have c0: "content rb = take (w - r) (drop r b)" by (simp add: content_single [OF b] r_def w_def drop_take)
    also have "\<dots> = take k (drop r b) @ take (w - (r + k)) (drop (r + k) b)"
      using k take_add [of k "w - (r + k)" "drop r b"] by (simp add: add.commute)
    finally have split: "content rb = take k (drop r b) @ take (w - (r + k)) (drop (r + k) b)" .
    have c1: "content rb1 = take (w - (r + k)) (drop (r + k) b)"
      by (simp add: content_def rb1_def b w_def drop_take)
    have drained: "buffer_done rb1 \<longleftrightarrow> r + k = w" by (simp add: buffer_done_def rb1_def b w_def)
    have inv: "rb_inv (if buffer_done rb1 then drop_block rb1 else rb1)" and
      cont: "content (if buffer_done rb1 then drop_block rb1 else rb1) = take (w - (r + k)) (drop (r + k) b)"
    proof -
      have "length (take k (drop r b)) = k" using k r(2) len by simp
      then have "length (content rb) = k + length (content rb1)" by (simp only: split c1 length_append)
      moreover have "rb_currentSize rb1 = rb_currentSize rb - int k" by (simp add: rb1_def)
      ultimately have sz: "rb_currentSize rb1 = int (length (content rb1))" using size(1) by simp
      show "content (if buffer_done rb1 then drop_block rb1 else rb1) = take (w - (r + k)) (drop (r + k) b)"
        unfolding drained using c1 by (auto simp: drop_block_def rb1_def b)
      show "rb_inv (if buffer_done rb1 then drop_block rb1 else rb1)"
        unfolding drained using sz c1 k r len opened size(2)
        by (auto simp: rb_inv_def drop_block_def rb1_def b w_def [symmetric])
    qed
    have "take k (drop r b) \<noteq> []" using k r(1) len rw by auto
    moreover have "length (take k (drop r b)) \<le> plen" by (simp add: k_def)
    ultimately show ?thesis
      using inv cont split frame unfolding eq b list.sel rb'_def [symmetric] by auto
  next
    case (Cons c cs)
    then obtain b where b: "rb_buffers rb = b # c # cs" using ne by (cases "rb_buffers rb") auto
    have len: "length b = buf_cap" "\<forall>x \<in> set (c # cs). length x = buf_cap" using rb_invD(1) [OF assms(1)] b by simp_all
    define rest where "rest = concat (butlast (c # cs)) @ take w (last (c # cs))"
    have k: "0 < k" "r + k \<le> buf_cap" using assms(2) r(1) b len by (auto simp: k_def read_avail_def r_def)
    have c0: "content rb = drop r b @ rest"
      using content_Cons [OF b] r(1) len by (simp add: rest_def r_def w_def)
    have db: "drop r b = take k (drop r b) @ drop (r + k) b" by (metis append_take_drop_id drop_drop add.commute)
    have c1: "content rb1 = drop (r + k) b @ rest"
      using content_Cons [of rb1 b c cs] k len by (simp add: rb1_def b rest_def w_def)
    have drained: "buffer_done rb1 \<longleftrightarrow> r + k = buf_cap" using len by (simp add: buffer_done_def rb1_def b)
    have cont: "content (if buffer_done rb1 then drop_block rb1 else rb1) = drop (r + k) b @ rest"
      unfolding drained using c1 len by (auto simp: drop_block_def rb1_def b content_def rest_def w_def)
    have sz: "rb_currentSize rb - int k = int (length (drop (r + k) b @ rest))"
      using size(1) c0 k len r(1) by simp
    have "rb_inv (if buffer_done rb1 then drop_block rb1 else rb1)"
      unfolding rb_inv_def cont unfolding drained
      using sz k r len opened size(2) by (auto simp: drop_block_def rb1_def b w_def [symmetric])
    moreover have "take k (drop r b) \<noteq> []" using k r(1) len by auto
    moreover have "length (take k (drop r b)) \<le> plen" by (simp add: k_def)
    ultimately show ?thesis
      using cont c0 db frame unfolding eq b list.sel rb'_def [symmetric] by (metis append_assoc)
  qed
qed

lemma rb_Read_spec:
  assumes "rb_inv rb" and "0 < plen"
  shows "case rb_Read plen rb of (res, rb') \<Rightarrow>
     rb_inv rb' \<and> rb_closed rb' = rb_closed rb \<and> rb_writeClosed rb' = rb_writeClosed rb \<and>
     rb_maxSize rb' = rb_maxSize rb \<and>
     (case res of ReadData d \<Rightarrow> d \<noteq> [] \<and> length d \<le> plen \<and> content rb = d @ content rb'
      | ReadClosed \<Rightarrow> content rb = [] \<and> rb_closed rb \<and> rb' = rb
      | ReadEOF \<Rightarrow> content rb = [] \<and> rb_writeClosed rb \<and> \<not> rb_closed rb \<and> rb' = rb
      | ReadBlocked \<Rightarrow> content rb = [] \<and> \<not> rb_writeClosed rb \<and> \<not> rb_closed rb \<and> rb' = rb
      | ReadPanic \<Rightarrow> False)"
proof (cases "content rb = []")
  case True
  then have "rb_currentSize rb \<le> 0" using rb_invD(8) [OF assms(1)] by simp
  with True assms(1) show ?thesis by (auto simp: rb_Read_def)
next
  case False
  with rb_Read_data [OF assms(1,2) False] show ?thesis by auto
qed

subsection \<open>The abstract queue\<close>

text \<open>
  What a copy loop relies on: a queue of bytes whose writes append, up to the number they report, and
  whose reads take from the front; nothing is read from an open queue that was not written, and a
  queue can be closed for writing or altogether.
\<close>

locale byte_fifo =
  fixes inv :: "'q \<Rightarrow> bool"
    and cont :: "'q \<Rightarrow> string"
    and enq :: "(nat \<Rightarrow> char) \<Rightarrow> string \<Rightarrow> 'q \<Rightarrow> nat \<times> write_result \<times> 'q"
    and deq :: "nat \<Rightarrow> 'q \<Rightarrow> take_result \<times> 'q"
    and close_write :: "'q \<Rightarrow> 'q"
    and close :: "'q \<Rightarrow> 'q"
    and flush :: "'q \<Rightarrow> 'q"
  assumes write_law: "inv q \<Longrightarrow> enq junk p q = (n, res, q') \<Longrightarrow>
      inv q' \<and> cont q' = cont q @ take n p \<and> n \<le> length p \<and> (res = WroteAll \<longrightarrow> n = length p) \<and> res \<noteq> WritePanic"
    and read_law: "inv q \<Longrightarrow> deq k q = (got, q') \<Longrightarrow>
      inv q' \<and> got \<noteq> ReadPanic \<and>
      (\<forall>d. got = ReadData d \<longrightarrow> (0 < k \<longrightarrow> d \<noteq> []) \<and> length d \<le> k \<and> cont q = d @ cont q') \<and>
      ((\<nexists>d. got = ReadData d) \<longrightarrow> cont q = [] \<and> q' = q)"
    and close_write_law: "inv q \<Longrightarrow> inv (close_write q) \<and> cont (close_write q) = cont q"
    and close_law: "inv q \<Longrightarrow> inv (close q) \<and> cont (close q) = []"
    and flush_law: "inv q \<Longrightarrow> inv (flush q) \<and> cont (flush q) = []"

datatype fifo_op = FWrite "nat \<Rightarrow> char" string | FRead nat | FCloseWrite | FClose | FFlush

fun drops :: "fifo_op \<Rightarrow> bool" where
  "drops FClose = True"
| "drops FFlush = True"
| "drops _ = False"

text \<open>A run of calls, with all bytes accepted and the account of where they went: \<open>(True, d)\<close> for what a read returned,
  \<open>(False, d)\<close> for what was in the queue when it was flushed or closed.\<close>

fun fifo_do ::
    "('q \<Rightarrow> string) \<Rightarrow> ((nat \<Rightarrow> char) \<Rightarrow> string \<Rightarrow> 'q \<Rightarrow> nat \<times> write_result \<times> 'q) \<Rightarrow> (nat \<Rightarrow> 'q \<Rightarrow> take_result \<times> 'q) \<Rightarrow>
      ('q \<Rightarrow> 'q) \<Rightarrow> ('q \<Rightarrow> 'q) \<Rightarrow> ('q \<Rightarrow> 'q) \<Rightarrow> fifo_op \<Rightarrow>
      'q \<times> string \<times> (bool \<times> string) list \<Rightarrow> 'q \<times> string \<times> (bool \<times> string) list" where
  "fifo_do cont enq deq close_write close flush (FWrite junk p) (q, w, out) =
     (case enq junk p q of (n, res, q') \<Rightarrow> (q', w @ take n p, out))"
| "fifo_do cont enq deq close_write close flush (FRead k) (q, w, out) =
     (case deq k q of (res, q') \<Rightarrow> (q', w, out @ (case res of ReadData d \<Rightarrow> [(True, d)] | _ \<Rightarrow> [])))"
| "fifo_do cont enq deq close_write close flush FCloseWrite (q, w, out) = (close_write q, w, out)"
| "fifo_do cont enq deq close_write close flush FClose (q, w, out) = (close q, w, out @ [(False, cont q)])"
| "fifo_do cont enq deq close_write close flush FFlush (q, w, out) = (flush q, w, out @ [(False, cont q)])"

abbreviation losses :: "(bool \<times> string) list \<Rightarrow> nat" where
  "losses out \<equiv> length (filter (\<lambda>e. \<not> fst e) out)"

definition fifo_ok :: "('q \<Rightarrow> bool) \<Rightarrow> ('q \<Rightarrow> string) \<Rightarrow> 'q \<times> string \<times> (bool \<times> string) list \<Rightarrow> bool" where
  "fifo_ok good cont S = (case S of (q, w, out) \<Rightarrow> good q \<and> w = concat (map snd out) @ cont q)"

context byte_fifo
begin

lemma fifo_do_ok:
  assumes "fifo_ok inv cont S"
  shows "fifo_ok inv cont (fifo_do cont enq deq close_write close flush op S) \<and>
    losses (snd (snd (fifo_do cont enq deq close_write close flush op S))) = losses (snd (snd S)) + (if drops op then 1 else 0)"
proof -
  obtain q w out where S: "S = (q, w, out)" by (metis prod_cases3)
  have q: "inv q" "w = concat (map snd out) @ cont q" using assms by (simp_all add: fifo_ok_def S)
  show ?thesis
  proof (cases op)
    case (FWrite junk p)
    obtain n res q' where e: "enq junk p q = (n, res, q')" by (metis prod_cases3)
    from write_law [OF q(1) e] q e show ?thesis by (simp add: FWrite S fifo_ok_def)
  next
    case (FRead k)
    obtain res q' where e: "deq k q = (res, q')" by fastforce
    from read_law [OF q(1) e] q show ?thesis by (cases res) (simp_all add: FRead S fifo_ok_def e)
  qed (use close_write_law [OF q(1)] close_law [OF q(1)] flush_law [OF q(1)] q in \<open>simp_all add: S fifo_ok_def\<close>)
qed

lemma fifo_run_ok:
  "fifo_ok inv cont S \<Longrightarrow> fifo_ok inv cont (fold (fifo_do cont enq deq close_write close flush) ops S) \<and>
   losses (snd (snd (fold (fifo_do cont enq deq close_write close flush) ops S))) = losses (snd (snd S)) + length (filter drops ops)"
  by (induction ops arbitrary: S) (simp_all add: fifo_do_ok)

end

lemma rb_CloseWrite_spec:
  "rb_inv rb \<Longrightarrow> rb_inv (rb_CloseWrite rb) \<and> content (rb_CloseWrite rb) = content rb \<and>
     rb_closed (rb_CloseWrite rb) = rb_closed rb"
  by (simp add: rb_inv_def rb_CloseWrite_def content_def)

lemma cleanup_spec:
  "rb_inv rb \<Longrightarrow> rb_inv (cleanup rb) \<and> content (cleanup rb) = [] \<and> rb_closed (cleanup rb) = rb_closed rb"
  by (simp add: rb_inv_def cleanup_def content_def)

lemma rb_Close_spec: "rb_inv rb \<Longrightarrow> rb_inv (rb_Close rb) \<and> rb_closed (rb_Close rb) \<and> content (rb_Close rb) = []"
  by (auto simp: rb_Close_def rb_inv_def cleanup_def content_def)

text \<open>A read into no space takes nothing.\<close>

lemma rb_Read_zero:
  assumes "rb_inv rb" and "content rb \<noteq> []"
  shows "rb_Read 0 rb = (ReadData [], rb)"
proof -
  have ne: "rb_buffers rb \<noteq> []" and size: "\<not> rb_currentSize rb \<le> 0"
    using assms content_empty_iff rb_invD(8) [OF assms(1)] by auto
  have "\<not> buffer_done rb"
    using rb_invD(1) [OF assms(1), of "hd (rb_buffers rb)"] rb_invD(2,5) [OF assms(1)] ne
    by (auto simp: buffer_done_def)
  then show ?thesis using ne size by (simp add: rb_Read_def)
qed

interpretation rbq: byte_fifo rb_inv content rb_Write rb_Read rb_CloseWrite rb_Close rb_Flush
proof
  fix q junk p n res q'
  assume q: "rb_inv q" "rb_Write junk p q = (n, res, q')"
  from rb_Write_spec [OF q(1), of p junk] show "rb_inv q' \<and> content q' = content q @ take n p \<and>
      n \<le> length p \<and> (res = WroteAll \<longrightarrow> n = length p) \<and> res \<noteq> WritePanic"
    unfolding q(2) by (cases res) auto
next
  fix q k res q'
  assume q: "rb_inv q" "rb_Read k q = (res, q')"
  show "rb_inv q' \<and> res \<noteq> ReadPanic \<and>
      (\<forall>d. res = ReadData d \<longrightarrow> (0 < k \<longrightarrow> d \<noteq> []) \<and> length d \<le> k \<and> content q = d @ content q') \<and>
      ((\<nexists>d. res = ReadData d) \<longrightarrow> content q = [] \<and> q' = q)"
  proof (cases "k = 0 \<and> content q \<noteq> []")
    case True
    then show ?thesis using rb_Read_zero [OF q(1)] q by auto
  next
    case False
    then consider "0 < k" | "content q = []" by blast
    then show ?thesis
    proof cases
      case 1
      from rb_Read_spec [OF q(1) 1] show ?thesis unfolding q(2) by (cases res) auto
    next
      case 2
      then have "rb_currentSize q \<le> 0" using rb_invD(8) [OF q(1)] by simp
      then show ?thesis using q 2 by (auto simp: rb_Read_def split: if_splits)
    qed
  qed
qed (simp_all add: rb_CloseWrite_spec rb_Close_spec cleanup_spec rb_Flush_def)

lemma no_panic:
  assumes "rb_inv rb"
  shows "fst (snd (rb_Write junk p rb)) \<noteq> WritePanic" "fst (rb_Read k rb) \<noteq> ReadPanic"
  using rbq.write_law [OF assms, where junk = junk and p = p] rbq.read_law [OF assms, where k = k]
  by (metis prod.collapse)+

text \<open>
  C5. The ring buffer is a bounded queue. In any run of its methods from a new buffer, in any order and with
  any sizes (writes, blocked ones included, reads, also into no space, either kind of closing, flushes), the bytes accepted
  are, in their order, those that reads have returned and those that were in the buffer at a flush
  or a closing, followed by those still in it: nothing is lost, repeated or reordered in any other
  way, and as many pieces are lost as there were flushes and closings. The size counter is the number of bytes
  held, that number never exceeds the configured maximum by a block or more, and no slice is ever out of range.
\<close>

theorem ring_buffer_fifo:
  "case fold (fifo_do content rb_Write rb_Read rb_CloseWrite rb_Close rb_Flush) ops (NewRingBuffer m, [], []) of (rb, accepted, out) \<Rightarrow>
     accepted = concat (map snd out) @ content rb \<and>
     length (filter (\<lambda>e. \<not> fst e) out) = length (filter drops ops) \<and>
     rb_currentSize rb = int (length (content rb)) \<and>
     rb_currentSize rb \<le> max 0 (rb_maxSize rb - 1 + int buf_cap) \<and>
     (\<forall>junk p. fst (snd (rb_Write junk p rb)) \<noteq> WritePanic) \<and> (\<forall>k. fst (rb_Read k rb) \<noteq> ReadPanic)"
proof -
  obtain rb w out where S: "fold (fifo_do content rb_Write rb_Read rb_CloseWrite rb_Close rb_Flush) ops (NewRingBuffer m, [], []) = (rb, w, out)"
    by (metis prod_cases3)
  have "fifo_ok rb_inv content (NewRingBuffer m, [], [])"
    by (simp add: fifo_ok_def rb_inv_New) (simp add: NewRingBuffer_def)
  from rbq.fifo_run_ok [OF this, of ops, unfolded S] have ok: "rb_inv rb" "w = concat (map snd out) @ content rb"
    "losses out = length (filter drops ops)"
    by (simp_all add: fifo_ok_def)
  then show ?thesis using rb_invD(8,10) [OF ok(1)] no_panic [OF ok(1)] by (simp add: S)
qed

subsection \<open>A buffer without room\<close>

text \<open>A capacity that is not positive, as a configuration without the option gives, blocks the first byte and all after it.\<close>

lemma no_room_blocks: "m \<le> 0 \<Longrightarrow> rb_Write junk (c # cs) (NewRingBuffer m) = (0, WriteBlocked, NewRingBuffer m)"
  by (simp add: rb_Write.simps NewRingBuffer_def)

end
