(* ===== verification/PipeV1.thy ===== *)
theory PipeV1
  imports RingBuffer Session
begin

section \<open>Relay sessions of the first version (v1/relay/pipe.go)\<close>

text \<open>
  A \<open>PipeSession\<close> copies both ways between a front end and a back end through one ring buffer per
  direction, so four goroutines share it: for each direction one that reads the source into the
  buffer and one that drains the buffer into the destination. Each is cut into its atomic steps. So
  is \<open>Stop\<close>: its first caller decides whether to keep the back end and closes the connections, then
  flushes and closes the two buffers one call after the other, and the others may run in between;
  who calls \<open>Stop\<close> waits until this is over. The results of reads and writes on connections are
  arguments of the steps.
\<close>

subsection \<open>Data\<close>

text \<open>Where the reading goroutine is: before its read, with bytes still to be put into the buffer and the
  error its read returned, out of the loop (and whether through \<open>Stop\<close>), returned.\<close>

datatype rd_pc = RTop | RPut string "io_error option" | RExit bool | RGone

datatype dr_pc = DTop | DOut string | DExit bool | DGone

text \<open>One direction: buffer, counters, goroutines; the last two fields record the bytes that were read
  from the source and that reached the destination.\<close>

record flow =
  fl_rb :: RingBuffer
  fl_ingress :: int
  fl_egress :: int
  fl_rd :: rd_pc
  fl_dr :: dr_pc
  fl_src :: string
  fl_dst :: string

datatype stop_action = FlushQ dir | CloseWriteQ dir | CloseQ dir

record PipeSession =
  pp_ConnFE :: conn
  pp_ConnBE :: conn
  pp_up :: flow
  pp_down :: flow
  pp_once :: bool
  pp_cause :: "(dir \<times> string \<times> io_error) option"
  pp_keepBE :: bool
  pp_stopping :: bool
  pp_todo :: "stop_action list"

fun flow_of :: "dir \<Rightarrow> PipeSession \<Rightarrow> flow" where
  "flow_of FEtoBE s = pp_up s"
| "flow_of BEtoFE s = pp_down s"

fun set_flow :: "dir \<Rightarrow> flow \<Rightarrow> PipeSession \<Rightarrow> PipeSession" where
  "set_flow FEtoBE f s = s\<lparr>pp_up := f\<rparr>"
| "set_flow BEtoFE f s = s\<lparr>pp_down := f\<rparr>"

definition new_flow :: "int \<Rightarrow> flow" where
  "new_flow maxSize =
     \<lparr>fl_rb = NewRingBuffer maxSize, fl_ingress = 0, fl_egress = 0, fl_rd = RTop, fl_dr = DTop, fl_src = [], fl_dst = []\<rparr>"

definition NewPipeSession :: "int \<Rightarrow> conn \<Rightarrow> conn \<Rightarrow> PipeSession" where
  "NewPipeSession maxSize fe be =
     \<lparr>pp_ConnFE = fe, pp_ConnBE = be, pp_up = new_flow maxSize, pp_down = new_flow maxSize, pp_once = False,
      pp_cause = None, pp_keepBE = False, pp_stopping = False, pp_todo = []\<rparr>"

subsection \<open>Why a session ended\<close>

fun str_contains :: "string \<Rightarrow> string \<Rightarrow> bool" where
  "str_contains [] sub = (sub = [])"
| "str_contains (c # s) sub = (has_prefix (c # s) sub \<or> str_contains s sub)"

fun isLikelyFEClosed :: "io_error \<Rightarrow> bool" where
  "isLikelyFEClosed IoEOF = True"
| "isLikelyFEClosed IoClosed = True"
| "isLikelyFEClosed IoTimeout = False"
| "isLikelyFEClosed (IoOther e) =
     (let s = map ascii_lower (error_text e)
      in str_contains s ''broken pipe'' \<or> str_contains s ''connection reset by peer'' \<or>
         str_contains s ''use of closed network connection'')"

definition shouldKeepBE :: "PipeSession \<Rightarrow> bool" where
  "shouldKeepBE s =
     (case pp_cause s of
        None \<Rightarrow> False
      | Some (d, op, err) \<Rightarrow>
          (case d of FEtoBE \<Rightarrow> op = ''read'' \<and> isLikelyFEClosed err
           | BEtoFE \<Rightarrow> op = ''write'' \<and> isLikelyFEClosed err))"

definition recordCause :: "dir \<Rightarrow> string \<Rightarrow> io_error \<Rightarrow> PipeSession \<Rightarrow> PipeSession" where
  "recordCause d op err s = (if pp_cause s = None then s\<lparr>pp_cause := Some (d, op, err)\<rparr> else s)"

definition KeptBE :: "PipeSession \<Rightarrow> bool" where
  "KeptBE s = pp_keepBE s"

definition GetCounters :: "PipeSession \<Rightarrow> int \<times> int \<times> int \<times> int" where
  "GetCounters s =
     (fl_ingress (pp_up s), fl_egress (pp_down s), fl_ingress (pp_down s), fl_egress (pp_up s))"

subsection \<open>Stopping\<close>

definition pp_Stop :: "PipeSession \<Rightarrow> PipeSession \<times> effect list" where
  "pp_Stop s =
     (if pp_once s then (s, [])
      else (let keep = shouldKeepBE s
            in (s\<lparr>pp_once := True, pp_stopping := True, pp_keepBE := keep,
                  pp_todo := [FlushQ FEtoBE, FlushQ BEtoFE, CloseWriteQ FEtoBE, CloseWriteQ BEtoFE,
                              CloseQ FEtoBE, CloseQ BEtoFE]\<rparr>,
                [SetDeadlineNow (pp_ConnFE s), SetDeadlineNow (pp_ConnBE s), CloseConn (pp_ConnFE s)] @
                (if keep then [] else [CloseConn (pp_ConnBE s)]))))"

definition map_rb :: "dir \<Rightarrow> (RingBuffer \<Rightarrow> RingBuffer) \<Rightarrow> PipeSession \<Rightarrow> PipeSession" where
  "map_rb d f s = set_flow d ((flow_of d s)\<lparr>fl_rb := f (fl_rb (flow_of d s))\<rparr>) s"

fun stop_do :: "stop_action \<Rightarrow> PipeSession \<Rightarrow> PipeSession" where
  "stop_do (FlushQ d) s = map_rb d rb_Flush s"
| "stop_do (CloseWriteQ d) s = map_rb d rb_CloseWrite s"
| "stop_do (CloseQ d) s = map_rb d rb_Close s"

definition stop_next :: "PipeSession \<Rightarrow> PipeSession" where
  "stop_next s = (case pp_todo s of [] \<Rightarrow> s | a # as \<Rightarrow> stop_do a (s\<lparr>pp_todo := as\<rparr>))"

subsection \<open>The copy loops\<close>

definition goto_rd :: "dir \<Rightarrow> rd_pc \<Rightarrow> PipeSession \<Rightarrow> PipeSession" where
  "goto_rd d pc s = set_flow d ((flow_of d s)\<lparr>fl_rd := pc\<rparr>) s"

definition goto_dr :: "dir \<Rightarrow> dr_pc \<Rightarrow> PipeSession \<Rightarrow> PipeSession" where
  "goto_dr d pc s = set_flow d ((flow_of d s)\<lparr>fl_dr := pc\<rparr>) s"

definition rd_stop :: "dir \<Rightarrow> PipeSession \<Rightarrow> PipeSession \<times> effect list" where
  "rd_stop d s = (let (s', es) = pp_Stop s in (goto_rd d (RExit True) s', es))"

definition dr_stop :: "dir \<Rightarrow> PipeSession \<Rightarrow> PipeSession \<times> effect list" where
  "dr_stop d s = (let (s', es) = pp_Stop s in (goto_dr d (DExit True) s', es))"

text \<open>The end of an iteration of the reading loop, by the error of its read.\<close>

definition after_read :: "dir \<Rightarrow> io_error option \<Rightarrow> PipeSession \<Rightarrow> PipeSession \<times> effect list" where
  "after_read d err s =
     (case err of
        None \<Rightarrow> (goto_rd d (if pp_stopping s then RExit False else RTop) s, [])
      | Some IoTimeout \<Rightarrow> (goto_rd d (if pp_stopping s then RExit False else RTop) s, [])
      | Some e \<Rightarrow> rd_stop d (recordCause d ''read'' e s))"

definition rd_read :: "string \<Rightarrow> io_error option \<Rightarrow> dir \<Rightarrow> PipeSession \<Rightarrow> PipeSession \<times> effect list" where
  "rd_read data err d s =
     (if length data > 0
      then (let f = flow_of d s
            in (set_flow d (f\<lparr>fl_ingress := fl_ingress f + int (length data), fl_src := fl_src f @ data,
                              fl_rd := RPut data err\<rparr>) s, []))
      else after_read d err s)"

definition rd_put :: "(nat \<Rightarrow> char) \<Rightarrow> string \<Rightarrow> io_error option \<Rightarrow> dir \<Rightarrow> PipeSession \<Rightarrow> PipeSession \<times> effect list" where
  "rd_put junk p err d s =
     (let f = flow_of d s; (n, res, rb) = rb_Write junk p (fl_rb f); s1 = set_flow d (f\<lparr>fl_rb := rb\<rparr>) s
      in case res of
           WroteAll \<Rightarrow> after_read d err s1
         | WriteClosed \<Rightarrow> rd_stop d s1
         | WriteBlocked \<Rightarrow> (goto_rd d (RPut (drop n p) err) s1, [])
         | WritePanic \<Rightarrow> (goto_rd d RGone s1, []))"

text \<open>The deferred \<open>CloseWrite\<close> and \<open>Close\<close> when a goroutine returns.\<close>

definition rd_return :: "dir \<Rightarrow> PipeSession \<Rightarrow> PipeSession" where
  "rd_return d s = goto_rd d RGone (map_rb d rb_CloseWrite s)"

definition dr_return :: "dir \<Rightarrow> PipeSession \<Rightarrow> PipeSession" where
  "dr_return d s = goto_dr d DGone (map_rb d rb_Close s)"

definition dr_read :: "dir \<Rightarrow> PipeSession \<Rightarrow> PipeSession \<times> effect list" where
  "dr_read d s =
     (let f = flow_of d s; (res, rb) = rb_Read buf_cap (fl_rb f); s1 = set_flow d (f\<lparr>fl_rb := rb\<rparr>) s
      in case res of
           ReadData data \<Rightarrow> (goto_dr d (DOut data) s1, [])
         | ReadClosed \<Rightarrow> dr_stop d s1
         | ReadEOF \<Rightarrow> dr_stop d s1
         | ReadBlocked \<Rightarrow> (s1, [])
         | ReadPanic \<Rightarrow> (goto_dr d DGone s1, []))"

text \<open>\<open>k\<close> bytes reach the destination; without an error all of them do.\<close>

definition dr_write :: "nat \<Rightarrow> io_error option \<Rightarrow> string \<Rightarrow> dir \<Rightarrow> PipeSession \<Rightarrow> PipeSession \<times> effect list" where
  "dr_write k werr data d s =
     (let f = flow_of d s; s1 = set_flow d (f\<lparr>fl_dst := fl_dst f @ take k data\<rparr>) s
      in case werr of
           Some e \<Rightarrow> dr_stop d (recordCause d ''write'' e s1)
         | None \<Rightarrow> (let f1 = flow_of d s1
                   in (goto_dr d DTop (set_flow d (f1\<lparr>fl_egress := fl_egress f1 + int (length data)\<rparr>) s1), [])))"

inductive pp_step :: "PipeSession \<Rightarrow> PipeSession \<times> effect list \<Rightarrow> bool" where
  read: "fl_rd (flow_of d s) = RTop \<Longrightarrow> length data \<le> buf_cap \<Longrightarrow> pp_step s (rd_read data err d s)"
| put: "fl_rd (flow_of d s) = RPut p err \<Longrightarrow> pp_step s (rd_put junk p err d s)"
| read_return: "fl_rd (flow_of d s) = RExit w \<Longrightarrow> (w \<Longrightarrow> pp_todo s = []) \<Longrightarrow> pp_step s (rd_return d s, [])"
| drain: "fl_dr (flow_of d s) = DTop \<Longrightarrow> pp_step s (dr_read d s)"
| deliver: "fl_dr (flow_of d s) = DOut data \<Longrightarrow> k \<le> length data \<Longrightarrow> (werr = None \<Longrightarrow> k = length data) \<Longrightarrow>
    pp_step s (dr_write k werr data d s)"
| drain_return: "fl_dr (flow_of d s) = DExit w \<Longrightarrow> (w \<Longrightarrow> pp_todo s = []) \<Longrightarrow> pp_step s (dr_return d s, [])"
| stop: "pp_step s (pp_Stop s)"
| stop_more: "pp_step s (stop_next s, [])"

text \<open>The last goroutine of \<open>Start\<close> waits for both directions, stops the session and calls \<open>onStop\<close>.\<close>

definition pp_ended :: "PipeSession \<Rightarrow> bool" where
  "pp_ended s \<longleftrightarrow> (\<forall>d \<in> {FEtoBE, BEtoFE}. fl_rd (flow_of d s) = RGone \<and> fl_dr (flow_of d s) = DGone)"

subsection \<open>Runs\<close>

inductive pp_run :: "PipeSession \<Rightarrow> PipeSession \<Rightarrow> effect list \<Rightarrow> bool" for s0 where
  new: "pp_run s0 s0 []"
| more: "pp_run s0 s es \<Longrightarrow> pp_step s (s', fs) \<Longrightarrow> pp_run s0 s' (es @ fs)"

definition rd_hand :: "flow \<Rightarrow> string" where
  "rd_hand f = (case fl_rd f of RPut p err \<Rightarrow> p | _ \<Rightarrow> [])"

definition dr_hand :: "flow \<Rightarrow> string" where
  "dr_hand f = (case fl_dr f of DOut p \<Rightarrow> p | _ \<Rightarrow> [])"

text \<open>A direction of a session nobody has stopped: what was read from the source was delivered, or is in
  the hand of the draining goroutine, in the buffer or in the hand of the reading one, in this order.\<close>

definition flow_exact :: "flow \<Rightarrow> bool" where
  "flow_exact f \<longleftrightarrow>
     fl_src f = fl_dst f @ dr_hand f @ content (fl_rb f) @ rd_hand f \<and>
     fl_egress f = int (length (fl_dst f)) \<and> \<not> rb_closed (fl_rb f) \<and> \<not> rb_writeClosed (fl_rb f) \<and>
     (\<forall>w. fl_rd f \<noteq> RExit w) \<and> fl_rd f \<noteq> RGone \<and> (\<forall>w. fl_dr f \<noteq> DExit w) \<and> fl_dr f \<noteq> DGone"

definition flow_inv :: "bool \<Rightarrow> flow \<Rightarrow> bool" where
  "flow_inv stopped f \<longleftrightarrow>
     rb_inv (fl_rb f) \<and> fl_ingress f = int (length (fl_src f)) \<and> (\<not> stopped \<longrightarrow> flow_exact f)"

definition pp_inv :: "PipeSession \<Rightarrow> bool" where
  "pp_inv s \<longleftrightarrow>
     (\<forall>d. flow_inv (pp_once s) (flow_of d s)) \<and> pp_stopping s = pp_once s \<and>
     (\<not> pp_once s \<longrightarrow> pp_todo s = [] \<and> \<not> pp_keepBE s)"

definition pp_closes :: "PipeSession \<Rightarrow> effect list" where
  "pp_closes s =
     (if pp_once s
      then [SetDeadlineNow (pp_ConnFE s), SetDeadlineNow (pp_ConnBE s), CloseConn (pp_ConnFE s)] @
        (if pp_keepBE s then [] else [CloseConn (pp_ConnBE s)])
      else [])"

lemma flow_set_flow [simp]:
  "flow_of d (set_flow d f s) = f" "d' \<noteq> d \<Longrightarrow> flow_of d' (set_flow d f s) = flow_of d' s"
  "set_flow d f (set_flow d g s) = set_flow d f s"
  by (cases d; cases d'; simp)+

lemma set_flow_frame [simp]:
  "pp_once (set_flow d f s) = pp_once s" "pp_stopping (set_flow d f s) = pp_stopping s"
  "pp_keepBE (set_flow d f s) = pp_keepBE s" "pp_todo (set_flow d f s) = pp_todo s"
  "pp_cause (set_flow d f s) = pp_cause s" "pp_ConnFE (set_flow d f s) = pp_ConnFE s"
  "pp_ConnBE (set_flow d f s) = pp_ConnBE s"
  by (cases d; simp)+

lemma flow_todo [simp]: "flow_of d (s\<lparr>pp_todo := t\<rparr>) = flow_of d s"
  "flow_of d (s\<lparr>pp_cause := c\<rparr>) = flow_of d s"
  by (cases d; simp)+

lemma recordCause_frame [simp]:
  "flow_of d (recordCause d' op e s) = flow_of d s" "pp_once (recordCause d' op e s) = pp_once s"
  "pp_stopping (recordCause d' op e s) = pp_stopping s" "pp_todo (recordCause d' op e s) = pp_todo s"
  "pp_keepBE (recordCause d' op e s) = pp_keepBE s" "pp_ConnFE (recordCause d' op e s) = pp_ConnFE s"
  "pp_ConnBE (recordCause d' op e s) = pp_ConnBE s"
  by (simp_all add: recordCause_def)

lemma Stop_frame [simp]:
  "flow_of d (fst (pp_Stop s)) = flow_of d s" "pp_once (fst (pp_Stop s))"
  "pp_ConnFE (fst (pp_Stop s)) = pp_ConnFE s" "pp_ConnBE (fst (pp_Stop s)) = pp_ConnBE s"
  by (cases d; simp add: pp_Stop_def Let_def)+

text \<open>What one step does, but for the flows: the flag is set once, with the closings.\<close>

definition pp_frame :: "PipeSession \<Rightarrow> PipeSession \<times> effect list \<Rightarrow> bool" where
  "pp_frame s r \<longleftrightarrow>
     pp_closes (fst r) = pp_closes s @ snd r \<and> (pp_once s \<longrightarrow> pp_once (fst r)) \<and>
     (pp_stopping s = pp_once s \<longrightarrow> pp_stopping (fst r) = pp_once (fst r)) \<and>
     (\<not> pp_once (fst r) \<longrightarrow> pp_todo (fst r) = pp_todo s \<and> pp_keepBE (fst r) = pp_keepBE s)"

lemma pp_closes_flow [simp]: "pp_closes (set_flow d f s) = pp_closes s"
  by (simp add: pp_closes_def)

lemma pp_frame_set: "pp_frame s (set_flow d f s, [])"
  by (simp add: pp_frame_def)

lemma pp_frame_flow: "pp_frame (set_flow d f s) r \<Longrightarrow> pp_frame s r"
  by (simp add: pp_frame_def)

lemma pp_frame_Stop: "pp_frame s (pp_Stop s)"
  by (simp add: pp_frame_def pp_closes_def pp_Stop_def Let_def)

lemma pp_frame_cause: "pp_frame (recordCause d op e s) r \<Longrightarrow> pp_frame s r"
  by (simp add: pp_frame_def pp_closes_def)

lemma pp_frame_result: "pp_frame s r \<Longrightarrow> pp_frame s (set_flow d f (fst r), snd r)"
  by (simp add: pp_frame_def)

lemma pp_frame_rd_stop: "pp_frame s (rd_stop d s)"
  using pp_frame_result [OF pp_frame_Stop] by (simp add: rd_stop_def goto_rd_def case_prod_beta)

lemma pp_frame_dr_stop: "pp_frame s (dr_stop d s)"
  using pp_frame_result [OF pp_frame_Stop] by (simp add: dr_stop_def goto_dr_def case_prod_beta)

lemma pp_frame_after_read: "pp_frame s (after_read d err s)"
  by (auto simp: after_read_def goto_rd_def pp_frame_set split: option.split io_error.split
      intro: pp_frame_cause [OF pp_frame_rd_stop])

lemmas pp_frames = pp_frame_set pp_frame_Stop pp_frame_rd_stop pp_frame_dr_stop pp_frame_after_read
  pp_frame_flow [OF pp_frame_set] pp_frame_flow [OF pp_frame_rd_stop] pp_frame_flow [OF pp_frame_dr_stop]
  pp_frame_flow [OF pp_frame_after_read] pp_frame_flow [OF pp_frame_cause [OF pp_frame_dr_stop]]

lemma stop_do_frame:
  "pp_once (stop_do a s) = pp_once s" "pp_stopping (stop_do a s) = pp_stopping s"
  "pp_keepBE (stop_do a s) = pp_keepBE s" "pp_closes (stop_do a s) = pp_closes s" "pp_todo (stop_do a s) = pp_todo s"
  by (cases a; simp add: map_rb_def)+

text \<open>How each step leaves the flow of its direction, and that it leaves the other one alone.\<close>

lemma rd_stop_flow: "flow_of d' (fst (rd_stop d s)) = (if d' = d then (flow_of d s)\<lparr>fl_rd := RExit True\<rparr> else flow_of d' s)"
  by (simp add: rd_stop_def goto_rd_def case_prod_beta)

lemma dr_stop_flow: "flow_of d' (fst (dr_stop d s)) = (if d' = d then (flow_of d s)\<lparr>fl_dr := DExit True\<rparr> else flow_of d' s)"
  by (simp add: dr_stop_def goto_dr_def case_prod_beta)

lemma stops_once [simp]: "pp_once (fst (rd_stop d s))" "pp_once (fst (dr_stop d s))"
  by (simp_all add: rd_stop_def dr_stop_def goto_rd_def goto_dr_def case_prod_beta)

lemma after_read_flow:
  "\<exists>pc. flow_of d' (fst (after_read d err s)) = (if d' = d then (flow_of d s)\<lparr>fl_rd := pc\<rparr> else flow_of d' s) \<and>
     (pc = RTop \<or> pp_stopping s \<and> pc = RExit False \<or> pp_once (fst (after_read d err s)) \<and> pc = RExit True)"
  by (auto simp: after_read_def rd_stop_flow goto_rd_def split: option.split io_error.split)

lemma flow_inv_mono: "flow_inv b f \<Longrightarrow> (b \<longrightarrow> b') \<Longrightarrow> flow_inv b' f"
  by (auto simp: flow_inv_def)

lemma pp_inv_step:
  assumes "pp_inv s" and "pp_frame s r"
    and "\<And>d'. d' \<noteq> d \<Longrightarrow> flow_of d' (fst r) = flow_of d' s"
    and "flow_inv (pp_once (fst r)) (flow_of d (fst r))"
  shows "pp_inv (fst r)"
  unfolding pp_inv_def
proof (intro conjI allI)
  fix d'
  show "flow_inv (pp_once (fst r)) (flow_of d' (fst r))"
  proof (cases "d' = d")
    case False
    have "flow_inv (pp_once s) (flow_of d' s)" using assms(1) by (simp add: pp_inv_def)
    from flow_inv_mono [OF this] assms(2) show ?thesis unfolding assms(3) [OF False] pp_frame_def by blast
  qed (use assms(4) in simp)
qed (use assms(1,2) in \<open>auto simp: pp_inv_def pp_frame_def\<close>)

lemma pp_flowD:
  assumes "pp_inv s"
  shows "rb_inv (fl_rb (flow_of d s))" "fl_ingress (flow_of d s) = int (length (fl_src (flow_of d s)))"
    "\<not> pp_once s \<Longrightarrow> flow_exact (flow_of d s)"
  using assms by (auto simp: pp_inv_def flow_inv_def)

lemma pp_invD:
  assumes "pp_inv s"
  shows "pp_stopping s = pp_once s" "\<not> pp_once s \<Longrightarrow> pp_todo s = []"
  using assms by (auto simp: pp_inv_def)

lemma map_rb_flow: "flow_of d (map_rb d' f s) =
    (if d = d' then (flow_of d s)\<lparr>fl_rb := f (fl_rb (flow_of d s))\<rparr> else flow_of d s)"
  by (simp add: map_rb_def)

lemma after_read_inv:
  assumes "pp_inv s" and "fl_rd (flow_of d s) = RTop \<or> fl_rd (flow_of d s) = RPut [] err'"
  shows "pp_inv (fst (after_read d err s))"
proof (rule pp_inv_step [OF assms(1) pp_frame_after_read, of d])
  let ?r = "after_read d err s"
  have fl: "\<exists>pc. flow_of d (fst ?r) = (flow_of d s)\<lparr>fl_rd := pc\<rparr> \<and>
      (pc = RTop \<or> pp_stopping s \<and> pc = RExit False \<or> pp_once (fst ?r) \<and> pc = RExit True)"
    using after_read_flow [of d d err s] by simp
  show "flow_of d' (fst ?r) = flow_of d' s" if "d' \<noteq> d" for d'
    using after_read_flow [of d' d err s] that by auto
  have "pp_once s \<longrightarrow> pp_once (fst ?r)" using pp_frame_after_read [of s d err] by (simp add: pp_frame_def)
  with fl assms pp_flowD [OF assms(1), of d] pp_invD [OF assms(1)] show "flow_inv (pp_once (fst ?r)) (flow_of d (fst ?r))"
    by (auto simp: flow_inv_def flow_exact_def rd_hand_def dr_hand_def)
qed

lemma rd_read_inv:
  assumes "pp_inv s" and "fl_rd (flow_of d s) = RTop"
  shows "pp_inv (fst (rd_read data err d s))"
proof (cases "data = []")
  case True
  then show ?thesis using after_read_inv [OF assms(1)] assms(2) by (simp add: rd_read_def)
next
  case False
  then show ?thesis
    using pp_flowD [OF assms(1), of d] pp_invD [OF assms(1)] assms(2)
    by (intro pp_inv_step [OF assms(1), of _ d])
       (auto simp: rd_read_def Let_def pp_frame_set flow_inv_def flow_exact_def rd_hand_def dr_hand_def)
qed

lemma rd_put_inv:
  assumes "pp_inv s" and "fl_rd (flow_of d s) = RPut p err"
  shows "pp_inv (fst (rd_put junk p err d s))"
proof -
  let ?f = "flow_of d s"
  note I = pp_flowD [OF assms(1), of d] pp_invD [OF assms(1)]
  obtain n res rb where w: "rb_Write junk p (fl_rb ?f) = (n, res, rb)" by (metis prod_cases3)
  have spec: "rb_inv rb" "content rb = content (fl_rb ?f) @ take n p" "n \<le> length p" "rb_closed rb = rb_closed (fl_rb ?f)"
    "rb_writeClosed rb = rb_writeClosed (fl_rb ?f)" "res = WroteAll \<Longrightarrow> n = length p"
    "res = WriteClosed \<Longrightarrow> rb_closed (fl_rb ?f) \<or> rb_writeClosed (fl_rb ?f)" "res \<noteq> WritePanic"
    using rb_Write_spec [OF I(1), of p junk] unfolding w by (cases res; auto)+
  let ?s1 = "set_flow d (?f\<lparr>fl_rb := rb\<rparr>) s"
  text \<open>The queue and the rest of the chunk, seen as if the goroutine held the rest.\<close>
  have held: "pp_inv (set_flow d (?f\<lparr>fl_rb := rb, fl_rd := RPut (drop n p) err\<rparr>) s)"
    using I spec assms(2)
    by (intro pp_inv_step [OF assms(1) pp_frame_set, of d d, simplified])
       (auto simp: flow_inv_def flow_exact_def rd_hand_def dr_hand_def)
  show ?thesis
  proof (cases res)
    case WroteAll
    have "after_read d err (set_flow d (?f\<lparr>fl_rb := rb, fl_rd := RPut [] err\<rparr>) s) = after_read d err ?s1"
      by (cases d) (auto simp: after_read_def goto_rd_def rd_stop_def pp_Stop_def recordCause_def shouldKeepBE_def
          Let_def split: option.split io_error.split)
    moreover have "pp_inv (fst (after_read d err (set_flow d (?f\<lparr>fl_rb := rb, fl_rd := RPut [] err\<rparr>) s)))"
      using after_read_inv [OF held, of d err] spec(6) [OF WroteAll] by simp
    ultimately show ?thesis by (simp add: rd_put_def w WroteAll Let_def)
  next
    case WriteClosed
    show ?thesis
      using I spec
      by (intro pp_inv_step [OF assms(1), of _ d])
         (auto simp: rd_put_def w WriteClosed Let_def pp_frames rd_stop_flow flow_inv_def)
  next
    case WriteBlocked
    then show ?thesis using held by (simp add: rd_put_def w Let_def goto_rd_def)
  next
    case WritePanic
    then show ?thesis using spec(8) by simp
  qed
qed

lemma dr_read_inv:
  assumes "pp_inv s" and "fl_dr (flow_of d s) = DTop"
  shows "pp_inv (fst (dr_read d s))"
proof -
  let ?f = "flow_of d s"
  note I = pp_flowD [OF assms(1), of d] pp_invD [OF assms(1)]
  obtain res rb where w: "rb_Read buf_cap (fl_rb ?f) = (res, rb)" by fastforce
  note spec = rb_Read_spec [OF I(1) buf_cap_pos(1), unfolded w prod.case]
  show ?thesis
    by (rule pp_inv_step [OF assms(1), of _ d]; cases res)
       (use I spec assms(2) in \<open>auto simp: dr_read_def w Let_def pp_frames goto_dr_def dr_stop_flow flow_inv_def
          flow_exact_def rd_hand_def dr_hand_def\<close>)
qed

lemma dr_write_inv:
  assumes "pp_inv s" and "fl_dr (flow_of d s) = DOut data" and "werr = None \<Longrightarrow> k = length data"
  shows "pp_inv (fst (dr_write k werr data d s))"
  by (rule pp_inv_step [OF assms(1), of _ d]; cases werr)
     (use pp_flowD [OF assms(1), of d] pp_invD [OF assms(1)] assms(2,3) in \<open>auto simp: dr_write_def Let_def pp_frames goto_dr_def
        dr_stop_flow flow_inv_def flow_exact_def rd_hand_def dr_hand_def\<close>)

lemma stop_next_inv:
  assumes "pp_inv s"
  shows "pp_inv (stop_next s)"
proof (cases "pp_todo s")
  case (Cons a as)
  then have once: "pp_once s" using pp_invD(2) [OF assms] by auto
  have "rb_inv (f rb)" if "rb_inv rb" "f \<in> {rb_Flush, rb_CloseWrite, rb_Close}" for f rb
    using that rb_CloseWrite_spec rb_Close_spec cleanup_spec by (auto simp: rb_Flush_def)
  then have "flow_inv True (flow_of d (stop_do a (s\<lparr>pp_todo := as\<rparr>)))" for d
    using pp_flowD(1,2) [OF assms, of d] by (cases a) (auto simp: flow_inv_def map_rb_flow)
  with once pp_invD(1) [OF assms] show ?thesis
    by (simp add: stop_next_def Cons pp_inv_def stop_do_frame)
qed (use assms in \<open>simp add: stop_next_def\<close>)

lemma return_inv:
  assumes "pp_inv s"
  shows "fl_rd (flow_of d s) = RExit w \<Longrightarrow> pp_inv (rd_return d s)"
    and "fl_dr (flow_of d s) = DExit w \<Longrightarrow> pp_inv (dr_return d s)"
proof -
  note I = pp_flowD [OF assms, of d] pp_invD [OF assms]
  note ok = rb_CloseWrite_spec [OF I(1)] rb_Close_spec [OF I(1)]
  have frame: "pp_frame s (rd_return d s, [])" "pp_frame s (dr_return d s, [])"
    by (simp_all add: rd_return_def dr_return_def goto_rd_def goto_dr_def map_rb_def pp_frames)
  show "pp_inv (rd_return d s)" if "fl_rd (flow_of d s) = RExit w"
    using I ok that by (intro pp_inv_step [OF assms frame(1), of d, simplified])
      (auto simp: rd_return_def goto_rd_def map_rb_def flow_inv_def flow_exact_def)
  show "pp_inv (dr_return d s)" if "fl_dr (flow_of d s) = DExit w"
    using I ok that by (intro pp_inv_step [OF assms frame(2), of d, simplified])
      (auto simp: dr_return_def goto_dr_def map_rb_def flow_inv_def flow_exact_def)
qed

lemma pp_step_inv: "pp_step s r \<Longrightarrow> pp_inv s \<Longrightarrow> pp_inv (fst r)"
proof (induction rule: pp_step.induct)
  case (stop s)
  show ?case
    using pp_flowD(1,2) [OF stop] pp_frame_Stop [of s] stop
    by (auto simp: pp_inv_def flow_inv_def pp_frame_def)
qed (simp_all add: rd_read_inv rd_put_inv dr_read_inv dr_write_inv stop_next_inv return_inv)

lemma pp_frame_dr_read: "pp_frame s (dr_read d s)"
proof (cases "rb_Read buf_cap (fl_rb (flow_of d s))")
  case (Pair res rb)
  then show ?thesis by (cases res) (simp_all add: dr_read_def Let_def goto_dr_def pp_frames)
qed

lemma pp_step_frames:
  "pp_frame s (rd_read data err d s)" "pp_frame s (rd_put junk p err d s)" "pp_frame s (rd_return d s, [])"
  "pp_frame s (dr_read d s)" "pp_frame s (dr_write k werr data d s)" "pp_frame s (dr_return d s, [])"
  by (auto simp: rd_read_def rd_put_def rd_return_def dr_write_def dr_return_def goto_rd_def goto_dr_def
      map_rb_def Let_def pp_frames pp_frame_dr_read split: prod.split write_result.split option.split)

lemma pp_step_closes: "pp_step s r \<Longrightarrow> pp_closes (fst r) = pp_closes s @ snd r"
proof (induction rule: pp_step.induct)
  case (stop_more s)
  have "pp_closes (s\<lparr>pp_todo := as\<rparr>) = pp_closes s" for as by (simp add: pp_closes_def)
  then show ?case by (cases "pp_todo s") (simp_all add: stop_next_def stop_do_frame)
qed (use pp_step_frames pp_frame_Stop in \<open>simp_all add: pp_frame_def\<close>)

lemma pp_inv_New: "pp_inv (NewPipeSession m fe be)"
  by (auto simp: pp_inv_def NewPipeSession_def all_dir flow_inv_def flow_exact_def new_flow_def rb_inv_New
      rd_hand_def dr_hand_def) (simp_all add: NewRingBuffer_def)

text \<open>
  C4. The relay session of the first version forwards faithfully while it runs. In every interleaving
  of its goroutines with any number of callers of \<open>Stop\<close>, for each direction: until the session is
  stopped, the bytes read from the source are exactly the bytes delivered, followed by those in the
  hand of the draining goroutine, in the ring buffer and in the hand of the reading goroutine, so
  nothing is lost, duplicated or reordered, and both counters are exact; the ring buffer never holds
  a block more than its maximum. The connections are closed once, when the session is stopped, the
  back end's only if it is not to be kept.
\<close>

theorem pipe_v1_forwards:
  assumes "pp_run (NewPipeSession m fe be) s es"
  shows "(\<forall>d. let f = flow_of d s in
            fl_ingress f = int (length (fl_src f)) \<and>
            rb_currentSize (fl_rb f) \<le> max 0 (rb_maxSize (fl_rb f) - 1 + int buf_cap) \<and>
            (\<not> pp_once s \<longrightarrow> fl_src f = fl_dst f @ dr_hand f @ content (fl_rb f) @ rd_hand f \<and>
               fl_egress f = int (length (fl_dst f)))) \<and>
         es = (if pp_once s
           then [SetDeadlineNow (pp_ConnFE s), SetDeadlineNow (pp_ConnBE s), CloseConn (pp_ConnFE s)] @
             (if pp_keepBE s then [] else [CloseConn (pp_ConnBE s)])
           else [])"
proof -
  have "pp_inv s \<and> es = pp_closes s"
    using assms
  proof (induction rule: pp_run.induct)
    case new
    show ?case by (simp add: pp_inv_New) (simp add: pp_closes_def NewPipeSession_def)
  next
    case (more s es s' fs)
    then show ?case using pp_step_inv [OF more(2)] pp_step_closes [OF more(2)] by simp
  qed
  then show ?thesis
    using pp_flowD(2,3) rb_invD(10) [OF pp_flowD(1)] by (auto simp: pp_closes_def flow_exact_def Let_def)
qed

lemma pipe_v1_forwards_witness:
  "\<exists>s. pp_run (NewPipeSession 9 1 2) s [] \<and> \<not> pp_once s \<and> fl_src (flow_of FEtoBE s) = ''ab'' \<and>
     rd_hand (flow_of FEtoBE s) = ''ab''"
proof -
  let ?s = "fst (rd_read ''ab'' None FEtoBE (NewPipeSession 9 1 2))"
  have "pp_step (NewPipeSession 9 1 2) (rd_read ''ab'' None FEtoBE (NewPipeSession 9 1 2))"
    by (rule pp_step.read) (simp_all add: NewPipeSession_def new_flow_def buf_cap_def)
  then have "pp_run (NewPipeSession 9 1 2) ?s ([] @ [])"
    by (intro pp_run.more [OF pp_run.new]) (simp add: rd_read_def Let_def)
  then have run: "pp_run (NewPipeSession 9 1 2) ?s []" by simp
  have "\<not> pp_once ?s \<and> fl_src (flow_of FEtoBE ?s) = ''ab'' \<and> fl_dst (flow_of FEtoBE ?s) = '''' \<and>
      dr_hand (flow_of FEtoBE ?s) = '''' \<and> content (fl_rb (flow_of FEtoBE ?s)) = ''''"
    by (simp add: rd_read_def Let_def NewPipeSession_def new_flow_def dr_hand_def content_def NewRingBuffer_def)
  moreover from this have "fl_src (flow_of FEtoBE ?s) = fl_dst (flow_of FEtoBE ?s) @ dr_hand (flow_of FEtoBE ?s) @
      content (fl_rb (flow_of FEtoBE ?s)) @ rd_hand (flow_of FEtoBE ?s)"
    using conjunct1 [OF pipe_v1_forwards [OF run], THEN spec, of FEtoBE] unfolding Let_def by blast
  ultimately show ?thesis using run by (intro exI [of _ ?s]) simp
qed

subsection \<open>After the stop\<close>

lemma pp_run_step: "pp_run s0 s es \<Longrightarrow> pp_step s r \<Longrightarrow> r = (s', fs) \<Longrightarrow> pp_run s0 s' (es @ fs)"
  by (auto intro: pp_run.more)

text \<open>A buffer that holds one byte, and the three ways it comes and goes.\<close>

definition one_byte :: "char \<Rightarrow> RingBuffer" where
  "one_byte b = (NewRingBuffer 9)
     \<lparr>rb_buffers := [b # drop 1 (GetBuffer (\<lambda>_. b))], rb_writeOff := 1, rb_currentSize := 1\<rparr>"

lemma one_byte_eval:
  "rb_Write (\<lambda>_. b) [b] (NewRingBuffer 9) = (1, WroteAll, one_byte b)"
  "rb_Read buf_cap (one_byte b) = (ReadData [b], NewRingBuffer 9)"
  "rb_Flush (one_byte b) = NewRingBuffer 9"
proof -
  have "Suc 0 \<le> buf_cap" by (simp add: buf_cap_def)
  then show "rb_Write (\<lambda>_. b) [b] (NewRingBuffer 9) = (1, WroteAll, one_byte b)"
    "rb_Read buf_cap (one_byte b) = (ReadData [b], NewRingBuffer 9)"
    by (simp_all add: rb_Write.simps NewRingBuffer_def current_block_def write_chunk_def copy_at_def one_byte_def
        rb_Read_def read_avail_def buffer_done_def drop_block_def Let_def min_def)
  show "rb_Flush (one_byte b) = NewRingBuffer 9"
    by (simp add: rb_Flush_def cleanup_def one_byte_def NewRingBuffer_def)
qed

definition ex_flow :: "RingBuffer \<Rightarrow> int \<Rightarrow> int \<Rightarrow> rd_pc \<Rightarrow> dr_pc \<Rightarrow> string \<Rightarrow> string \<Rightarrow> flow" where
  "ex_flow rb i e rd dr src dst = \<lparr>fl_rb = rb, fl_ingress = i, fl_egress = e, fl_rd = rd, fl_dr = dr,
     fl_src = src, fl_dst = dst\<rparr>"

definition ex_running :: "flow \<Rightarrow> flow \<Rightarrow> PipeSession" where
  "ex_running u d = (NewPipeSession 9 1 2)\<lparr>pp_up := u, pp_down := d\<rparr>"

definition ex_stopped :: "flow \<Rightarrow> flow \<Rightarrow> stop_action list \<Rightarrow> PipeSession" where
  "ex_stopped u d todo = (ex_running u d)\<lparr>pp_once := True, pp_stopping := True, pp_keepBE := True,
     pp_cause := Some (BEtoFE, ''write'', IoClosed), pp_todo := todo\<rparr>"

lemmas ex_step = rd_read_def rd_put_def dr_read_def dr_write_def after_read_def goto_rd_def goto_dr_def dr_stop_def
  pp_Stop_def recordCause_def shouldKeepBE_def stop_next_def map_rb_def one_byte_eval
  ex_flow_def ex_running_def ex_stopped_def NewPipeSession_def Let_def

text \<open>
  The flush of \<open>Stop\<close> and the closing of the buffers are separate calls, so bytes put into a buffer in
  between overtake the flushed ones: in this run a write to the front end fails, the back end is kept
  for the next session, and of the bytes \<open>bc\<close> read from the front end only \<open>c\<close> reaches it.
\<close>

theorem kept_back_end_gap:
  "\<exists>s es. pp_run (NewPipeSession 9 1 2) s es \<and> KeptBE s \<and> CloseConn 2 \<notin> set es \<and>
     fl_src (flow_of FEtoBE s) = ''bc'' \<and> fl_dst (flow_of FEtoBE s) = ''c''"
proof -
  let ?N = "NewRingBuffer 9" and ?s0 = "NewPipeSession 9 1 2"
  let ?idle = "ex_flow ?N 0 0 RTop DTop [] []"
  let ?up = "ex_flow (one_byte CHR ''b'') 2 0 (RPut ''c'' None) DTop ''bc'' []"
  let ?todo = "[FlushQ BEtoFE, CloseWriteQ FEtoBE, CloseWriteQ BEtoFE, CloseQ FEtoBE, CloseQ BEtoFE]"
  let ?down = "ex_flow ?N 1 0 RTop (DExit True) ''x'' []"
  let ?es = "[SetDeadlineNow 1, SetDeadlineNow 2, CloseConn 1]"
  have cap: "Suc 0 \<le> buf_cap" by (simp add: buf_cap_def)
  have "ex_running ?idle ?idle = ?s0" by (simp add: ex_running_def ex_flow_def NewPipeSession_def new_flow_def)
  then have "pp_run ?s0 (ex_running ?idle ?idle) []" using pp_run.new by metis
  from pp_run_step [OF this pp_step.read [where d = FEtoBE and data = "''b''" and err = None],
      of "ex_running (ex_flow ?N 1 0 (RPut ''b'' None) DTop ''b'' []) ?idle" "[]"]
  have "pp_run ?s0 (ex_running (ex_flow ?N 1 0 (RPut ''b'' None) DTop ''b'' []) ?idle) []"
    by (simp add: ex_step cap)
  from pp_run_step [OF this pp_step.put [where d = FEtoBE and p = "''b''" and err = None and junk = "\<lambda>_. CHR ''b''"],
      of "ex_running (ex_flow (one_byte CHR ''b'') 1 0 RTop DTop ''b'' []) ?idle" "[]"]
  have "pp_run ?s0 (ex_running (ex_flow (one_byte CHR ''b'') 1 0 RTop DTop ''b'' []) ?idle) []"
    by (simp add: ex_step)
  from pp_run_step [OF this pp_step.read [where d = FEtoBE and data = "''c''" and err = None],
      of "ex_running ?up ?idle" "[]"]
  have "pp_run ?s0 (ex_running ?up ?idle) []" by (simp add: ex_step cap)
  from pp_run_step [OF this pp_step.read [where d = BEtoFE and data = "''x''" and err = None],
      of "ex_running ?up (ex_flow ?N 1 0 (RPut ''x'' None) DTop ''x'' [])" "[]"]
  have "pp_run ?s0 (ex_running ?up (ex_flow ?N 1 0 (RPut ''x'' None) DTop ''x'' [])) []" by (simp add: ex_step cap)
  from pp_run_step [OF this pp_step.put [where d = BEtoFE and p = "''x''" and err = None and junk = "\<lambda>_. CHR ''x''"],
      of "ex_running ?up (ex_flow (one_byte CHR ''x'') 1 0 RTop DTop ''x'' [])" "[]"]
  have "pp_run ?s0 (ex_running ?up (ex_flow (one_byte CHR ''x'') 1 0 RTop DTop ''x'' [])) []" by (simp add: ex_step)
  from pp_run_step [OF this pp_step.drain [where d = BEtoFE],
      of "ex_running ?up (ex_flow ?N 1 0 RTop (DOut ''x'') ''x'' [])" "[]"]
  have "pp_run ?s0 (ex_running ?up (ex_flow ?N 1 0 RTop (DOut ''x'') ''x'' [])) []" by (simp add: ex_step)
  from pp_run_step [OF this pp_step.deliver [where d = BEtoFE and data = "''x''" and k = 0 and werr = "Some IoClosed"],
      of "ex_stopped ?up ?down (FlushQ FEtoBE # ?todo)" ?es]
  have "pp_run ?s0 (ex_stopped ?up ?down (FlushQ FEtoBE # ?todo)) ?es" by (simp add: ex_step)
  from pp_run_step [OF this pp_step.stop_more,
      of "ex_stopped (ex_flow ?N 2 0 (RPut ''c'' None) DTop ''bc'' []) ?down ?todo" "[]"]
  have "pp_run ?s0 (ex_stopped (ex_flow ?N 2 0 (RPut ''c'' None) DTop ''bc'' []) ?down ?todo) ?es" by (simp add: ex_step)
  from pp_run_step [OF this pp_step.put [where d = FEtoBE and p = "''c''" and err = None and junk = "\<lambda>_. CHR ''c''"],
      of "ex_stopped (ex_flow (one_byte CHR ''c'') 2 0 (RExit False) DTop ''bc'' []) ?down ?todo" "[]"]
  have "pp_run ?s0 (ex_stopped (ex_flow (one_byte CHR ''c'') 2 0 (RExit False) DTop ''bc'' []) ?down ?todo) ?es"
    by (simp add: ex_step)
  from pp_run_step [OF this pp_step.drain [where d = FEtoBE],
      of "ex_stopped (ex_flow ?N 2 0 (RExit False) (DOut ''c'') ''bc'' []) ?down ?todo" "[]"]
  have "pp_run ?s0 (ex_stopped (ex_flow ?N 2 0 (RExit False) (DOut ''c'') ''bc'' []) ?down ?todo) ?es" by (simp add: ex_step)
  from pp_run_step [OF this pp_step.deliver [where d = FEtoBE and data = "''c''" and k = 1 and werr = None],
      of "ex_stopped (ex_flow ?N 2 1 (RExit False) DTop ''bc'' ''c'') ?down ?todo" "[]"]
  have "pp_run ?s0 (ex_stopped (ex_flow ?N 2 1 (RExit False) DTop ''bc'' ''c'') ?down ?todo) ?es" by (simp add: ex_step)
  then show ?thesis
    by (intro exI conjI) (assumption, simp_all add: KeptBE_def ex_stopped_def ex_running_def ex_flow_def)
qed

subsection \<open>Endings\<close>

definition pp_steps :: "PipeSession \<Rightarrow> PipeSession \<Rightarrow> bool" where
  "pp_steps = (\<lambda>s s'. \<exists>es. pp_step s (s', es))\<^sup>*\<^sup>*"

lemma pp_steps_refl: "pp_steps s s"
  by (simp add: pp_steps_def)

lemma pp_steps_more: "pp_steps s0 s \<Longrightarrow> pp_step s r \<Longrightarrow> fst r = s' \<Longrightarrow> pp_steps s0 s'"
  unfolding pp_steps_def by (metis (mono_tags, lifting) rtranclp.rtrancl_into_rtrancl prod.collapse)

definition closed_flow :: "int \<Rightarrow> bool \<Rightarrow> bool \<Rightarrow> rd_pc \<Rightarrow> dr_pc \<Rightarrow> flow" where
  "closed_flow m wc c rd dr = (new_flow m)\<lparr>fl_rb := (NewRingBuffer m)\<lparr>rb_writeClosed := wc, rb_closed := c\<rparr>,
     fl_rd := rd, fl_dr := dr\<rparr>"

definition ending :: "int \<Rightarrow> conn \<Rightarrow> conn \<Rightarrow> flow \<Rightarrow> flow \<Rightarrow> stop_action list \<Rightarrow> PipeSession" where
  "ending m fe be u d todo = (NewPipeSession m fe be)\<lparr>pp_up := u, pp_down := d, pp_once := True,
     pp_stopping := True, pp_todo := todo\<rparr>"

lemmas end_step = ending_def closed_flow_def NewPipeSession_def new_flow_def NewRingBuffer_def stop_next_def map_rb_def
  rb_Flush_def cleanup_def rb_CloseWrite_def rb_Close_def rd_read_def after_read_def goto_rd_def rd_return_def
  dr_read_def rb_Read_def dr_stop_def pp_Stop_def goto_dr_def dr_return_def Let_def

text \<open>A session stopped before any byte came can end: its buffers are closed, its goroutines return.\<close>

lemma stopped_session_ends:
  "\<exists>p. pp_steps (fst (pp_Stop (NewPipeSession m fe be))) p \<and> pp_ended p \<and> pp_once p \<and> pp_todo p = [] \<and> \<not> KeptBE p"
proof -
  let ?f = "\<lambda>wc c. closed_flow m wc c RTop DTop"
  let ?E = "ending m fe be"
  let ?s0 = "fst (pp_Stop (NewPipeSession m fe be))"
  let ?t3 = "[CloseWriteQ BEtoFE, CloseQ FEtoBE, CloseQ BEtoFE]"
  have "?s0 = ?E (?f False False) (?f False False) (FlushQ FEtoBE # FlushQ BEtoFE # CloseWriteQ FEtoBE # ?t3)"
    by (simp add: end_step shouldKeepBE_def)
  then have "pp_steps ?s0 (?E (?f False False) (?f False False) (FlushQ FEtoBE # FlushQ BEtoFE # CloseWriteQ FEtoBE # ?t3))"
    by (simp add: pp_steps_refl)
  from pp_steps_more [OF this pp_step.stop_more, of "?E (?f False False) (?f False False) (FlushQ BEtoFE # CloseWriteQ FEtoBE # ?t3)"]
  have "pp_steps ?s0 (?E (?f False False) (?f False False) (FlushQ BEtoFE # CloseWriteQ FEtoBE # ?t3))" by (simp add: end_step)
  from pp_steps_more [OF this pp_step.stop_more, of "?E (?f False False) (?f False False) (CloseWriteQ FEtoBE # ?t3)"]
  have "pp_steps ?s0 (?E (?f False False) (?f False False) (CloseWriteQ FEtoBE # ?t3))" by (simp add: end_step)
  from pp_steps_more [OF this pp_step.stop_more, of "?E (?f True False) (?f False False) ?t3"]
  have "pp_steps ?s0 (?E (?f True False) (?f False False) ?t3)" by (simp add: end_step)
  from pp_steps_more [OF this pp_step.stop_more, of "?E (?f True False) (?f True False) [CloseQ FEtoBE, CloseQ BEtoFE]"]
  have "pp_steps ?s0 (?E (?f True False) (?f True False) [CloseQ FEtoBE, CloseQ BEtoFE])" by (simp add: end_step)
  from pp_steps_more [OF this pp_step.stop_more, of "?E (?f True True) (?f True False) [CloseQ BEtoFE]"]
  have "pp_steps ?s0 (?E (?f True True) (?f True False) [CloseQ BEtoFE])" by (simp add: end_step)
  from pp_steps_more [OF this pp_step.stop_more, of "?E (?f True True) (?f True True) []"]
  have "pp_steps ?s0 (?E (?f True True) (?f True True) [])" by (simp add: end_step)
  then have up: "pp_steps ?s0 (?E (?f True True) d [])" if "d = ?f True True" for d using that by simp
  let ?g = "closed_flow m True True"
  have dir1: "pp_steps s (?E (?g RGone DGone) d [])" if "pp_steps s (?E (?g RTop DTop) d [])" for s d
  proof -
    from pp_steps_more [OF that pp_step.read [where d = FEtoBE and data = "[]" and err = "Some IoTimeout"],
        of "?E (?g (RExit False) DTop) d []"]
    have "pp_steps s (?E (?g (RExit False) DTop) d [])" by (simp add: end_step)
    from pp_steps_more [OF this pp_step.read_return [where d = FEtoBE and w = False], of "?E (?g RGone DTop) d []"]
    have "pp_steps s (?E (?g RGone DTop) d [])" by (simp add: end_step)
    from pp_steps_more [OF this pp_step.drain [where d = FEtoBE], of "?E (?g RGone (DExit True)) d []"]
    have "pp_steps s (?E (?g RGone (DExit True)) d [])" by (simp add: end_step)
    from pp_steps_more [OF this pp_step.drain_return [where d = FEtoBE and w = True], of "?E (?g RGone DGone) d []"]
    show ?thesis by (simp add: end_step)
  qed
  have dir2: "pp_steps s (?E u (?g RGone DGone) [])" if "pp_steps s (?E u (?g RTop DTop) [])" for s u
  proof -
    from pp_steps_more [OF that pp_step.read [where d = BEtoFE and data = "[]" and err = "Some IoTimeout"],
        of "?E u (?g (RExit False) DTop) []"]
    have "pp_steps s (?E u (?g (RExit False) DTop) [])" by (simp add: end_step)
    from pp_steps_more [OF this pp_step.read_return [where d = BEtoFE and w = False], of "?E u (?g RGone DTop) []"]
    have "pp_steps s (?E u (?g RGone DTop) [])" by (simp add: end_step)
    from pp_steps_more [OF this pp_step.drain [where d = BEtoFE], of "?E u (?g RGone (DExit True)) []"]
    have "pp_steps s (?E u (?g RGone (DExit True)) [])" by (simp add: end_step)
    from pp_steps_more [OF this pp_step.drain_return [where d = BEtoFE and w = True], of "?E u (?g RGone DGone) []"]
    show ?thesis by (simp add: end_step)
  qed
  have "pp_steps ?s0 (?E (?g RGone DGone) (?g RGone DGone) [])" by (rule dir2 [OF dir1 [OF up [OF refl]]])
  then show ?thesis
    by (intro exI conjI) (assumption, simp_all add: pp_ended_def ending_def closed_flow_def KeptBE_def NewPipeSession_def)
qed

end
