(* ===== verification/RelayV1.thy ===== *)
theory RelayV1
  imports PipeV1 Pairing
begin

section \<open>The relay server of the first version (v1/relay/server.go)\<close>

text \<open>
  One server owns all relayed ports: a listener per port, at most one waiting back end, and a session
  that joins it with the front end that connects next. When the session ends because its front end
  left, the back end waits for the next one. Each region under the mutex is a function, and
  so is each step of a connection outside it. Sessions are objects whose identity the code compares,
  so they live in a store under their addresses (\<open>rs_store\<close>); the four goroutines of each run as in the
  theory of the sessions. What the system answers and the order of map iterations are arguments.
\<close>

subsection \<open>Data\<close>

record DataHello1 =
  h1_Role :: string
  h1_ClientID :: string

definition helloPrefix1 :: string where "helloPrefix1 = ''RLX1HELLO ''"

text \<open>A session with what its stop callback captured; the last flag is set by the callback.\<close>

record RelaySession =
  sn_pipe :: PipeSession
  sn_port :: port
  sn_be :: BufferedConn
  sn_beID :: string
  sn_called :: bool

record RelayServer =
  rs_listeners :: "port \<Rightarrow> listener option"
  rs_sessions :: "port \<Rightarrow> nat option"
  rs_busy :: "port \<Rightarrow> bool"
  rs_pendingBE :: "port \<Rightarrow> BufferedConn option"
  rs_pendingBEID :: "port \<Rightarrow> string option"
  rs_pendingFE :: "port \<Rightarrow> BufferedConn option"
  rs_pendingFEID :: "port \<Rightarrow> string option"
  rs_portProtocol :: "port \<Rightarrow> string option"
  rs_onPortFree :: bool
  rs_onStateChange :: bool
  rs_store :: "nat \<Rightarrow> RelaySession option"
  rs_next :: nat

text \<open>Effects: on connections and listeners, goroutines, and the two hooks when they are set.\<close>

datatype rs_effect =
    RConn effect
  | ClearDeadline conn
  | RCloseListener listener
  | RGoAccept port listener
  | RGoSession nat
  | CallPortFree port
  | CallStateChange

definition GlobalRelay :: RelayServer where
  "GlobalRelay =
     \<lparr>rs_listeners = Map.empty, rs_sessions = Map.empty, rs_busy = (\<lambda>_. False), rs_pendingBE = Map.empty,
      rs_pendingBEID = Map.empty, rs_pendingFE = Map.empty, rs_pendingFEID = Map.empty,
      rs_portProtocol = Map.empty, rs_onPortFree = False, rs_onStateChange = False, rs_store = Map.empty,
      rs_next = 0\<rparr>"

definition state_change :: "RelayServer \<Rightarrow> rs_effect list" where
  "state_change s = (if rs_onStateChange s then [CallStateChange] else [])"

definition port_free :: "port \<Rightarrow> RelayServer \<Rightarrow> rs_effect list" where
  "port_free port s = (if rs_onPortFree s then [CallPortFree port] else [])"

subsection \<open>Ports\<close>

definition StartRelayPortWithProtocol ::
    "go_error + listener \<Rightarrow> port \<Rightarrow> string \<Rightarrow> RelayServer \<Rightarrow> go_error option \<times> RelayServer \<times> rs_effect list" where
  "StartRelayPortWithProtocol listen port protocol s =
     (if rs_listeners s port \<noteq> None then (None, s, [])
      else (case listen of
          Inl e \<Rightarrow> (Some e, s, [])
        | Inr l \<Rightarrow>
            (let s1 = s\<lparr>rs_listeners := (rs_listeners s)(port \<mapsto> l)\<rparr>;
                 s2 = (if protocol \<noteq> '''' then s1\<lparr>rs_portProtocol := (rs_portProtocol s1)(port \<mapsto> protocol)\<rparr>
                       else if rs_portProtocol s1 port = None
                       then s1\<lparr>rs_portProtocol := (rs_portProtocol s1)(port \<mapsto> '''')\<rparr> else s1)
             in (None, s2, [RGoAccept port l]))))"

definition StartRelayPort ::
    "go_error + listener \<Rightarrow> port \<Rightarrow> RelayServer \<Rightarrow> go_error option \<times> RelayServer \<times> rs_effect list" where
  "StartRelayPort listen port s = StartRelayPortWithProtocol listen port '''' s"

definition GetSession :: "port \<Rightarrow> RelayServer \<Rightarrow> nat option" where
  "GetSession port s = rs_sessions s port"

definition IsPortBusy :: "port \<Rightarrow> RelayServer \<Rightarrow> bool" where
  "IsPortBusy port s = rs_busy s port"

definition SetOnPortFree :: "bool \<Rightarrow> RelayServer \<Rightarrow> RelayServer" where
  "SetOnPortFree fn s = s\<lparr>rs_onPortFree := fn\<rparr>"

definition SetOnStateChange :: "bool \<Rightarrow> RelayServer \<Rightarrow> RelayServer" where
  "SetOnStateChange fn s = s\<lparr>rs_onStateChange := fn\<rparr>"

subsection \<open>The handshake\<close>

text \<open>\<open>Peek\<close> of the buffered reader: it reads until the buffer holds \<open>n\<close> bytes.\<close>

fun Peek :: "nat \<Rightarrow> string \<Rightarrow> read_result list \<Rightarrow> (go_error + string) \<times> reader" where
  "Peek n buf [] = (if n \<le> length buf then (Inr (take n buf), buf, []) else (Inl timeout_error, buf, []))"
| "Peek n buf (ev # evs) =
     (if n \<le> length buf then (Inr (take n buf), buf, ev # evs)
      else (case ev of
              Got s \<Rightarrow> Peek n (buf @ s) evs
            | Failed e \<Rightarrow> (Inl e, buf, evs)))"

definition hello1_member :: "string \<times> json \<Rightarrow> DataHello1 \<times> bool \<Rightarrow> DataHello1 \<times> bool" where
  "hello1_member m acc =
     (let (k, v) = m; (h, ok) = acc;
          put = (\<lambda>f. case v of JStr s \<Rightarrow> (f s, ok) | JNull \<Rightarrow> (h, ok) | _ \<Rightarrow> (h, False))
      in if field_match k ''role'' then put (\<lambda>s. h\<lparr>h1_Role := s\<rparr>)
         else if field_match k ''client_id'' then put (\<lambda>s. h\<lparr>h1_ClientID := s\<rparr>)
         else acc)"

definition unmarshal_hello1 :: "string \<Rightarrow> DataHello1 option" where
  "unmarshal_hello1 raw =
     (let zero = \<lparr>h1_Role = '''', h1_ClientID = ''''\<rparr> in
      case parse_json raw of
        Some JNull \<Rightarrow> Some zero
      | Some (JObj ms) \<Rightarrow> (let (h, ok) = fold hello1_member ms (zero, True) in if ok then Some h else None)
      | _ \<Rightarrow> None)"

definition wrapConnAndHello :: "read_result list \<Rightarrow> DataHello1 option \<times> reader" where
  "wrapConnAndHello evs =
     (case Peek (length helloPrefix1) [] evs of
        (Inl e, r) \<Rightarrow> (None, r)
      | (Inr b, buf, evs') \<Rightarrow>
          if b \<noteq> helloPrefix1 then (None, buf, evs')
          else (case ReadString (CHR 0x0A) buf evs' of
              (Inl e, r) \<Rightarrow> (None, r)
            | (Inr line, r) \<Rightarrow>
                if length line \<le> length helloPrefix1 then (None, r)
                else (let raw = drop (length helloPrefix1) line;
                          raw = (if last raw = CHR 0x0A then butlast raw else raw)
                      in (unmarshal_hello1 raw, r))))"

definition helloRole :: "DataHello1 option \<Rightarrow> string" where
  "helloRole h =
     (case h of None \<Rightarrow> '''' | Some h \<Rightarrow> if h1_Role h = ''FE'' \<or> h1_Role h = ''BE'' then h1_Role h else '''')"

definition helloClientID :: "DataHello1 option \<Rightarrow> string" where
  "helloClientID h = (case h of None \<Rightarrow> '''' | Some h \<Rightarrow> h1_ClientID h)"

subsection \<open>Accepting\<close>

definition close_bc :: "BufferedConn \<Rightarrow> rs_effect list" where
  "close_bc bc = [RConn (CloseConn (bc_conn bc))]"

text \<open>\<open>NewPipeSession\<close> with its callback, the entries for it, and the effects after the mutex.\<close>

definition start_session ::
    "int \<Rightarrow> port \<Rightarrow> BufferedConn \<Rightarrow> BufferedConn \<Rightarrow> string \<Rightarrow> RelayServer \<Rightarrow> RelayServer \<times> rs_effect list" where
  "start_session bufsz port fe be beID s =
     (let n = rs_next s;
          session = \<lparr>sn_pipe = NewPipeSession bufsz (bc_conn fe) (bc_conn be), sn_port = port, sn_be = be,
                     sn_beID = beID, sn_called = False\<rparr>;
          s1 = s\<lparr>rs_store := (rs_store s)(n \<mapsto> session), rs_next := n + 1,
                 rs_sessions := (rs_sessions s)(port \<mapsto> n), rs_busy := (rs_busy s)(port := True)\<rparr>
      in (s1, RGoSession n # state_change s1))"

text \<open>The locked region of \<open>acceptLoop\<close>.\<close>

definition relay_admit ::
    "int \<Rightarrow> port \<Rightarrow> string \<Rightarrow> string \<Rightarrow> BufferedConn \<Rightarrow> RelayServer \<Rightarrow> RelayServer \<times> rs_effect list" where
  "relay_admit bufsz port role ident bc s =
     (if rs_busy s port then (s, close_bc bc)
      else if role = ''BE''
      then (if rs_pendingBE s port \<noteq> None then (s, close_bc bc)
            else (case rs_pendingFE s port of
                Some fe \<Rightarrow> start_session bufsz port fe bc ident
                  (s\<lparr>rs_pendingFE := (rs_pendingFE s)(port := None), rs_pendingFEID := (rs_pendingFEID s)(port := None)\<rparr>)
              | None \<Rightarrow> (s\<lparr>rs_pendingBE := (rs_pendingBE s)(port \<mapsto> bc), rs_pendingBEID := (rs_pendingBEID s)(port \<mapsto> ident)\<rparr>,
                         state_change s)))
      else if role = ''FE''
      then (case rs_pendingBE s port of
              None \<Rightarrow> (s, close_bc bc)
            | Some be \<Rightarrow> start_session bufsz port bc be
                (case rs_pendingBEID s port of None \<Rightarrow> '''' | Some i \<Rightarrow> i)
                (s\<lparr>rs_pendingBE := (rs_pendingBE s)(port := None), rs_pendingBEID := (rs_pendingBEID s)(port := None)\<rparr>))
      else (s, close_bc bc))"

text \<open>One iteration of \<open>acceptLoop\<close> for a connection \<open>c\<close> with the reads \<open>evs\<close>; \<open>env\<close> is what others do
  to the server while the hello is read, which is not under the mutex.\<close>

definition relay_accept ::
    "int \<Rightarrow> (RelayServer \<Rightarrow> RelayServer) \<Rightarrow> port \<Rightarrow> conn \<Rightarrow> read_result list \<Rightarrow> RelayServer \<Rightarrow> RelayServer \<times> rs_effect list" where
  "relay_accept bufsz env port c evs s =
     (if IsPortBusy port s then (s, [RConn (CloseConn c)])
      else (let (h, r) = wrapConnAndHello evs; bc = \<lparr>bc_conn = c, bc_reader = r\<rparr>
            in if helloRole h = '''' then (env s, close_bc bc)
               else relay_admit bufsz port (helloRole h) (helloClientID h) bc (env s)))"

subsection \<open>The end of a session and of a port\<close>

text \<open>The stop callback of session \<open>n\<close>.\<close>

definition session_stopped :: "nat \<Rightarrow> RelayServer \<Rightarrow> RelayServer \<times> rs_effect list" where
  "session_stopped n s =
     (case rs_store s n of
        None \<Rightarrow> (s, [])
      | Some sn \<Rightarrow>
          (let port = sn_port sn;
               s1 = (if rs_sessions s port = Some n then s\<lparr>rs_sessions := (rs_sessions s)(port := None)\<rparr> else s);
               s2 = s1\<lparr>rs_busy := (rs_busy s1)(port := False)\<rparr>;
               (s3, es) = (if KeptBE (sn_pipe sn) \<and> rs_pendingBE s2 port = None
                 then (s2\<lparr>rs_pendingBE := (rs_pendingBE s2)(port \<mapsto> sn_be sn),
                          rs_pendingBEID := (rs_pendingBEID s2)(port \<mapsto> sn_beID sn)\<rparr>, [ClearDeadline (bc_conn (sn_be sn))])
                 else (s2, []));
               s4 = s3\<lparr>rs_store := (rs_store s3)(n \<mapsto> sn\<lparr>sn_called := True\<rparr>)\<rparr>
           in (s4, es @ port_free port s4 @ state_change s4)))"

definition stop_pipe :: "nat \<Rightarrow> RelayServer \<Rightarrow> RelayServer \<times> rs_effect list" where
  "stop_pipe n s =
     (case rs_store s n of
        None \<Rightarrow> (s, [])
      | Some sn \<Rightarrow> (let (p, es) = pp_Stop (sn_pipe sn)
                   in (s\<lparr>rs_store := (rs_store s)(n \<mapsto> sn\<lparr>sn_pipe := p\<rparr>)\<rparr>, map RConn es)))"

text \<open>\<open>StopPort\<close> in its parts: the listener, the session, the waiting back end and the waiting front end.\<close>

definition stop_listener :: "port \<Rightarrow> RelayServer \<Rightarrow> RelayServer \<times> rs_effect list" where
  "stop_listener port s =
     (case rs_listeners s port of
        Some l \<Rightarrow> (s\<lparr>rs_listeners := (rs_listeners s)(port := None)\<rparr>, [RCloseListener l])
      | None \<Rightarrow> (s, []))"

definition stop_session :: "port \<Rightarrow> RelayServer \<Rightarrow> RelayServer \<times> rs_effect list" where
  "stop_session port s =
     (case rs_sessions s port of
        Some n \<Rightarrow> (let (s', es) = stop_pipe n s in (s'\<lparr>rs_sessions := (rs_sessions s')(port := None)\<rparr>, es))
      | None \<Rightarrow> (s, []))"

definition drop_BE :: "port \<Rightarrow> RelayServer \<Rightarrow> RelayServer \<times> rs_effect list" where
  "drop_BE port s =
     (case rs_pendingBE s port of
        Some p \<Rightarrow> (s\<lparr>rs_pendingBE := (rs_pendingBE s)(port := None),
                    rs_pendingBEID := (rs_pendingBEID s)(port := None)\<rparr>, close_bc p)
      | None \<Rightarrow> (s, []))"

definition drop_FE :: "port \<Rightarrow> RelayServer \<Rightarrow> RelayServer \<times> rs_effect list" where
  "drop_FE port s =
     (case rs_pendingFE s port of
        Some p \<Rightarrow> (s\<lparr>rs_pendingFE := (rs_pendingFE s)(port := None),
                    rs_pendingFEID := (rs_pendingFEID s)(port := None)\<rparr>, close_bc p)
      | None \<Rightarrow> (s, []))"

definition StopPort :: "port \<Rightarrow> RelayServer \<Rightarrow> RelayServer \<times> rs_effect list" where
  "StopPort port s =
     (let (s1, e1) = stop_listener port s;
          (s2, e2) = stop_session port s1;
          (s3, e3) = drop_BE port s2;
          (s4, e4) = drop_FE port s3;
          s5 = s4\<lparr>rs_busy := (rs_busy s4)(port := False)\<rparr>
      in (s5, e1 @ e2 @ e3 @ e4 @ port_free port s5 @ state_change s5))"

subsection \<open>The snapshot\<close>

record PortStateSnapshot =
  pss_ZMQReadyPorts :: "port list"
  pss_SRTReadyPorts :: "port list"
  pss_ZMQEmptyPorts :: "port list"
  pss_SRTEmptyPorts :: "port list"
  pss_ZMQBusyCount :: nat
  pss_SRTBusyCount :: nat
  pss_ZMQTotal :: nat
  pss_SRTTotal :: nat

definition empty_state :: PortStateSnapshot where
  "empty_state =
     \<lparr>pss_ZMQReadyPorts = [], pss_SRTReadyPorts = [], pss_ZMQEmptyPorts = [], pss_SRTEmptyPorts = [],
      pss_ZMQBusyCount = 0, pss_SRTBusyCount = 0, pss_ZMQTotal = 0, pss_SRTTotal = 0\<rparr>"

text \<open>Each waiting back end is probed by a peek with an expired deadline: a byte or a timeout means it
  is alive, any other error that it is gone.\<close>

definition probe_pending ::
    "(conn \<Rightarrow> io_error option) \<Rightarrow> port \<Rightarrow> RelayServer \<Rightarrow> RelayServer \<times> rs_effect list" where
  "probe_pending probe port s =
     (case rs_pendingBE s port of
        None \<Rightarrow> (s, [])
      | Some bc \<Rightarrow>
          (let dl = [RConn (SetDeadlineNow (bc_conn bc)), ClearDeadline (bc_conn bc)];
               gone = (s\<lparr>rs_pendingBE := (rs_pendingBE s)(port := None),
                         rs_pendingBEID := (rs_pendingBEID s)(port := None)\<rparr>, dl @ close_bc bc)
           in case probe (bc_conn bc) of
                None \<Rightarrow> (s, dl)
              | Some IoTimeout \<Rightarrow> (s, dl)
              | Some IoEOF \<Rightarrow> gone
              | Some IoClosed \<Rightarrow> gone
              | Some (IoOther e) \<Rightarrow> gone))"

definition snap_relay_port :: "RelayServer \<Rightarrow> port \<Rightarrow> PortStateSnapshot \<Rightarrow> PortStateSnapshot" where
  "snap_relay_port s port snap =
     (let proto = (case rs_portProtocol s port of None \<Rightarrow> '''' | Some p \<Rightarrow> p);
          busy = rs_busy s port; beReady = (rs_pendingBE s port \<noteq> None)
      in if proto = ''zmq''
         then (let snap = snap\<lparr>pss_ZMQTotal := pss_ZMQTotal snap + 1\<rparr>
               in if busy then snap\<lparr>pss_ZMQBusyCount := pss_ZMQBusyCount snap + 1\<rparr>
                  else if beReady then snap\<lparr>pss_ZMQReadyPorts := pss_ZMQReadyPorts snap @ [port]\<rparr>
                  else snap\<lparr>pss_ZMQEmptyPorts := pss_ZMQEmptyPorts snap @ [port]\<rparr>)
         else if proto = ''srt''
         then (let snap = snap\<lparr>pss_SRTTotal := pss_SRTTotal snap + 1\<rparr>
               in if busy then snap\<lparr>pss_SRTBusyCount := pss_SRTBusyCount snap + 1\<rparr>
                  else if beReady then snap\<lparr>pss_SRTReadyPorts := pss_SRTReadyPorts snap @ [port]\<rparr>
                  else snap\<lparr>pss_SRTEmptyPorts := pss_SRTEmptyPorts snap @ [port]\<rparr>)
         else snap)"

definition SnapshotPortState ::
    "(conn \<Rightarrow> io_error option) \<Rightarrow> port list \<Rightarrow> port list \<Rightarrow> RelayServer \<Rightarrow>
      PortStateSnapshot \<times> RelayServer \<times> rs_effect list" where
  "SnapshotPortState probe porder lorder s =
     (let (s', es) = seq_effects (probe_pending probe) porder s;
          snap = fold (snap_relay_port s') lorder empty_state
      in (snap\<lparr>pss_ZMQReadyPorts := sort (pss_ZMQReadyPorts snap), pss_SRTReadyPorts := sort (pss_SRTReadyPorts snap),
               pss_ZMQEmptyPorts := sort (pss_ZMQEmptyPorts snap), pss_SRTEmptyPorts := sort (pss_SRTEmptyPorts snap)\<rparr>,
          s', es))"


subsection \<open>Runs\<close>

text \<open>Goroutines may take these steps in any order; the callback of a session runs once, when its
  goroutines have returned and \<open>Stop\<close> is over.\<close>

inductive rs_step :: "RelayServer \<Rightarrow> RelayServer \<Rightarrow> bool" where
  start: "rs_step s (fst (snd (StartRelayPortWithProtocol l port proto s)))"
| admit: "rs_step s (fst (relay_admit m port role i bc s))"
| pipe: "rs_store s n = Some sn \<Longrightarrow> pp_step (sn_pipe sn) (p, es) \<Longrightarrow>
    rs_step s (s\<lparr>rs_store := (rs_store s)(n \<mapsto> sn\<lparr>sn_pipe := p\<rparr>)\<rparr>)"
| stopped: "rs_store s n = Some sn \<Longrightarrow> pp_ended (sn_pipe sn) \<Longrightarrow> pp_once (sn_pipe sn) \<Longrightarrow> pp_todo (sn_pipe sn) = [] \<Longrightarrow>
    \<not> sn_called sn \<Longrightarrow> rs_step s (fst (session_stopped n s))"
| stop_port: "rs_step s (fst (StopPort port s))"
| snapshot: "rs_step s (fst (snd (SnapshotPortState probe ps ls s)))"
| hooks: "rs_step s (SetOnPortFree f (SetOnStateChange g s))"

text \<open>The invariant, with the ports for which a busy port is known to have no waiting back end (in this version: all).\<close>

definition relay_inv_on :: "port set \<Rightarrow> RelayServer \<Rightarrow> bool" where
  "relay_inv_on A s \<longleftrightarrow>
     rs_pendingFE s = Map.empty \<and>
     (\<forall>p. rs_busy s p \<longrightarrow> rs_sessions s p \<noteq> None \<and> (p \<in> A \<longrightarrow> rs_pendingBE s p = None)) \<and>
     (\<forall>p n. rs_sessions s p = Some n \<longrightarrow> (\<exists>sn. rs_store s n = Some sn \<and> sn_port sn = p)) \<and>
     (\<forall>p. rs_pendingBE s p = None \<longleftrightarrow> rs_pendingBEID s p = None) \<and>
     (\<forall>n sn. rs_store s n = Some sn \<longrightarrow> n < rs_next s \<and> pp_inv (sn_pipe sn))"

abbreviation relay_inv :: "RelayServer \<Rightarrow> bool" where
  "relay_inv \<equiv> relay_inv_on UNIV"

lemma relay_invD:
  assumes "relay_inv_on A s"
  shows "rs_pendingFE s = Map.empty" "rs_busy s p \<Longrightarrow> rs_sessions s p \<noteq> None" "rs_busy s p \<Longrightarrow> p \<in> A \<Longrightarrow> rs_pendingBE s p = None"
    "rs_sessions s p = Some n \<Longrightarrow> \<exists>sn. rs_store s n = Some sn \<and> sn_port sn = p"
    "rs_pendingBE s p = None \<longleftrightarrow> rs_pendingBEID s p = None"
    "rs_store s n = Some sn \<Longrightarrow> n < rs_next s" "rs_store s n = Some sn \<Longrightarrow> pp_inv (sn_pipe sn)"
  using assms unfolding relay_inv_on_def by blast+

lemma relay_inv_port:
  "relay_inv_on A s \<Longrightarrow> rs_sessions s p = Some n \<Longrightarrow> rs_store s n = Some sn \<Longrightarrow> sn_port sn = p"
  using relay_invD(4) by fastforce

lemma relay_inv_next: "relay_inv_on A s \<Longrightarrow> rs_sessions s p \<noteq> Some (rs_next s)"
  using relay_invD(4,6) by blast

lemma relay_inv_start: "relay_inv_on A s \<Longrightarrow> relay_inv_on A (fst (snd (StartRelayPortWithProtocol l port proto s)))"
  by (cases l) (auto simp: StartRelayPortWithProtocol_def relay_inv_on_def Let_def)

lemma relay_inv_session:
  assumes "relay_inv_on A s" and "port \<in> A \<Longrightarrow> rs_pendingBE s port = None"
  shows "relay_inv_on A (fst (start_session m port fe be i s))"
proof -
  have fresh: "n < rs_next s" if "rs_store s n = Some sn" for n sn using relay_invD(6) [OF assms(1) that] .
  show ?thesis
    using assms fresh relay_inv_next [OF assms(1)] unfolding relay_inv_on_def
    by (auto simp: start_session_def Let_def pp_inv_New less_Suc_eq split: if_splits)
qed

lemma relay_inv_no_pending:
  "relay_inv_on A s \<Longrightarrow> relay_inv_on A (s\<lparr>rs_pendingBE := (rs_pendingBE s)(port := None), rs_pendingBEID := (rs_pendingBEID s)(port := None)\<rparr>)"
  by (auto simp: relay_inv_on_def)

lemma relay_inv_admit:
  assumes "relay_inv_on A s"
  shows "relay_inv_on A (fst (relay_admit m port role i bc s))"
proof -
  consider "rs_busy s port" | "\<not> rs_busy s port" "role = ''BE''" | "\<not> rs_busy s port" "role = ''FE''"
    | "\<not> rs_busy s port" "role \<noteq> ''BE''" "role \<noteq> ''FE''" by blast
  then show ?thesis
  proof cases
    case 2
    then show ?thesis using assms by (auto simp: relay_admit_def relay_inv_on_def)
  next
    case 3
    then show ?thesis
      using assms relay_inv_session [OF relay_inv_no_pending [OF assms, of port], of port]
      by (auto simp: relay_admit_def split: option.split)
  qed (use assms in \<open>simp_all add: relay_admit_def\<close>)
qed

lemma relay_inv_store:
  assumes "relay_inv_on A s" and "rs_store s n = Some sn" and "pp_inv p"
  shows "relay_inv_on A (s\<lparr>rs_store := (rs_store s)(n \<mapsto> sn\<lparr>sn_pipe := p\<rparr>)\<rparr>)"
  using assms relay_inv_port [OF assms(1)] unfolding relay_inv_on_def by auto

lemma relay_inv_stop_pipe: "relay_inv_on A s \<Longrightarrow> relay_inv_on A (fst (stop_pipe n s))"
  using relay_inv_store [of A s n] relay_invD(7) [of A s n] pp_step_inv [OF pp_step.stop]
  by (auto simp: stop_pipe_def case_prod_beta split: option.split)

lemma relay_inv_stopped:
  assumes "relay_inv_on A s"
  shows "relay_inv_on A (fst (session_stopped n s))"
proof (cases "rs_store s n")
  case (Some sn)
  define s1 where "s1 = (if rs_sessions s (sn_port sn) = Some n
    then s\<lparr>rs_sessions := (rs_sessions s)(sn_port sn := None)\<rparr> else s)"
  define s2 where "s2 = s1\<lparr>rs_busy := (rs_busy s1)(sn_port sn := False)\<rparr>"
  have "relay_inv_on A s2" using assms unfolding relay_inv_on_def s2_def s1_def by auto
  then have inv: "relay_inv_on A s2" and sn: "rs_store s2 n = Some sn" and idle: "\<not> rs_busy s2 (sn_port sn)"
    using Some by (simp_all add: s2_def s1_def)
  have own: "sn_port sn = p" if "rs_sessions s2 p = Some n" for p using relay_inv_port [OF inv that sn] .
  define s3 where "s3 = s2\<lparr>rs_store := (rs_store s2)(n \<mapsto> sn\<lparr>sn_called := True\<rparr>)\<rparr>"
  have "relay_inv_on A s3" using inv sn own unfolding relay_inv_on_def s3_def by auto
  moreover from this have "relay_inv_on A (s2\<lparr>rs_pendingBE := (rs_pendingBE s2)(sn_port sn \<mapsto> b),
      rs_pendingBEID := (rs_pendingBEID s2)(sn_port sn \<mapsto> i),
      rs_store := (rs_store s2)(n \<mapsto> sn\<lparr>sn_called := True\<rparr>)\<rparr>)" for b i
    using idle unfolding relay_inv_on_def s3_def by auto
  ultimately show ?thesis
    unfolding session_stopped_def Some option.case Let_def s1_def [symmetric] s2_def [symmetric]
    by (simp add: s3_def)
qed (use assms in \<open>simp add: session_stopped_def\<close>)

lemma relay_inv_probe: "relay_inv_on A s \<Longrightarrow> relay_inv_on A (fst (probe_pending probe port s))"
  using relay_inv_no_pending [of A s port]
  by (auto simp: probe_pending_def Let_def split: option.split io_error.split)

definition not_busy :: "port \<Rightarrow> RelayServer \<Rightarrow> RelayServer" where
  "not_busy port s = s\<lparr>rs_busy := (rs_busy s)(port := False)\<rparr>"

lemma relay_inv_StopPort:
  assumes "relay_inv_on A s"
  shows "relay_inv_on A (fst (StopPort port s))"
proof -
  have 1: "relay_inv_on A (fst (stop_listener port s))"
    using assms unfolding relay_inv_on_def by (auto simp: stop_listener_def split: option.split)
  text \<open>Without its session a port must not be busy; the last step of the function sees to it.\<close>
  have 2: "relay_inv_on A (not_busy port (fst (stop_session port t)))" if "relay_inv_on A t" for t
    using that relay_inv_stop_pipe [OF that] unfolding relay_inv_on_def not_busy_def
    by (auto simp: stop_session_def case_prod_beta split: option.split)
  have 3: "relay_inv_on A (not_busy port (fst (drop_BE port t)))" if "relay_inv_on A (not_busy port t)" for t
    using that unfolding relay_inv_on_def not_busy_def by (auto simp: drop_BE_def split: option.split)
  have 4: "fst (drop_FE port t) = t" if "relay_inv_on A (not_busy port t)" for t
    using relay_invD(1) [OF that] by (simp add: drop_FE_def not_busy_def)
  from 1 have "relay_inv_on A (not_busy port (fst (drop_FE port (fst (drop_BE port (fst (stop_session port
      (fst (stop_listener port s)))))))))" by (simp add: 2 3 4)
  then show ?thesis by (simp add: StopPort_def Let_def case_prod_beta not_busy_def)
qed

lemma relay_inv_step: "rs_step s s' \<Longrightarrow> relay_inv s \<Longrightarrow> relay_inv s'"
proof (induction rule: rs_step.induct)
  case (pipe s n sn p es)
  then show ?case using relay_inv_store relay_invD(7) pp_step_inv [OF pipe(2)] by simp
next
  case (snapshot s probe ps ls)
  have "relay_inv (fst (seq_effects (probe_pending probe) ps s))"
    by (rule seq_effects_inv [where I = relay_inv]) (auto simp: relay_inv_probe snapshot)
  then show ?case by (simp add: SnapshotPortState_def Let_def case_prod_beta)
next
  case (hooks s f g)
  then show ?case by (auto simp: SetOnPortFree_def SetOnStateChange_def relay_inv_on_def)
qed (simp_all add: relay_inv_start relay_inv_admit relay_inv_stopped relay_inv_StopPort)

lemma relay_reach_inv: "rs_step\<^sup>*\<^sup>* s s' \<Longrightarrow> relay_inv s \<Longrightarrow> relay_inv s'"
  by (induction rule: rtranclp_induct) (auto intro: relay_inv_step)

lemma relay_inv_Global: "relay_inv_on A GlobalRelay"
  by (simp add: relay_inv_on_def GlobalRelay_def)

text \<open>
  C13. In every run of the relay server, in any interleaving of connections, session ends, stopped
  ports and snapshots: a busy port has a session and no waiting back end, a session in the table of a
  port is a session of that port, a waiting back end has its id beside it and only such ports have one,
  and no front end ever waits, so the branch for a waiting front end is never taken.
\<close>

theorem relay_v1_consistent:
  assumes "rs_step\<^sup>*\<^sup>* GlobalRelay s"
  shows "(\<forall>p. IsPortBusy p s \<longrightarrow> GetSession p s \<noteq> None \<and> rs_pendingBE s p = None) \<and>
    (\<forall>p n. GetSession p s = Some n \<longrightarrow> (\<exists>sn. rs_store s n = Some sn \<and> sn_port sn = p)) \<and>
    dom (rs_pendingBE s) = dom (rs_pendingBEID s) \<and> rs_pendingFE s = Map.empty"
proof -
  have "relay_inv s" by (rule relay_reach_inv [OF assms relay_inv_Global])
  then show ?thesis unfolding relay_inv_on_def IsPortBusy_def GetSession_def by (auto simp: dom_def)
qed

subsection \<open>A session that ends late\<close>

lemma rs_pipe_steps:
  assumes "pp_steps (sn_pipe sn) p" and "rs_store s n = Some sn"
  shows "rs_step\<^sup>*\<^sup>* s (s\<lparr>rs_store := (rs_store s)(n \<mapsto> sn\<lparr>sn_pipe := p\<rparr>)\<rparr>)"
  using assms(1) unfolding pp_steps_def
proof (induction rule: rtranclp_induct)
  case base
  have "s\<lparr>rs_store := (rs_store s)(n \<mapsto> sn\<lparr>sn_pipe := sn_pipe sn\<rparr>)\<rparr> = s" using assms(2) by (simp add: map_upd_triv)
  then show ?case by (simp only: rtranclp.rtrancl_refl)
next
  case (step q r)
  let ?s = "s\<lparr>rs_store := (rs_store s)(n \<mapsto> sn\<lparr>sn_pipe := q\<rparr>)\<rparr>"
  obtain es where "pp_step q (r, es)" using step(2) by blast
  from rs_step.pipe [of ?s n "sn\<lparr>sn_pipe := q\<rparr>" r es] this
  have "rs_step ?s (s\<lparr>rs_store := (rs_store s)(n \<mapsto> sn\<lparr>sn_pipe := r\<rparr>)\<rparr>)" by simp
  then show ?case by (rule rtranclp.rtrancl_into_rtrancl [OF step(3)])
qed

definition ex_bc :: "conn \<Rightarrow> BufferedConn" where
  "ex_bc c = \<lparr>bc_conn = c, bc_reader = ([], [])\<rparr>"

text \<open>A port with a session, stopped, started again and with a new session; the old one still runs.\<close>

definition ex_joined :: "listener \<Rightarrow> conn \<Rightarrow> conn \<Rightarrow> RelayServer \<Rightarrow> RelayServer" where
  "ex_joined l c d s = fst (relay_admit 9 7 ''FE'' ''f'' (ex_bc d) (fst (relay_admit 9 7 ''BE'' ''b'' (ex_bc c)
     (fst (snd (StartRelayPortWithProtocol (Inr l) 7 ''zmq'' s))))))"

definition ex_restarted :: RelayServer where
  "ex_restarted = ex_joined 1 3 4 (fst (StopPort 7 (ex_joined 0 1 2 GlobalRelay)))"

lemma rs_run_admit: "rs_step\<^sup>*\<^sup>* s t \<Longrightarrow> rs_step\<^sup>*\<^sup>* s (fst (relay_admit m port role i bc t))"
  by (meson rs_step.admit rtranclp.rtrancl_into_rtrancl)

lemma ex_joined_run: "rs_step\<^sup>*\<^sup>* s (ex_joined l c d s)"
  unfolding ex_joined_def by (intro rs_run_admit r_into_rtranclp rs_step.start)

lemma ex_restarted_run: "rs_step\<^sup>*\<^sup>* GlobalRelay ex_restarted"
proof -
  have "rs_step\<^sup>*\<^sup>* GlobalRelay (fst (StopPort 7 (ex_joined 0 1 2 GlobalRelay)))"
    by (meson ex_joined_run rs_step.stop_port rtranclp.rtrancl_into_rtrancl)
  then show ?thesis unfolding ex_restarted_def by (meson ex_joined_run rtranclp_trans)
qed

definition ex_sn :: "conn \<Rightarrow> PipeSession \<Rightarrow> RelaySession" where
  "ex_sn c p = \<lparr>sn_pipe = p, sn_port = 7, sn_be = ex_bc c, sn_beID = ''b'', sn_called = False\<rparr>"

lemmas relay_eval = relay_admit_def start_session_def StartRelayPortWithProtocol_def ex_joined_def ex_bc_def
  StopPort_def stop_listener_def stop_session_def stop_pipe_def drop_BE_def drop_FE_def case_prod_beta Let_def

lemma ex_restarted_eval:
  "rs_sessions ex_restarted 7 = Some 1" "rs_busy ex_restarted 7" "rs_pendingBE ex_restarted 7 = None"
  "rs_pendingFE ex_restarted 7 = None" "rs_next ex_restarted = 2"
  "rs_store ex_restarted 0 = Some (ex_sn 1 (fst (pp_Stop (NewPipeSession 9 2 1))))"
  "rs_store ex_restarted 1 = Some (ex_sn 3 (NewPipeSession 9 4 3))"
  by (simp_all add: ex_restarted_def GlobalRelay_def ex_sn_def relay_eval del: One_nat_def)

text \<open>
  The stop callback of a session clears the busy mark of its port even when the port has been
  stopped and taken by a newer session: there is a run in which a port is stopped, started again and
  joined anew, then the goroutines of its first session return and their callback marks the port free
  while the second session runs; two more connections are then joined into a third session on the
  same port, and nobody has stopped the second.
\<close>

theorem late_stop_clears_busy:
  "\<exists>s s'. rs_step\<^sup>*\<^sup>* GlobalRelay s \<and> GetSession 7 s = Some 1 \<and> \<not> IsPortBusy 7 s \<and>
     rs_step\<^sup>*\<^sup>* s s' \<and> GetSession 7 s' = Some 2 \<and>
     (\<exists>sn. rs_store s' 1 = Some sn \<and> sn_port sn = 7 \<and> \<not> pp_once (sn_pipe sn) \<and> \<not> pp_ended (sn_pipe sn))"
proof -
  obtain p where p: "pp_steps (fst (pp_Stop (NewPipeSession 9 2 1))) p" "pp_ended p" "pp_once p" "pp_todo p = []" "\<not> KeptBE p"
    using stopped_session_ends by blast
  define s1 where "s1 = ex_restarted\<lparr>rs_store := (rs_store ex_restarted)(0 \<mapsto> ex_sn 1 p)\<rparr>"
  define s2 where "s2 = fst (session_stopped 0 s1)"
  define s3 where "s3 = fst (relay_admit 9 7 ''BE'' ''b'' (ex_bc 5) s2)"
  define s4 where "s4 = fst (relay_admit 9 7 ''FE'' ''f'' (ex_bc 6) s3)"
  have "rs_step\<^sup>*\<^sup>* ex_restarted s1"
    using rs_pipe_steps [of "ex_sn 1 (fst (pp_Stop (NewPipeSession 9 2 1)))" p ex_restarted 0] p(1)
    by (simp add: s1_def ex_restarted_eval ex_sn_def)
  moreover have "rs_step s1 s2"
    unfolding s2_def by (rule rs_step.stopped [of s1 0 "ex_sn 1 p"]) (simp_all add: s1_def ex_sn_def p)
  ultimately have run: "rs_step\<^sup>*\<^sup>* GlobalRelay s2" using ex_restarted_run by auto
  have e2: "rs_sessions s2 7 = Some 1" "\<not> rs_busy s2 7" "rs_pendingBE s2 7 = None" "rs_pendingFE s2 7 = None"
    "rs_next s2 = 2" "rs_store s2 1 = Some (ex_sn 3 (NewPipeSession 9 4 3))"
    using p(5) by (simp_all add: s2_def session_stopped_def s1_def ex_restarted_eval ex_sn_def Let_def del: One_nat_def)
  have run': "rs_step\<^sup>*\<^sup>* s2 s4"
    unfolding s4_def s3_def by (intro rs_run_admit rtranclp.rtrancl_refl)
  have e4: "rs_sessions s4 7 = Some 2" "rs_store s4 1 = Some (ex_sn 3 (NewPipeSession 9 4 3))"
    using e2 by (simp_all add: s4_def s3_def relay_admit_def start_session_def Let_def del: One_nat_def)
  show ?thesis
    using run run' e2(1,2) e4
    by (intro exI [of _ s2] exI [of _ s4])
       (simp add: GetSession_def IsPortBusy_def ex_sn_def pp_ended_def NewPipeSession_def new_flow_def)
qed

lemma relay_v1_consistent_witness:
  "IsPortBusy 7 ex_restarted \<and> GetSession 7 ex_restarted \<noteq> None \<and> rs_pendingFE ex_restarted = Map.empty"
  using relay_v1_consistent [OF ex_restarted_run] ex_restarted_eval(2) unfolding IsPortBusy_def by blast

subsection \<open>The snapshot is exact\<close>

definition has_proto :: "RelayServer \<Rightarrow> string \<Rightarrow> port \<Rightarrow> bool" where
  "has_proto s proto p \<longleftrightarrow> rs_portProtocol s p = Some proto"

definition is_ready :: "RelayServer \<Rightarrow> string \<Rightarrow> port \<Rightarrow> bool" where
  "is_ready s proto p \<longleftrightarrow> has_proto s proto p \<and> \<not> rs_busy s p \<and> rs_pendingBE s p \<noteq> None"

definition is_bare :: "RelayServer \<Rightarrow> string \<Rightarrow> port \<Rightarrow> bool" where
  "is_bare s proto p \<longleftrightarrow> has_proto s proto p \<and> \<not> rs_busy s p \<and> rs_pendingBE s p = None"

definition is_occupied :: "RelayServer \<Rightarrow> string \<Rightarrow> port \<Rightarrow> bool" where
  "is_occupied s proto p \<longleftrightarrow> has_proto s proto p \<and> rs_busy s p"

lemma snap_relay_port_parts:
  "snap_relay_port s p t =
    \<lparr>pss_ZMQReadyPorts = pss_ZMQReadyPorts t @ filter (is_ready s ''zmq'') [p],
     pss_SRTReadyPorts = pss_SRTReadyPorts t @ filter (is_ready s ''srt'') [p],
     pss_ZMQEmptyPorts = pss_ZMQEmptyPorts t @ filter (is_bare s ''zmq'') [p],
     pss_SRTEmptyPorts = pss_SRTEmptyPorts t @ filter (is_bare s ''srt'') [p],
     pss_ZMQBusyCount = pss_ZMQBusyCount t + length (filter (is_occupied s ''zmq'') [p]),
     pss_SRTBusyCount = pss_SRTBusyCount t + length (filter (is_occupied s ''srt'') [p]),
     pss_ZMQTotal = pss_ZMQTotal t + length (filter (has_proto s ''zmq'') [p]),
     pss_SRTTotal = pss_SRTTotal t + length (filter (has_proto s ''srt'') [p])\<rparr>"
  by (cases "rs_portProtocol s p"; cases "rs_busy s p"; cases "rs_pendingBE s p")
     (auto simp: snap_relay_port_def Let_def is_ready_def is_bare_def is_occupied_def has_proto_def)

lemma filter_one:
  "filter P [x] @ filter P xs = filter P (x # xs)"
  "length (filter P [x]) + length (filter P xs) = length (filter P (x # xs))"
  by simp_all

lemma fold_snap_relay:
  "fold (snap_relay_port s) ps t =
    \<lparr>pss_ZMQReadyPorts = pss_ZMQReadyPorts t @ filter (is_ready s ''zmq'') ps,
     pss_SRTReadyPorts = pss_SRTReadyPorts t @ filter (is_ready s ''srt'') ps,
     pss_ZMQEmptyPorts = pss_ZMQEmptyPorts t @ filter (is_bare s ''zmq'') ps,
     pss_SRTEmptyPorts = pss_SRTEmptyPorts t @ filter (is_bare s ''srt'') ps,
     pss_ZMQBusyCount = pss_ZMQBusyCount t + length (filter (is_occupied s ''zmq'') ps),
     pss_SRTBusyCount = pss_SRTBusyCount t + length (filter (is_occupied s ''srt'') ps),
     pss_ZMQTotal = pss_ZMQTotal t + length (filter (has_proto s ''zmq'') ps),
     pss_SRTTotal = pss_SRTTotal t + length (filter (has_proto s ''srt'') ps)\<rparr>"
proof (induction ps arbitrary: t)
  case (Cons p ps)
  show ?case
    unfolding fold.simps o_apply Cons unfolding snap_relay_port_parts
    by (simp only: filter_one append_assoc add.assoc PortStateSnapshot.select_convs)
qed simp

text \<open>The ports reported ready: listened on, of the protocol, not busy and with a back end that is
  still there after the probe.\<close>

lemma snapshot_ready:
  assumes "iterates (rs_listeners s) lorder" and "SnapshotPortState probe porder lorder s = (snap, s', es)"
  shows "set (pss_ZMQReadyPorts snap) =
      {p. rs_listeners s p \<noteq> None \<and> is_ready s' ''zmq'' p}"
    and "set (pss_SRTReadyPorts snap) =
      {p. rs_listeners s p \<noteq> None \<and> is_ready s' ''srt'' p}"
    and "sorted (pss_ZMQReadyPorts snap)" and "sorted (pss_SRTReadyPorts snap)"
  using assms(2) iteratesD(2) [OF assms(1)]
  by (auto simp: SnapshotPortState_def Let_def case_prod_beta fold_snap_relay empty_state_def)

lemma probe_pending_frame [simp]:
  "rs_busy (fst (probe_pending probe p s)) = rs_busy s" "rs_portProtocol (fst (probe_pending probe p s)) = rs_portProtocol s"
  "rs_listeners (fst (probe_pending probe p s)) = rs_listeners s" "rs_sessions (fst (probe_pending probe p s)) = rs_sessions s"
  by (simp_all add: probe_pending_def Let_def split: option.split io_error.split)

lemma snapshot_frame:
  assumes "SnapshotPortState probe porder lorder s = (snap, s', es)"
  shows "rs_busy s' = rs_busy s" "rs_portProtocol s' = rs_portProtocol s" "rs_listeners s' = rs_listeners s"
    "rs_sessions s' = rs_sessions s"
proof -
  have s': "s' = fst (seq_effects (probe_pending probe) porder s)"
    using assms by (simp add: SnapshotPortState_def Let_def case_prod_beta)
  have "rs_busy (fst (seq_effects (probe_pending probe) ps t)) = rs_busy t \<and>
      rs_portProtocol (fst (seq_effects (probe_pending probe) ps t)) = rs_portProtocol t \<and>
      rs_listeners (fst (seq_effects (probe_pending probe) ps t)) = rs_listeners t \<and>
      rs_sessions (fst (seq_effects (probe_pending probe) ps t)) = rs_sessions t" for ps t
    by (induction ps arbitrary: t) (simp_all add: Let_def case_prod_beta)
  then show "rs_busy s' = rs_busy s" "rs_portProtocol s' = rs_portProtocol s" "rs_listeners s' = rs_listeners s"
    "rs_sessions s' = rs_sessions s"
    by (simp_all add: s')
qed

end
