(* ===== verification/Leases.thy ===== *)
theory Leases
  imports Prelude
begin

section \<open>Leases of ports\<close>

text \<open>
  What the control servers of all versions need of their port managers when something ends: a session id
  leases at most one port at a time to itself, and dropping an id frees exactly what it holds. The
  loops that drop many (an owner that leaves, an expiry sweep) follow from the one drop, whatever the
  order of the map.
\<close>

locale lease_table =
  fixes inv :: "'m \<Rightarrow> bool"
    and holder :: "'m \<Rightarrow> port \<Rightarrow> string option"
    and lease :: "'m \<Rightarrow> string \<Rightarrow> 'r option"
    and drop_lease :: "string \<Rightarrow> 'm \<Rightarrow> 'm"
  assumes drop_inv: "inv m \<Longrightarrow> inv (drop_lease sid m)"
    and drop_lease_map: "inv m \<Longrightarrow> lease (drop_lease sid m) = (lease m)(sid := None)"
    and holder_lease: "inv m \<Longrightarrow> holder m p = Some sid \<Longrightarrow> lease m sid \<noteq> None"
    and drop_holder: "inv m \<Longrightarrow> holder (drop_lease sid m) p = (if holder m p = Some sid then None else holder m p)"
begin

text \<open>Dropping every id of a list that a predicate picks out.\<close>

definition drop_if :: "('r \<Rightarrow> bool) \<Rightarrow> string \<Rightarrow> 'm \<Rightarrow> 'm" where
  "drop_if P sid m = (case lease m sid of None \<Rightarrow> m | Some r \<Rightarrow> if P r then drop_lease sid m else m)"

lemma drop_if_one:
  assumes "inv m"
  shows "inv (drop_if P sid m)"
    and "lease (drop_if P sid m) x = (if x = sid \<and> (\<exists>r. lease m x = Some r \<and> P r) then None else lease m x)"
    and "holder (drop_if P sid m) p =
      (if holder m p = Some sid \<and> (\<exists>r. lease m sid = Some r \<and> P r) then None else holder m p)"
  using assms drop_inv [OF assms] drop_lease_map [OF assms] drop_holder [OF assms]
  by (auto simp: drop_if_def split: option.split)

text \<open>Dropping many, one after the other: the invariant, the leases left and the holders left.\<close>

lemma drop_many_inv: "inv m \<Longrightarrow> inv (fold (drop_if P) sids m)"
  by (induction sids arbitrary: m) (simp_all add: drop_if_one(1))

lemma drop_many_lease:
  "inv m \<Longrightarrow> lease (fold (drop_if P) sids m) x =
     (if x \<in> set sids \<and> (\<exists>r. lease m x = Some r \<and> P r) then None else lease m x)"
  by (induction sids arbitrary: m) (auto simp: drop_if_one(1,2) split: if_splits)

lemma drop_many_holder:
  "inv m \<Longrightarrow> holder (fold (drop_if P) sids m) p =
     (case holder m p of None \<Rightarrow> None
      | Some x \<Rightarrow> if x \<in> set sids \<and> (\<exists>r. lease m x = Some r \<and> P r) then None else Some x)"
proof (induction sids arbitrary: m)
  case Nil
  then show ?case by (simp split: option.split)
next
  case (Cons sid sids)
  have inv: "inv (drop_if P sid m)" using Cons.prems by (rule drop_if_one(1))
  define hit where "hit x \<longleftrightarrow> (\<exists>r. lease m x = Some r \<and> P r)" for x
  have hit: "(\<exists>r. lease (drop_if P sid m) x = Some r \<and> P r) \<longleftrightarrow> x \<noteq> sid \<and> hit x" for x
    by (auto simp: drop_if_one(2) [OF Cons.prems] hit_def)
  have hold: "holder (drop_if P sid m) p = (if holder m p = Some sid \<and> hit sid then None else holder m p)"
    unfolding hit_def by (rule drop_if_one(3) [OF Cons.prems])
  show ?case
    unfolding fold_simps comp_apply Cons.IH [OF inv] hold hit hit_def [symmetric]
    by (cases "holder m p") auto
qed

text \<open>Dropping all ids of a sweep that meets every id of the table.\<close>

lemma drop_all:
  assumes "inv m" and "dom (lease m) \<subseteq> set sids"
  shows "lease (fold (drop_if P) sids m) x = Some r \<longleftrightarrow> lease m x = Some r \<and> \<not> P r"
  using assms by (auto simp: drop_many_lease)

lemma drop_all_holder:
  assumes "inv m" and "dom (lease m) \<subseteq> set sids"
  shows "holder (fold (drop_if P) sids m) p = Some x \<longleftrightarrow>
    holder m p = Some x \<and> (\<exists>r. lease m x = Some r \<and> \<not> P r)"
  using holder_lease [OF assms(1), of p x] assms(2)
  by (auto simp: drop_many_holder [OF assms(1)] split: option.splits)

end

end
