(* ===== verification/PortsV1.thy ===== *)
theory PortsV1
  imports RelayV1 Leases
begin

section \<open>Port reservations of the first version (v1/control/port_manager.go, reaper.go)\<close>

text \<open>
  The port manager hands out ports of two configured ranges for a limited time to control clients,
  and keeps its reservations in three maps that must agree. The reaper stops the ports of a back end
  that disconnected, two seconds later, unless it comes back. Every method of the manager holds its
  mutex; the busy marks and the snapshot of the relay server are arguments, as are times, random ids
  and map orders. A \<open>*Client\<close> is named by its connection.
\<close>

subsection \<open>Data\<close>

record PortAllocPayload =
  pa_ZMQStartPort :: port
  pa_ZMQEndPort :: port
  pa_SRTStartPort :: port
  pa_SRTEndPort :: port

record PortAcquirePayload =
  aq_RequestID :: string
  aq_NeedZMQ :: bool
  aq_NeedSRT :: bool
  aq_TTLSeconds :: int

record PortGrantPayload1 =
  gr_RequestID :: string
  gr_SessionID :: string
  gr_ZMQPort :: port
  gr_SRTPort :: port
  gr_ExpiresAt :: int

record portReservation =
  rv_owner :: conn
  rv_requestID :: string
  rv_sessionID :: string
  rv_zmqPort :: port
  rv_srtPort :: port
  rv_expiresAt :: time

record PortManager =
  pm_zmqPorts :: "port list"
  pm_srtPorts :: "port list"
  pm_bySession :: "string \<Rightarrow> portReservation option"
  pm_byPort :: "port \<Rightarrow> string option"
  pm_byOwner :: "conn \<Rightarrow> string set option"

text \<open>The errors of \<open>Acquire\<close> and \<open>AcquireFromReady\<close>, by their message.\<close>

datatype acquire_error = OwnerNil | NeedOne | NeedOnlyOne | NoZMQPort | NoSRTPort | NoReadyZMQPort | NoReadySRTPort

definition NewPortManager :: PortManager where
  "NewPortManager =
     \<lparr>pm_zmqPorts = [], pm_srtPorts = [], pm_bySession = Map.empty, pm_byPort = Map.empty, pm_byOwner = Map.empty\<rparr>"

text \<open>The zero \<open>time.Time\<close> (the year 1, in nanoseconds of Unix time), and a product of int64 durations.\<close>

definition zero_time :: time where "zero_time = - 62135596800 * second"

definition wrap64 :: "int \<Rightarrow> int" where
  "wrap64 i = (i + 2 ^ 63) mod 2 ^ 64 - 2 ^ 63"

subsection \<open>Operations\<close>

definition port_range :: "port \<Rightarrow> port \<Rightarrow> port list" where
  "port_range a b = (if a \<le> b then [a..b] else [])"

definition SetRanges :: "PortAllocPayload \<Rightarrow> PortManager \<Rightarrow> (nat \<times> nat) \<times> PortManager" where
  "SetRanges p pm =
     (let z = port_range (pa_ZMQStartPort p) (pa_ZMQEndPort p); s = port_range (pa_SRTStartPort p) (pa_SRTEndPort p)
      in ((length z, length s), pm\<lparr>pm_zmqPorts := z, pm_srtPorts := s\<rparr>))"

definition deleteReservation :: "portReservation \<Rightarrow> PortManager \<Rightarrow> PortManager" where
  "deleteReservation r pm =
     (let pm = pm\<lparr>pm_bySession := (pm_bySession pm)(rv_sessionID r := None)\<rparr>;
          pm = (if rv_zmqPort r > 0 then pm\<lparr>pm_byPort := (pm_byPort pm)(rv_zmqPort r := None)\<rparr> else pm);
          pm = (if rv_srtPort r > 0 then pm\<lparr>pm_byPort := (pm_byPort pm)(rv_srtPort r := None)\<rparr> else pm)
      in case pm_byOwner pm (rv_owner r) of
           None \<Rightarrow> pm
         | Some S \<Rightarrow> (let S = S - {rv_sessionID r}
                     in pm\<lparr>pm_byOwner := (pm_byOwner pm)(rv_owner r := (if S = {} then None else Some S))\<rparr>))"

definition expired :: "time \<Rightarrow> portReservation \<Rightarrow> bool" where
  "expired now r \<longleftrightarrow> rv_expiresAt r \<noteq> zero_time \<and> now > rv_expiresAt r"

text \<open>One iteration of the sweep and the sweep over an order of the map.\<close>

definition sweep_one :: "time \<Rightarrow> string \<Rightarrow> PortManager \<Rightarrow> PortManager" where
  "sweep_one now sid pm =
     (case pm_bySession pm sid of
        None \<Rightarrow> pm
      | Some r \<Rightarrow> if expired now r then deleteReservation r pm else pm)"

definition sweepLocked :: "time \<Rightarrow> string list \<Rightarrow> PortManager \<Rightarrow> PortManager" where
  "sweepLocked now order pm = fold (sweep_one now) order pm"

definition pickFreePort :: "(port \<Rightarrow> bool) \<Rightarrow> port list \<Rightarrow> PortManager \<Rightarrow> port option" where
  "pickFreePort busy candidates pm =
     find (\<lambda>p. 0 < p \<and> pm_byPort pm p = None \<and> \<not> busy p) candidates"

definition check_acquire :: "conn option \<Rightarrow> PortAcquirePayload \<Rightarrow> acquire_error option" where
  "check_acquire owner req =
     (if owner = None then Some OwnerNil
      else if \<not> aq_NeedZMQ req \<and> \<not> aq_NeedSRT req then Some NeedOne
      else if aq_NeedZMQ req \<and> aq_NeedSRT req then Some NeedOnlyOne else None)"

definition ttl_of :: "PortAcquirePayload \<Rightarrow> duration" where
  "ttl_of req =
     (let ttl = wrap64 (aq_TTLSeconds req * second) in if ttl \<le> 0 then 30 * second else ttl)"

text \<open>The new reservation in the three maps, and its grant.\<close>

definition install ::
    "time \<Rightarrow> string \<Rightarrow> conn \<Rightarrow> PortAcquirePayload \<Rightarrow> port \<Rightarrow> port \<Rightarrow> PortManager \<Rightarrow> PortGrantPayload1 \<times> PortManager" where
  "install now sid owner req zmqPort srtPort pm =
     (let expiresAt = now + ttl_of req;
          resv = \<lparr>rv_owner = owner, rv_requestID = aq_RequestID req, rv_sessionID = sid, rv_zmqPort = zmqPort,
                  rv_srtPort = srtPort, rv_expiresAt = expiresAt\<rparr>;
          pm = pm\<lparr>pm_bySession := (pm_bySession pm)(sid \<mapsto> resv)\<rparr>;
          pm = (if zmqPort > 0 then pm\<lparr>pm_byPort := (pm_byPort pm)(zmqPort \<mapsto> sid)\<rparr> else pm);
          pm = (if srtPort > 0 then pm\<lparr>pm_byPort := (pm_byPort pm)(srtPort \<mapsto> sid)\<rparr> else pm);
          S = (case pm_byOwner pm owner of None \<Rightarrow> {} | Some S \<Rightarrow> S)
      in (\<lparr>gr_RequestID = aq_RequestID req, gr_SessionID = sid, gr_ZMQPort = zmqPort, gr_SRTPort = srtPort,
           gr_ExpiresAt = unix_milli expiresAt\<rparr>,
          pm\<lparr>pm_byOwner := (pm_byOwner pm)(owner \<mapsto> insert sid S)\<rparr>))"

definition Acquire ::
    "time \<Rightarrow> string list \<Rightarrow> (port \<Rightarrow> bool) \<Rightarrow> string \<Rightarrow> conn option \<Rightarrow> PortAcquirePayload \<Rightarrow> PortManager \<Rightarrow>
      (acquire_error + PortGrantPayload1) \<times> PortManager" where
  "Acquire now order busy sid owner req pm =
     (case check_acquire owner req of
        Some e \<Rightarrow> (Inl e, pm)
      | None \<Rightarrow>
          (let pm = sweepLocked now order pm in
           if aq_NeedZMQ req
           then (case pickFreePort busy (pm_zmqPorts pm) pm of
                   None \<Rightarrow> (Inl NoZMQPort, pm)
                 | Some p \<Rightarrow> (let (g, pm) = install now sid (the owner) req p 0 pm in (Inr g, pm)))
           else (case pickFreePort busy (pm_srtPorts pm) pm of
                   None \<Rightarrow> (Inl NoSRTPort, pm)
                 | Some p \<Rightarrow> (let (g, pm) = install now sid (the owner) req 0 p pm in (Inr g, pm)))))"

definition AcquireFromReady ::
    "time \<Rightarrow> string list \<Rightarrow> PortStateSnapshot \<Rightarrow> (port \<Rightarrow> bool) \<Rightarrow> string \<Rightarrow> conn option \<Rightarrow> PortAcquirePayload \<Rightarrow>
      PortManager \<Rightarrow> (acquire_error + PortGrantPayload1) \<times> PortManager" where
  "AcquireFromReady now order snap busy sid owner req pm =
     (case check_acquire owner req of
        Some e \<Rightarrow> (Inl e, pm)
      | None \<Rightarrow>
          (let pm = sweepLocked now order pm;
               candidates = (if aq_NeedZMQ req then pss_ZMQReadyPorts snap else pss_SRTReadyPorts snap);
               none = (if aq_NeedZMQ req then NoReadyZMQPort else NoReadySRTPort)
           in if candidates = [] then (Inl none, pm)
              else (case pickFreePort busy candidates pm of
                  None \<Rightarrow> (Inl none, pm)
                | Some p \<Rightarrow>
                    (let (g, pm) = (if aq_NeedZMQ req then install now sid (the owner) req p 0 pm
                                    else install now sid (the owner) req 0 p pm)
                     in (Inr g, pm)))))"

definition pm_Release :: "conn option \<Rightarrow> string \<Rightarrow> PortManager \<Rightarrow> bool \<times> PortManager" where
  "pm_Release owner sessionID pm =
     (if owner = None \<or> sessionID = '''' then (False, pm)
      else (case pm_bySession pm sessionID of
              None \<Rightarrow> (False, pm)
            | Some r \<Rightarrow> if rv_owner r \<noteq> the owner then (False, pm) else (True, deleteReservation r pm)))"

definition release_sid :: "string \<Rightarrow> nat \<times> PortManager \<Rightarrow> nat \<times> PortManager" where
  "release_sid sid acc =
     (let (n, pm) = acc in
      case pm_bySession pm sid of None \<Rightarrow> (n, pm) | Some r \<Rightarrow> (n + 1, deleteReservation r pm))"

definition ReleaseAllForOwner :: "string list \<Rightarrow> conn option \<Rightarrow> PortManager \<Rightarrow> nat \<times> PortManager" where
  "ReleaseAllForOwner order owner pm =
     (case owner of
        None \<Rightarrow> (0, pm)
      | Some c \<Rightarrow>
          (let S = (case pm_byOwner pm c of None \<Rightarrow> {} | Some S \<Rightarrow> S) in
           if S = {} then (0, pm)
           else (let (n, pm) = fold release_sid order (0, pm)
                 in (n, pm\<lparr>pm_byOwner := (pm_byOwner pm)(c := None)\<rparr>))))"

definition ReleaseByPort :: "port \<Rightarrow> PortManager \<Rightarrow> PortManager" where
  "ReleaseByPort port pm =
     (if port \<le> 0 then pm
      else (case pm_byPort pm port of
              None \<Rightarrow> pm
            | Some sid \<Rightarrow>
                if sid = '''' then pm
                else (case pm_bySession pm sid of
                        None \<Rightarrow> pm\<lparr>pm_byPort := (pm_byPort pm)(port := None)\<rparr>
                      | Some r \<Rightarrow> deleteReservation r pm)))"

text \<open>\<open>newSessionID\<close> from 12 random bytes, or from the time when there are none.\<close>

definition hex_encode :: "nat list \<Rightarrow> string" where
  "hex_encode bs = concat (map (\<lambda>b. [''0123456789abcdef'' ! (b div 16 mod 16), ''0123456789abcdef'' ! (b mod 16)]) bs)"

definition newSessionID :: "int + nat list \<Rightarrow> string" where
  "newSessionID rand =
     (case rand of
        Inl now \<Rightarrow> hex_encode (map of_char (show_int now))
      | Inr bytes \<Rightarrow> hex_encode (take 12 bytes))"

subsection \<open>The three maps agree\<close>

definition holds_port :: "portReservation \<Rightarrow> port \<Rightarrow> bool" where
  "holds_port r p \<longleftrightarrow> 0 < p \<and> (rv_zmqPort r = p \<or> rv_srtPort r = p)"

definition pm_inv :: "PortManager \<Rightarrow> bool" where
  "pm_inv pm \<longleftrightarrow>
     (\<forall>sid r. pm_bySession pm sid = Some r \<longrightarrow> rv_sessionID r = sid \<and> sid \<noteq> '''' \<and> (\<exists>p. holds_port r p) \<and>
        (\<exists>S. pm_byOwner pm (rv_owner r) = Some S \<and> sid \<in> S)) \<and>
     (\<forall>p sid. pm_byPort pm p = Some sid \<longleftrightarrow> (\<exists>r. pm_bySession pm sid = Some r \<and> holds_port r p)) \<and>
     (\<forall>c S. pm_byOwner pm c = Some S \<longrightarrow> S \<noteq> {} \<and>
        (\<forall>sid \<in> S. \<exists>r. pm_bySession pm sid = Some r \<and> rv_owner r = c))"

lemma pm_invD:
  assumes "pm_inv pm"
  shows "pm_bySession pm sid = Some r \<Longrightarrow> rv_sessionID r = sid" "pm_bySession pm sid = Some r \<Longrightarrow> sid \<noteq> []"
    "pm_bySession pm sid = Some r \<Longrightarrow> \<exists>p. holds_port r p"
    "pm_bySession pm sid = Some r \<Longrightarrow> \<exists>S. pm_byOwner pm (rv_owner r) = Some S \<and> sid \<in> S"
    "pm_byPort pm p = Some sid \<longleftrightarrow> (\<exists>r. pm_bySession pm sid = Some r \<and> holds_port r p)"
    "pm_byOwner pm c = Some S \<Longrightarrow> S \<noteq> {}"
    "pm_byOwner pm c = Some S \<Longrightarrow> sid \<in> S \<Longrightarrow> \<exists>r. pm_bySession pm sid = Some r \<and> rv_owner r = c"
  using assms unfolding pm_inv_def by blast+

lemma pm_inv_New: "pm_inv NewPortManager"
  by (simp add: pm_inv_def NewPortManager_def)

lemma delete_fields:
  "pm_bySession (deleteReservation r pm) = (pm_bySession pm)(rv_sessionID r := None)"
  "pm_byPort (deleteReservation r pm) = (\<lambda>p. if holds_port r p then None else pm_byPort pm p)"
  "pm_byOwner (deleteReservation r pm) = (\<lambda>c. if c = rv_owner r
     then (case pm_byOwner pm c of None \<Rightarrow> None
           | Some S \<Rightarrow> if S - {rv_sessionID r} = {} then None else Some (S - {rv_sessionID r}))
     else pm_byOwner pm c)"
  "pm_zmqPorts (deleteReservation r pm) = pm_zmqPorts pm" "pm_srtPorts (deleteReservation r pm) = pm_srtPorts pm"
  by (auto simp: deleteReservation_def Let_def holds_port_def fun_eq_iff split: option.split)

lemma pm_inv_delete:
  assumes "pm_inv pm" and "pm_bySession pm sid = Some r"
  shows "pm_inv (deleteReservation r pm)"
proof -
  have sid: "rv_sessionID r = sid" using pm_invD(1) [OF assms] .
  have uniq: "sid' = sid" if "pm_bySession pm sid' = Some r'" "holds_port r' p" "holds_port r p" for sid' r' p
    using pm_invD(5) [OF assms(1), of p] that assms(2) by (metis option.inject)
  have own: "\<exists>S. pm_byOwner (deleteReservation r pm) (rv_owner r') = Some S \<and> sid' \<in> S"
    if "pm_bySession pm sid' = Some r'" "sid' \<noteq> sid" for sid' r'
    using pm_invD(4) [OF assms(1) that(1)] that(2) by (auto simp: delete_fields sid)
  have backs: "S \<noteq> {} \<and> (\<forall>x\<in>S. \<exists>r'. pm_bySession pm x = Some r' \<and> x \<noteq> sid \<and> rv_owner r' = c)"
    if "pm_byOwner (deleteReservation r pm) c = Some S" for c S
  proof (cases "c = rv_owner r")
    case True
    with that have "(case pm_byOwner pm c of None \<Rightarrow> None
        | Some S \<Rightarrow> if S - {sid} = {} then None else Some (S - {sid})) = Some S"
      by (simp only: delete_fields sid refl if_True)
    then obtain S0 where "pm_byOwner pm c = Some S0" "S = S0 - {sid}" "S \<noteq> {}"
      by (auto simp del: Diff_eq_empty_iff split: option.splits if_splits)
    then show ?thesis using pm_invD(7) [OF assms(1)] by blast
  next
    case False
    then have S: "pm_byOwner pm c = Some S" using that by (simp add: delete_fields)
    have "sid \<notin> S" using pm_invD(7) [OF assms(1) S] assms(2) False by force
    then show ?thesis using pm_invD(6,7) [OF assms(1) S] by metis
  qed
  show ?thesis
    unfolding pm_inv_def
  proof (intro conjI allI impI)
    fix sid' r' assume "pm_bySession (deleteReservation r pm) sid' = Some r'"
    then have r': "pm_bySession pm sid' = Some r'" "sid' \<noteq> sid" by (auto simp: delete_fields sid split: if_splits)
    show "rv_sessionID r' = sid'" "sid' \<noteq> []" "\<exists>p. holds_port r' p"
      using pm_invD(1-3) [OF assms(1) r'(1)] by auto
    show "\<exists>S. pm_byOwner (deleteReservation r pm) (rv_owner r') = Some S \<and> sid' \<in> S" by (rule own [OF r'])
  next
    fix p sid'
    show "pm_byPort (deleteReservation r pm) p = Some sid' \<longleftrightarrow>
        (\<exists>r'. pm_bySession (deleteReservation r pm) sid' = Some r' \<and> holds_port r' p)"
    proof (cases "holds_port r p")
      case True
      then show ?thesis using uniq [of sid' _ p] by (auto simp: delete_fields sid)
    next
      case False
      then show ?thesis using pm_invD(5) [OF assms(1), of p sid'] assms(2) by (auto simp: delete_fields sid)
    qed
  next
    fix c S assume "pm_byOwner (deleteReservation r pm) c = Some S"
    from backs [OF this] show "S \<noteq> {}"
      "\<forall>x \<in> S. \<exists>r'. pm_bySession (deleteReservation r pm) x = Some r' \<and> rv_owner r' = c"
      by (auto simp: delete_fields sid)
  qed
qed

text \<open>
  The manager is a lease table: ending the lease of a session id frees what it holds, and nothing else.
  A sweep is a loop of such ends, so the laws of the table say what it leaves.
\<close>

definition end_lease :: "string \<Rightarrow> PortManager \<Rightarrow> PortManager" where
  "end_lease sid pm = (case pm_bySession pm sid of None \<Rightarrow> pm | Some r \<Rightarrow> deleteReservation r pm)"

interpretation leases1: lease_table pm_inv pm_byPort pm_bySession end_lease
proof unfold_locales
  fix m sid p x
  assume inv: "pm_inv m"
  show "pm_inv (end_lease sid m)" using inv by (simp add: end_lease_def pm_inv_delete split: option.split)
  show "pm_bySession (end_lease sid m) = (pm_bySession m)(sid := None)"
    using pm_invD(1) [OF inv] by (auto simp: end_lease_def delete_fields split: option.split)
  show "pm_bySession m x \<noteq> None" if "pm_byPort m p = Some x" using pm_invD(5) [OF inv] that by auto
  show "pm_byPort (end_lease sid m) p = (if pm_byPort m p = Some sid then None else pm_byPort m p)"
  proof (cases "pm_bySession m sid")
    case None
    then show ?thesis using pm_invD(5) [OF inv, of p sid] by (auto simp: end_lease_def)
  next
    case (Some r)
    have "holds_port r p \<longleftrightarrow> pm_byPort m p = Some sid" using pm_invD(5) [OF inv, of p sid] Some by auto
    then show ?thesis by (simp add: end_lease_def Some delete_fields)
  qed
qed

lemma sweep_one_drop: "sweep_one now = leases1.drop_if (expired now)"
  by (auto simp: sweep_one_def leases1.drop_if_def end_lease_def fun_eq_iff split: option.split)

lemma sweep_one_ranges:
  "pm_zmqPorts (sweep_one now sid pm) = pm_zmqPorts pm" "pm_srtPorts (sweep_one now sid pm) = pm_srtPorts pm"
  by (auto simp: sweep_one_def delete_fields split: option.split)

text \<open>A sweep over the map removes exactly the expired reservations, in any order.\<close>

lemma sweep_ranges:
  "pm_zmqPorts (sweepLocked now order pm) = pm_zmqPorts pm" "pm_srtPorts (sweepLocked now order pm) = pm_srtPorts pm"
  unfolding sweepLocked_def by (induction order arbitrary: pm) (simp_all add: sweep_one_ranges)

lemma sweep_session:
  "pm_inv pm \<Longrightarrow> pm_bySession (sweepLocked now order pm) =
     (\<lambda>x. if x \<in> set order \<and> (\<exists>r. pm_bySession pm x = Some r \<and> expired now r) then None else pm_bySession pm x)"
  by (auto simp: sweepLocked_def sweep_one_drop leases1.drop_many_lease fun_eq_iff)

lemma sweep_inv: "pm_inv pm \<Longrightarrow> pm_inv (sweepLocked now order pm)"
  unfolding sweepLocked_def sweep_one_drop by (rule leases1.drop_many_inv)



lemma sweep_exact:
  assumes "pm_inv pm" and "iterates (pm_bySession pm) order"
  shows "pm_bySession (sweepLocked now order pm) sid = Some r \<longleftrightarrow> pm_bySession pm sid = Some r \<and> \<not> expired now r"
  using iteratesD(2) [OF assms(2)] by (auto simp: sweep_session [OF assms(1)])

subsection \<open>Grants\<close>

lemma pm_inv_install:
  assumes inv: "pm_inv pm" and sid: "sid \<noteq> ''''" "pm_bySession pm sid = None"
    and port: "0 < z \<or> 0 < t" and free: "0 < z \<Longrightarrow> pm_byPort pm z = None" "0 < t \<Longrightarrow> pm_byPort pm t = None"
  shows "pm_inv (snd (install now sid c req z t pm))"
proof -
  let ?r = "\<lparr>rv_owner = c, rv_requestID = aq_RequestID req, rv_sessionID = sid, rv_zmqPort = z,
             rv_srtPort = t, rv_expiresAt = now + ttl_of req\<rparr>"
  let ?pm = "snd (install now sid c req z t pm)"
  have fields: "pm_bySession ?pm = (pm_bySession pm)(sid \<mapsto> ?r)"
    "pm_byPort ?pm = (\<lambda>p. if holds_port ?r p then Some sid else pm_byPort pm p)"
    "pm_byOwner ?pm = (pm_byOwner pm)(c \<mapsto> insert sid (case pm_byOwner pm c of None \<Rightarrow> {} | Some S \<Rightarrow> S))"
    by (auto simp: install_def Let_def holds_port_def fun_eq_iff)
  have held: "pm_byPort pm p = None" if "holds_port ?r p" for p
    using that free by (auto simp: holds_port_def)
  have old: "\<not> holds_port r p" if "pm_bySession pm s = Some r" "holds_port ?r p" for s r p
    using pm_invD(5) [OF inv, of p s] held [OF that(2)] that(1) by auto
  show ?thesis
    unfolding pm_inv_def
  proof (intro conjI allI impI)
    fix s r assume r: "pm_bySession ?pm s = Some r"
    show "rv_sessionID r = s" "s \<noteq> []" "\<exists>p. holds_port r p"
      using r pm_invD(1-3) [OF inv] sid(1) port by (auto simp: fields holds_port_def split: if_splits)
    show "\<exists>S. pm_byOwner ?pm (rv_owner r) = Some S \<and> s \<in> S"
      using r pm_invD(4) [OF inv] by (fastforce simp: fields split: if_splits)
  next
    fix p s
    show "pm_byPort ?pm p = Some s \<longleftrightarrow> (\<exists>r. pm_bySession ?pm s = Some r \<and> holds_port r p)"
    proof (cases "holds_port ?r p")
      case True
      then show ?thesis using old by (auto simp: fields)
    next
      case False
      then show ?thesis using pm_invD(5) [OF inv, of p s] sid(2) by (auto simp: fields)
    qed
  next
    fix d S assume S: "pm_byOwner ?pm d = Some S"
    show "S \<noteq> {}" using S pm_invD(6) [OF inv] by (auto simp: fields split: if_splits)
    have "pm_bySession pm x \<noteq> None" if "x \<in> S" "x \<noteq> sid" for x
      using S that pm_invD(7) [OF inv] by (force simp: fields split: if_splits option.splits)
    show "\<forall>x \<in> S. \<exists>r. pm_bySession ?pm x = Some r \<and> rv_owner r = d"
      using S pm_invD(7) [OF inv] sid(2) by (force simp: fields split: if_splits option.splits)
  qed
qed

text \<open>Both ways to acquire are one grant from a list of candidates.\<close>

definition grant_from ::
    "time \<Rightarrow> (port \<Rightarrow> bool) \<Rightarrow> string \<Rightarrow> conn \<Rightarrow> PortAcquirePayload \<Rightarrow> port list \<Rightarrow> acquire_error \<Rightarrow> PortManager \<Rightarrow>
      (acquire_error + PortGrantPayload1) \<times> PortManager" where
  "grant_from now busy sid c req candidates none pm =
     (case pickFreePort busy candidates pm of
        None \<Rightarrow> (Inl none, pm)
      | Some p \<Rightarrow> (let (g, pm) = install now sid c req (if aq_NeedZMQ req then p else 0) (if aq_NeedZMQ req then 0 else p) pm
                  in (Inr g, pm)))"

lemma check_acquireD:
  assumes "check_acquire owner req = None"
  obtains c where "owner = Some c" "aq_NeedSRT req \<longleftrightarrow> \<not> aq_NeedZMQ req"
  using assms by (auto simp: check_acquire_def split: if_splits)

lemma Acquire_grant:
  "check_acquire owner req = None \<Longrightarrow>
   Acquire now order busy sid owner req pm =
     (let pm = sweepLocked now order pm
      in grant_from now busy sid (the owner) req (if aq_NeedZMQ req then pm_zmqPorts pm else pm_srtPorts pm)
           (if aq_NeedZMQ req then NoZMQPort else NoSRTPort) pm)"
  by (simp add: Acquire_def grant_from_def Let_def split: option.split)

lemma AcquireFromReady_grant:
  "check_acquire owner req = None \<Longrightarrow>
   AcquireFromReady now order snap busy sid owner req pm =
     grant_from now busy sid (the owner) req (if aq_NeedZMQ req then pss_ZMQReadyPorts snap else pss_SRTReadyPorts snap)
       (if aq_NeedZMQ req then NoReadyZMQPort else NoReadySRTPort) (sweepLocked now order pm)"
  by (simp add: AcquireFromReady_def grant_from_def Let_def pickFreePort_def split: option.split)

lemma pickFreePort_Some:
  "pickFreePort busy ps pm = Some p \<Longrightarrow> p \<in> set ps \<and> 0 < p \<and> pm_byPort pm p = None \<and> \<not> busy p"
  by (auto simp: pickFreePort_def find_Some_iff)

lemma pickFreePort_None:
  "pickFreePort busy ps pm = None \<longleftrightarrow> (\<forall>p \<in> set ps. 0 < p \<longrightarrow> pm_byPort pm p \<noteq> None \<or> busy p)"
  by (auto simp: pickFreePort_def find_None_iff)

lemma pm_inv_grant:
  assumes "pm_inv pm" "sid \<noteq> ''''" "pm_bySession pm sid = None"
  shows "pm_inv (snd (grant_from now busy sid c req ps e pm))"
proof (cases "pickFreePort busy ps pm")
  case (Some p)
  have "pm_inv (snd (install now sid c req (if aq_NeedZMQ req then p else 0) (if aq_NeedZMQ req then 0 else p) pm))"
    by (rule pm_inv_install) (use assms pickFreePort_Some [OF Some] in \<open>auto split: if_splits\<close>)
  with Some show ?thesis by (simp add: grant_from_def case_prod_beta Let_def)
qed (use assms in \<open>simp add: grant_from_def\<close>)

text \<open>The reservations that are live at a time, and the ports they hold.\<close>

definition live :: "time \<Rightarrow> PortManager \<Rightarrow> string \<Rightarrow> portReservation option" where
  "live now pm = (\<lambda>sid. case pm_bySession pm sid of None \<Rightarrow> None | Some r \<Rightarrow> if expired now r then None else Some r)"

definition reserved_at :: "time \<Rightarrow> PortManager \<Rightarrow> port \<Rightarrow> bool" where
  "reserved_at now pm p \<longleftrightarrow> (\<exists>sid r. live now pm sid = Some r \<and> holds_port r p)"

lemma sweep_live:
  assumes "pm_inv pm" "iterates (pm_bySession pm) order"
  shows "pm_bySession (sweepLocked now order pm) = live now pm"
    and "pm_byPort (sweepLocked now order pm) p \<noteq> None \<longleftrightarrow> reserved_at now pm p"
proof -
  show s: "pm_bySession (sweepLocked now order pm) = live now pm"
    using iteratesD(2) [OF assms(2)] by (auto simp: sweep_session [OF assms(1)] live_def fun_eq_iff split: option.split)
  show "pm_byPort (sweepLocked now order pm) p \<noteq> None \<longleftrightarrow> reserved_at now pm p"
    using pm_invD(5) [OF sweep_inv [OF assms(1)], of now order p] by (auto simp: reserved_at_def s)
qed

text \<open>What a grant may be: an error only when no candidate is free, with the expired reservations
  swept and nothing else changed; a port only when it is free, reserved for the time asked.\<close>

definition grant_spec ::
    "time \<Rightarrow> (port \<Rightarrow> bool) \<Rightarrow> string \<Rightarrow> conn \<Rightarrow> PortAcquirePayload \<Rightarrow> port list \<Rightarrow> PortManager \<Rightarrow>
      (acquire_error + PortGrantPayload1) \<times> PortManager \<Rightarrow> bool" where
  "grant_spec now busy sid c req candidates pm out \<longleftrightarrow>
     pm_inv (snd out) \<and>
     (case fst out of
        Inl e \<Rightarrow> pm_bySession (snd out) = live now pm \<and>
          {p \<in> set candidates. 0 < p \<and> \<not> busy p \<and> \<not> reserved_at now pm p} = {}
      | Inr g \<Rightarrow> (\<exists>p \<in> set candidates. 0 < p \<and> \<not> busy p \<and> \<not> reserved_at now pm p \<and>
          gr_SessionID g = sid \<and> gr_RequestID g = aq_RequestID req \<and>
          gr_ExpiresAt g = unix_milli (now + ttl_of req) \<and>
          (gr_ZMQPort g, gr_SRTPort g) = (if aq_NeedZMQ req then (p, 0) else (0, p)) \<and>
          pm_byPort (snd out) p = Some sid \<and>
          pm_bySession (snd out) = (live now pm)(sid \<mapsto>
            \<lparr>rv_owner = c, rv_requestID = aq_RequestID req, rv_sessionID = sid, rv_zmqPort = gr_ZMQPort g,
             rv_srtPort = gr_SRTPort g, rv_expiresAt = now + ttl_of req\<rparr>)))"

lemma grant_from_spec:
  assumes inv: "pm_inv pm" and order: "iterates (pm_bySession pm) order" and sid: "sid \<noteq> ''''" "pm_bySession pm sid = None"
  shows "grant_spec now busy sid c req ps pm (grant_from now busy sid c req ps e (sweepLocked now order pm))"
proof -
  let ?pm = "sweepLocked now order pm"
  have fresh: "pm_bySession ?pm sid = None" using sid(2) by (simp add: sweep_live(1) [OF inv order] live_def)
  have inv': "pm_inv (snd (grant_from now busy sid c req ps e ?pm))"
    by (rule pm_inv_grant [OF sweep_inv [OF inv] sid(1) fresh])
  show ?thesis
  proof (cases "pickFreePort busy ps ?pm")
    case None
    then have "\<forall>p \<in> set ps. 0 < p \<longrightarrow> reserved_at now pm p \<or> busy p"
      using sweep_live(2) [OF inv order] by (simp add: pickFreePort_None)
    with None inv' show ?thesis by (auto simp: grant_spec_def grant_from_def sweep_live(1) [OF inv order])
  next
    case (Some p)
    note p = pickFreePort_Some [OF Some]
    have "\<not> reserved_at now pm p" using p sweep_live(2) [OF inv order, of now p] by simp
    with p Some inv' show ?thesis
      unfolding grant_spec_def
      by (auto simp: grant_from_def install_def Let_def sweep_live(1) [OF inv order] intro!: bexI [of _ p])
  qed
qed

text \<open>
  C12. Acquiring a port. On a consistent manager, with a valid request and a fresh session id,
  \<open>Acquire\<close> (from the configured range) and \<open>AcquireFromReady\<close> (from the ports that the relay
  server reports ready) keep the three maps consistent and fail only when each candidate is busy or
  reserved; otherwise the grant names a candidate that is neither, reserved under the new session id
  for the owner until its time to live has passed. Expired reservations are gone and all
  others stay.
\<close>
theorem acquire_exact:
  assumes "pm_inv pm" and "iterates (pm_bySession pm) order" and "sid \<noteq> ''''" and "pm_bySession pm sid = None"
    and "check_acquire (Some c) req = None"
  shows "grant_spec now busy sid c req (if aq_NeedZMQ req then pm_zmqPorts pm else pm_srtPorts pm) pm
      (Acquire now order busy sid (Some c) req pm) \<and>
    grant_spec now busy sid c req (if aq_NeedZMQ req then pss_ZMQReadyPorts snap else pss_SRTReadyPorts snap) pm
      (AcquireFromReady now order snap busy sid (Some c) req pm)"
  using grant_from_spec [OF assms(1-4), of now busy c req] sweep_ranges [of now order]
  by (simp_all add: Acquire_grant [OF assms(5)] AcquireFromReady_grant [OF assms(5)] Let_def)

definition ex_zmq :: PortAcquirePayload where
  "ex_zmq = \<lparr>aq_RequestID = ''r'', aq_NeedZMQ = True, aq_NeedSRT = False, aq_TTLSeconds = 0\<rparr>"

definition ex_manager :: PortManager where
  "ex_manager = NewPortManager\<lparr>pm_zmqPorts := [2302, 2303]\<rparr>"

lemma ex_manager_inv: "pm_inv ex_manager" "iterates (pm_bySession ex_manager) []" "pm_bySession ex_manager sid = None"
  using pm_inv_New by (simp_all add: ex_manager_def pm_inv_def NewPortManager_def iterates_def)

lemma acquire_exact_witness:
  "(\<exists>g. fst (Acquire 0 [] (\<lambda>p. p = 2302) ''s'' (Some 7) ex_zmq ex_manager) = Inr g \<and> gr_ZMQPort g = 2303) \<and>
   pm_inv (snd (Acquire 0 [] (\<lambda>p. p = 2302) ''s'' (Some 7) ex_zmq ex_manager))"
proof
  have ok: "check_acquire (Some 7) ex_zmq = None" by (simp add: check_acquire_def ex_zmq_def)
  show "pm_inv (snd (Acquire 0 [] (\<lambda>p. p = 2302) ''s'' (Some 7) ex_zmq ex_manager))"
    using acquire_exact [OF ex_manager_inv(1,2) _ ex_manager_inv(3) ok, of "''s''" 0 "\<lambda>p. p = 2302" undefined]
    by (simp add: grant_spec_def)
  show "\<exists>g. fst (Acquire 0 [] (\<lambda>p. p = 2302) ''s'' (Some 7) ex_zmq ex_manager) = Inr g \<and> gr_ZMQPort g = 2303"
    unfolding Acquire_grant [OF ok]
    by (simp add: grant_from_def pickFreePort_def install_def Let_def ex_zmq_def ex_manager_def
        NewPortManager_def sweepLocked_def)
qed

text \<open>The time to live is a product of int64 durations: a large request wraps to a short one.\<close>

lemma ttl_wraps:
  "ttl_of (ex_zmq\<lparr>aq_TTLSeconds := 18446744074\<rparr>) = 290448384"
  "ttl_of (ex_zmq\<lparr>aq_TTLSeconds := 9223372037\<rparr>) = 30 * second"
  by (simp_all add: ttl_of_def wrap64_def Let_def second_def)

subsection \<open>Releases and runs\<close>

lemma release_fold:
  assumes "pm_inv pm" "\<forall>x \<in> set order. x \<in> dom (pm_bySession pm)" "distinct order"
  shows "fst (fold release_sid order (n, pm)) = n + length order \<and>
    pm_inv (snd (fold release_sid order (n, pm))) \<and>
    pm_bySession (snd (fold release_sid order (n, pm))) = (\<lambda>x. if x \<in> set order then None else pm_bySession pm x)"
  using assms
proof (induction order arbitrary: n pm)
  case (Cons sid order)
  then obtain r where r: "pm_bySession pm sid = Some r" by auto
  let ?pm = "deleteReservation r pm"
  have sid: "pm_bySession ?pm = (pm_bySession pm)(sid := None)"
    using pm_invD(1) [OF Cons.prems(1) r] by (simp add: delete_fields)
  have "\<forall>x \<in> set order. x \<in> dom (pm_bySession ?pm)" using Cons.prems(2,3) by (auto simp: sid)
  from Cons.IH [OF pm_inv_delete [OF Cons.prems(1) r] this] Cons.prems(3)
  show ?case by (auto simp: release_sid_def r sid fun_eq_iff)
qed simp

lemma no_owner_left:
  assumes "pm_inv pm" "\<And>sid r. pm_bySession pm sid = Some r \<Longrightarrow> rv_owner r \<noteq> c"
  shows "pm_byOwner pm c = None"
proof (rule ccontr)
  assume "pm_byOwner pm c \<noteq> None"
  then obtain S where S: "pm_byOwner pm c = Some S" by blast
  then obtain sid where "sid \<in> S" using pm_invD(6) [OF assms(1)] by blast
  with S show False using pm_invD(7) [OF assms(1)] assms(2) by blast
qed

lemma release_all_runs:
  assumes inv: "pm_inv pm"
    and order: "distinct order" "set order = {sid. \<exists>r. pm_bySession pm sid = Some r \<and> rv_owner r = c}"
  shows "fst (ReleaseAllForOwner order (Some c) pm) = length order \<and>
    pm_inv (snd (ReleaseAllForOwner order (Some c) pm)) \<and>
    pm_bySession (snd (ReleaseAllForOwner order (Some c) pm)) =
      (\<lambda>sid. case pm_bySession pm sid of None \<Rightarrow> None | Some r \<Rightarrow> if rv_owner r = c then None else Some r)"
proof (cases "pm_byOwner pm c")
  case None
  then have "rv_owner r \<noteq> c" if "pm_bySession pm sid = Some r" for sid r using pm_invD(4) [OF inv that] by auto
  moreover from this have "{sid. \<exists>r. pm_bySession pm sid = Some r \<and> rv_owner r = c} = {}" by blast
  then have "set order = {}" using order(2) by (simp only:)
  then have "order = []" by simp
  ultimately show ?thesis
    using None inv by (simp add: ReleaseAllForOwner_def fun_eq_iff split: option.split)
next
  case (Some S)
  have S: "S = {sid. \<exists>r. pm_bySession pm sid = Some r \<and> rv_owner r = c}"
    using pm_invD(7) [OF inv Some] pm_invD(4) [OF inv] Some by fastforce
  obtain n pm' where out: "fold release_sid order (0, pm) = (n, pm')" by (cases "fold release_sid order (0, pm)")
  have "\<forall>x \<in> set order. x \<in> dom (pm_bySession pm)" using order(2) by auto
  from release_fold [OF inv this order(1), of 0] out
  have f: "n = length order" "pm_inv pm'" "pm_bySession pm' = (\<lambda>x. if x \<in> set order then None else pm_bySession pm x)"
    by auto
  have "pm_byOwner pm' c = None" by (rule no_owner_left [OF f(2)]) (auto simp: f(3) order(2) split: if_splits)
  then have "(pm_byOwner pm')(c := None) = pm_byOwner pm'" by auto
  then have same: "pm'\<lparr>pm_byOwner := (pm_byOwner pm')(c := None)\<rparr> = pm'" by simp
  have "ReleaseAllForOwner order (Some c) pm = (n, pm')"
    using Some pm_invD(6) [OF inv Some] by (simp add: ReleaseAllForOwner_def out same)
  then show ?thesis
    using f order by (auto simp: fun_eq_iff split: option.split)
qed

text \<open>
  A client that leaves gives all its ports back. On a consistent manager,
  \<open>ReleaseAllForOwner\<close> removes exactly the reservations of that client, whatever the order of its map,
  counts them, and leaves the maps consistent.
\<close>
theorem release_all_exact:
  assumes inv: "pm_inv pm"
    and order: "distinct order" "set order = {sid. \<exists>r. pm_bySession pm sid = Some r \<and> rv_owner r = c}"
  shows "fst (ReleaseAllForOwner order (Some c) pm) = card {sid. \<exists>r. pm_bySession pm sid = Some r \<and> rv_owner r = c} \<and>
    pm_inv (snd (ReleaseAllForOwner order (Some c) pm)) \<and>
    pm_bySession (snd (ReleaseAllForOwner order (Some c) pm)) =
      (\<lambda>sid. case pm_bySession pm sid of None \<Rightarrow> None | Some r \<Rightarrow> if rv_owner r = c then None else Some r)"
  using release_all_runs [OF assms] distinct_card [OF order(1)] by (simp add: order(2))

lemma release_all_exact_witness:
  "fst (ReleaseAllForOwner [] (Some 7) ex_manager) = 0 \<and>
   pm_bySession (snd (ReleaseAllForOwner [''s''] (Some 7)
     (snd (install 0 ''s'' 7 ex_zmq 2302 0 ex_manager)))) ''s'' = None"
proof
  have none: "{sid. \<exists>r. pm_bySession ex_manager sid = Some r \<and> rv_owner r = 7} = {}"
    by (simp add: ex_manager_def NewPortManager_def)
  show "fst (ReleaseAllForOwner [] (Some 7) ex_manager) = 0"
    using release_all_exact [OF ex_manager_inv(1), of "[]" 7] by (simp add: none del: Collect_empty_eq)
  let ?pm = "snd (install 0 ''s'' 7 ex_zmq 2302 0 ex_manager)"
  have inv: "pm_inv ?pm"
    by (rule pm_inv_install) (simp_all add: ex_manager_inv, simp_all add: ex_manager_def NewPortManager_def)
  have owned: "set [''s''] = {sid. \<exists>r. pm_bySession ?pm sid = Some r \<and> rv_owner r = 7}"
    by (auto simp: install_def Let_def ex_manager_def NewPortManager_def split: if_splits)
  show "pm_bySession (snd (ReleaseAllForOwner [''s''] (Some 7) ?pm)) ''s'' = None"
    using release_all_exact [OF inv _ owned] by (simp add: install_def Let_def)
qed

text \<open>The calls of the manager; a new session id is 12 random bytes, taken to be fresh.\<close>

inductive pm_step :: "PortManager \<Rightarrow> PortManager \<Rightarrow> bool" where
  ranges: "pm_step pm (snd (SetRanges p pm))"
| acquire: "sid \<noteq> '''' \<Longrightarrow> pm_bySession pm sid = None \<Longrightarrow> pm_step pm (snd (Acquire now order busy sid owner req pm))"
| acquire_ready: "sid \<noteq> '''' \<Longrightarrow> pm_bySession pm sid = None \<Longrightarrow>
    pm_step pm (snd (AcquireFromReady now order snap busy sid owner req pm))"
| release: "pm_step pm (snd (pm_Release owner sid pm))"
| release_all: "distinct order \<Longrightarrow> set order = {sid. \<exists>r. pm_bySession pm sid = Some r \<and> rv_owner r = c} \<Longrightarrow>
    pm_step pm (snd (ReleaseAllForOwner order (Some c) pm))"
| release_port: "pm_step pm (ReleaseByPort port pm)"
| sweep: "pm_step pm (sweepLocked now order pm)"

lemma pm_inv_acquire:
  assumes "pm_inv pm" "sid \<noteq> ''''" "pm_bySession pm sid = None"
  shows "pm_inv (snd (Acquire now order busy sid owner req pm))"
    and "pm_inv (snd (AcquireFromReady now order snap busy sid owner req pm))"
proof -
  let ?pm = "sweepLocked now order pm"
  have "pm_inv ?pm" "pm_bySession ?pm sid = None"
    using assms sweep_inv [OF assms(1)] sweep_session [OF assms(1)] by simp_all
  note g = pm_inv_grant [OF this(1) assms(2) this(2)]
  show "pm_inv (snd (Acquire now order busy sid owner req pm))"
    by (cases "check_acquire owner req")
       (use g assms(1) in \<open>simp_all add: Acquire_grant Let_def\<close>, simp add: Acquire_def)
  show "pm_inv (snd (AcquireFromReady now order snap busy sid owner req pm))"
    by (cases "check_acquire owner req")
       (use g assms(1) in \<open>simp_all add: AcquireFromReady_grant Let_def\<close>, simp add: AcquireFromReady_def)
qed

lemma pm_step_inv: "pm_step pm pm' \<Longrightarrow> pm_inv pm \<Longrightarrow> pm_inv pm'"
proof (induction rule: pm_step.induct)
  case (ranges pm p)
  then show ?case by (simp add: SetRanges_def Let_def pm_inv_def)
next
  case (release pm owner sid)
  then show ?case by (auto simp: pm_Release_def pm_inv_delete split: option.split)
next
  case (release_all order pm c)
  then show ?case using release_all_runs by blast
next
  case (release_port pm port)
  have "pm_bySession pm sid \<noteq> None" if "pm_byPort pm port = Some sid" for sid
    using pm_invD(5) [OF release_port] that by auto
  then show ?case
    using release_port by (auto simp: ReleaseByPort_def pm_inv_delete split: option.split)
qed (simp_all add: pm_inv_acquire sweep_inv)

lemma pm_run_inv: "pm_step\<^sup>*\<^sup>* NewPortManager pm \<Longrightarrow> pm_inv pm"
  by (induction rule: rtranclp_induct) (auto simp: pm_inv_New pm_step_inv)

text \<open>
  C7. Reservations exclude each other. Whatever calls the manager has answered since it was
  made, two reservations never hold the same port, the port map names the one that does, and the
  set of its owner contains it.
\<close>
theorem reservations_exclusive:
  assumes "pm_step\<^sup>*\<^sup>* NewPortManager pm"
    and "pm_bySession pm sid = Some r" and "holds_port r p"
    and "pm_bySession pm sid' = Some r'" and "holds_port r' p"
  shows "sid' = sid \<and> pm_byPort pm p = Some sid \<and> (\<exists>S. pm_byOwner pm (rv_owner r) = Some S \<and> sid \<in> S)"
  using pm_invD(4,5) [OF pm_run_inv [OF assms(1)]] assms(2-5) by (metis option.inject)

definition ex_held :: PortManager where
  "ex_held = snd (Acquire 0 [] (\<lambda>p. False) ''s'' (Some 7) ex_zmq ex_manager)"

lemma ex_held_run: "pm_step\<^sup>*\<^sup>* NewPortManager ex_held"
proof -
  have "ex_manager = snd (SetRanges \<lparr>pa_ZMQStartPort = 2302, pa_ZMQEndPort = 2303, pa_SRTStartPort = 1, pa_SRTEndPort = 0\<rparr> NewPortManager)"
    by (simp add: ex_manager_def SetRanges_def port_range_def Let_def NewPortManager_def upto.simps)
  then have "pm_step NewPortManager ex_manager" by (metis pm_step.ranges)
  moreover have "pm_step ex_manager ex_held"
    unfolding ex_held_def by (rule pm_step.acquire) (simp_all add: ex_manager_inv)
  ultimately show ?thesis by (meson rtranclp.simps)
qed

lemma ex_held_eval:
  "pm_bySession ex_held ''s'' = Some \<lparr>rv_owner = 7, rv_requestID = ''r'', rv_sessionID = ''s'', rv_zmqPort = 2302,
     rv_srtPort = 0, rv_expiresAt = 30 * second\<rparr>"
proof -
  have ok: "check_acquire (Some 7) ex_zmq = None" by (simp add: check_acquire_def ex_zmq_def)
  show ?thesis
    unfolding ex_held_def Acquire_grant [OF ok]
    by (simp add: grant_from_def pickFreePort_def install_def Let_def ex_zmq_def ex_manager_def ttl_of_def wrap64_def
        NewPortManager_def sweepLocked_def second_def)
qed

lemma reservations_exclusive_witness: "pm_byPort ex_held 2302 = Some ''s''"
  using reservations_exclusive [OF ex_held_run ex_held_eval _ ex_held_eval, of 2302] by (simp add: holds_port_def)

subsection \<open>The manager and the relay server\<close>

text \<open>
  A front end is sent to a waiting back end. When a front end acquires a port from the
  snapshot that the relay server takes at that time, a port it is granted has a listener of that
  protocol, no session, and a back end that answered the probe and waits; so the front end that
  connects there with its role starts the session with that back end.
\<close>
theorem ready_grant_meets_back_end:
  assumes snap: "iterates (rs_listeners s) lorder" "SnapshotPortState probe porder lorder s = (snap, s', es)"
    and pm: "pm_inv pm" "iterates (pm_bySession pm) order" "sid \<noteq> ''''" "pm_bySession pm sid = None"
    and req: "check_acquire (Some c) req = None"
    and grant: "AcquireFromReady now order snap (\<lambda>p. IsPortBusy p s') sid (Some c) req pm = (Inr g, pm')"
  shows "\<exists>p be. p = (if aq_NeedZMQ req then gr_ZMQPort g else gr_SRTPort g) \<and> rs_listeners s' p \<noteq> None \<and>
    rs_portProtocol s' p = Some (if aq_NeedZMQ req then ''zmq'' else ''srt'') \<and>
    rs_pendingBE s' p = Some be \<and>
    GetSession p (fst (relay_admit m p ''FE'' i fe s')) = Some (rs_next s') \<and>
    (\<exists>sn. rs_store (fst (relay_admit m p ''FE'' i fe s')) (rs_next s') = Some sn \<and> sn_be sn = be \<and> sn_port sn = p)"
proof -
  let ?cands = "if aq_NeedZMQ req then pss_ZMQReadyPorts snap else pss_SRTReadyPorts snap"
  have "grant_spec now (\<lambda>p. IsPortBusy p s') sid c req ?cands pm (Inr g, pm')"
    using grant_from_spec [OF pm, of now "\<lambda>p. IsPortBusy p s'" c req ?cands
        "if aq_NeedZMQ req then NoReadyZMQPort else NoReadySRTPort"] grant AcquireFromReady_grant [OF req] by simp
  then obtain p where p: "p \<in> set ?cands" "(gr_ZMQPort g, gr_SRTPort g) = (if aq_NeedZMQ req then (p, 0) else (0, p))"
    by (auto simp: grant_spec_def)
  have named: "p = (if aq_NeedZMQ req then gr_ZMQPort g else gr_SRTPort g)"
    using p(2) by (simp split: if_splits)
  have "rs_listeners s p \<noteq> None \<and> is_ready s' (if aq_NeedZMQ req then ''zmq'' else ''srt'') p"
    using p(1) snapshot_ready(1,2) [OF snap] by (simp split: if_splits)
  then obtain be where be: "rs_listeners s p \<noteq> None" "\<not> rs_busy s' p" "rs_pendingBE s' p = Some be"
    "rs_portProtocol s' p = Some (if aq_NeedZMQ req then ''zmq'' else ''srt'')"
    by (auto simp: is_ready_def has_proto_def)
  have "rs_listeners s' p \<noteq> None" using be(1) snapshot_frame(3) [OF snap(2)] by simp
  with named be show ?thesis by (simp add: relay_admit_def start_session_def Let_def GetSession_def)
qed

definition ex_waiting :: RelayServer where
  "ex_waiting = fst (relay_admit 9 7 ''BE'' ''b'' (ex_bc 1) (fst (snd (StartRelayPortWithProtocol (Inr 0) 7 ''zmq'' GlobalRelay))))"

lemma ex_waiting_eval:
  "rs_listeners ex_waiting = [7 \<mapsto> 0]" "rs_busy ex_waiting = (\<lambda>p. False)" "rs_pendingBE ex_waiting = [7 \<mapsto> ex_bc 1]"
  "rs_portProtocol ex_waiting = [7 \<mapsto> ''zmq'']"
  by (simp_all add: ex_waiting_def GlobalRelay_def relay_admit_def StartRelayPortWithProtocol_def Let_def)

lemma ex_waiting_snapshot:
  "pss_ZMQReadyPorts (fst (SnapshotPortState (\<lambda>_. None) [] [7] ex_waiting)) = [7]"
  "fst (snd (SnapshotPortState (\<lambda>_. None) [] [7] ex_waiting)) = ex_waiting"
  by (simp_all add: SnapshotPortState_def snap_relay_port_def Let_def ex_waiting_eval empty_state_def)

lemma ready_grant_meets_back_end_witness:
  "\<exists>be. rs_pendingBE ex_waiting 7 = Some be \<and>
     GetSession 7 (fst (relay_admit 9 7 ''FE'' ''f'' (ex_bc 2) ex_waiting)) = Some (rs_next ex_waiting)"
proof -
  obtain snap es where snap: "SnapshotPortState (\<lambda>_. None) [] [7] ex_waiting = (snap, ex_waiting, es)"
    "pss_ZMQReadyPorts snap = [7]"
    using ex_waiting_snapshot by (metis prod.collapse)
  have ok: "check_acquire (Some 3) ex_zmq = None" by (simp add: check_acquire_def ex_zmq_def)
  obtain g pm' where g: "AcquireFromReady 0 [] snap (\<lambda>p. IsPortBusy p ex_waiting) ''s'' (Some 3) ex_zmq ex_manager = (Inr g, pm')"
    "gr_ZMQPort g = 7"
    unfolding AcquireFromReady_grant [OF ok]
    by (simp add: grant_from_def pickFreePort_def install_def Let_def ex_zmq_def ex_manager_def snap(2) ex_waiting_eval
        NewPortManager_def sweepLocked_def IsPortBusy_def)
  have it: "iterates (rs_listeners ex_waiting) [7]" by (simp add: iterates_def ex_waiting_eval)
  have z: "aq_NeedZMQ ex_zmq" by (simp add: ex_zmq_def)
  from ready_grant_meets_back_end [OF it snap(1) ex_manager_inv(1,2) _ ex_manager_inv(3) ok g(1), of 9 "''f''" "ex_bc 2"]
  show ?thesis by (simp add: z g(2)) blast
qed

text \<open>A session id is 24 hexadecimal digits, so it is not empty.\<close>

lemma newSessionID_length: "length bytes = 12 \<Longrightarrow> length (newSessionID (Inr bytes)) = 24"
proof -
  have "length (hex_encode bs) = 2 * length bs" for bs by (induction bs) (simp_all add: hex_encode_def)
  then show "length bytes = 12 \<Longrightarrow> length (newSessionID (Inr bytes)) = 24" by (simp add: newSessionID_def)
qed

end
