(* ===== verification/ReaperV1.thy ===== *)
theory ReaperV1
  imports RelayV1
begin

section \<open>The reaper of the first version (v1/control/reaper.go)\<close>

text \<open>
  When a back end disconnects, the reaper stops the sessions of its ports at once and the ports
  themselves after a delay, unless it comes back before. A delayed kill is a timer of the Go runtime:
  armed until its time comes or it is stopped; then its function runs in a goroutine of its own,
  which takes the reaper's mutex for its entry and stops the port after it has left it. Those
  are separate steps here, since anything can happen between them.
\<close>

subsection \<open>State\<close>

datatype timer_state = Armed | Fired | Killing | Over

record kill_timer =
  kt_port :: port
  kt_at :: time
  kt_state :: timer_state

record Reaper =
  rp_pendingKills :: "port \<Rightarrow> nat option"
  rp_timers :: "nat \<Rightarrow> kill_timer option"
  rp_next :: nat
  rp_relay :: RelayServer

definition GlobalReaper :: "RelayServer \<Rightarrow> Reaper" where
  "GlobalReaper s = \<lparr>rp_pendingKills = Map.empty, rp_timers = Map.empty, rp_next = 0, rp_relay = s\<rparr>"

subsection \<open>Operations\<close>

definition reaper_timeout :: "duration \<Rightarrow> duration" where
  "reaper_timeout cfg = (if cfg = 0 then 2 * second else cfg)"

text \<open>One iteration of \<open>ScheduleKill\<close>: the timer, its entry, and the session's end.\<close>

definition schedule_port :: "time \<Rightarrow> duration \<Rightarrow> port \<Rightarrow> Reaper \<Rightarrow> Reaper \<times> rs_effect list" where
  "schedule_port now timeout port r =
     (if rp_pendingKills r port \<noteq> None then (r, [])
      else (let t = rp_next r;
                r1 = r\<lparr>rp_timers := (rp_timers r)(t \<mapsto> \<lparr>kt_port = port, kt_at = now + timeout, kt_state = Armed\<rparr>),
                       rp_next := t + 1, rp_pendingKills := (rp_pendingKills r)(port \<mapsto> t)\<rparr>
            in case GetSession port (rp_relay r1) of
                 None \<Rightarrow> (r1, [])
               | Some n \<Rightarrow> (let (s, es) = stop_pipe n (rp_relay r1) in (r1\<lparr>rp_relay := s\<rparr>, es))))"

definition ScheduleKill :: "time \<Rightarrow> duration \<Rightarrow> port list \<Rightarrow> Reaper \<Rightarrow> Reaper \<times> rs_effect list" where
  "ScheduleKill now cfg ports r = seq_effects (schedule_port now (reaper_timeout cfg)) ports r"

text \<open>\<open>timer.Stop\<close> has no effect on a timer whose function has been started.\<close>

definition timer_Stop :: "nat \<Rightarrow> Reaper \<Rightarrow> Reaper" where
  "timer_Stop t r =
     (case rp_timers r t of
        None \<Rightarrow> r
      | Some tm \<Rightarrow> if kt_state tm = Armed then r\<lparr>rp_timers := (rp_timers r)(t \<mapsto> tm\<lparr>kt_state := Over\<rparr>)\<rparr> else r)"

definition cancel_port :: "port \<Rightarrow> Reaper \<Rightarrow> Reaper" where
  "cancel_port port r =
     (case rp_pendingKills r port of
        None \<Rightarrow> r
      | Some t \<Rightarrow> (let r = timer_Stop t r in r\<lparr>rp_pendingKills := (rp_pendingKills r)(port := None)\<rparr>))"

definition CancelKill :: "port list \<Rightarrow> Reaper \<Rightarrow> Reaper" where
  "CancelKill ports r = fold cancel_port ports r"

definition set_timer :: "nat \<Rightarrow> timer_state \<Rightarrow> Reaper \<Rightarrow> Reaper" where
  "set_timer t st r =
     (case rp_timers r t of
        None \<Rightarrow> r
      | Some tm \<Rightarrow> r\<lparr>rp_timers := (rp_timers r)(t \<mapsto> tm\<lparr>kt_state := st\<rparr>)\<rparr>)"

text \<open>\<open>executeKill\<close> of the timer \<open>t\<close> for its port: under the mutex, and after it.\<close>

definition kill_forget :: "nat \<Rightarrow> port \<Rightarrow> Reaper \<Rightarrow> Reaper" where
  "kill_forget t port r = set_timer t Killing (r\<lparr>rp_pendingKills := (rp_pendingKills r)(port := None)\<rparr>)"

definition kill_stop :: "nat \<Rightarrow> port \<Rightarrow> Reaper \<Rightarrow> Reaper \<times> rs_effect list" where
  "kill_stop t port r =
     (let (s, es) = StopPort port (rp_relay r) in (set_timer t Over (r\<lparr>rp_relay := s\<rparr>), es))"

definition executeKill :: "nat \<Rightarrow> port \<Rightarrow> Reaper \<Rightarrow> Reaper \<times> rs_effect list" where
  "executeKill t port r = kill_stop t port (kill_forget t port r)"

subsection \<open>Runs\<close>

datatype reap_event = Scheduled "port list" | Cancelled "port list" | TimerFired nat | Forgot port | Stopped port | RelayMoved

inductive reap_step :: "Reaper \<Rightarrow> reap_event \<Rightarrow> Reaper \<Rightarrow> bool" where
  schedule: "reap_step r (Scheduled ports) (fst (ScheduleKill now cfg ports r))"
| cancel: "reap_step r (Cancelled ports) (CancelKill ports r)"
| fire: "rp_timers r t = Some tm \<Longrightarrow> kt_state tm = Armed \<Longrightarrow> kt_at tm \<le> now \<Longrightarrow> reap_step r (TimerFired t) (set_timer t Fired r)"
| forget: "rp_timers r t = Some tm \<Longrightarrow> kt_state tm = Fired \<Longrightarrow> reap_step r (Forgot (kt_port tm)) (kill_forget t (kt_port tm) r)"
| stop: "rp_timers r t = Some tm \<Longrightarrow> kt_state tm = Killing \<Longrightarrow>
    reap_step r (Stopped (kt_port tm)) (fst (kill_stop t (kt_port tm) r))"
| relay: "rs_step (rp_relay r) s \<Longrightarrow> reap_step r RelayMoved (r\<lparr>rp_relay := s\<rparr>)"

inductive reap_run :: "Reaper \<Rightarrow> reap_event list \<Rightarrow> Reaper \<Rightarrow> bool" where
  stay: "reap_run r [] r"
| move: "reap_run r es r' \<Longrightarrow> reap_step r' e r'' \<Longrightarrow> reap_run r (es @ [e]) r''"

text \<open>A property of the timers of a port, by the port and the state of each.\<close>

definition timer_is :: "port \<Rightarrow> timer_state \<Rightarrow> nat \<Rightarrow> Reaper \<Rightarrow> bool" where
  "timer_is p st t r \<longleftrightarrow> (case rp_timers r t of None \<Rightarrow> False | Some tm \<Rightarrow> kt_port tm = p \<and> kt_state tm = st)"

definition timer_in :: "timer_state set \<Rightarrow> port \<Rightarrow> Reaper \<Rightarrow> bool" where
  "timer_in S p r \<longleftrightarrow> (\<exists>t. \<exists>st \<in> S. timer_is p st t r)"

text \<open>The timers that may still kill the port, and the kills already started.\<close>

abbreviation can_kill :: "port \<Rightarrow> Reaper \<Rightarrow> bool" where
  "can_kill \<equiv> timer_in {Armed, Fired, Killing}"

abbreviation killing :: "port \<Rightarrow> Reaper \<Rightarrow> bool" where
  "killing \<equiv> timer_in {Fired, Killing}"

definition reap_inv :: "Reaper \<Rightarrow> bool" where
  "reap_inv r \<longleftrightarrow>
     (\<forall>p t. rp_pendingKills r p = Some t \<longrightarrow> (\<exists>tm. rp_timers r t = Some tm \<and> kt_port tm = p)) \<and>
     (\<forall>t tm. rp_timers r t = Some tm \<longrightarrow> t < rp_next r)"

text \<open>Each armed timer of the port is in the map, unless a kill that was overtaken by a cancel removed it.\<close>

definition tracked :: "port \<Rightarrow> Reaper \<Rightarrow> bool" where
  "tracked p r \<longleftrightarrow> (\<forall>t. timer_is p Armed t r \<or> timer_is p Fired t r \<longrightarrow> rp_pendingKills r p = Some t)"

subsection \<open>Cancelling\<close>

lemma schedule_port_fields:
  "rp_pendingKills (fst (schedule_port now d p r)) =
     (if rp_pendingKills r p = None then (rp_pendingKills r)(p \<mapsto> rp_next r) else rp_pendingKills r)"
  "rp_timers (fst (schedule_port now d p r)) =
     (if rp_pendingKills r p = None
      then (rp_timers r)(rp_next r \<mapsto> \<lparr>kt_port = p, kt_at = now + d, kt_state = Armed\<rparr>) else rp_timers r)"
  "rp_next (fst (schedule_port now d p r)) = (if rp_pendingKills r p = None then rp_next r + 1 else rp_next r)"
  by (auto simp: schedule_port_def Let_def case_prod_beta split: option.split)

definition disarm :: "kill_timer \<Rightarrow> kill_timer" where
  "disarm tm = (if kt_state tm = Armed then tm\<lparr>kt_state := Over\<rparr> else tm)"

lemma disarm_simps [simp]:
  "kt_port (disarm tm) = kt_port tm" "kt_state (disarm tm) = (if kt_state tm = Armed then Over else kt_state tm)"
  by (simp_all add: disarm_def)

lemma cancel_port_fields:
  "rp_pendingKills (cancel_port p r) = (rp_pendingKills r)(p := None)"
  "rp_timers (cancel_port p r) =
     (\<lambda>t. if rp_pendingKills r p = Some t then map_option disarm (rp_timers r t) else rp_timers r t)"
  "rp_next (cancel_port p r) = rp_next r" "rp_relay (cancel_port p r) = rp_relay r"
  by (auto simp: cancel_port_def timer_Stop_def disarm_def Let_def fun_eq_iff split: option.split)

lemma set_timer_fields [simp]:
  "rp_pendingKills (set_timer t st r) = rp_pendingKills r" "rp_next (set_timer t st r) = rp_next r"
  "rp_relay (set_timer t st r) = rp_relay r"
  "rp_timers (set_timer t st r) =
     (\<lambda>u. if u = t then map_option (kt_state_update (\<lambda>_. st)) (rp_timers r t) else rp_timers r u)"
  by (auto simp: set_timer_def fun_eq_iff split: option.split)

lemma kill_stop_fields [simp]:
  "rp_pendingKills (fst (kill_stop t p r)) = rp_pendingKills r" "rp_next (fst (kill_stop t p r)) = rp_next r"
  "rp_timers (fst (kill_stop t p r)) = rp_timers (set_timer t Over r)"
  "rp_relay (fst (kill_stop t p r)) = fst (StopPort p (rp_relay r))"
  by (simp_all add: kill_stop_def case_prod_beta fun_eq_iff)

lemma kill_forget_fields [simp]:
  "rp_pendingKills (kill_forget t p r) = (rp_pendingKills r)(p := None)" "rp_next (kill_forget t p r) = rp_next r"
  "rp_timers (kill_forget t p r) = rp_timers (set_timer t Killing r)" "rp_relay (kill_forget t p r) = rp_relay r"
  by (simp_all add: kill_forget_def fun_eq_iff)

text \<open>Both loops keep what each of their iterations keeps.\<close>

lemma schedule_keeps:
  assumes "Q r" "\<And>p r. p \<in> set ports \<Longrightarrow> Q r \<Longrightarrow> Q (fst (schedule_port now (reaper_timeout d) p r))"
  shows "Q (fst (ScheduleKill now d ports r))"
  using assms unfolding ScheduleKill_def
  by (induction ports arbitrary: r) (simp_all add: case_prod_beta Let_def)

lemma cancel_keeps:
  assumes "Q r" "\<And>p r. p \<in> set ports \<Longrightarrow> Q r \<Longrightarrow> Q (cancel_port p r)"
  shows "Q (CancelKill ports r)"
  using assms unfolding CancelKill_def by (induction ports arbitrary: r) simp_all

lemma ports_kept:
  "map_option kt_port (rp_timers (cancel_port p r) t) = map_option kt_port (rp_timers r t)"
  "map_option kt_port (rp_timers (set_timer u st r) t) = map_option kt_port (rp_timers r t)"
  by (cases "rp_timers r t"; simp add: cancel_port_fields) (cases "rp_timers r u"; simp)

lemma timers_kept:
  "rp_timers (cancel_port p r) t = None \<longleftrightarrow> rp_timers r t = None"
  "rp_timers (set_timer u st r) t = None \<longleftrightarrow> rp_timers r t = None"
  by (simp_all add: cancel_port_fields)

lemma reap_inv_parts:
  "reap_inv r \<longleftrightarrow>
     (\<forall>p t. rp_pendingKills r p = Some t \<longrightarrow> map_option kt_port (rp_timers r t) = Some p) \<and>
     (\<forall>t. rp_timers r t \<noteq> None \<longrightarrow> t < rp_next r)"
  unfolding reap_inv_def by auto

lemma reap_inv_cancel: "reap_inv r \<Longrightarrow> reap_inv (cancel_port p r)"
  unfolding reap_inv_parts ports_kept timers_kept by (auto simp: cancel_port_fields(1,3))

lemma reap_inv_schedule: "reap_inv r \<Longrightarrow> reap_inv (fst (schedule_port now d p r))"
  unfolding reap_inv_parts schedule_port_fields by (auto simp: less_Suc_eq)

lemma reap_inv_set: "reap_inv r \<Longrightarrow> reap_inv (set_timer t st r)"
  unfolding reap_inv_parts ports_kept timers_kept by simp

lemma reap_inv_less: "reap_inv r \<Longrightarrow> reap_inv (r\<lparr>rp_pendingKills := (rp_pendingKills r)(p := None)\<rparr>)"
  "reap_inv r \<Longrightarrow> reap_inv (r\<lparr>rp_relay := s\<rparr>)"
  unfolding reap_inv_parts by auto

lemma reap_inv_step: "reap_step r e r' \<Longrightarrow> reap_inv r \<Longrightarrow> reap_inv r'"
proof (induction rule: reap_step.induct)
  case (schedule r ports now cfg)
  then show ?case by - (rule schedule_keeps; simp add: reap_inv_schedule)
next
  case (cancel r ports)
  then show ?case by - (rule cancel_keeps; simp add: reap_inv_cancel)
qed (unfold kill_forget_def kill_stop_def case_prod_beta fst_conv Let_def, (intro reap_inv_set reap_inv_less, assumption)+)

lemma timer_is_Some: "rp_timers r t = Some tm \<Longrightarrow> timer_is p st t r \<longleftrightarrow> kt_port tm = p \<and> kt_state tm = st"
  by (simp add: timer_is_def)

lemma timer_is_here: "rp_timers r t = Some tm \<Longrightarrow> kt_state tm = st \<Longrightarrow> timer_is (kt_port tm) st t r"
  by (simp add: timer_is_def)

lemma timer_is_pending [simp]:
  "timer_is p st t (r\<lparr>rp_pendingKills := m\<rparr>) = timer_is p st t r" "timer_is p st t (r\<lparr>rp_relay := s\<rparr>) = timer_is p st t r"
  by (simp_all add: timer_is_def)

lemma timer_is_schedule:
  "reap_inv r \<Longrightarrow> timer_is p st t (fst (schedule_port now d q r)) \<longleftrightarrow>
     timer_is p st t r \<or> t = rp_next r \<and> p = q \<and> st = Armed \<and> rp_pendingKills r q = None"
  by (auto simp: timer_is_def schedule_port_fields reap_inv_def split: option.split)

lemma timer_is_cancel:
  assumes "reap_inv r"
  shows "timer_is p st t (cancel_port q r) \<longleftrightarrow>
     (if rp_pendingKills r p = Some t \<and> p = q
      then st \<noteq> Armed \<and> timer_is p st t r \<or> st = Over \<and> timer_is p Armed t r else timer_is p st t r)"
proof (cases "rp_timers r t")
  case (Some tm)
  then have "kt_port tm = x" if "rp_pendingKills r x = Some t" for x
    using assms that Some unfolding reap_inv_parts by fastforce
  with Some show ?thesis by (auto simp: timer_is_def cancel_port_fields)
qed (simp add: timer_is_def cancel_port_fields)

lemma timer_is_set:
  "timer_is p st t (set_timer u st' r) \<longleftrightarrow>
     (if t = u then st = st' \<and> (\<exists>s. timer_is p s t r) else timer_is p st t r)"
  by (cases "rp_timers r t") (auto simp: timer_is_def)

lemma tracked_schedule:
  "reap_inv r \<Longrightarrow> tracked p r \<Longrightarrow> tracked p (fst (schedule_port now d q r))"
  unfolding tracked_def by (auto simp: timer_is_schedule schedule_port_fields(1))

lemma tracked_cancel:
  "reap_inv r \<Longrightarrow> tracked p r \<Longrightarrow> (p = q \<Longrightarrow> \<not> timer_in {Fired} p r) \<Longrightarrow> tracked p (cancel_port q r)"
  unfolding tracked_def timer_in_def by (auto simp: timer_is_cancel cancel_port_fields(1))

lemma tracked_step:
  assumes "reap_step r e r'" "reap_inv r" "tracked p r"
    and "\<And>ps. e = Cancelled ps \<Longrightarrow> p \<in> set ps \<Longrightarrow> \<not> timer_in {Fired} p r"
  shows "tracked p r'"
  using assms
proof (induction rule: reap_step.induct)
  case (schedule r ports now cfg)
  have "(\<lambda>r. reap_inv r \<and> tracked p r) (fst (ScheduleKill now cfg ports r))"
    by (rule schedule_keeps) (use schedule in \<open>simp_all add: reap_inv_schedule tracked_schedule\<close>)
  then show ?case by simp
next
  case (cancel r ports)
  have "(\<lambda>r. reap_inv r \<and> tracked p r \<and> (p \<in> set ports \<longrightarrow> \<not> timer_in {Fired} p r)) (CancelKill ports r)"
    by (rule cancel_keeps)
       (use cancel in \<open>auto simp: reap_inv_cancel timer_in_def timer_is_cancel intro!: tracked_cancel split: if_splits\<close>)
  then show ?case by simp
next
  case (forget r t tm)
  then show ?case
  proof (cases "kt_port tm = p")
    case True
    then have "rp_pendingKills r p = Some t"
      using timer_is_here [OF forget.hyps] forget.prems(2) by (auto simp: tracked_def)
    with True forget.prems(2) show ?thesis
      by (auto simp: tracked_def kill_forget_def timer_is_set)
  qed (auto simp: tracked_def kill_forget_def timer_is_set timer_is_Some split: if_splits)
qed (auto simp: tracked_def kill_stop_def case_prod_beta Let_def timer_is_set timer_is_Some split: if_splits)


text \<open>A run in which no cancel of the port overtakes a kill whose timer has fired.\<close>

inductive calm_run :: "port \<Rightarrow> Reaper \<Rightarrow> reap_event list \<Rightarrow> Reaper \<Rightarrow> bool" for p where
  calm_stay: "calm_run p r [] r"
| calm_move: "calm_run p r es r' \<Longrightarrow> reap_step r' e r'' \<Longrightarrow>
    (\<And>ps. e = Cancelled ps \<Longrightarrow> p \<in> set ps \<Longrightarrow> \<not> timer_in {Fired} p r') \<Longrightarrow> calm_run p r (es @ [e]) r''"

lemma calm_run_tracked: "calm_run p (GlobalReaper s) es r \<Longrightarrow> reap_inv r \<and> tracked p r"
proof (induction "GlobalReaper s" es r rule: calm_run.induct)
  case calm_stay
  then show ?case by (simp add: GlobalReaper_def reap_inv_def tracked_def timer_is_def)
next
  case (calm_move es r' e r'')
  then show ?case using reap_inv_step tracked_step by blast
qed

lemma idle_step:
  assumes "reap_step r e r'" "reap_inv r" "\<not> can_kill p r" "\<And>ps. e = Scheduled ps \<Longrightarrow> p \<notin> set ps"
  shows "\<not> can_kill p r' \<and> e \<noteq> Stopped p"
  using assms
proof (induction rule: reap_step.induct)
  case (schedule r ports now cfg)
  have "(\<lambda>r. reap_inv r \<and> \<not> can_kill p r) (fst (ScheduleKill now cfg ports r))"
    by (rule schedule_keeps)
       (use schedule in \<open>auto simp: reap_inv_schedule timer_in_def timer_is_schedule\<close>)
  then show ?case by simp
next
  case (cancel r ports)
  have "(\<lambda>r. reap_inv r \<and> \<not> can_kill p r) (CancelKill ports r)"
    by (rule cancel_keeps) (use cancel in \<open>auto simp: reap_inv_cancel timer_in_def timer_is_cancel split: if_splits\<close>)
  then show ?case by simp
qed (auto simp: timer_in_def kill_forget_def kill_stop_def case_prod_beta Let_def timer_is_set timer_is_Some
       dest: timer_is_here split: if_splits)

lemma idle_run:
  assumes "reap_run r es r'" "reap_inv r" "\<not> can_kill p r" "\<forall>ps. Scheduled ps \<in> set es \<longrightarrow> p \<notin> set ps"
  shows "reap_inv r' \<and> \<not> can_kill p r' \<and> Stopped p \<notin> set es"
  using assms
proof (induction rule: reap_run.induct)
  case (move r es r' e r'')
  then have "reap_inv r' \<and> \<not> can_kill p r' \<and> Stopped p \<notin> set es" by auto
  moreover from this have "\<not> can_kill p r'' \<and> e \<noteq> Stopped p"
    by (intro idle_step [OF move.hyps(2)]) (use move.prems(3) in auto)
  ultimately show ?case using reap_inv_step [OF move.hyps(2)] by auto
qed simp

lemma cancel_idle:
  assumes "reap_inv r" "tracked p r" "\<not> killing p r" "p \<in> set ports"
  shows "reap_inv (CancelKill ports r) \<and> \<not> can_kill p (CancelKill ports r)"
  using assms
proof (induction ports arbitrary: r)
  case (Cons q ports)
  let ?r = "cancel_port q r"
  have inv: "reap_inv ?r" by (rule reap_inv_cancel [OF Cons.prems(1)])
  have quiet: "\<not> killing p ?r"
    using Cons.prems(3) by (auto simp: timer_in_def timer_is_cancel [OF Cons.prems(1)] split: if_splits)
  show ?case
  proof (cases "q = p")
    case True
    have "\<not> can_kill p ?r"
      using Cons.prems(2,3) True
      by (auto simp: timer_in_def tracked_def timer_is_cancel [OF Cons.prems(1)] split: if_splits)
    then have "(\<lambda>r. reap_inv r \<and> \<not> can_kill p r) (CancelKill ports ?r)"
      by (intro cancel_keeps [where Q = "\<lambda>r. reap_inv r \<and> \<not> can_kill p r"])
         (use inv in \<open>auto simp: reap_inv_cancel timer_in_def timer_is_cancel split: if_splits\<close>)
    then show ?thesis by (simp add: CancelKill_def)
  next
    case False
    have "tracked p ?r" by (rule tracked_cancel [OF Cons.prems(1,2)]) (use False in simp)
    from Cons.IH [OF inv this quiet] Cons.prems(4) False show ?thesis by (simp add: CancelKill_def)
  qed
qed simp

text \<open>
  C23. A back end that comes back in time keeps its ports. If no cancel of the port has ever overtaken
  a kill whose timer had fired, and none is under way when the back end's ports are
  cancelled, then no timer can kill the port any more: whatever happens after, until the
  port is scheduled again, the reaper does not stop it.
\<close>
theorem cancelled_port_survives:
  assumes "calm_run p (GlobalReaper s) es r" and "\<not> killing p r" and "p \<in> set ports"
    and "reap_run (CancelKill ports r) es' r'" and "\<forall>ps. Scheduled ps \<in> set es' \<longrightarrow> p \<notin> set ps"
  shows "Stopped p \<notin> set es' \<and> \<not> can_kill p r'"
  using idle_run [OF assms(4) _ _ assms(5)] cancel_idle [OF _ _ assms(2,3)] calm_run_tracked [OF assms(1)] by blast

definition ex_scheduled :: Reaper where
  "ex_scheduled = fst (ScheduleKill 0 0 [7] (GlobalReaper GlobalRelay))"

lemma ex_scheduled_eval:
  "rp_timers ex_scheduled = [0 \<mapsto> \<lparr>kt_port = 7, kt_at = 2 * second, kt_state = Armed\<rparr>]"
  by (simp add: ex_scheduled_def ScheduleKill_def schedule_port_fields GlobalReaper_def reaper_timeout_def case_prod_beta Let_def)

lemma cancelled_port_survives_witness:
  "can_kill 7 ex_scheduled \<and> \<not> can_kill 7 (CancelKill [7] ex_scheduled)"
proof
  have run: "calm_run 7 (GlobalReaper GlobalRelay) ([] @ [Scheduled [7]]) ex_scheduled"
    unfolding ex_scheduled_def by (rule calm_run.calm_move [OF calm_run.calm_stay reap_step.schedule]) simp
  have quiet: "\<not> killing 7 ex_scheduled" by (simp add: timer_in_def timer_is_def ex_scheduled_eval)
  show "\<not> can_kill 7 (CancelKill [7] ex_scheduled)"
    using cancelled_port_survives [OF run quiet _ reap_run.stay] by simp
  show "can_kill 7 ex_scheduled"
    by (auto simp: timer_in_def timer_is_def ex_scheduled_eval intro!: exI [of _ 0])
qed

text \<open>What a kill leaves: the port has no listener, session or waiting back end, and is not busy.\<close>

lemma executeKill_frees:
  "rs_listeners (rp_relay (fst (executeKill t p r))) p = None"
  "rs_sessions (rp_relay (fst (executeKill t p r))) p = None"
  "rs_pendingBE (rp_relay (fst (executeKill t p r))) p = None"
  "\<not> IsPortBusy p (rp_relay (fst (executeKill t p r)))"
  "rp_pendingKills (fst (executeKill t p r)) p = None"
  by (auto simp: executeKill_def StopPort_def stop_listener_def stop_session_def drop_BE_def drop_FE_def stop_pipe_def
      IsPortBusy_def case_prod_beta Let_def split: option.split)

subsection \<open>A kill that was cancelled\<close>

text \<open>
  A cancel does not always keep the port. A timer that has fired is not stopped by a cancel, and
  its function removes the entry that a later schedule has made for the port, so that the cancel that
  answers the later one finds nothing to stop: there is a run in which the last thing
  scheduled for the port has been cancelled, its listener is open, and yet the reaper
  stops the port when the second timer fires.
\<close>
theorem cancelled_port_killed:
  "\<exists>es es' r r'. reap_run (GlobalReaper GlobalRelay) (es @ [Cancelled [7]]) r \<and>
     rs_listeners (rp_relay r) 7 \<noteq> None \<and>
     reap_run r es' r' \<and> (\<forall>ps. Scheduled ps \<notin> set es') \<and> Stopped 7 \<in> set es' \<and>
     rs_listeners (rp_relay r') 7 = None"
proof -
  let ?lst = "\<lambda>r. r\<lparr>rp_relay := fst (snd (StartRelayPortWithProtocol (Inr 0) 7 ''zmq'' (rp_relay r)))\<rparr>"
  define r1 where "r1 = set_timer 0 Fired ex_scheduled"
  define r2 where "r2 = CancelKill [7] r1"
  define r3 where "r3 = fst (ScheduleKill (3 * second) 0 [7] r2)"
  define r4 where "r4 = kill_forget 0 7 r3"
  define r5 where "r5 = fst (kill_stop 0 7 r4)"
  define r6 where "r6 = CancelKill [7] (?lst r5)"
  define r7 where "r7 = kill_forget 1 7 (set_timer 1 Fired r6)"
  have e1: "rp_timers r1 0 = Some \<lparr>kt_port = 7, kt_at = 2 * second, kt_state = Fired\<rparr>" "rp_pendingKills r1 = [7 \<mapsto> 0]"
    "rp_next r1 = 1"
    by (simp_all add: r1_def ex_scheduled_eval)
       (simp_all add: ex_scheduled_def ScheduleKill_def schedule_port_fields GlobalReaper_def)
  have e2: "rp_timers r2 0 = rp_timers r1 0" "rp_pendingKills r2 = Map.empty" "rp_next r2 = 1"
    by (simp_all add: r2_def CancelKill_def cancel_port_fields e1 disarm_def)
  have e3: "rp_timers r3 0 = rp_timers r1 0"
    "rp_timers r3 1 = Some \<lparr>kt_port = 7, kt_at = 5 * second, kt_state = Armed\<rparr>"
    by (simp_all add: r3_def ScheduleKill_def schedule_port_fields e2 reaper_timeout_def second_def case_prod_beta Let_def)
  have e4: "rp_timers r4 0 = Some \<lparr>kt_port = 7, kt_at = 2 * second, kt_state = Killing\<rparr>" "rp_timers r4 1 = rp_timers r3 1"
    "rp_pendingKills r4 7 = None"
    by (simp_all add: r4_def e1 e3 del: One_nat_def)
  have e6: "rp_timers r6 1 = rp_timers r3 1" "rs_listeners (rp_relay r6) 7 \<noteq> None"
    by (simp_all add: r6_def r5_def e4 CancelKill_def cancel_port_fields StartRelayPortWithProtocol_def Let_def del: One_nat_def)
  have e7: "rp_timers r7 1 = Some \<lparr>kt_port = 7, kt_at = 5 * second, kt_state = Killing\<rparr>"
    by (simp add: r7_def e6 e3 del: One_nat_def)
  have "reap_run (GlobalReaper GlobalRelay) ([] @ [Scheduled [7]]) ex_scheduled"
    unfolding ex_scheduled_def by (rule reap_run.move [OF reap_run.stay reap_step.schedule])
  from reap_run.move [OF this, of "TimerFired 0" r1]
  have "reap_run (GlobalReaper GlobalRelay) (([] @ [Scheduled [7]]) @ [TimerFired 0]) r1"
    using reap_step.fire [of ex_scheduled 0 _ "2 * second"] by (simp add: r1_def ex_scheduled_eval)
  from reap_run.move [OF reap_run.move [OF this reap_step.cancel, of "[7]"] reap_step.schedule, of "[7]" "3 * second" 0]
  have "\<exists>es. reap_run (GlobalReaper GlobalRelay) es r3" unfolding r3_def r2_def by blast
  moreover have "reap_step r3 (Forgot 7) r4" using reap_step.forget [of r3 0] by (simp add: r4_def e3 e1)
  moreover have "reap_step r4 (Stopped 7) r5" using reap_step.stop [of r4 0] by (simp add: r5_def e4)
  moreover have "reap_step r5 RelayMoved (?lst r5)" by (rule reap_step.relay [OF rs_step.start])
  moreover have "reap_step (?lst r5) (Cancelled [7]) r6" unfolding r6_def by (rule reap_step.cancel)
  ultimately have run: "\<exists>es. reap_run (GlobalReaper GlobalRelay) (es @ [Cancelled [7]]) r6" by (meson reap_run.move)
  have "reap_run r6 [TimerFired 1, Forgot 7, Stopped 7] (fst (kill_stop 1 7 r7))"
  proof -
    have "reap_step r6 (TimerFired 1) (set_timer 1 Fired r6)"
      using reap_step.fire [of r6 1 _ "5 * second"] by (simp add: e6 e3 del: One_nat_def)
    moreover have "reap_step (set_timer 1 Fired r6) (Forgot 7) r7"
      using reap_step.forget [of "set_timer 1 Fired r6" 1] by (simp add: r7_def e6 e3 del: One_nat_def)
    moreover have "reap_step r7 (Stopped 7) (fst (kill_stop 1 7 r7))" using reap_step.stop [of r7 1] by (simp add: e7 del: One_nat_def)
    ultimately have "reap_run r6 ((([] @ [TimerFired 1]) @ [Forgot 7]) @ [Stopped 7]) (fst (kill_stop 1 7 r7))"
      by (meson reap_run.intros)
    then show ?thesis by simp
  qed
  moreover have "rs_listeners (rp_relay (fst (kill_stop 1 7 r7))) 7 = None"
    using executeKill_frees(1) [of 1 7 "set_timer 1 Fired r6"] by (simp add: executeKill_def r7_def)
  ultimately show ?thesis using run e6(2) by (fastforce intro: exI [of _ "[TimerFired 1, Forgot 7, Stopped 7]"])
qed

end
