(* ===== verification/HubV1.thy ===== *)
theory HubV1
  imports PortsV1 ReaperV1 Hub
begin

section \<open>The control server of the first version (v1/control/hub.go, protocol.go, clock.go, auth.go)\<close>

text \<open>
  Front and back ends hold a control connection each, over which they register with a secret, ask for
  ports, exchange keys and clocks, and are told what happens to the ports. The state puts the
  registry of the hub beside the port manager and the reaper, which owns the relay server here.
  A client is an object under the name of its connection; the keys of the two maps of the hub are
  lists. What the world answers to one handler is an environment: times, the outcome of writes
  and listens, random ids and the orders in which maps are iterated over.
\<close>

subsection \<open>Messages\<close>

definition RoleFE :: string where "RoleFE = ''FE''"
definition RoleBE :: string where "RoleBE = ''BE''"

datatype MessageType1 =
    M1Register | M1Auth | M1PortAlloc | M1PortAcquire | M1PortGrant | M1PortRelease | M1PortStateQ | M1PortState
  | M1KeyExchange | M1Ping | M1Pong | M1Telemetry | M1Log

fun MessageType1_text :: "MessageType1 \<Rightarrow> string" where
  "MessageType1_text M1Register = ''register''"
| "MessageType1_text M1Auth = ''auth''"
| "MessageType1_text M1PortAlloc = ''port_alloc''"
| "MessageType1_text M1PortAcquire = ''port_acquire''"
| "MessageType1_text M1PortGrant = ''port_grant''"
| "MessageType1_text M1PortRelease = ''port_release''"
| "MessageType1_text M1PortStateQ = ''port_state_q''"
| "MessageType1_text M1PortState = ''port_state''"
| "MessageType1_text M1KeyExchange = ''key_exchange''"
| "MessageType1_text M1Ping = ''ping''"
| "MessageType1_text M1Pong = ''pong''"
| "MessageType1_text M1Telemetry = ''telemetry''"
| "MessageType1_text M1Log = ''log''"

record RegisterPayload1 =
  rg_Role :: string
  rg_Secret :: string
  rg_ClientID :: string

record KeyExchangePayload =
  kx_PublicKey :: string
  kx_PrivateKey :: string

record ClockPayload =
  ck_ClientSendTime :: int
  ck_ServerRecvTime :: int
  ck_ServerSendTime :: int

record PortStatePayload1 =
  ps1_ZMQTotal :: nat
  ps1_SRTTotal :: nat
  ps1_ZMQBusy :: nat
  ps1_SRTBusy :: nat
  ps1_ZMQReadyPorts :: "port list"
  ps1_SRTReadyPorts :: "port list"
  ps1_ZMQEmptyPorts :: "port list"
  ps1_SRTEmptyPorts :: "port list"

text \<open>A grant that failed carries the error of the manager.\<close>

datatype BaseMessage =
    AuthMsg string
  | PortAllocMsg PortAllocPayload
  | PortGrantMsg PortGrantPayload1 "acquire_error option"
  | PortReleaseMsg string
  | PortStateMsg PortStatePayload1
  | KeyExchangeMsg KeyExchangePayload
  | PongMsg ClockPayload
  | TelemetryMsg f64
  | LogMsg string

fun BaseMessage_type :: "BaseMessage \<Rightarrow> MessageType1" where
  "BaseMessage_type (AuthMsg s) = M1Auth"
| "BaseMessage_type (PortAllocMsg p) = M1PortAlloc"
| "BaseMessage_type (PortGrantMsg g e) = M1PortGrant"
| "BaseMessage_type (PortReleaseMsg s) = M1PortRelease"
| "BaseMessage_type (PortStateMsg p) = M1PortState"
| "BaseMessage_type (KeyExchangeMsg k) = M1KeyExchange"
| "BaseMessage_type (PongMsg c) = M1Pong"
| "BaseMessage_type (TelemetryMsg v) = M1Telemetry"
| "BaseMessage_type (LogMsg s) = M1Log"

text \<open>Reading: an int64 field takes an integer literal in range; a \<open>RawMessage\<close> takes any value.\<close>

fun set_int64 :: "(int \<Rightarrow> 'a \<Rightarrow> 'a) \<Rightarrow> 'a setter" where
  "set_int64 f (JNum t) a = map_option (\<lambda>i. f i a) (atoi t)"
| "set_int64 f JNull a = Some a"
| "set_int64 f _ a = None"

definition decode_raw :: "json \<Rightarrow> (string \<times> json option) option" where
  "decode_raw v =
     (let ((ty, pl), ok) = decode_struct
        [(''type'', set_string (\<lambda>s (ty, pl). (s, pl))), (''payload'', \<lambda>v (ty, pl). Some (ty, Some v))] v ('''', None)
      in if ok then Some (ty, pl) else None)"

definition unmarshal_payload :: "(string \<times> 'a setter) list \<Rightarrow> 'a \<Rightarrow> json option \<Rightarrow> 'a option" where
  "unmarshal_payload fds zero pl =
     (case pl of
        None \<Rightarrow> None
      | Some v \<Rightarrow> (let (a, ok) = decode_struct fds v zero in if ok then Some a else None))"

definition read_register :: "json option \<Rightarrow> RegisterPayload1 option" where
  "read_register =
     unmarshal_payload
       [(''role'', set_string (\<lambda>s r. r\<lparr>rg_Role := s\<rparr>)), (''secret'', set_string (\<lambda>s r. r\<lparr>rg_Secret := s\<rparr>)),
        (''client_id'', set_string (\<lambda>s r. r\<lparr>rg_ClientID := s\<rparr>))]
       \<lparr>rg_Role = '''', rg_Secret = '''', rg_ClientID = ''''\<rparr>"

definition read_port_alloc :: "json option \<Rightarrow> PortAllocPayload option" where
  "read_port_alloc =
     unmarshal_payload
       [(''zmq_start_port'', set_int64 (\<lambda>i r. r\<lparr>pa_ZMQStartPort := i\<rparr>)), (''zmq_end_port'', set_int64 (\<lambda>i r. r\<lparr>pa_ZMQEndPort := i\<rparr>)),
        (''srt_start_port'', set_int64 (\<lambda>i r. r\<lparr>pa_SRTStartPort := i\<rparr>)), (''srt_end_port'', set_int64 (\<lambda>i r. r\<lparr>pa_SRTEndPort := i\<rparr>))]
       \<lparr>pa_ZMQStartPort = 0, pa_ZMQEndPort = 0, pa_SRTStartPort = 0, pa_SRTEndPort = 0\<rparr>"

definition read_port_acquire :: "json option \<Rightarrow> PortAcquirePayload option" where
  "read_port_acquire =
     unmarshal_payload
       [(''request_id'', set_string (\<lambda>s r. r\<lparr>aq_RequestID := s\<rparr>)), (''need_zmq'', set_bool (\<lambda>b r. r\<lparr>aq_NeedZMQ := b\<rparr>)),
        (''need_srt'', set_bool (\<lambda>b r. r\<lparr>aq_NeedSRT := b\<rparr>)), (''ttl_seconds'', set_int64 (\<lambda>i r. r\<lparr>aq_TTLSeconds := i\<rparr>))]
       \<lparr>aq_RequestID = '''', aq_NeedZMQ = False, aq_NeedSRT = False, aq_TTLSeconds = 0\<rparr>"

definition read_port_release :: "json option \<Rightarrow> string option" where
  "read_port_release = unmarshal_payload [(''session_id'', set_string (\<lambda>s r. s))] ''''"

definition read_key_exchange :: "json option \<Rightarrow> KeyExchangePayload option" where
  "read_key_exchange =
     unmarshal_payload
       [(''public_key'', set_string (\<lambda>s r. r\<lparr>kx_PublicKey := s\<rparr>)), (''private_key'', set_string (\<lambda>s r. r\<lparr>kx_PrivateKey := s\<rparr>))]
       \<lparr>kx_PublicKey = '''', kx_PrivateKey = ''''\<rparr>"

definition read_clock :: "json option \<Rightarrow> ClockPayload option" where
  "read_clock =
     unmarshal_payload
       [(''c_send'', set_int64 (\<lambda>i r. r\<lparr>ck_ClientSendTime := i\<rparr>)), (''s_recv'', set_int64 (\<lambda>i r. r\<lparr>ck_ServerRecvTime := i\<rparr>)),
        (''s_send'', set_int64 (\<lambda>i r. r\<lparr>ck_ServerSendTime := i\<rparr>))]
       \<lparr>ck_ClientSendTime = 0, ck_ServerRecvTime = 0, ck_ServerSendTime = 0\<rparr>"

subsection \<open>State\<close>

record RelayConfig =
  rc_MaxFE :: int
  rc_MaxBE :: int
  rc_RingBufferSize :: int
  rc_ReaperTimeout :: duration
  rc_ControlPort :: port
  rc_Ports :: PortAllocPayload
  rc_AuthSecret :: string

record CtlClient =
  cc_Role :: string
  cc_AllocatedPorts :: "port list"
  cc_authed :: bool
  cc_closed :: bool
  cc_once :: bool

record Control =
  ct_cfg :: RelayConfig
  ct_objects :: "conn \<Rightarrow> CtlClient option"
  ct_fe :: "conn list"
  ct_be :: "conn list"
  ct_pm :: PortManager
  ct_reaper :: Reaper

record ctl_env =
  ev_now :: time
  ev_later :: time
  ev_ok :: "conn \<Rightarrow> bool"
  ev_shuffle :: "conn list \<Rightarrow> conn list"
  ev_sids :: "string set \<Rightarrow> string list"
  ev_sweep :: "string list"
  ev_sid :: string
  ev_listen :: "port \<Rightarrow> go_error + listener"
  ev_probe :: "conn \<Rightarrow> io_error option"
  ev_porder :: "port list"
  ev_lorder :: "port list"

datatype ctl_effect =
    Deliver conn BaseMessage
  | HangUp conn
  | FromRelay rs_effect
  | GoTelemetry conn
  | GoServe conn
  | ListenControl port

abbreviation ct_relay :: "Control \<Rightarrow> RelayServer" where
  "ct_relay ct \<equiv> rp_relay (ct_reaper ct)"

abbreviation set_relay :: "RelayServer \<Rightarrow> Control \<Rightarrow> Control" where
  "set_relay s ct \<equiv> ct\<lparr>ct_reaper := (ct_reaper ct)\<lparr>rp_relay := s\<rparr>\<rparr>"

definition VerifyAuth :: "RelayConfig \<Rightarrow> string \<Rightarrow> bool" where
  "VerifyAuth cfg secret = (if rc_AuthSecret cfg = '''' then False else secret = rc_AuthSecret cfg)"

text \<open>The hub, port manager and reaper as they are when the program starts: the manager has hooked
  itself to the ports that become free.\<close>

definition NewControl :: "RelayConfig \<Rightarrow> Control" where
  "NewControl cfg =
     \<lparr>ct_cfg = cfg, ct_objects = Map.empty, ct_fe = [], ct_be = [], ct_pm = NewPortManager,
      ct_reaper = GlobalReaper (SetOnPortFree True GlobalRelay)\<rparr>"

text \<open>The hook of the manager: each port the relay server reports free is released.\<close>

definition free_hook :: "rs_effect list \<Rightarrow> Control \<Rightarrow> Control" where
  "free_hook es ct =
     fold (\<lambda>e ct. case e of CallPortFree p \<Rightarrow> ct\<lparr>ct_pm := ReleaseByPort p (ct_pm ct)\<rparr> | _ \<Rightarrow> ct) es ct"

subsection \<open>Clients and the registry\<close>

definition Send1 :: "ctl_env \<Rightarrow> conn \<Rightarrow> BaseMessage \<Rightarrow> Control \<Rightarrow> bool \<times> ctl_effect list" where
  "Send1 ev k msg ct =
     (case ct_objects ct k of
        None \<Rightarrow> (False, [])
      | Some c \<Rightarrow> if cc_closed c then (False, []) else (ev_ok ev k, [Deliver k msg]))"

definition Hub1_Register :: "conn \<Rightarrow> CtlClient \<Rightarrow> Control \<Rightarrow> bool \<times> Control" where
  "Hub1_Register k c ct =
     (if cc_Role c = RoleFE
      then (if int (length (ct_fe ct)) \<ge> rc_MaxFE (ct_cfg ct) then (False, ct)
            else (True, ct\<lparr>ct_fe := (if k \<in> set (ct_fe ct) then ct_fe ct else ct_fe ct @ [k])\<rparr>))
      else if cc_Role c = RoleBE
      then (if int (length (ct_be ct)) \<ge> rc_MaxBE (ct_cfg ct) then (False, ct)
            else (True, ct\<lparr>ct_be := (if k \<in> set (ct_be ct) then ct_be ct else ct_be ct @ [k])\<rparr>))
      else (False, ct))"

text \<open>The manager's release for a client, iterating over its set of sessions.\<close>

definition release_all :: "ctl_env \<Rightarrow> conn \<Rightarrow> Control \<Rightarrow> Control" where
  "release_all ev k ct =
     ct\<lparr>ct_pm := snd (ReleaseAllForOwner
       (case pm_byOwner (ct_pm ct) k of None \<Rightarrow> [] | Some S \<Rightarrow> ev_sids ev S) (Some k) (ct_pm ct))\<rparr>"

definition Hub1_Unregister :: "ctl_env \<Rightarrow> conn \<Rightarrow> Control \<Rightarrow> Control \<times> ctl_effect list" where
  "Hub1_Unregister ev k ct =
     (case ct_objects ct k of
        None \<Rightarrow> (ct, [])
      | Some c \<Rightarrow>
          if cc_Role c = RoleFE
          then (if k \<in> set (ct_fe ct)
                then (release_all ev k (ct\<lparr>ct_fe := filter (\<lambda>j. j \<noteq> k) (ct_fe ct)\<rparr>), []) else (ct, []))
          else if cc_Role c = RoleBE
          then (if k \<in> set (ct_be ct)
                then (let ct = release_all ev k (ct\<lparr>ct_be := filter (\<lambda>j. j \<noteq> k) (ct_be ct)\<rparr>);
                          ports = cc_AllocatedPorts c
                      in if ports = [] then (ct, [])
                         else (let (r, es) = ScheduleKill (ev_now ev) (rc_ReaperTimeout (ct_cfg ct)) ports (ct_reaper ct)
                               in (ct\<lparr>ct_reaper := r\<rparr>, map FromRelay es)))
                else (ct, []))
          else (ct, []))"

text \<open>\<open>Close\<close> runs its body once.\<close>

definition Close1 :: "ctl_env \<Rightarrow> conn \<Rightarrow> Control \<Rightarrow> Control \<times> ctl_effect list" where
  "Close1 ev k ct =
     (case ct_objects ct k of
        None \<Rightarrow> (ct, [])
      | Some c \<Rightarrow>
          if cc_once c then (ct, [])
          else (let ct = ct\<lparr>ct_objects := (ct_objects ct)(k \<mapsto> c\<lparr>cc_once := True, cc_closed := True\<rparr>)\<rparr>;
                    (ct, es) = Hub1_Unregister ev k ct
                in (ct, HangUp k # es)))"

definition authed1 :: "Control \<Rightarrow> conn \<Rightarrow> bool" where
  "authed1 ct k \<longleftrightarrow> (case ct_objects ct k of None \<Rightarrow> False | Some c \<Rightarrow> cc_authed c)"

text \<open>The send of a broadcast to one client; the first failure closes it.\<close>

definition broadcast_to :: "ctl_env \<Rightarrow> BaseMessage \<Rightarrow> conn \<Rightarrow> Control \<Rightarrow> Control \<times> ctl_effect list" where
  "broadcast_to ev msg k ct =
     (let (ok, es) = Send1 ev k msg ct in
      if ok then (ct, es)
      else (case ct_objects ct k of
              None \<Rightarrow> (ct, es)
            | Some c \<Rightarrow>
                if cc_closed c then (ct, es)
                else (let ct = ct\<lparr>ct_objects := (ct_objects ct)(k \<mapsto> c\<lparr>cc_closed := True\<rparr>)\<rparr>;
                          (ct, fs) = Close1 ev k ct
                      in (ct, es @ fs))))"

definition BroadcastToRole :: "ctl_env \<Rightarrow> string \<Rightarrow> BaseMessage \<Rightarrow> Control \<Rightarrow> Control \<times> ctl_effect list" where
  "BroadcastToRole ev role msg ct =
     seq_effects (broadcast_to ev msg)
       (filter (authed1 ct) (ev_shuffle ev (if role = RoleFE then ct_fe ct else ct_be ct))) ct"

text \<open>The log line that \<open>LogStreamer.Write\<close> broadcasts in a goroutine of its own.\<close>

definition stream_log :: "ctl_env \<Rightarrow> string \<Rightarrow> Control \<Rightarrow> Control \<times> ctl_effect list" where
  "stream_log ev p ct =
     (let (ct, es) = BroadcastToRole ev RoleFE (LogMsg p) ct; (ct, fs) = BroadcastToRole ev RoleBE (LogMsg p) ct
      in (ct, es @ fs))"

subsection \<open>Handlers\<close>

definition state_payload :: "PortStateSnapshot \<Rightarrow> PortStatePayload1" where
  "state_payload snap =
     \<lparr>ps1_ZMQTotal = pss_ZMQTotal snap, ps1_SRTTotal = pss_SRTTotal snap, ps1_ZMQBusy = pss_ZMQBusyCount snap,
      ps1_SRTBusy = pss_SRTBusyCount snap, ps1_ZMQReadyPorts = pss_ZMQReadyPorts snap,
      ps1_SRTReadyPorts = pss_SRTReadyPorts snap, ps1_ZMQEmptyPorts = pss_ZMQEmptyPorts snap,
      ps1_SRTEmptyPorts = pss_SRTEmptyPorts snap\<rparr>"

definition take_snapshot :: "ctl_env \<Rightarrow> Control \<Rightarrow> PortStateSnapshot \<times> Control \<times> ctl_effect list" where
  "take_snapshot ev ct =
     (let (snap, s, es) = SnapshotPortState (ev_probe ev) (ev_porder ev) (ev_lorder ev) (ct_relay ct)
      in (snap, set_relay s ct, map FromRelay es))"

definition send_state :: "ctl_env \<Rightarrow> conn \<Rightarrow> Control \<Rightarrow> Control \<times> ctl_effect list" where
  "send_state ev k ct =
     (let (snap, ct, es) = take_snapshot ev ct
      in (ct, es @ snd (Send1 ev k (PortStateMsg (state_payload snap)) ct)))"

definition HandlePing :: "ctl_env \<Rightarrow> conn \<Rightarrow> ClockPayload \<Rightarrow> Control \<Rightarrow> ctl_effect list" where
  "HandlePing ev k p ct =
     (let t2 = ev_now ev;
          resp = \<lparr>ck_ClientSendTime = ck_ClientSendTime p, ck_ServerRecvTime = t2, ck_ServerSendTime = ev_later ev\<rparr>
      in snd (Send1 ev k (PongMsg resp) ct))"

text \<open>The ranges a back end gets: the configured ones, its own when none is configured.\<close>

definition effective_ports :: "RelayConfig \<Rightarrow> PortAllocPayload \<Rightarrow> PortAllocPayload" where
  "effective_ports cfg p =
     (let c = rc_Ports cfg in
      if pa_ZMQStartPort c \<noteq> 0 \<or> pa_ZMQEndPort c \<noteq> 0 \<or> pa_SRTStartPort c \<noteq> 0 \<or> pa_SRTEndPort c \<noteq> 0 then c else p)"

definition start_port :: "ctl_env \<Rightarrow> string \<Rightarrow> port \<Rightarrow> Control \<Rightarrow> Control \<times> ctl_effect list" where
  "start_port ev protocol port ct =
     (let (err, s, es) = StartRelayPortWithProtocol (ev_listen ev port) port protocol (ct_relay ct)
      in (set_relay s ct, map FromRelay es))"

definition handle_port_alloc :: "ctl_env \<Rightarrow> conn \<Rightarrow> PortAllocPayload \<Rightarrow> Control \<Rightarrow> Control \<times> ctl_effect list" where
  "handle_port_alloc ev k p ct =
     (case ct_objects ct k of
        None \<Rightarrow> (ct, [])
      | Some c \<Rightarrow>
          if cc_Role c \<noteq> RoleBE then (ct, [])
          else (let p = effective_ports (ct_cfg ct) p;
                    ct = ct\<lparr>ct_pm := snd (SetRanges p (ct_pm ct))\<rparr>;
                    zmqPorts = port_range (pa_ZMQStartPort p) (pa_ZMQEndPort p);
                    srtPorts = port_range (pa_SRTStartPort p) (pa_SRTEndPort p);
                    allPorts = zmqPorts @ srtPorts;
                    (ct, e1) = seq_effects (start_port ev ''zmq'') zmqPorts ct;
                    (ct, e2) = seq_effects (start_port ev ''srt'') srtPorts ct;
                    ct = ct\<lparr>ct_objects := (ct_objects ct)(k \<mapsto> c\<lparr>cc_AllocatedPorts := allPorts\<rparr>)\<rparr>;
                    ct = ct\<lparr>ct_reaper := CancelKill allPorts (ct_reaper ct)\<rparr>;
                    (ct, e3) = BroadcastToRole ev RoleFE (PortAllocMsg p) ct
                in (ct, e1 @ e2 @ [GoTelemetry k] @ e3)))"

definition grant_failure :: "ctl_env \<Rightarrow> PortAcquirePayload \<Rightarrow> acquire_error \<Rightarrow> BaseMessage" where
  "grant_failure ev req e =
     PortGrantMsg \<lparr>gr_RequestID = aq_RequestID req, gr_SessionID = '''', gr_ZMQPort = 0, gr_SRTPort = 0,
       gr_ExpiresAt = unix_milli (ev_later ev)\<rparr> (Some e)"

text \<open>A front end gets a port with a waiting back end, a back end any free port of its range. The manager
  takes the relay's snapshot after its own sweep, which does not look at the relay.\<close>

definition handle_port_acquire :: "ctl_env \<Rightarrow> conn \<Rightarrow> PortAcquirePayload \<Rightarrow> Control \<Rightarrow> Control \<times> ctl_effect list" where
  "handle_port_acquire ev k req ct =
     (case ct_objects ct k of
        None \<Rightarrow> (ct, [])
      | Some c \<Rightarrow>
          if cc_Role c \<noteq> RoleBE \<and> cc_Role c \<noteq> RoleFE then (ct, [])
          else (let (out, pm, ct, es) =
                      (if cc_Role c = RoleFE
                       then (case check_acquire (Some k) req of
                               Some e \<Rightarrow> (Inl e, ct_pm ct, ct, [])
                             | None \<Rightarrow>
                                 (let (snap, ct, es) = take_snapshot ev ct;
                                      (out, pm) = AcquireFromReady (ev_now ev) (ev_sweep ev) snap (\<lambda>p. IsPortBusy p (ct_relay ct))
                                        (ev_sid ev) (Some k) req (ct_pm ct)
                                  in (out, pm, ct, es)))
                       else (let (out, pm) = Acquire (ev_now ev) (ev_sweep ev) (\<lambda>p. IsPortBusy p (ct_relay ct))
                                   (ev_sid ev) (Some k) req (ct_pm ct)
                             in (out, pm, ct, [])));
                    ct = ct\<lparr>ct_pm := pm\<rparr>
                in case out of
                     Inl e \<Rightarrow> (ct, es @ snd (Send1 ev k (grant_failure ev req e) ct))
                   | Inr g \<Rightarrow>
                       (let e1 = snd (Send1 ev k (PortGrantMsg g None) ct);
                            (ct, e2) = BroadcastToRole ev (if cc_Role c = RoleBE then RoleFE else RoleBE) (PortGrantMsg g None) ct
                        in (ct, es @ e1 @ e2))))"

definition handle_port_release :: "ctl_env \<Rightarrow> conn \<Rightarrow> string \<Rightarrow> Control \<Rightarrow> Control \<times> ctl_effect list" where
  "handle_port_release ev k sid ct =
     (case ct_objects ct k of
        None \<Rightarrow> (ct, [])
      | Some c \<Rightarrow>
          if cc_Role c \<noteq> RoleBE \<and> cc_Role c \<noteq> RoleFE then (ct, [])
          else (let (done, pm) = pm_Release (Some k) sid (ct_pm ct); ct = ct\<lparr>ct_pm := pm\<rparr>
                in if done then BroadcastToRole ev (if cc_Role c = RoleBE then RoleFE else RoleBE) (PortReleaseMsg sid) ct
                   else (ct, [])))"

definition handle_key_exchange :: "ctl_env \<Rightarrow> conn \<Rightarrow> KeyExchangePayload \<Rightarrow> Control \<Rightarrow> Control \<times> ctl_effect list" where
  "handle_key_exchange ev k p ct =
     (case ct_objects ct k of
        None \<Rightarrow> (ct, [])
      | Some c \<Rightarrow> if cc_Role c = RoleBE then BroadcastToRole ev RoleFE (KeyExchangeMsg p) ct else (ct, []))"

text \<open>One message of the loop of \<open>handleConnection\<close>.\<close>

definition with_payload :: "'a option \<Rightarrow> ('a \<Rightarrow> Control \<Rightarrow> Control \<times> ctl_effect list) \<Rightarrow> Control \<Rightarrow> Control \<times> ctl_effect list" where
  "with_payload p f ct = (case p of None \<Rightarrow> (ct, []) | Some a \<Rightarrow> f a ct)"

definition handle_control :: "ctl_env \<Rightarrow> conn \<Rightarrow> string \<times> json option \<Rightarrow> Control \<Rightarrow> Control \<times> ctl_effect list" where
  "handle_control ev k msg ct =
     (let (ty, pl) = msg in
      if ty = MessageType1_text M1Ping then with_payload (read_clock pl) (\<lambda>p ct. (ct, HandlePing ev k p ct)) ct
      else if ty = MessageType1_text M1KeyExchange then with_payload (read_key_exchange pl) (handle_key_exchange ev k) ct
      else if ty = MessageType1_text M1PortAlloc then with_payload (read_port_alloc pl) (handle_port_alloc ev k) ct
      else if ty = MessageType1_text M1PortAcquire then with_payload (read_port_acquire pl) (handle_port_acquire ev k) ct
      else if ty = MessageType1_text M1PortRelease then with_payload (read_port_release pl) (handle_port_release ev k) ct
      else if ty = MessageType1_text M1PortStateQ then send_state ev k ct
      else (ct, []))"

text \<open>The first message: the registration, the answer, and what the new client is told. A client whose
  answer cannot be written has its connection closed, and that is all. \<open>True\<close> goes on to the loop.\<close>

definition welcome_client :: "ctl_env \<Rightarrow> conn \<Rightarrow> string \<Rightarrow> Control \<Rightarrow> Control \<times> ctl_effect list" where
  "welcome_client ev k role ct =
     (if role = RoleFE
      then (let e1 = snd (Send1 ev k (PortAllocMsg (rc_Ports (ct_cfg ct))) ct); (ct, e2) = send_state ev k ct
            in (ct, e1 @ e2))
      else if role = RoleBE then send_state ev k ct else (ct, []))"

definition handle_register :: "ctl_env \<Rightarrow> conn \<Rightarrow> json option \<Rightarrow> Control \<Rightarrow> bool \<times> Control \<times> ctl_effect list" where
  "handle_register ev k first ct =
     (case first of
        None \<Rightarrow> (False, ct, [HangUp k])
      | Some v \<Rightarrow>
          (case decode_raw v of
             None \<Rightarrow> (False, ct, [HangUp k])
           | Some (ty, pl) \<Rightarrow>
               if ty \<noteq> MessageType1_text M1Register then (False, ct, [HangUp k])
               else (case read_register pl of
                   None \<Rightarrow> (False, ct, [HangUp k])
                 | Some reg \<Rightarrow>
                     if \<not> VerifyAuth (ct_cfg ct) (rg_Secret reg) then (False, ct, [HangUp k])
                     else (let c = \<lparr>cc_Role = rg_Role reg, cc_AllocatedPorts = [], cc_authed = False, cc_closed = False,
                                    cc_once = False\<rparr>;
                               (ok, ct1) = Hub1_Register k c ct
                           in if \<not> ok then (False, ct1, [HangUp k])
                              else (let ct2 = ct1\<lparr>ct_objects := (ct_objects ct1)(k \<mapsto> c)\<rparr>;
                                        (sent, e1) = Send1 ev k (AuthMsg ''ok'') ct2
                                    in if \<not> sent then (False, ct2, e1 @ [HangUp k])
                                       else (let ct3 = ct2\<lparr>ct_objects := (ct_objects ct2)(k \<mapsto> c\<lparr>cc_authed := True\<rparr>)\<rparr>;
                                                 (ct4, e2) = welcome_client ev k (cc_Role c) ct3
                                             in (True, ct4, e1 @ e2)))))))"

text \<open>The rest of a connection: each value read with the environment of its handler, until a read fails;
  then the deferred \<open>Close\<close>. Other connections run between two messages (the step relation below);
  here they are the functions \<open>other\<close>.\<close>

fun control_loop ::
    "conn \<Rightarrow> (ctl_env \<times> (Control \<Rightarrow> Control) \<times> json option) list \<Rightarrow> Control \<Rightarrow> Control \<times> ctl_effect list" where
  "control_loop k [] ct = (ct, [])"
| "control_loop k ((ev, other, inp) # ins) ct =
     (case inp of
        None \<Rightarrow> Close1 ev k (other ct)
      | Some v \<Rightarrow>
          (case decode_raw v of
             None \<Rightarrow> Close1 ev k (other ct)
           | Some msg \<Rightarrow> (let (ct, es) = handle_control ev k msg (other ct); (ct, fs) = control_loop k ins ct in (ct, es @ fs))))"

definition handleConnection ::
    "ctl_env \<Rightarrow> conn \<Rightarrow> json option \<Rightarrow> (ctl_env \<times> (Control \<Rightarrow> Control) \<times> json option) list \<Rightarrow> Control \<Rightarrow>
      Control \<times> ctl_effect list" where
  "handleConnection ev k first ins ct =
     (let (go, ct, es) = handle_register ev k first ct in
      if go then (let (ct, fs) = control_loop k ins ct in (ct, es @ fs)) else (ct, es))"

definition StartServer :: "io_error option \<Rightarrow> (io_error + conn) list \<Rightarrow> Control \<Rightarrow> io_error option \<times> ctl_effect list" where
  "StartServer err accepts ct =
     (let port = (if rc_ControlPort (ct_cfg ct) \<le> 0 then 5555 else rc_ControlPort (ct_cfg ct))
      in case err of
           Some e \<Rightarrow> (Some e, [])
         | None \<Rightarrow> (None, ListenControl port # concat (map (\<lambda>a. case a of Inl e \<Rightarrow> [] | Inr k \<Rightarrow> [GoServe k]) accepts)))"

text \<open>One tick of \<open>startTelemetry\<close>: the traffic of the client's ports since the last tick, in Mbps.\<close>

definition port_total :: "Control \<Rightarrow> port \<Rightarrow> int" where
  "port_total ct p =
     (case GetSession p (ct_relay ct) of
        None \<Rightarrow> 0
      | Some n \<Rightarrow> (case rs_store (ct_relay ct) n of
            None \<Rightarrow> 0
          | Some sn \<Rightarrow> (let (fi, fo, bi, bo) = GetCounters (sn_pipe sn) in fi + fo + bi + bo)))"

definition telemetry1_tick :: "ctl_env \<Rightarrow> conn \<Rightarrow> int \<Rightarrow> Control \<Rightarrow> bool \<times> int \<times> ctl_effect list" where
  "telemetry1_tick ev k lastTotal ct =
     (case ct_objects ct k of
        None \<Rightarrow> (False, lastTotal, [])
      | Some c \<Rightarrow>
          (let currentTotal = sum_list (map (port_total ct) (cc_AllocatedPorts c));
               delta = (if currentTotal - lastTotal < 0 then 0 else currentTotal - lastTotal);
               speed = f_scale (f_scale (f_of_int delta) 80) (1 / 1000000);
               (ok, es) = Send1 ev k (TelemetryMsg speed) ct
           in (ok, currentTotal, es)))"

text \<open>The program: the configured ranges are opened, and the state hook of the relay server broadcasts a
  snapshot (\<open>cmd/relay-server/main.go\<close>).\<close>

definition relay_main :: "ctl_env \<Rightarrow> RelayConfig \<Rightarrow> Control \<times> ctl_effect list" where
  "relay_main ev cfg =
     (let ct = NewControl cfg; p = rc_Ports cfg;
          ct = ct\<lparr>ct_pm := snd (SetRanges p (ct_pm ct))\<rparr>;
          open_range = (\<lambda>proto a b. seq_effects (start_port ev proto) (filter (\<lambda>p. 0 < p) (port_range a b)));
          (ct, e1) = open_range ''zmq'' (pa_ZMQStartPort p) (pa_ZMQEndPort p) ct;
          (ct, e2) = open_range ''srt'' (pa_SRTStartPort p) (pa_SRTEndPort p) ct
      in (set_relay (SetOnStateChange True (ct_relay ct)) ct, e1 @ e2))"

definition on_state_change :: "ctl_env \<Rightarrow> Control \<Rightarrow> Control \<times> ctl_effect list" where
  "on_state_change ev ct =
     (let (snap, ct, e0) = take_snapshot ev ct; msg = PortStateMsg (state_payload snap);
          (ct, e1) = BroadcastToRole ev RoleBE msg ct;
          (ct, e2) = BroadcastToRole ev RoleFE msg ct
      in (ct, e0 @ e1 @ e2))"

end
