(* ===== verification/HubV1Run.thy ===== *)
theory HubV1Run
  imports HubV1
begin

section \<open>The control server of the first version: properties\<close>

text \<open>
  The invariant of the registry and the port manager through every handler, the run of the control
  server as a step relation, and what registrations, broadcasts, closings and stopped ports do in it.
\<close>

subsection \<open>The sets of the manager are finite\<close>

definition pm_fin :: "PortManager \<Rightarrow> bool" where
  "pm_fin pm \<longleftrightarrow> (\<forall>c S. pm_byOwner pm c = Some S \<longrightarrow> finite S)"

lemma pm_fin_delete: "pm_fin pm \<Longrightarrow> pm_fin (deleteReservation r pm)"
  by (auto simp: pm_fin_def delete_fields split: option.splits if_splits)

lemma pm_fin_install: "pm_fin pm \<Longrightarrow> pm_fin (snd (install now sid c req z t pm))"
  by (auto simp: pm_fin_def install_def Let_def split: option.splits if_splits)

lemma pm_fin_sweep: "pm_fin pm \<Longrightarrow> pm_fin (sweepLocked now order pm)"
proof -
  have "pm_fin (sweep_one now sid pm)" if "pm_fin pm" for sid pm
    using that by (auto simp: sweep_one_def pm_fin_delete split: option.split)
  then show "pm_fin pm \<Longrightarrow> pm_fin (sweepLocked now order pm)"
    unfolding sweepLocked_def by (induction order arbitrary: pm) simp_all
qed

lemma pm_fin_grant: "pm_fin pm \<Longrightarrow> pm_fin (snd (grant_from now busy sid c req ps e pm))"
  by (simp add: grant_from_def pm_fin_install case_prod_beta Let_def split: option.split)

lemma pm_fin_acquire:
  "pm_fin pm \<Longrightarrow> pm_fin (snd (Acquire now order busy sid owner req pm))"
  "pm_fin pm \<Longrightarrow> pm_fin (snd (AcquireFromReady now order snap busy sid owner req pm))"
proof -
  assume fin: "pm_fin pm"
  show "pm_fin (snd (Acquire now order busy sid owner req pm))"
    by (cases "check_acquire owner req")
       (simp_all add: Acquire_grant pm_fin_grant pm_fin_sweep fin Let_def, simp add: Acquire_def fin)
  show "pm_fin (snd (AcquireFromReady now order snap busy sid owner req pm))"
    by (cases "check_acquire owner req")
       (simp_all add: AcquireFromReady_grant pm_fin_grant pm_fin_sweep fin Let_def, simp add: AcquireFromReady_def fin)
qed

lemma pm_fin_release_all: "pm_fin pm \<Longrightarrow> pm_fin (snd (ReleaseAllForOwner order owner pm))"
proof -
  have fold: "pm_fin pm \<Longrightarrow> pm_fin (snd (fold release_sid order (n, pm)))" for n pm
    by (induction order arbitrary: n pm) (auto simp: release_sid_def pm_fin_delete split: option.split)
  have none: "pm_fin pm \<Longrightarrow> pm_fin (pm\<lparr>pm_byOwner := (pm_byOwner pm)(c := None)\<rparr>)" for c pm
    by (simp add: pm_fin_def)
  show "pm_fin pm \<Longrightarrow> pm_fin (snd (ReleaseAllForOwner order owner pm))"
    by (auto simp: ReleaseAllForOwner_def case_prod_beta Let_def intro!: none fold split: option.split)
qed

lemma pm_fin_others:
  "pm_fin pm \<Longrightarrow> pm_fin (snd (SetRanges p pm))" "pm_fin pm \<Longrightarrow> pm_fin (snd (pm_Release owner sid pm))"
  "pm_fin pm \<Longrightarrow> pm_fin (ReleaseByPort port pm)" "pm_fin NewPortManager"
  by (auto simp: SetRanges_def pm_Release_def ReleaseByPort_def NewPortManager_def Let_def pm_fin_delete split: option.split)
     (simp_all add: pm_fin_def)

subsection \<open>What every handler keeps\<close>

definition ctl_inv :: "Control \<Rightarrow> bool" where
  "ctl_inv ct \<longleftrightarrow>
     distinct (ct_fe ct) \<and> int (length (ct_fe ct)) \<le> max 0 (rc_MaxFE (ct_cfg ct)) \<and>
     distinct (ct_be ct) \<and> int (length (ct_be ct)) \<le> max 0 (rc_MaxBE (ct_cfg ct)) \<and>
     (\<forall>k \<in> set (ct_fe ct). \<exists>c. ct_objects ct k = Some c \<and> cc_Role c = RoleFE \<and> \<not> cc_once c) \<and>
     (\<forall>k \<in> set (ct_be ct). \<exists>c. ct_objects ct k = Some c \<and> cc_Role c = RoleBE \<and> \<not> cc_once c) \<and>
     pm_inv (ct_pm ct) \<and> pm_fin (ct_pm ct)"

lemma ctl_invD:
  assumes "ctl_inv ct"
  shows "distinct (ct_fe ct)" "distinct (ct_be ct)" "pm_inv (ct_pm ct)" "pm_fin (ct_pm ct)"
    "k \<in> set (ct_fe ct) \<Longrightarrow> \<exists>c. ct_objects ct k = Some c \<and> cc_Role c = RoleFE \<and> \<not> cc_once c"
    "k \<in> set (ct_be ct) \<Longrightarrow> \<exists>c. ct_objects ct k = Some c \<and> cc_Role c = RoleBE \<and> \<not> cc_once c"
    "int (length (ct_fe ct)) \<le> max 0 (rc_MaxFE (ct_cfg ct))" "int (length (ct_be ct)) \<le> max 0 (rc_MaxBE (ct_cfg ct))"
  using assms unfolding ctl_inv_def by blast+

definition good_env :: "ctl_env \<Rightarrow> bool" where
  "good_env ev \<longleftrightarrow>
     (\<forall>S. finite S \<longrightarrow> distinct (ev_sids ev S) \<and> set (ev_sids ev S) = S) \<and>
     (\<forall>ks. distinct ks \<longrightarrow> distinct (ev_shuffle ev ks) \<and> set (ev_shuffle ev ks) = set ks)"

definition fresh_sid :: "ctl_env \<Rightarrow> Control \<Rightarrow> bool" where
  "fresh_sid ev ct \<longleftrightarrow> ev_sid ev \<noteq> '''' \<and> pm_bySession (ct_pm ct) (ev_sid ev) = None"

lemma role_neq [simp]: "RoleFE \<noteq> RoleBE" "RoleBE \<noteq> RoleFE"
  by (simp_all add: RoleFE_def RoleBE_def)

lemma ctl_inv_reaper [simp]: "ctl_inv (ct\<lparr>ct_reaper := r\<rparr>) \<longleftrightarrow> ctl_inv ct"
  by (simp add: ctl_inv_def)

lemma ctl_inv_pm: "ctl_inv ct \<Longrightarrow> pm_inv pm \<Longrightarrow> pm_fin pm \<Longrightarrow> ctl_inv (ct\<lparr>ct_pm := pm\<rparr>)"
  by (simp add: ctl_inv_def)

text \<open>A client may change its ports and flags, as long as a registered one keeps its role.\<close>

lemma ctl_inv_object:
  assumes "ctl_inv ct"
    and "k \<in> set (ct_fe ct) \<union> set (ct_be ct) \<Longrightarrow> \<exists>c. ct_objects ct k = Some c \<and> cc_Role c' = cc_Role c \<and> (\<not> cc_once c \<longrightarrow> \<not> cc_once c')"
  shows "ctl_inv (ct\<lparr>ct_objects := (ct_objects ct)(k \<mapsto> c')\<rparr>)"
  using assms unfolding ctl_inv_def by fastforce

lemma owner_set:
  assumes "pm_inv pm" "pm_byOwner pm c = Some S"
  shows "S = {sid. \<exists>r. pm_bySession pm sid = Some r \<and> rv_owner r = c}"
  using pm_invD(7) [OF assms] pm_invD(4) [OF assms(1)] assms(2) by fastforce

lemma release_all_pm:
  assumes "good_env ev" "pm_inv (ct_pm ct)" "pm_fin (ct_pm ct)"
  shows "pm_inv (ct_pm (release_all ev k ct))" "pm_fin (ct_pm (release_all ev k ct))"
    "pm_bySession (ct_pm (release_all ev k ct)) =
      (\<lambda>sid. case pm_bySession (ct_pm ct) sid of None \<Rightarrow> None | Some r \<Rightarrow> if rv_owner r = k then None else Some r)"
proof -
  have all: "pm_inv (ct_pm (release_all ev k ct)) \<and> pm_bySession (ct_pm (release_all ev k ct)) =
      (\<lambda>sid. case pm_bySession (ct_pm ct) sid of None \<Rightarrow> None | Some r \<Rightarrow> if rv_owner r = k then None else Some r)"
  proof (cases "pm_byOwner (ct_pm ct) k")
    case None
    then have "rv_owner r \<noteq> k" if "pm_bySession (ct_pm ct) sid = Some r" for sid r
      using pm_invD(4) [OF assms(2) that] by auto
    with None show ?thesis
      using assms(2) by (auto simp: release_all_def ReleaseAllForOwner_def fun_eq_iff split: option.split)
  next
    case (Some S)
    have "distinct (ev_sids ev S)" "set (ev_sids ev S) = {sid. \<exists>r. pm_bySession (ct_pm ct) sid = Some r \<and> rv_owner r = k}"
      using assms(1,3) Some owner_set [OF assms(2) Some] by (auto simp: good_env_def pm_fin_def)
    from release_all_runs [OF assms(2) this] Some show ?thesis by (simp add: release_all_def)
  qed
  then show "pm_inv (ct_pm (release_all ev k ct))" "pm_bySession (ct_pm (release_all ev k ct)) =
      (\<lambda>sid. case pm_bySession (ct_pm ct) sid of None \<Rightarrow> None | Some r \<Rightarrow> if rv_owner r = k then None else Some r)" by auto
  show "pm_fin (ct_pm (release_all ev k ct))" by (simp add: release_all_def pm_fin_release_all assms(3))
qed

lemma release_all_frame [simp]:
  "ct_cfg (release_all ev k ct) = ct_cfg ct" "ct_objects (release_all ev k ct) = ct_objects ct"
  "ct_fe (release_all ev k ct) = ct_fe ct" "ct_be (release_all ev k ct) = ct_be ct"
  "ct_reaper (release_all ev k ct) = ct_reaper ct"
  by (simp_all add: release_all_def)

text \<open>\<open>Close\<close>: the client is out of its map and its reservations are gone.\<close>

definition closed_client :: "ctl_env \<Rightarrow> conn \<Rightarrow> CtlClient \<Rightarrow> Control \<Rightarrow> Control" where
  "closed_client ev k c ct =
     (let ct1 = ct\<lparr>ct_objects := (ct_objects ct)(k \<mapsto> c\<lparr>cc_once := True, cc_closed := True\<rparr>)\<rparr>;
          ct2 = ct1\<lparr>ct_fe := filter (\<lambda>j. j \<noteq> k) (ct_fe ct), ct_be := filter (\<lambda>j. j \<noteq> k) (ct_be ct)\<rparr>
      in if k \<in> set (ct_fe ct) then release_all ev k ct2
         else if k \<in> set (ct_be ct)
         then (release_all ev k ct2)\<lparr>ct_reaper := fst (ScheduleKill (ev_now ev) (rc_ReaperTimeout (ct_cfg ct))
                (cc_AllocatedPorts c) (ct_reaper ct))\<rparr>
         else ct1)"

lemma filter_absent: "k \<notin> set xs \<Longrightarrow> filter (\<lambda>j. j \<noteq> k) xs = xs"
  by (simp add: filter_id_conv) metis

lemma Close1_body:
  assumes inv: "ctl_inv ct" and c: "ct_objects ct k = Some c" "\<not> cc_once c"
  shows "fst (Close1 ev k ct) = closed_client ev k c ct" and "\<exists>es. snd (Close1 ev k ct) = HangUp k # es"
proof -
  note fe = ctl_invD(5) [OF inv, of k] and be = ctl_invD(6) [OF inv, of k]
  consider "k \<in> set (ct_fe ct)" "k \<notin> set (ct_be ct)" "cc_Role c = RoleFE"
    | "k \<in> set (ct_be ct)" "k \<notin> set (ct_fe ct)" "cc_Role c = RoleBE"
    | "k \<notin> set (ct_fe ct)" "k \<notin> set (ct_be ct)"
    using fe be c(1) by fastforce
  then show "fst (Close1 ev k ct) = closed_client ev k c ct"
  proof cases
    case 1
    then show ?thesis using c
      by (simp add: Close1_def Hub1_Unregister_def closed_client_def Let_def filter_absent)
  next
    case 2
    then show ?thesis using c
      by (simp add: Close1_def Hub1_Unregister_def closed_client_def Let_def filter_absent case_prod_beta ScheduleKill_def)
  next
    case 3
    then show ?thesis using c by (simp add: Close1_def Hub1_Unregister_def closed_client_def Let_def)
  qed
  show "\<exists>es. snd (Close1 ev k ct) = HangUp k # es"
    using c by (simp add: Close1_def case_prod_beta Let_def)
qed

lemma closed_client_inv:
  assumes "good_env ev" "ctl_inv ct" "ct_objects ct k = Some c"
  shows "ctl_inv (closed_client ev k c ct)"
proof -
  note inv = ctl_invD [OF assms(2)]
  let ?ct = "ct\<lparr>ct_objects := (ct_objects ct)(k \<mapsto> c\<lparr>cc_once := True, cc_closed := True\<rparr>),
    ct_fe := filter (\<lambda>j. j \<noteq> k) (ct_fe ct), ct_be := filter (\<lambda>j. j \<noteq> k) (ct_be ct)\<rparr>"
  have len: "int (length (filter (\<lambda>j. j \<noteq> k) xs)) \<le> n" if "int (length xs) \<le> n" for xs n
    using that length_filter_le [of "\<lambda>j. j \<noteq> k" xs] by linarith
  have base: "ctl_inv ?ct"
    using inv len [OF inv(7)] len [OF inv(8)] unfolding ctl_inv_def by auto
  have "ctl_inv (release_all ev k ?ct)"
    using release_all_pm(1,2) [OF assms(1), of ?ct k] base inv(3,4) by (simp add: ctl_inv_def)
  moreover have "ctl_inv (ct\<lparr>ct_objects := (ct_objects ct)(k \<mapsto> c\<lparr>cc_once := True, cc_closed := True\<rparr>)\<rparr>)"
    if "k \<notin> set (ct_fe ct)" "k \<notin> set (ct_be ct)"
    using that by (intro ctl_inv_object [OF assms(2)]) auto
  ultimately show ?thesis by (simp add: closed_client_def Let_def)
qed

lemma Close1_inv:
  assumes "good_env ev" "ctl_inv ct"
  shows "ctl_inv (fst (Close1 ev k ct))"
proof (cases "ct_objects ct k")
  case (Some c)
  then show ?thesis
    using assms Close1_body(1) [OF assms(2) Some] closed_client_inv [OF assms Some]
    by (cases "cc_once c") (simp_all add: Close1_def)
qed (use assms in \<open>simp add: Close1_def\<close>)

lemma seq_effects_keeps:
  assumes "Q S" "\<And>x S. x \<in> set xs \<Longrightarrow> Q S \<Longrightarrow> Q (fst (f x S))"
  shows "Q (fst (seq_effects f xs S))"
  using assms by (induction xs arbitrary: S) (simp_all add: case_prod_beta Let_def)

lemma broadcast_to_inv:
  assumes "good_env ev" "ctl_inv ct"
  shows "ctl_inv (fst (broadcast_to ev msg k ct))"
proof (cases "ct_objects ct k")
  case (Some c)
  have "ctl_inv (ct\<lparr>ct_objects := (ct_objects ct)(k \<mapsto> c\<lparr>cc_closed := True\<rparr>)\<rparr>)"
    by (rule ctl_inv_object [OF assms(2)]) (simp add: Some)
  from Close1_inv [OF assms(1) this, of k] Some assms(2) show ?thesis
    by (simp add: broadcast_to_def Send1_def case_prod_beta Let_def)
qed (use assms in \<open>simp add: broadcast_to_def Send1_def\<close>)

lemma Broadcast1_inv: "good_env ev \<Longrightarrow> ctl_inv ct \<Longrightarrow> ctl_inv (fst (BroadcastToRole ev role msg ct))"
  unfolding BroadcastToRole_def by (rule seq_effects_keeps) (simp_all add: broadcast_to_inv)

lemma snapshot_inv [simp]: "ctl_inv (fst (snd (take_snapshot ev ct))) \<longleftrightarrow> ctl_inv ct"
  by (simp add: take_snapshot_def case_prod_beta)

lemma snapshot_pm [simp]:
  "ct_pm (fst (snd (take_snapshot ev ct))) = ct_pm ct" "ct_objects (fst (snd (take_snapshot ev ct))) = ct_objects ct"
  "ct_fe (fst (snd (take_snapshot ev ct))) = ct_fe ct" "ct_be (fst (snd (take_snapshot ev ct))) = ct_be ct"
  "ct_cfg (fst (snd (take_snapshot ev ct))) = ct_cfg ct"
  by (simp_all add: take_snapshot_def case_prod_beta)

lemma send_state_inv [simp]: "ctl_inv (fst (send_state ev k ct)) \<longleftrightarrow> ctl_inv ct"
  by (simp add: send_state_def case_prod_beta Let_def)

lemma send_state_frame [simp]:
  "ct_fe (fst (send_state ev k ct)) = ct_fe ct" "ct_be (fst (send_state ev k ct)) = ct_be ct"
  "ct_objects (fst (send_state ev k ct)) = ct_objects ct"
  by (simp_all add: send_state_def case_prod_beta Let_def)

lemma start_ports_frame:
  "ctl_inv ct \<Longrightarrow> ctl_inv (fst (seq_effects (start_port ev proto) ps ct))"
  "ct_objects (fst (seq_effects (start_port ev proto) ps ct)) = ct_objects ct"
  by (rule seq_effects_keeps; simp add: start_port_def case_prod_beta)+

lemma ranges_ok:
  "pm_inv pm \<Longrightarrow> pm_inv (snd (SetRanges p pm))"
  by (rule pm_step_inv [OF pm_step.ranges])

lemma release_ok: "pm_inv pm \<Longrightarrow> pm_inv (snd (pm_Release owner sid pm))"
  by (rule pm_step_inv [OF pm_step.release])

lemma alloc_inv:
  assumes "good_env ev" "ctl_inv ct"
  shows "ctl_inv (fst (handle_port_alloc ev k p ct))"
proof (cases "ct_objects ct k")
  case (Some c)
  let ?p = "effective_ports (ct_cfg ct) p"
  let ?ct1 = "ct\<lparr>ct_pm := snd (SetRanges ?p (ct_pm ct))\<rparr>"
  let ?ct2 = "fst (seq_effects (start_port ev ''zmq'') (port_range (pa_ZMQStartPort ?p) (pa_ZMQEndPort ?p)) ?ct1)"
  let ?ct3 = "fst (seq_effects (start_port ev ''srt'') (port_range (pa_SRTStartPort ?p) (pa_SRTEndPort ?p)) ?ct2)"
  let ?ports = "port_range (pa_ZMQStartPort ?p) (pa_ZMQEndPort ?p) @ port_range (pa_SRTStartPort ?p) (pa_SRTEndPort ?p)"
  have "ctl_inv ?ct1" using ctl_invD(3,4) [OF assms(2)] by (intro ctl_inv_pm assms ranges_ok pm_fin_others)
  then have "ctl_inv ?ct3" by (intro start_ports_frame)
  moreover have "ct_objects ?ct3 k = Some c" using Some by (simp add: start_ports_frame(2))
  ultimately have "ctl_inv (?ct3\<lparr>ct_objects := (ct_objects ?ct3)(k \<mapsto> c\<lparr>cc_AllocatedPorts := ?ports\<rparr>)\<rparr>)"
    by (intro ctl_inv_object) simp_all
  then show ?thesis
    using Some assms by (simp add: handle_port_alloc_def case_prod_beta Let_def Broadcast1_inv)
qed (use assms in \<open>simp add: handle_port_alloc_def\<close>)

lemma acquire_inv:
  assumes "good_env ev" "ctl_inv ct" "fresh_sid ev ct"
  shows "ctl_inv (fst (handle_port_acquire ev k req ct))"
proof -
  note pm = ctl_invD(3,4) [OF assms(2)]
  have new: "ctl_inv (ct\<lparr>ct_pm := snd (Acquire n o1 b (ev_sid ev) (Some k) req (ct_pm ct))\<rparr>)" for n o1 b
    using assms(3) pm by (intro ctl_inv_pm assms pm_inv_acquire pm_fin_acquire) (auto simp: fresh_sid_def)
  have ready: "ctl_inv (ct'\<lparr>ct_pm := snd (AcquireFromReady n o1 sn b (ev_sid ev) (Some k) req (ct_pm ct))\<rparr>)"
    if "ctl_inv ct'" for n o1 sn b ct'
    using assms(3) pm that by (intro ctl_inv_pm pm_inv_acquire pm_fin_acquire) (auto simp: fresh_sid_def)
  show ?thesis
    using assms(2) new ready
    by (auto simp: handle_port_acquire_def case_prod_beta Let_def Broadcast1_inv [OF assms(1)]
        split: option.split sum.split)
qed

lemma control_inv:
  assumes "good_env ev" "ctl_inv ct" "fresh_sid ev ct"
  shows "ctl_inv (fst (handle_control ev k msg ct))"
proof -
  have release: "ctl_inv (fst (handle_port_release ev k sid ct))" for sid
    using ctl_invD(3,4) [OF assms(2)] assms(1,2)
    by (auto simp: handle_port_release_def case_prod_beta Let_def ctl_inv_pm release_ok pm_fin_others Broadcast1_inv
        split: option.split)
  have keys: "ctl_inv (fst (handle_key_exchange ev k p ct))" for p
    using assms by (auto simp: handle_key_exchange_def Broadcast1_inv split: option.split)
  note handlers = release keys alloc_inv [OF assms(1,2)] acquire_inv [OF assms]
  show ?thesis
    using handlers assms(2)
    by (cases msg) (simp add: handle_control_def with_payload_def split: option.split)
qed

lemma register_inv:
  assumes "ctl_inv ct" "ct_objects ct k = None"
  shows "ctl_inv (fst (snd (handle_register ev k first ct)))"
proof -
  have new: "k \<notin> set (ct_fe ct)" "k \<notin> set (ct_be ct)"
    using ctl_invD(5,6) [OF assms(1), of k] assms(2) by auto
  have entered: "ctl_inv ((snd (Hub1_Register k c ct))\<lparr>ct_objects := (ct_objects ct)(k \<mapsto> c')\<rparr>)"
    if "cc_Role c' = cc_Role c" "\<not> cc_once c'" for c c'
    using assms(1) new that unfolding ctl_inv_def Hub1_Register_def by auto
  have objects: "ct_objects (snd (Hub1_Register k c ct)) = ct_objects ct" for c
    by (simp add: Hub1_Register_def)
  have same: "ctl_inv (snd (Hub1_Register k c ct))" if "\<not> fst (Hub1_Register k c ct)" for c
    using that assms(1) by (auto simp: Hub1_Register_def split: if_splits)
  have welcomed: "ctl_inv (fst (welcome_client ev k role ct'))" if "ctl_inv ct'" for role ct'
    using that by (simp add: welcome_client_def case_prod_beta Let_def)
  show ?thesis
    using assms(1) entered same welcomed
    by (auto simp: handle_register_def case_prod_beta Let_def objects split: option.split)
qed

subsection \<open>Runs of the control server\<close>

inductive ctl_step :: "Control \<Rightarrow> Control \<Rightarrow> bool" where
  register: "ct_objects ct k = None \<Longrightarrow> ctl_step ct (fst (snd (handle_register ev k first ct)))"
| message: "good_env ev \<Longrightarrow> fresh_sid ev ct \<Longrightarrow> ctl_step ct (fst (handle_control ev k msg ct))"
| close: "good_env ev \<Longrightarrow> ctl_step ct (fst (Close1 ev k ct))"
| log: "good_env ev \<Longrightarrow> ctl_step ct (fst (stream_log ev line ct))"
| state: "good_env ev \<Longrightarrow> ctl_step ct (fst (on_state_change ev ct))"
| relay: "rs_step (ct_relay ct) s \<Longrightarrow> ctl_step ct (set_relay s ct)"
| port_free: "ctl_step ct (free_hook es ct)"
| reaper: "reap_step (ct_reaper ct) e r \<Longrightarrow> ctl_step ct (ct\<lparr>ct_reaper := r\<rparr>)"
| sweep: "ctl_step ct (ct\<lparr>ct_pm := sweepLocked now order (ct_pm ct)\<rparr>)"

lemma free_hook_inv: "ctl_inv ct \<Longrightarrow> ctl_inv (free_hook es ct)"
proof -
  have one: "ctl_inv (ct\<lparr>ct_pm := ReleaseByPort p (ct_pm ct)\<rparr>)" if "ctl_inv ct" for p ct
    using that ctl_invD(3,4) [OF that] by (simp add: ctl_inv_pm pm_fin_others pm_step_inv [OF pm_step.release_port])
  show "ctl_inv ct \<Longrightarrow> ctl_inv (free_hook es ct)"
    unfolding free_hook_def by (induction es arbitrary: ct) (auto simp: one split: rs_effect.split)
qed

lemma ctl_step_inv: "ctl_step ct ct' \<Longrightarrow> ctl_inv ct \<Longrightarrow> ctl_inv ct'"
proof (induction rule: ctl_step.induct)
  case (sweep ct now order)
  then show ?case using ctl_invD(3,4) [OF sweep] by (simp add: ctl_inv_pm sweep_inv pm_fin_sweep)
qed (simp_all add: register_inv control_inv Close1_inv stream_log_def on_state_change_def case_prod_beta Let_def
    Broadcast1_inv free_hook_inv)

lemma ctl_run_inv: "ctl_step\<^sup>*\<^sup>* (NewControl cfg) ct \<Longrightarrow> ctl_inv ct"
proof (induction rule: rtranclp_induct)
  case base
  show ?case by (simp add: ctl_inv_def NewControl_def pm_inv_New pm_fin_others)
qed (rule ctl_step_inv)

text \<open>
  The registry of the control server. Whatever registrations, messages, broadcasts, closes, port
  and reaper events have happened since the program started, there are at most the
  configured number of front ends and of back ends, no connection is listed twice or in both roles,
  and each listed one belongs to a client of that role whose \<open>Close\<close> has not run.
\<close>
theorem control_registry:
  assumes "ctl_step\<^sup>*\<^sup>* (NewControl cfg) ct"
  shows "int (length (ct_fe ct)) \<le> max 0 (rc_MaxFE (ct_cfg ct)) \<and> int (length (ct_be ct)) \<le> max 0 (rc_MaxBE (ct_cfg ct)) \<and>
    distinct (ct_fe ct @ ct_be ct) \<and>
    (\<forall>k \<in> set (ct_fe ct @ ct_be ct). \<exists>c. ct_objects ct k = Some c \<and> \<not> cc_once c \<and>
       cc_Role c = (if k \<in> set (ct_fe ct) then RoleFE else RoleBE))"
proof -
  note inv = ctl_invD [OF ctl_run_inv [OF assms]]
  have "set (ct_fe ct) \<inter> set (ct_be ct) = {}" using inv(5,6) by fastforce
  moreover have "\<exists>c. ct_objects ct k = Some c \<and> \<not> cc_once c \<and> cc_Role c = (if k \<in> set (ct_fe ct) then RoleFE else RoleBE)"
    if "k \<in> set (ct_fe ct @ ct_be ct)" for k
    using that inv(5,6) [of k] by (cases "k \<in> set (ct_fe ct)") auto
  ultimately show ?thesis using inv(1,2,7,8) by auto
qed

lemma scheduled_pending:
  assumes "p \<in> set ports"
  shows "rp_pendingKills (fst (ScheduleKill now d ports r)) p \<noteq> None"
proof -
  have keep: "rp_pendingKills (fst (ScheduleKill now d ps r)) p \<noteq> None" if "rp_pendingKills r p \<noteq> None" for ps r
    by (rule schedule_keeps [where Q = "\<lambda>r. rp_pendingKills r p \<noteq> None", OF that]) (auto simp: schedule_port_fields(1))
  obtain xs ys where ports: "ports = xs @ p # ys" using assms by (auto simp: in_set_conv_decomp)
  have step: "fst (ScheduleKill now d (xs @ zs) r) = fst (ScheduleKill now d zs (fst (ScheduleKill now d xs r)))" for xs zs r
    unfolding ScheduleKill_def by (induction xs arbitrary: r) (simp_all add: case_prod_beta Let_def)
  have "rp_pendingKills (fst (schedule_port now (reaper_timeout d) p r')) p \<noteq> None" for r'
    by (simp add: schedule_port_fields(1))
  then show ?thesis using keep by (simp add: ports step) (simp add: ScheduleKill_def case_prod_beta Let_def)
qed

text \<open>
  C22. A client that leaves. When a registered client is closed, its connection is hung up, it is in
  neither list any more and all others stay, exactly its reservations are released, and each port that
  a back end was allocated has a kill pending in the reaper, while a front end's leaving does not
  touch the reaper.
\<close>
theorem client_close_exact:
  assumes "ctl_step\<^sup>*\<^sup>* (NewControl cfg) ct" and "good_env ev" and "k \<in> set (ct_fe ct) \<union> set (ct_be ct)"
  shows "\<exists>ct' es c. Close1 ev k ct = (ct', HangUp k # es) \<and> ct_objects ct k = Some c \<and>
    ct_fe ct' = filter (\<lambda>j. j \<noteq> k) (ct_fe ct) \<and> ct_be ct' = filter (\<lambda>j. j \<noteq> k) (ct_be ct) \<and>
    pm_bySession (ct_pm ct') =
      (\<lambda>sid. case pm_bySession (ct_pm ct) sid of None \<Rightarrow> None | Some r \<Rightarrow> if rv_owner r = k then None else Some r) \<and>
    (if k \<in> set (ct_be ct) then (\<forall>p \<in> set (cc_AllocatedPorts c). rp_pendingKills (ct_reaper ct') p \<noteq> None)
     else ct_reaper ct' = ct_reaper ct)"
proof -
  note run = ctl_run_inv [OF assms(1)]
  note inv = ctl_invD [OF run]
  obtain c where c: "ct_objects ct k = Some c" "\<not> cc_once c" using inv(5,6) [of k] assms(3) by blast
  have one: "k \<in> set (ct_fe ct) \<Longrightarrow> k \<notin> set (ct_be ct)" using inv(5,6) [of k] by fastforce
  note body = Close1_body [OF run c, of ev]
  show ?thesis
    using body assms(3) one release_all_pm(3) [OF assms(2), of "ct\<lparr>ct_objects := (ct_objects ct)(k \<mapsto> c\<lparr>cc_once := True, cc_closed := True\<rparr>),
      ct_fe := filter (\<lambda>j. j \<noteq> k) (ct_fe ct), ct_be := filter (\<lambda>j. j \<noteq> k) (ct_be ct)\<rparr>" k] inv(3,4) c(1)
    by (cases "Close1 ev k ct") (auto simp: closed_client_def Let_def scheduled_pending [unfolded not_None_eq])
qed

text \<open>
  C24. Only the secret opens the door. A connection that has not spoken is listed after its
  first message only if that message is a registration with the configured, non-empty secret and the
  role of the list, and then goes on only if the answer could be written; in every other case its
  connection is hung up and the hub is as before.
\<close>
theorem register_guard:
  assumes "k \<notin> set (ct_fe ct)" and "k \<notin> set (ct_be ct)"
    and "handle_register ev k first ct = (go, ct', es)"
  shows "if k \<in> set (ct_fe ct') \<union> set (ct_be ct')
    then (\<exists>v pl reg. first = Some v \<and> decode_raw v = Some (''register'', pl) \<and> read_register pl = Some reg \<and>
        rg_Secret reg = rc_AuthSecret (ct_cfg ct) \<and> rg_Secret reg \<noteq> '''' \<and>
        rg_Role reg = (if k \<in> set (ct_fe ct') then RoleFE else RoleBE) \<and> Deliver k (AuthMsg ''ok'') \<in> set es \<and> go = ev_ok ev k)
    else \<not> go \<and> ct' = ct \<and> HangUp k \<in> set es"
  using assms
  by (auto simp: handle_register_def Hub1_Register_def VerifyAuth_def Send1_def welcome_client_def case_prod_beta Let_def
      split: option.splits if_splits)

subsection \<open>Who hears a broadcast\<close>

lemma Close1_object: "j \<noteq> k \<Longrightarrow> ct_objects (fst (Close1 ev j ct)) k = ct_objects ct k"
  by (auto simp: Close1_def Hub1_Unregister_def case_prod_beta Let_def split: option.split)

lemma Close1_quiet: "Deliver k m \<notin> set (snd (Close1 ev j ct))"
  by (auto simp: Close1_def Hub1_Unregister_def case_prod_beta Let_def split: option.split)

definition alive1 :: "Control \<Rightarrow> conn \<Rightarrow> bool" where
  "alive1 ct k \<longleftrightarrow> (case ct_objects ct k of None \<Rightarrow> False | Some c \<Rightarrow> \<not> cc_closed c)"

lemma broadcast_to_alive: "j \<noteq> k \<Longrightarrow> alive1 (fst (broadcast_to ev msg j ct)) k = alive1 ct k"
  by (auto simp: alive1_def broadcast_to_def Send1_def case_prod_beta Let_def Close1_object split: option.split)

lemma broadcast_to_delivers:
  "Deliver k m \<in> set (snd (broadcast_to ev msg j ct)) \<longleftrightarrow> k = j \<and> m = msg \<and> alive1 ct j"
  by (auto simp: alive1_def broadcast_to_def Send1_def case_prod_beta Let_def Close1_quiet split: option.split)

lemma broadcast_fold:
  "distinct ks \<Longrightarrow> Deliver k m \<in> set (snd (seq_effects (broadcast_to ev msg) ks ct)) \<longleftrightarrow>
     k \<in> set ks \<and> m = msg \<and> alive1 ct k"
proof (induction ks arbitrary: ct)
  case (Cons j ks)
  have "alive1 (fst (broadcast_to ev msg j ct)) k = alive1 ct k" if "k \<in> set ks"
    using that Cons.prems by (intro broadcast_to_alive) auto
  with Cons show ?case by (auto simp: case_prod_beta Let_def broadcast_to_delivers)
qed simp

lemma broadcast_targets:
  assumes "good_env ev" "ctl_inv ct"
  shows "Deliver k m \<in> set (snd (BroadcastToRole ev role msg ct)) \<longleftrightarrow>
    k \<in> set (if role = RoleFE then ct_fe ct else ct_be ct) \<and> authed1 ct k \<and> m = msg \<and> alive1 ct k"
proof -
  let ?ks = "filter (authed1 ct) (ev_shuffle ev (if role = RoleFE then ct_fe ct else ct_be ct))"
  have ks: "distinct ?ks" "k \<in> set ?ks \<longleftrightarrow> k \<in> set (if role = RoleFE then ct_fe ct else ct_be ct) \<and> authed1 ct k"
    using assms(1) ctl_invD(1,2) [OF assms(2)] unfolding good_env_def by auto
  show ?thesis unfolding BroadcastToRole_def broadcast_fold [OF ks(1)] ks(2) by blast
qed

text \<open>
  A broadcast reaches the role it is for. In any run, the messages that \<open>BroadcastToRole\<close> sends are
  exactly one copy of its message to each front end (or back end) that is registered, has had its
  registration answered and is not closed, whatever order the map comes in and whichever of
  the writes fail on the way.
\<close>
theorem broadcast_exact:
  assumes "ctl_step\<^sup>*\<^sup>* (NewControl cfg) ct" and "good_env ev"
  shows "{(k, m). Deliver k m \<in> set (snd (BroadcastToRole ev role msg ct))} =
    {(k, msg) | k. k \<in> set (if role = RoleFE then ct_fe ct else ct_be ct) \<and> authed1 ct k \<and>
       alive1 ct k}"
  using broadcast_targets [OF assms(2) ctl_run_inv [OF assms(1)]] by auto

text \<open>The private key of a key exchange, which a comment reserves for the gateway, goes on to each front end.\<close>

lemma private_key_forwarded:
  assumes "good_env ev" "ctl_inv ct" "ct_objects ct k = Some c" "cc_Role c = RoleBE"
    "j \<in> set (ct_fe ct)" "ct_objects ct j = Some d" "cc_authed d" "\<not> cc_closed d"
  shows "Deliver j (KeyExchangeMsg p) \<in> set (snd (handle_key_exchange ev k p ct))"
  using assms by (simp add: handle_key_exchange_def broadcast_targets authed1_def alive1_def)

subsection \<open>Ports that become free\<close>

lemma ReleaseByPort_sessions:
  assumes "pm_inv pm" "0 < p"
  shows "pm_bySession (ReleaseByPort p pm) =
      (\<lambda>sid. case pm_bySession pm sid of None \<Rightarrow> None | Some r \<Rightarrow> if holds_port r p then None else Some r)"
    and "pm_byPort (ReleaseByPort p pm) p = None"
proof -
  have all: "pm_bySession (ReleaseByPort p pm) =
      (\<lambda>sid. case pm_bySession pm sid of None \<Rightarrow> None | Some r \<Rightarrow> if holds_port r p then None else Some r)"
  proof (cases "pm_byPort pm p")
    case None
    then have "\<not> holds_port r p" if "pm_bySession pm sid = Some r" for sid r
      using pm_invD(5) [OF assms(1), of p sid] that by auto
    with None assms(2) show ?thesis by (auto simp: ReleaseByPort_def fun_eq_iff split: option.split)
  next
    case (Some sid)
    then obtain r where r: "pm_bySession pm sid = Some r" "holds_port r p"
      using pm_invD(5) [OF assms(1), of p sid] by auto
    have "\<not> holds_port r' p" if "pm_bySession pm sid' = Some r'" "sid' \<noteq> sid" for sid' r'
      using pm_invD(5) [OF assms(1), of p sid'] that Some by auto
    with r Some assms(2) show ?thesis
      using pm_invD(1,2) [OF assms(1) r(1)]
      by (auto simp: ReleaseByPort_def delete_fields fun_eq_iff split: option.split)
  qed
  then show "pm_bySession (ReleaseByPort p pm) =
      (\<lambda>sid. case pm_bySession pm sid of None \<Rightarrow> None | Some r \<Rightarrow> if holds_port r p then None else Some r)" .
  have "pm_inv (ReleaseByPort p pm)" by (rule pm_step_inv [OF pm_step.release_port assms(1)])
  then show "pm_byPort (ReleaseByPort p pm) p = None"
    using pm_invD(5) [of "ReleaseByPort p pm" p "the (pm_byPort (ReleaseByPort p pm) p)"] all
    by (cases "pm_byPort (ReleaseByPort p pm) p") (simp_all split: option.splits if_splits)
qed

lemma free_hook_effects:
  "\<forall>e \<in> set es. \<forall>q. e \<noteq> CallPortFree q \<Longrightarrow> free_hook es ct = ct"
  "free_hook (es @ fs) ct = free_hook fs (free_hook es ct)"
  "free_hook (CallPortFree p # es) ct = free_hook es (ct\<lparr>ct_pm := ReleaseByPort p (ct_pm ct)\<rparr>)"
proof -
  show "free_hook es ct = ct" if "\<forall>e \<in> set es. \<forall>q. e \<noteq> CallPortFree q"
    using that unfolding free_hook_def by (induction es) (auto split: rs_effect.split)
qed (simp_all add: free_hook_def)

lemma stop_parts_quiet:
  "CallPortFree q \<notin> set (snd (stop_listener p s))" "CallPortFree q \<notin> set (snd (stop_session p s))"
  "CallPortFree q \<notin> set (snd (drop_BE p s))" "CallPortFree q \<notin> set (snd (drop_FE p s))"
  by (auto simp: stop_listener_def stop_session_def drop_BE_def drop_FE_def stop_pipe_def close_bc_def
      case_prod_beta Let_def split: option.split)

lemma stop_parts_hooks:
  "rs_onPortFree (fst (stop_listener p s)) = rs_onPortFree s" "rs_onPortFree (fst (stop_session p s)) = rs_onPortFree s"
  "rs_onPortFree (fst (drop_BE p s)) = rs_onPortFree s" "rs_onPortFree (fst (drop_FE p s)) = rs_onPortFree s"
  by (auto simp: stop_listener_def stop_session_def drop_BE_def drop_FE_def stop_pipe_def
      case_prod_beta Let_def split: option.split)

lemma StopPort_effects:
  assumes "rs_onPortFree s"
  obtains es fs where "snd (StopPort p s) = es @ CallPortFree p # fs"
    "\<forall>e \<in> set es. \<forall>q. e \<noteq> CallPortFree q" "\<forall>e \<in> set fs. \<forall>q. e \<noteq> CallPortFree q"
proof -
  let ?s1 = "fst (stop_listener p s)"
  let ?s2 = "fst (stop_session p ?s1)"
  let ?s3 = "fst (drop_BE p ?s2)"
  let ?s4 = "fst (drop_FE p ?s3)"
  let ?s5 = "?s4\<lparr>rs_busy := (rs_busy ?s4)(p := False)\<rparr>"
  let ?es = "snd (stop_listener p s) @ snd (stop_session p ?s1) @ snd (drop_BE p ?s2) @ snd (drop_FE p ?s3)"
  have "snd (StopPort p s) = ?es @ port_free p ?s5 @ state_change ?s5"
    by (simp add: StopPort_def case_prod_beta Let_def)
  then have "snd (StopPort p s) = ?es @ CallPortFree p # state_change ?s5"
    by (simp add: port_free_def stop_parts_hooks assms)
  then show ?thesis
    by (rule that) (use stop_parts_quiet in \<open>fastforce simp: state_change_def\<close>)+
qed

text \<open>
  A port that is stopped is given back. When the relay server stops a port, the hook that the
  port manager has installed releases exactly the reservation that holds the port, so the port can be
  reserved again and every other reservation stays.
\<close>
theorem stopped_port_released:
  assumes "ctl_step\<^sup>*\<^sup>* (NewControl cfg) ct" and "rs_onPortFree (ct_relay ct)" and "0 < p"
    and "StopPort p (ct_relay ct) = (s, es)"
  shows "\<not> IsPortBusy p s \<and> pm_byPort (ct_pm (free_hook es (set_relay s ct))) p = None \<and>
    pm_bySession (ct_pm (free_hook es (set_relay s ct))) =
      (\<lambda>sid. case pm_bySession (ct_pm ct) sid of None \<Rightarrow> None | Some r \<Rightarrow> if holds_port r p then None else Some r)"
proof -
  have "s = fst (StopPort p (ct_relay ct))" using assms(4) by simp
  then have "\<not> IsPortBusy p s"
    by (simp add: StopPort_def IsPortBusy_def case_prod_beta Let_def)
  moreover obtain e1 e2 where "es = e1 @ CallPortFree p # e2" "\<forall>e \<in> set e1. \<forall>q. e \<noteq> CallPortFree q"
    "\<forall>e \<in> set e2. \<forall>q. e \<noteq> CallPortFree q"
    using StopPort_effects [OF assms(2), of p] assms(4) by auto
  ultimately show ?thesis
    using ReleaseByPort_sessions [OF ctl_invD(3) [OF ctl_run_inv [OF assms(1)]] assms(3)]
    by (simp add: free_hook_effects)
qed

subsection \<open>Examples\<close>

definition ex_cfg1 :: RelayConfig where
  "ex_cfg1 =
     \<lparr>rc_MaxFE = 1, rc_MaxBE = 1, rc_RingBufferSize = 64, rc_ReaperTimeout = 0, rc_ControlPort = 0,
      rc_Ports = \<lparr>pa_ZMQStartPort = 7, pa_ZMQEndPort = 7, pa_SRTStartPort = 1, pa_SRTEndPort = 0\<rparr>, rc_AuthSecret = ''s''\<rparr>"

definition ex_env :: "bool \<Rightarrow> ctl_env" where
  "ex_env ok =
     \<lparr>ev_now = 0, ev_later = 0, ev_ok = (\<lambda>_. ok), ev_shuffle = (\<lambda>ks. ks), ev_sids = sorted_list_of_set, ev_sweep = [],
      ev_sid = ''id'', ev_listen = (\<lambda>_. Inr 0), ev_probe = (\<lambda>_. None), ev_porder = [], ev_lorder = []\<rparr>"

definition ex_first :: json where
  "ex_first = JObj [(''type'', JStr ''register''), (''payload'', JObj [(''role'', JStr ''FE''), (''secret'', JStr ''s'')])]"

definition ex_entered :: "bool \<Rightarrow> Control" where
  "ex_entered ok = fst (snd (handle_register (ex_env ok) 5 (Some ex_first) (NewControl ex_cfg1)))"

lemma good_ex_env: "good_env (ex_env ok)"
  by (simp add: good_env_def ex_env_def)

lemma ex_first_eval:
  "decode_raw ex_first = Some (''register'', Some (JObj [(''role'', JStr ''FE''), (''secret'', JStr ''s'')]))"
  "read_register (Some (JObj [(''role'', JStr ''FE''), (''secret'', JStr ''s'')])) =
     Some \<lparr>rg_Role = ''FE'', rg_Secret = ''s'', rg_ClientID = ''''\<rparr>"
  by (simp_all add: decode_raw_def ex_first_def read_register_def unmarshal_payload_def decode_struct_def
      decode_member_def field_match_def)

lemma ex_entered_lists:
  "ct_fe (ex_entered ok) = [5]" "ct_be (ex_entered ok) = []"
  "ct_objects (ex_entered ok) 5 =
     Some \<lparr>cc_Role = ''FE'', cc_AllocatedPorts = [], cc_authed = ok, cc_closed = False, cc_once = False\<rparr>"
  by (auto simp: ex_entered_def handle_register_def ex_first_eval VerifyAuth_def ex_cfg1_def NewControl_def Hub1_Register_def
      RoleFE_def RoleBE_def Send1_def ex_env_def welcome_client_def case_prod_beta Let_def)

lemma ex_entered_run: "ctl_step\<^sup>*\<^sup>* (NewControl ex_cfg1) (ex_entered ok)"
  unfolding ex_entered_def by (intro r_into_rtranclp ctl_step.register) (simp add: NewControl_def)

lemma control_registry_witness: "ct_fe (ex_entered True) = [5] \<and> (\<exists>c. ct_objects (ex_entered True) 5 = Some c \<and> cc_Role c = RoleFE)"
  using control_registry [OF ex_entered_run [of True]] by (simp add: ex_entered_lists)

lemma client_close_exact_witness:
  "\<exists>ct' es. Close1 (ex_env True) 5 (ex_entered True) = (ct', HangUp 5 # es) \<and> ct_fe ct' = []"
  using client_close_exact [OF ex_entered_run [of True] good_ex_env [of True], of 5] by (auto simp: ex_entered_lists)

lemma register_guard_witness:
  "5 \<in> set (ct_fe (ex_entered True)) \<and>
   HangUp 6 \<in> set (snd (snd (handle_register (ex_env True) 6 None (ex_entered True))))"
proof
  show "5 \<in> set (ct_fe (ex_entered True))" by (simp add: ex_entered_lists)
  obtain go ct' es where out: "handle_register (ex_env True) 6 None (ex_entered True) = (go, ct', es)"
    by (metis prod_cases3)
  then have "ct' = ex_entered True" by (simp add: handle_register_def)
  with register_guard [of 6 "ex_entered True", OF _ _ out] out
  show "HangUp 6 \<in> set (snd (snd (handle_register (ex_env True) 6 None (ex_entered True))))"
    by (simp add: ex_entered_lists)
qed

lemma broadcast_exact_witness:
  "{(k, m). Deliver k m \<in> set (snd (BroadcastToRole (ex_env False) RoleFE (LogMsg ''x'') (ex_entered True)))} = {(5, LogMsg ''x'')}"
  using broadcast_exact [OF ex_entered_run [of True] good_ex_env [of False], of RoleFE "LogMsg ''x''"]
  by (simp add: ex_entered_lists authed1_def alive1_def)

lemma stopped_port_released_witness:
  "pm_byPort (ct_pm (free_hook (snd (StopPort 7 (ct_relay (NewControl ex_cfg1))))
     (set_relay (fst (StopPort 7 (ct_relay (NewControl ex_cfg1)))) (NewControl ex_cfg1)))) 7 = None"
proof -
  have hook: "rs_onPortFree (ct_relay (NewControl ex_cfg1))"
    by (simp add: NewControl_def GlobalReaper_def SetOnPortFree_def)
  from stopped_port_released [OF rtranclp.rtrancl_refl hook, of 7] show ?thesis
    by (cases "StopPort 7 (ct_relay (NewControl ex_cfg1))") simp
qed

subsection \<open>A slot that is lost\<close>

text \<open>
  A client whose registration is answered in vain keeps its place. When the answer to a valid
  registration cannot be written, the handler hangs up and returns without unregistering the client:
  with room for one front end, the list is full with a dead connection, and no first message of any
  connection, in any circumstances, changes it again.
\<close>
theorem lost_answer_keeps_slot:
  "\<exists>ct es. handle_register (ex_env False) 5 (Some ex_first) (NewControl ex_cfg1) = (False, ct, es) \<and>
     HangUp 5 \<in> set es \<and> ct_fe ct = [5] \<and> \<not> authed1 ct 5 \<and>
     (\<forall>ev k first. ct_fe (fst (snd (handle_register ev k first ct))) = [5])"
proof -
  let ?ct = "ex_entered False"
  have full: "ct_fe (snd (Hub1_Register k c ?ct)) = [5]" for k c
    by (simp add: Hub1_Register_def ex_entered_lists)
       (simp add: ex_entered_def handle_register_def ex_first_eval VerifyAuth_def ex_cfg1_def NewControl_def Hub1_Register_def
        RoleFE_def Send1_def ex_env_def case_prod_beta Let_def)
  have "ct_fe (fst (snd (handle_register ev k first ?ct))) = [5]" for ev k first
    by (auto simp: handle_register_def welcome_client_def case_prod_beta Let_def full ex_entered_lists split: option.split)
  moreover have "handle_register (ex_env False) 5 (Some ex_first) (NewControl ex_cfg1) =
      (False, ?ct, [Deliver 5 (AuthMsg ''ok''), HangUp 5])"
    by (simp add: ex_entered_def handle_register_def ex_first_eval VerifyAuth_def ex_cfg1_def NewControl_def Hub1_Register_def
        RoleFE_def RoleBE_def Send1_def ex_env_def case_prod_beta Let_def)
  ultimately show ?thesis by (auto simp: ex_entered_lists authed1_def)
qed

end
