(* ===== verification/RelayV2.thy ===== *)
theory RelayV2
  imports RelayV1
begin

section \<open>The relay server of the second version (v2/relay/server.go)\<close>

text \<open>
  The second version keeps the state, the sessions and the end of ports of the first (the code is the same), and
  changes three things: a port of protocol srt listens by SRT, a connection to a zmq or srt port that says no hello in
  50 milliseconds gets a role by guess, and the snapshot probes less. Locked regions are functions over
  the state of the first version.
\<close>

subsection \<open>Listeners\<close>

text \<open>\<open>AcceptConn\<close> of the two kinds of listener: the SRT request is accepted in a second call.\<close>

definition tcp_AcceptConn :: "io_error + conn \<Rightarrow> io_error + conn" where
  "tcp_AcceptConn accept = accept"

definition srt_AcceptConn :: "io_error + 'req \<Rightarrow> ('req \<Rightarrow> io_error + conn) \<Rightarrow> io_error + conn" where
  "srt_AcceptConn accept2 accept = (case accept2 of Inl e \<Rightarrow> Inl e | Inr req \<Rightarrow> accept req)"

definition StartRelayPortWithProtocol2 ::
    "go_error + listener \<Rightarrow> go_error + listener \<Rightarrow> port \<Rightarrow> string \<Rightarrow> RelayServer \<Rightarrow> go_error option \<times> RelayServer \<times> rs_effect list" where
  "StartRelayPortWithProtocol2 srt tcp port protocol s =
     (if rs_listeners s port \<noteq> None then (None, s, [])
      else (case (if protocol = ''srt'' then srt else tcp) of
          Inl e \<Rightarrow> (Some e, s, [])
        | Inr l \<Rightarrow>
            (let s1 = s\<lparr>rs_listeners := (rs_listeners s)(port \<mapsto> l)\<rparr>;
                 s2 = (if protocol \<noteq> '''' then s1\<lparr>rs_portProtocol := (rs_portProtocol s1)(port \<mapsto> protocol)\<rparr>
                       else if rs_portProtocol s1 port = None
                       then s1\<lparr>rs_portProtocol := (rs_portProtocol s1)(port \<mapsto> '''')\<rparr> else s1)
             in (None, s2, [RGoAccept port l]))))"

definition StartRelayPort2 ::
    "go_error + listener \<Rightarrow> go_error + listener \<Rightarrow> port \<Rightarrow> RelayServer \<Rightarrow> go_error option \<times> RelayServer \<times> rs_effect list" where
  "StartRelayPort2 srt tcp port s = StartRelayPortWithProtocol2 srt tcp port '''' s"

definition getPortProtocol :: "port \<Rightarrow> RelayServer \<Rightarrow> string" where
  "getPortProtocol port s = (case rs_portProtocol s port of None \<Rightarrow> '''' | Some p \<Rightarrow> p)"

subsection \<open>Accepting\<close>

definition guesses :: "string \<Rightarrow> bool" where
  "guesses proto \<longleftrightarrow> proto = ''zmq'' \<or> proto = ''srt''"

definition readHelloTimeout :: "string \<Rightarrow> duration" where
  "readHelloTimeout proto = (if guesses proto then 50 * millisecond else 2 * second)"

text \<open>The second locked region of \<open>acceptLoop\<close>, which does not look at the busy mark again.\<close>

definition relay_admit2 ::
    "int \<Rightarrow> port \<Rightarrow> string \<Rightarrow> string \<Rightarrow> BufferedConn \<Rightarrow> RelayServer \<Rightarrow> RelayServer \<times> rs_effect list" where
  "relay_admit2 bufsz port role ident bc s =
     (if role = ''BE''
      then (if rs_pendingBE s port \<noteq> None then (s, close_bc bc)
            else (case rs_pendingFE s port of
                Some fe \<Rightarrow> start_session bufsz port fe bc ident
                  (s\<lparr>rs_pendingFE := (rs_pendingFE s)(port := None), rs_pendingFEID := (rs_pendingFEID s)(port := None)\<rparr>)
              | None \<Rightarrow> (s\<lparr>rs_pendingBE := (rs_pendingBE s)(port \<mapsto> bc), rs_pendingBEID := (rs_pendingBEID s)(port \<mapsto> ident)\<rparr>,
                         state_change s)))
      else if role = ''FE''
      then (case rs_pendingBE s port of
              None \<Rightarrow> (s, close_bc bc)
            | Some be \<Rightarrow> start_session bufsz port bc be
                (case rs_pendingBEID s port of None \<Rightarrow> '''' | Some i \<Rightarrow> i)
                (s\<lparr>rs_pendingBE := (rs_pendingBE s)(port := None), rs_pendingBEID := (rs_pendingBEID s)(port := None)\<rparr>))
      else (s, close_bc bc))"

text \<open>The first locked region after the hello: a refusal or the role of the connection, said or guessed.\<close>

definition accept_role2 :: "string \<Rightarrow> port \<Rightarrow> DataHello1 option \<Rightarrow> RelayServer \<Rightarrow> string option" where
  "accept_role2 proto port h s =
     (if rs_busy s port then None
      else if helloRole h = ''''
      then (if guesses proto then Some (if rs_pendingBE s port = None then ''BE'' else ''FE'') else None)
      else Some (helloRole h))"

text \<open>One iteration of \<open>acceptLoop\<close>: \<open>env\<close> is what others do while the hello is read (with the timeout of the
  port's protocol: \<open>evs\<close> are the reads until then), \<open>env2\<close> what they do between the two regions.\<close>

definition relay_accept2 ::
    "int \<Rightarrow> (RelayServer \<Rightarrow> RelayServer) \<Rightarrow> (RelayServer \<Rightarrow> RelayServer) \<Rightarrow> port \<Rightarrow> conn \<Rightarrow> (duration \<Rightarrow> read_result list) \<Rightarrow>
      RelayServer \<Rightarrow> RelayServer \<times> rs_effect list" where
  "relay_accept2 bufsz env env2 port c evs s =
     (if IsPortBusy port s then (s, [RConn (CloseConn c)])
      else (let proto = getPortProtocol port s;
                (h, r) = wrapConnAndHello (evs (readHelloTimeout proto)); bc = \<lparr>bc_conn = c, bc_reader = r\<rparr>; s = env s
            in case accept_role2 proto port h s of
                 None \<Rightarrow> (s, close_bc bc)
               | Some role \<Rightarrow> relay_admit2 bufsz port role (helloClientID h) bc (env2 s)))"

subsection \<open>The snapshot\<close>

text \<open>Only a connection that is closed is dropped, and the ones of srt ports are not looked at.\<close>

definition probe_pending2 ::
    "(conn \<Rightarrow> io_error option) \<Rightarrow> port \<Rightarrow> RelayServer \<Rightarrow> RelayServer \<times> rs_effect list" where
  "probe_pending2 probe port s =
     (case rs_pendingBE s port of
        None \<Rightarrow> (s, [])
      | Some bc \<Rightarrow>
          if rs_portProtocol s port = Some ''srt'' then (s, [])
          else (let dl = [RConn (SetDeadlineNow (bc_conn bc)), ClearDeadline (bc_conn bc)];
                    gone = (s\<lparr>rs_pendingBE := (rs_pendingBE s)(port := None),
                              rs_pendingBEID := (rs_pendingBEID s)(port := None)\<rparr>, dl @ close_bc bc)
                in case probe (bc_conn bc) of
                     Some IoEOF \<Rightarrow> gone
                   | Some IoClosed \<Rightarrow> gone
                   | _ \<Rightarrow> (s, dl)))"

definition snap_port2 :: "RelayServer \<Rightarrow> port \<Rightarrow> PortStateSnapshot \<Rightarrow> PortStateSnapshot" where
  "snap_port2 s port snap =
     (let proto = getPortProtocol port s; busy = rs_busy s port; beReady = (rs_pendingBE s port \<noteq> None)
      in if proto = ''zmq''
         then (let snap = snap\<lparr>pss_ZMQTotal := pss_ZMQTotal snap + 1\<rparr>
               in if busy then snap\<lparr>pss_ZMQBusyCount := pss_ZMQBusyCount snap + 1\<rparr>
                  else if beReady then snap\<lparr>pss_ZMQReadyPorts := pss_ZMQReadyPorts snap @ [port]\<rparr>
                  else snap\<lparr>pss_ZMQEmptyPorts := pss_ZMQEmptyPorts snap @ [port]\<rparr>)
         else if proto = ''srt''
         then (let snap = snap\<lparr>pss_SRTTotal := pss_SRTTotal snap + 1\<rparr>
               in if busy then snap\<lparr>pss_SRTBusyCount := pss_SRTBusyCount snap + 1\<rparr>
                  else if beReady then snap\<lparr>pss_SRTReadyPorts := pss_SRTReadyPorts snap @ [port]\<rparr>
                  else snap\<lparr>pss_SRTEmptyPorts := pss_SRTEmptyPorts snap @ [port]\<rparr>)
         else snap)"

definition SnapshotPortState2 ::
    "(conn \<Rightarrow> io_error option) \<Rightarrow> port list \<Rightarrow> port list \<Rightarrow> RelayServer \<Rightarrow>
      PortStateSnapshot \<times> RelayServer \<times> rs_effect list" where
  "SnapshotPortState2 probe porder lorder s =
     (let (s', es) = seq_effects (probe_pending2 probe) porder s;
          snap = fold (snap_port2 s') lorder empty_state
      in (snap\<lparr>pss_ZMQReadyPorts := sort (pss_ZMQReadyPorts snap), pss_SRTReadyPorts := sort (pss_SRTReadyPorts snap),
               pss_ZMQEmptyPorts := sort (pss_ZMQEmptyPorts snap), pss_SRTEmptyPorts := sort (pss_SRTEmptyPorts snap)\<rparr>,
          s', es))"

subsection \<open>What is new against the first version\<close>

lemma snap_port2_eq: "snap_port2 = snap_relay_port"
  by (simp add: fun_eq_iff snap_port2_def snap_relay_port_def getPortProtocol_def)

lemma admit2_eq: "\<not> rs_busy s port \<Longrightarrow> relay_admit2 m port role i bc s = relay_admit m port role i bc s"
  by (simp add: relay_admit2_def relay_admit_def)

text \<open>
  The second version accepts what the first accepts, and guesses where the first refuses. Where nothing comes between
  the two locked regions, a connection with a hello is treated exactly as in the first version, and so is one without on a port that is
  neither zmq nor srt; on such a port a connection without a hello is admitted as the back end when
  none waits and as the front end of the waiting one otherwise.
\<close>
theorem accept2_extends_accept:
  "let h = fst (wrapConnAndHello (evs (readHelloTimeout (getPortProtocol port s))));
       r = snd (wrapConnAndHello (evs (readHelloTimeout (getPortProtocol port s))));
       s' = env s
   in relay_accept2 m env (\<lambda>s. s) port c evs s =
     (if helloRole h = '''' \<and> guesses (getPortProtocol port s) \<and> \<not> IsPortBusy port s
      then relay_admit m port (if rs_pendingBE s' port = None then ''BE'' else ''FE'') (helloClientID h) \<lparr>bc_conn = c, bc_reader = r\<rparr> s'
      else relay_accept m env port c (evs (readHelloTimeout (getPortProtocol port s))) s)"
  by (auto simp: relay_accept2_def relay_accept_def accept_role2_def case_prod_beta Let_def admit2_eq relay_admit_def)

text \<open>The steps of the relay server in any order. The second region of an accept may find any state: whoever has been admitted
  since the first region, nothing is looked up again.\<close>

inductive rs2_step :: "RelayServer \<Rightarrow> RelayServer \<Rightarrow> bool" where
  start: "rs2_step s (fst (snd (StartRelayPortWithProtocol2 l l' port proto s)))"
| admit: "rs2_step s (fst (relay_admit2 m port role i bc s))"
| pipe: "rs_store s n = Some sn \<Longrightarrow> pp_step (sn_pipe sn) (p, es) \<Longrightarrow>
    rs2_step s (s\<lparr>rs_store := (rs_store s)(n \<mapsto> sn\<lparr>sn_pipe := p\<rparr>)\<rparr>)"
| stopped: "rs_store s n = Some sn \<Longrightarrow> pp_ended (sn_pipe sn) \<Longrightarrow> pp_once (sn_pipe sn) \<Longrightarrow> pp_todo (sn_pipe sn) = [] \<Longrightarrow>
    \<not> sn_called sn \<Longrightarrow> rs2_step s (fst (session_stopped n s))"
| stop_port: "rs2_step s (fst (StopPort port s))"
| snapshot: "rs2_step s (fst (snd (SnapshotPortState2 probe ps ls s)))"
| hooks: "rs2_step s (SetOnPortFree f (SetOnStateChange g s))"

lemma start2_eq:
  "StartRelayPortWithProtocol2 l l' port proto s = StartRelayPortWithProtocol (if proto = ''srt'' then l else l') port proto s"
  by (simp add: StartRelayPortWithProtocol2_def StartRelayPortWithProtocol_def)

lemma relay_inv_start2: "relay_inv_on A s \<Longrightarrow> relay_inv_on A (fst (snd (StartRelayPortWithProtocol2 l l' port proto s)))"
  by (simp add: start2_eq relay_inv_start)

text \<open>On a port that may be busy an admission keeps everything but that a busy port has no waiting back end.\<close>

lemma relay_inv_admit2:
  assumes "relay_inv_on A s" and "port \<in> A \<Longrightarrow> \<not> rs_busy s port"
  shows "relay_inv_on A (fst (relay_admit2 m port role i bc s))"
proof (cases "rs_busy s port")
  case True
  then have port: "port \<notin> A" using assms(2) by blast
  have FE: "rs_pendingFE s = Map.empty" by (rule relay_invD(1) [OF assms(1)])
  have "relay_inv_on A (s\<lparr>rs_pendingBE := (rs_pendingBE s)(port \<mapsto> bc), rs_pendingBEID := (rs_pendingBEID s)(port \<mapsto> i)\<rparr>)"
    using assms(1) port unfolding relay_inv_on_def by auto
  then show ?thesis
    using assms(1) FE relay_inv_session [OF relay_inv_no_pending [OF assms(1), of port]] port
    by (auto simp: relay_admit2_def split: option.split)
qed (simp add: admit2_eq relay_inv_admit assms(1))

lemma relay_inv_probe2: "relay_inv_on A s \<Longrightarrow> relay_inv_on A (fst (probe_pending2 probe port s))"
  using relay_inv_no_pending [of A s port]
  by (auto simp: probe_pending2_def Let_def split: option.split io_error.split)

lemma relay_inv_snapshot2: "relay_inv_on A s \<Longrightarrow> relay_inv_on A (fst (snd (SnapshotPortState2 probe ps ls s)))"
proof -
  assume "relay_inv_on A s"
  then have "relay_inv_on A (fst (seq_effects (probe_pending2 probe) ps s))"
    by (intro seq_effects_inv [where I = "relay_inv_on A"]) (auto simp: relay_inv_probe2)
  then show ?thesis by (simp add: SnapshotPortState2_def Let_def case_prod_beta)
qed

lemma relay_inv_hooks: "relay_inv_on A s \<Longrightarrow> relay_inv_on A (SetOnPortFree f (SetOnStateChange g s))"
  by (auto simp: SetOnPortFree_def SetOnStateChange_def relay_inv_on_def)

lemma relay_inv_pipe:
  "relay_inv_on A s \<Longrightarrow> rs_store s n = Some sn \<Longrightarrow> pp_step (sn_pipe sn) (p, es) \<Longrightarrow>
    relay_inv_on A (s\<lparr>rs_store := (rs_store s)(n \<mapsto> sn\<lparr>sn_pipe := p\<rparr>)\<rparr>)"
  using relay_inv_store [of A s n sn p] relay_invD(7) [of A s n sn] pp_step_inv [of "sn_pipe sn" "(p, es)"] by simp

lemma relay_inv_step2: "rs2_step s s' \<Longrightarrow> relay_inv_on {} s \<Longrightarrow> relay_inv_on {} s'"
  by (induction rule: rs2_step.induct)
     (simp_all add: relay_inv_start2 relay_inv_admit2 [where A = "{}", simplified] relay_inv_stopped relay_inv_StopPort relay_inv_snapshot2 relay_inv_hooks
       relay_inv_pipe)

lemma relay2_run_inv: "rs2_step\<^sup>*\<^sup>* GlobalRelay s \<Longrightarrow> relay_inv_on {} s"
  by (induction rule: rtranclp_induct) (auto simp: relay_inv_step2 relay_inv_Global)

text \<open>
  The ports of the second version stay consistent. In every run, in any order of
  connections, session ends, stops and snapshots, a busy port has a session, the session of a port is
  one of that port, and a waiting back end has its id beside it.
\<close>
theorem relay_v2_consistent:
  assumes "rs2_step\<^sup>*\<^sup>* GlobalRelay s"
  shows "(IsPortBusy p s \<longrightarrow> GetSession p s \<noteq> None) \<and>
    (GetSession p s = Some n \<longrightarrow> (\<exists>sn. rs_store s n = Some sn \<and> sn_port sn = p)) \<and>
    dom (rs_pendingBE s) = dom (rs_pendingBEID s)"
  using relay2_run_inv [OF assms] unfolding relay_inv_on_def IsPortBusy_def GetSession_def by (auto simp: dom_def)

definition ex_joined2 :: RelayServer where
  "ex_joined2 = fst (relay_admit2 9 7 ''FE'' ''f'' (ex_bc 2) (fst (relay_admit2 9 7 ''BE'' ''b'' (ex_bc 1)
     (fst (snd (StartRelayPortWithProtocol2 (Inr 0) (Inr 1) 7 ''zmq'' GlobalRelay))))))"

lemma ex_joined2_run: "rs2_step\<^sup>*\<^sup>* GlobalRelay ex_joined2"
proof -
  define s1 where "s1 = fst (snd (StartRelayPortWithProtocol2 (Inr 0) (Inr 1) 7 ''zmq'' GlobalRelay))"
  define s2 where "s2 = fst (relay_admit2 9 7 ''BE'' ''b'' (ex_bc 1) s1)"
  have "rs2_step GlobalRelay s1" unfolding s1_def by (rule rs2_step.start)
  moreover have "rs2_step s1 s2" unfolding s2_def by (rule rs2_step.admit)
  moreover have "rs2_step s2 ex_joined2"
    unfolding ex_joined2_def s1_def [symmetric] s2_def [symmetric] by (rule rs2_step.admit)
  ultimately show ?thesis by (meson converse_rtranclp_into_rtranclp r_into_rtranclp)
qed

lemma ex_joined2_busy: "IsPortBusy 7 ex_joined2"
  by (simp add: ex_joined2_def StartRelayPortWithProtocol2_def relay_admit2_def GlobalRelay_def start_session_def IsPortBusy_def Let_def)

lemma relay_v2_consistent_witness: "GetSession 7 ex_joined2 \<noteq> None"
  using relay_v2_consistent [OF ex_joined2_run, of 7] ex_joined2_busy by blast

text \<open>The second region admits a back end to a busy port, which the first version refuses.\<close>

lemma late_admission2:
  "rs_busy s p \<Longrightarrow> rs_pendingBE s p = None \<Longrightarrow> rs_pendingFE s p = None \<Longrightarrow>
   rs_pendingBE (fst (relay_admit2 m p ''BE'' i bc s)) p = Some bc \<and> rs_busy (fst (relay_admit2 m p ''BE'' i bc s)) p \<and>
   rs_pendingBE (fst (relay_admit m p ''BE'' i bc s)) p = None"
  by (simp add: relay_admit2_def relay_admit_def)

subsection \<open>The snapshot is exact\<close>

definition hung_up :: "(conn \<Rightarrow> io_error option) \<Rightarrow> RelayServer \<Rightarrow> port \<Rightarrow> bool" where
  "hung_up probe s p \<longleftrightarrow>
     rs_portProtocol s p \<noteq> Some ''srt'' \<and>
     (case rs_pendingBE s p of None \<Rightarrow> False | Some bc \<Rightarrow> probe (bc_conn bc) = Some IoEOF \<or> probe (bc_conn bc) = Some IoClosed)"

lemma probe2_fields:
  "rs_pendingBE (fst (probe_pending2 probe p s)) = (\<lambda>q. if q = p \<and> hung_up probe s p then None else rs_pendingBE s q)"
  "rs_portProtocol (fst (probe_pending2 probe p s)) = rs_portProtocol s"
  "rs_busy (fst (probe_pending2 probe p s)) = rs_busy s"
  by (auto simp: probe_pending2_def hung_up_def Let_def fun_eq_iff split: option.split io_error.split)

lemma probes2_fields:
  "rs_pendingBE (fst (seq_effects (probe_pending2 probe) ps s)) = (\<lambda>q. if q \<in> set ps \<and> hung_up probe s q then None else rs_pendingBE s q) \<and>
   rs_portProtocol (fst (seq_effects (probe_pending2 probe) ps s)) = rs_portProtocol s \<and>
   rs_busy (fst (seq_effects (probe_pending2 probe) ps s)) = rs_busy s"
proof (induction ps arbitrary: s)
  case (Cons p ps)
  have "hung_up probe (fst (probe_pending2 probe p s)) q \<longleftrightarrow> hung_up probe s q \<and> q \<noteq> p" for q
    by (auto simp: hung_up_def probe2_fields)
  with Cons [of "fst (probe_pending2 probe p s)"] show ?case
    by (auto simp: case_prod_beta Let_def probe2_fields fun_eq_iff)
qed simp

text \<open>A port is ready when it is not busy and a back end waits there that has not hung up; that of an srt port is believed.\<close>

definition ready2 :: "(conn \<Rightarrow> io_error option) \<Rightarrow> RelayServer \<Rightarrow> string \<Rightarrow> port \<Rightarrow> bool" where
  "ready2 probe s proto p \<longleftrightarrow> has_proto s proto p \<and> \<not> rs_busy s p \<and> rs_pendingBE s p \<noteq> None \<and> \<not> hung_up probe s p"

definition bare2 :: "(conn \<Rightarrow> io_error option) \<Rightarrow> RelayServer \<Rightarrow> string \<Rightarrow> port \<Rightarrow> bool" where
  "bare2 probe s proto p \<longleftrightarrow> has_proto s proto p \<and> \<not> rs_busy s p \<and> (rs_pendingBE s p = None \<or> hung_up probe s p)"

text \<open>
  The snapshot of the second version is exact. Whatever the orders of the maps, the ready and the
  bare ports of each protocol are listed in ascending order, judged by the probes of this snapshot, the busy ones are counted,
  and the three kinds add up to the listened ports of the protocol.
\<close>
theorem snapshot2_exact:
  assumes "iterates (rs_listeners s) lorder" and "iterates (rs_pendingBE s) porder"
  shows "let snap = fst (SnapshotPortState2 probe porder lorder s) in
    pss_ZMQReadyPorts snap = sort (filter (ready2 probe s ''zmq'') lorder) \<and>
    pss_SRTReadyPorts snap = sort (filter (ready2 probe s ''srt'') lorder) \<and>
    pss_ZMQEmptyPorts snap = sort (filter (bare2 probe s ''zmq'') lorder) \<and>
    pss_SRTEmptyPorts snap = sort (filter (bare2 probe s ''srt'') lorder) \<and>
    pss_ZMQTotal snap = card {p. rs_listeners s p \<noteq> None \<and> has_proto s ''zmq'' p} \<and>
    pss_SRTTotal snap = card {p. rs_listeners s p \<noteq> None \<and> has_proto s ''srt'' p} \<and>
    pss_ZMQTotal snap = pss_ZMQBusyCount snap + length (pss_ZMQReadyPorts snap) + length (pss_ZMQEmptyPorts snap) \<and>
    pss_SRTTotal snap = pss_SRTBusyCount snap + length (pss_SRTReadyPorts snap) + length (pss_SRTEmptyPorts snap)"
proof -
  let ?s = "fst (seq_effects (probe_pending2 probe) porder s)"
  have "p \<in> set porder" if "hung_up probe s p" for p
    using that iteratesD(2) [OF assms(2)] by (auto simp: hung_up_def split: option.splits)
  then have pending: "rs_pendingBE ?s = (\<lambda>q. if hung_up probe s q then None else rs_pendingBE s q)"
    using probes2_fields [of probe porder s] by (auto simp: fun_eq_iff)
  have same: "rs_portProtocol ?s = rs_portProtocol s" "rs_busy ?s = rs_busy s" using probes2_fields [of probe porder s] by simp_all
  have kinds: "is_ready ?s proto = ready2 probe s proto" "is_bare ?s proto = bare2 probe s proto"
    "is_occupied ?s proto = is_occupied s proto" "has_proto ?s proto = has_proto s proto" for proto
    by (simp_all add: fun_eq_iff is_ready_def is_bare_def is_occupied_def ready2_def bare2_def has_proto_def pending same)
  have total: "length (filter (has_proto s proto) lorder) = card {p. rs_listeners s p \<noteq> None \<and> has_proto s proto p}" for proto
  proof -
    have "set (filter (has_proto s proto) lorder) = {p. rs_listeners s p \<noteq> None \<and> has_proto s proto p}"
      unfolding set_filter iteratesD(2) [OF assms(1)] by (simp add: dom_def)
    then show ?thesis
      using distinct_card [of "filter (has_proto s proto) lorder"] iteratesD(1) [OF assms(1)] by simp
  qed
  have three: "length (filter (has_proto s proto) ps) = length (filter (is_occupied s proto) ps) +
      length (filter (ready2 probe s proto) ps) + length (filter (bare2 probe s proto) ps)" for proto ps
    by (induction ps) (auto simp: ready2_def bare2_def is_occupied_def)
  have snap: "fst (SnapshotPortState2 probe porder lorder s) =
      \<lparr>pss_ZMQReadyPorts = sort (filter (ready2 probe s ''zmq'') lorder), pss_SRTReadyPorts = sort (filter (ready2 probe s ''srt'') lorder),
       pss_ZMQEmptyPorts = sort (filter (bare2 probe s ''zmq'') lorder), pss_SRTEmptyPorts = sort (filter (bare2 probe s ''srt'') lorder),
       pss_ZMQBusyCount = length (filter (is_occupied s ''zmq'') lorder), pss_SRTBusyCount = length (filter (is_occupied s ''srt'') lorder),
       pss_ZMQTotal = length (filter (has_proto s ''zmq'') lorder), pss_SRTTotal = length (filter (has_proto s ''srt'') lorder)\<rparr>"
    by (simp add: SnapshotPortState2_def case_prod_beta Let_def snap_port2_eq fold_snap_relay empty_state_def kinds)
  show ?thesis
    unfolding snap Let_def PortStateSnapshot.select_convs length_sort total [symmetric]
    using three by blast
qed

definition ex_srt2 :: RelayServer where
  "ex_srt2 = fst (relay_admit2 9 7 ''BE'' ''b'' (ex_bc 1) (fst (snd (StartRelayPortWithProtocol2 (Inr 0) (Inr 2) 7 ''srt'' GlobalRelay))))"

lemma snapshot2_exact_witness:
  "pss_SRTReadyPorts (fst (SnapshotPortState2 (\<lambda>_. Some IoEOF) [7] [7] ex_srt2)) = [7]"
proof -
  have fields: "rs_listeners ex_srt2 = [7 \<mapsto> 0]" "rs_pendingBE ex_srt2 = [7 \<mapsto> ex_bc 1]"
    "rs_portProtocol ex_srt2 = [7 \<mapsto> ''srt'']" "\<not> rs_busy ex_srt2 7"
    by (simp_all add: ex_srt2_def StartRelayPortWithProtocol2_def relay_admit2_def GlobalRelay_def Let_def)
  have "iterates (rs_listeners ex_srt2) [7]" "iterates (rs_pendingBE ex_srt2) [7]" by (simp_all add: iterates_def fields)
  from snapshot2_exact [OF this, of "\<lambda>_. Some IoEOF"] show ?thesis
    by (simp add: Let_def ready2_def has_proto_def hung_up_def fields)
qed

end
