(* ===== verification/HubV2.thy ===== *)
theory HubV2
  imports RelayV2 HubV1
begin

section \<open>The control server of the second version (v2/control/hub.go, port_manager.go)\<close>

text \<open>
  The second version has the registry, the port manager, the reaper and the messages of the first; their code differs in
  comments only. What differs is the relay server it stands on: the ports it opens
  listen by SRT when their protocol is srt, and the snapshots it sends and grants from are those of
  the second version, made in one helper function. So the state is that of the first version, and this theory has every
  function that touches the relay server. The outcome of listening by SRT is one more argument.
\<close>

subsection \<open>Session ids\<close>

text \<open>\<open>newSessionID\<close>: 16 random bytes in hexadecimal, or the time in decimal when there are none.\<close>

definition newSessionID2 :: "int + nat list \<Rightarrow> string" where
  "newSessionID2 rand =
     (case rand of
        Inl now \<Rightarrow> show_int now
      | Inr bytes \<Rightarrow> hex_encode (take 16 bytes))"

subsection \<open>The relay server behind the handlers\<close>

definition take_snapshot2 :: "ctl_env \<Rightarrow> Control \<Rightarrow> PortStateSnapshot \<times> Control \<times> ctl_effect list" where
  "take_snapshot2 ev ct =
     (let (snap, s, es) = SnapshotPortState2 (ev_probe ev) (ev_porder ev) (ev_lorder ev) (ct_relay ct)
      in (snap, set_relay s ct, map FromRelay es))"

definition snapshotPortState :: "ctl_env \<Rightarrow> Control \<Rightarrow> PortStatePayload1 \<times> Control \<times> ctl_effect list" where
  "snapshotPortState ev ct =
     (let (snap, ct, es) = take_snapshot2 ev ct
      in (\<lparr>ps1_ZMQTotal = pss_ZMQTotal snap, ps1_SRTTotal = pss_SRTTotal snap, ps1_ZMQBusy = pss_ZMQBusyCount snap,
           ps1_SRTBusy = pss_SRTBusyCount snap, ps1_ZMQReadyPorts = pss_ZMQReadyPorts snap,
           ps1_SRTReadyPorts = pss_SRTReadyPorts snap, ps1_ZMQEmptyPorts = pss_ZMQEmptyPorts snap,
           ps1_SRTEmptyPorts = pss_SRTEmptyPorts snap\<rparr>, ct, es))"

definition send_state2 :: "ctl_env \<Rightarrow> conn \<Rightarrow> Control \<Rightarrow> Control \<times> ctl_effect list" where
  "send_state2 ev k ct =
     (let (snap, ct, es) = snapshotPortState ev ct in (ct, es @ snd (Send1 ev k (PortStateMsg snap) ct)))"

type_synonym srt_listen = "port \<Rightarrow> go_error + listener"

definition start_port2 :: "srt_listen \<Rightarrow> ctl_env \<Rightarrow> string \<Rightarrow> port \<Rightarrow> Control \<Rightarrow> Control \<times> ctl_effect list" where
  "start_port2 srt ev protocol port ct =
     (let (err, s, es) = StartRelayPortWithProtocol2 (srt port) (ev_listen ev port) port protocol (ct_relay ct)
      in (set_relay s ct, map FromRelay es))"

subsection \<open>Handlers\<close>

definition handle_port_alloc2 ::
    "srt_listen \<Rightarrow> ctl_env \<Rightarrow> conn \<Rightarrow> PortAllocPayload \<Rightarrow> Control \<Rightarrow> Control \<times> ctl_effect list" where
  "handle_port_alloc2 srt ev k p ct =
     (case ct_objects ct k of
        None \<Rightarrow> (ct, [])
      | Some c \<Rightarrow>
          if cc_Role c \<noteq> RoleBE then (ct, [])
          else (let p = effective_ports (ct_cfg ct) p;
                    ct = ct\<lparr>ct_pm := snd (SetRanges p (ct_pm ct))\<rparr>;
                    zmqPorts = port_range (pa_ZMQStartPort p) (pa_ZMQEndPort p);
                    srtPorts = port_range (pa_SRTStartPort p) (pa_SRTEndPort p);
                    allPorts = zmqPorts @ srtPorts;
                    (ct, e1) = seq_effects (start_port2 srt ev ''zmq'') zmqPorts ct;
                    (ct, e2) = seq_effects (start_port2 srt ev ''srt'') srtPorts ct;
                    ct = ct\<lparr>ct_objects := (ct_objects ct)(k \<mapsto> c\<lparr>cc_AllocatedPorts := allPorts\<rparr>)\<rparr>;
                    ct = ct\<lparr>ct_reaper := CancelKill allPorts (ct_reaper ct)\<rparr>;
                    (ct, e3) = BroadcastToRole ev RoleFE (PortAllocMsg p) ct
                in (ct, e1 @ e2 @ [GoTelemetry k] @ e3)))"

text \<open>The manager's \<open>AcquireFromReady\<close> takes the snapshot itself, once the request is checked.\<close>

definition acquire_ready2 ::
    "ctl_env \<Rightarrow> conn \<Rightarrow> PortAcquirePayload \<Rightarrow> Control \<Rightarrow> (acquire_error + PortGrantPayload1) \<times> Control \<times> ctl_effect list" where
  "acquire_ready2 ev k req ct =
     (case check_acquire (Some k) req of
        Some e \<Rightarrow> (Inl e, ct, [])
      | None \<Rightarrow>
          (let (snap, ct, es) = take_snapshot2 ev ct;
               (out, pm) = AcquireFromReady (ev_now ev) (ev_sweep ev) snap (\<lambda>p. IsPortBusy p (ct_relay ct))
                 (ev_sid ev) (Some k) req (ct_pm ct)
           in (out, ct\<lparr>ct_pm := pm\<rparr>, es)))"

definition acquire_any2 ::
    "ctl_env \<Rightarrow> conn \<Rightarrow> PortAcquirePayload \<Rightarrow> Control \<Rightarrow> (acquire_error + PortGrantPayload1) \<times> Control \<times> ctl_effect list" where
  "acquire_any2 ev k req ct =
     (let (out, pm) = Acquire (ev_now ev) (ev_sweep ev) (\<lambda>p. IsPortBusy p (ct_relay ct)) (ev_sid ev) (Some k) req (ct_pm ct)
      in (out, ct\<lparr>ct_pm := pm\<rparr>, []))"

definition handle_port_acquire2 :: "ctl_env \<Rightarrow> conn \<Rightarrow> PortAcquirePayload \<Rightarrow> Control \<Rightarrow> Control \<times> ctl_effect list" where
  "handle_port_acquire2 ev k req ct =
     (case ct_objects ct k of
        None \<Rightarrow> (ct, [])
      | Some c \<Rightarrow>
          if cc_Role c \<noteq> RoleBE \<and> cc_Role c \<noteq> RoleFE then (ct, [])
          else (let (out, ct, es) = (if cc_Role c = RoleFE then acquire_ready2 ev k req ct else acquire_any2 ev k req ct)
                in case out of
                     Inl e \<Rightarrow> (ct, es @ snd (Send1 ev k (grant_failure ev req e) ct))
                   | Inr g \<Rightarrow>
                       (let e1 = snd (Send1 ev k (PortGrantMsg g None) ct);
                            (ct, e2) = BroadcastToRole ev (if cc_Role c = RoleBE then RoleFE else RoleBE) (PortGrantMsg g None) ct
                        in (ct, es @ e1 @ e2))))"

text \<open>One message of the loop of \<open>handleConnection\<close>.\<close>

definition handle_control2 ::
    "srt_listen \<Rightarrow> ctl_env \<Rightarrow> conn \<Rightarrow> string \<times> json option \<Rightarrow> Control \<Rightarrow> Control \<times> ctl_effect list" where
  "handle_control2 srt ev k msg ct =
     (let (ty, pl) = msg in
      if ty = MessageType1_text M1Ping then with_payload (read_clock pl) (\<lambda>p ct. (ct, HandlePing ev k p ct)) ct
      else if ty = MessageType1_text M1KeyExchange then with_payload (read_key_exchange pl) (handle_key_exchange ev k) ct
      else if ty = MessageType1_text M1PortAlloc then with_payload (read_port_alloc pl) (handle_port_alloc2 srt ev k) ct
      else if ty = MessageType1_text M1PortAcquire then with_payload (read_port_acquire pl) (handle_port_acquire2 ev k) ct
      else if ty = MessageType1_text M1PortRelease then with_payload (read_port_release pl) (handle_port_release ev k) ct
      else if ty = MessageType1_text M1PortStateQ then send_state2 ev k ct
      else (ct, []))"

definition welcome_client2 :: "ctl_env \<Rightarrow> conn \<Rightarrow> string \<Rightarrow> Control \<Rightarrow> Control \<times> ctl_effect list" where
  "welcome_client2 ev k role ct =
     (if role = RoleFE
      then (let e1 = snd (Send1 ev k (PortAllocMsg (rc_Ports (ct_cfg ct))) ct); (ct, e2) = send_state2 ev k ct
            in (ct, e1 @ e2))
      else if role = RoleBE then send_state2 ev k ct else (ct, []))"

definition handle_register2 :: "ctl_env \<Rightarrow> conn \<Rightarrow> json option \<Rightarrow> Control \<Rightarrow> bool \<times> Control \<times> ctl_effect list" where
  "handle_register2 ev k first ct =
     (case first of
        None \<Rightarrow> (False, ct, [HangUp k])
      | Some v \<Rightarrow>
          (case decode_raw v of
             None \<Rightarrow> (False, ct, [HangUp k])
           | Some (ty, pl) \<Rightarrow>
               if ty \<noteq> MessageType1_text M1Register then (False, ct, [HangUp k])
               else (case read_register pl of
                   None \<Rightarrow> (False, ct, [HangUp k])
                 | Some reg \<Rightarrow>
                     if \<not> VerifyAuth (ct_cfg ct) (rg_Secret reg) then (False, ct, [HangUp k])
                     else (let c = \<lparr>cc_Role = rg_Role reg, cc_AllocatedPorts = [], cc_authed = False, cc_closed = False,
                                    cc_once = False\<rparr>;
                               (ok, ct1) = Hub1_Register k c ct
                           in if \<not> ok then (False, ct1, [HangUp k])
                              else (let ct2 = ct1\<lparr>ct_objects := (ct_objects ct1)(k \<mapsto> c)\<rparr>;
                                        (sent, e1) = Send1 ev k (AuthMsg ''ok'') ct2
                                    in if \<not> sent then (False, ct2, e1 @ [HangUp k])
                                       else (let ct3 = ct2\<lparr>ct_objects := (ct_objects ct2)(k \<mapsto> c\<lparr>cc_authed := True\<rparr>)\<rparr>;
                                                 (ct4, e2) = welcome_client2 ev k (cc_Role c) ct3
                                             in (True, ct4, e1 @ e2)))))))"

text \<open>A connection as in the first version: the registration, then each value with the environment of its handler and what other
  connections did before it, until a read fails.\<close>

fun control_loop2 ::
    "conn \<Rightarrow> (srt_listen \<times> ctl_env \<times> (Control \<Rightarrow> Control) \<times> json option) list \<Rightarrow> Control \<Rightarrow> Control \<times> ctl_effect list" where
  "control_loop2 k [] ct = (ct, [])"
| "control_loop2 k ((srt, ev, other, inp) # ins) ct =
     (case inp of
        None \<Rightarrow> Close1 ev k (other ct)
      | Some v \<Rightarrow>
          (case decode_raw v of
             None \<Rightarrow> Close1 ev k (other ct)
           | Some msg \<Rightarrow>
               (let (ct, es) = handle_control2 srt ev k msg (other ct); (ct, fs) = control_loop2 k ins ct in (ct, es @ fs))))"

definition handleConnection2 ::
    "ctl_env \<Rightarrow> conn \<Rightarrow> json option \<Rightarrow> (srt_listen \<times> ctl_env \<times> (Control \<Rightarrow> Control) \<times> json option) list \<Rightarrow> Control \<Rightarrow>
      Control \<times> ctl_effect list" where
  "handleConnection2 ev k first ins ct =
     (let (go, ct, es) = handle_register2 ev k first ct in
      if go then (let (ct, fs) = control_loop2 k ins ct in (ct, es @ fs)) else (ct, es))"

text \<open>The program (\<open>cmd/relay-server-v2/main.go\<close>): the configured ranges are opened, then the state hook is set.\<close>

definition relay_main2 :: "srt_listen \<Rightarrow> ctl_env \<Rightarrow> RelayConfig \<Rightarrow> Control \<times> ctl_effect list" where
  "relay_main2 srt ev cfg =
     (let ct = NewControl cfg; p = rc_Ports cfg;
          ct = ct\<lparr>ct_pm := snd (SetRanges p (ct_pm ct))\<rparr>;
          open_range = (\<lambda>proto a b. seq_effects (start_port2 srt ev proto) (filter (\<lambda>p. 0 < p) (port_range a b)));
          (ct, e1) = open_range ''zmq'' (pa_ZMQStartPort p) (pa_ZMQEndPort p) ct;
          (ct, e2) = open_range ''srt'' (pa_SRTStartPort p) (pa_SRTEndPort p) ct
      in (set_relay (SetOnStateChange True (ct_relay ct)) ct, e1 @ e2))"

definition on_state_change2 :: "ctl_env \<Rightarrow> Control \<Rightarrow> Control \<times> ctl_effect list" where
  "on_state_change2 ev ct =
     (let (snap, ct, e0) = snapshotPortState ev ct; msg = PortStateMsg snap;
          (ct, e1) = BroadcastToRole ev RoleBE msg ct;
          (ct, e2) = BroadcastToRole ev RoleFE msg ct
      in (ct, e0 @ e1 @ e2))"

end
