(* ===== verification/HubV2Run.thy ===== *)
theory HubV2Run
  imports HubV2 HubV1Run
begin

section \<open>The control server of the second version: properties\<close>

text \<open>
  The invariant of the first version's registry and the consistency of the ports of the relay server, together and through
  every handler of the second version; and the way of a front end from its request to the session, across hub, port
  manager and relay server.
\<close>

subsection \<open>What the reaper and broadcasts do to the relay server\<close>

text \<open>The reaper stops sessions, which changes nothing about the ports but the pipes.\<close>

definition same_ports :: "RelayServer \<Rightarrow> RelayServer \<Rightarrow> bool" where
  "same_ports s t \<longleftrightarrow>
     rs_listeners t = rs_listeners s \<and> rs_portProtocol t = rs_portProtocol s \<and> rs_busy t = rs_busy s \<and>
     rs_pendingBE t = rs_pendingBE s \<and> rs_pendingBEID t = rs_pendingBEID s \<and> rs_next t = rs_next s"

definition calmer :: "RelayServer \<Rightarrow> RelayServer \<Rightarrow> bool" where
  "calmer s t \<longleftrightarrow> (\<forall>A. relay_inv_on A s \<longrightarrow> relay_inv_on A t) \<and> same_ports s t"

lemma calmer_refl [simp]: "calmer s s"
  by (simp add: calmer_def same_ports_def)

lemma calmer_trans: "calmer s t \<Longrightarrow> calmer t u \<Longrightarrow> calmer s u"
  by (simp add: calmer_def same_ports_def)

lemma calmer_stop_pipe: "calmer s (fst (stop_pipe n s))"
  using relay_inv_stop_pipe [of _ s n]
  by (auto simp: calmer_def same_ports_def stop_pipe_def case_prod_beta split: option.split)

lemma calmer_schedule: "calmer (rp_relay r) (rp_relay (fst (ScheduleKill now d ports r)))"
  by (rule schedule_keeps)
     (auto simp: schedule_port_def Let_def case_prod_beta intro: calmer_trans calmer_stop_pipe split: option.split)

lemma cancel_relay [simp]: "rp_relay (CancelKill ports r) = rp_relay r"
  by (rule cancel_keeps) (simp_all add: cancel_port_fields)

lemma calmer_close: "calmer (ct_relay ct) (ct_relay (fst (Close1 ev k ct)))"
  by (auto simp: Close1_def Hub1_Unregister_def case_prod_beta Let_def calmer_schedule split: option.split)

lemma calmer_broadcast: "calmer (ct_relay ct) (ct_relay (fst (BroadcastToRole ev role msg ct)))"
proof -
  have one: "calmer (ct_relay ct) (ct_relay (fst (broadcast_to ev msg k ct)))" for k ct
  proof (cases "ct_objects ct k")
    case (Some c)
    show ?thesis
      using calmer_close [of "ct\<lparr>ct_objects := (ct_objects ct)(k \<mapsto> c\<lparr>cc_closed := True\<rparr>)\<rparr>" ev k] Some
      by (simp add: broadcast_to_def case_prod_beta Let_def)
  qed (simp add: broadcast_to_def case_prod_beta Let_def)
  show ?thesis
    unfolding BroadcastToRole_def
    by (rule seq_effects_keeps [where Q = "\<lambda>c. calmer (ct_relay ct) (ct_relay c)"]) (auto intro: calmer_trans one)
qed

subsection \<open>The invariant\<close>

definition both_on :: "port set \<Rightarrow> Control \<Rightarrow> bool" where
  "both_on A ct \<longleftrightarrow> ctl_inv ct \<and> relay_inv_on A (ct_relay ct)"

lemma both_calm: "both_on A ct \<Longrightarrow> ctl_inv ct' \<Longrightarrow> calmer (ct_relay ct) (ct_relay ct') \<Longrightarrow> both_on A ct'"
  by (simp add: both_on_def calmer_def)

lemma both_broadcast: "good_env ev \<Longrightarrow> both_on A ct \<Longrightarrow> both_on A (fst (BroadcastToRole ev role msg ct))"
  by (rule both_calm [OF _ _ calmer_broadcast]) (simp_all add: both_on_def Broadcast1_inv)

lemma both_close: "good_env ev \<Longrightarrow> both_on A ct \<Longrightarrow> both_on A (fst (Close1 ev k ct))"
  by (rule both_calm [OF _ _ calmer_close]) (simp_all add: both_on_def Close1_inv)

lemma both_relay: "both_on A ct \<Longrightarrow> relay_inv_on A s \<Longrightarrow> both_on A (set_relay s ct)"
  by (simp add: both_on_def)

lemma both_pm: "both_on A ct \<Longrightarrow> pm_inv pm \<Longrightarrow> pm_fin pm \<Longrightarrow> both_on A (ct\<lparr>ct_pm := pm\<rparr>)"
  by (simp add: both_on_def ctl_inv_pm)

lemma both_pmD: "both_on A ct \<Longrightarrow> pm_inv (ct_pm ct)" "both_on A ct \<Longrightarrow> pm_fin (ct_pm ct)"
  by (simp_all add: both_on_def ctl_invD)

lemma snapshot2_frame [simp]:
  "ct_pm (fst (snd (take_snapshot2 ev ct))) = ct_pm ct" "ct_objects (fst (snd (take_snapshot2 ev ct))) = ct_objects ct"
  "ct_fe (fst (snd (take_snapshot2 ev ct))) = ct_fe ct" "ct_be (fst (snd (take_snapshot2 ev ct))) = ct_be ct"
  "ct_cfg (fst (snd (take_snapshot2 ev ct))) = ct_cfg ct"
  "fst (snd (snapshotPortState ev ct)) = fst (snd (take_snapshot2 ev ct))"
  "fst (send_state2 ev k ct) = fst (snd (take_snapshot2 ev ct))"
  by (simp_all add: take_snapshot2_def snapshotPortState_def send_state2_def case_prod_beta Let_def)

lemma both_snapshot: "both_on A ct \<Longrightarrow> both_on A (fst (snd (take_snapshot2 ev ct)))"
  by (simp add: take_snapshot2_def case_prod_beta both_relay relay_inv_snapshot2 both_on_def)

lemma both_start_ports: "both_on A ct \<Longrightarrow> both_on A (fst (seq_effects (start_port2 srt ev proto) ps ct))"
  by (rule seq_effects_keeps)
     (simp_all add: start_port2_def case_prod_beta both_relay relay_inv_start2 both_on_def)

lemma start_ports2_objects: "ct_objects (fst (seq_effects (start_port2 srt ev proto) ps ct)) = ct_objects ct"
  by (rule seq_effects_keeps) (simp_all add: start_port2_def case_prod_beta)

subsection \<open>Every handler keeps it\<close>

lemma both_alloc:
  assumes "good_env ev" "both_on A ct"
  shows "both_on A (fst (handle_port_alloc2 srt ev k p ct))"
proof (cases "ct_objects ct k")
  case (Some c)
  let ?p = "effective_ports (ct_cfg ct) p"
  let ?ct1 = "ct\<lparr>ct_pm := snd (SetRanges ?p (ct_pm ct))\<rparr>"
  let ?ct2 = "fst (seq_effects (start_port2 srt ev ''zmq'') (port_range (pa_ZMQStartPort ?p) (pa_ZMQEndPort ?p)) ?ct1)"
  let ?ct3 = "fst (seq_effects (start_port2 srt ev ''srt'') (port_range (pa_SRTStartPort ?p) (pa_SRTEndPort ?p)) ?ct2)"
  let ?ports = "port_range (pa_ZMQStartPort ?p) (pa_ZMQEndPort ?p) @ port_range (pa_SRTStartPort ?p) (pa_SRTEndPort ?p)"
  have "both_on A ?ct3"
    using both_pmD [OF assms(2)] by (intro both_start_ports both_pm assms ranges_ok pm_fin_others)
  moreover have "ct_objects ?ct3 k = Some c" using Some by (simp add: start_ports2_objects)
  ultimately have "both_on A (?ct3\<lparr>ct_objects := (ct_objects ?ct3)(k \<mapsto> c\<lparr>cc_AllocatedPorts := ?ports\<rparr>),
      ct_reaper := CancelKill ?ports (ct_reaper ?ct3)\<rparr>)"
    unfolding both_on_def ctl_inv_reaper by (simp add: ctl_inv_object)
  then show ?thesis
    using Some assms by (simp add: handle_port_alloc2_def case_prod_beta Let_def both_broadcast)
qed (use assms in \<open>simp add: handle_port_alloc2_def\<close>)

lemma both_acquired:
  assumes "both_on A ct" "fresh_sid ev ct"
  shows "both_on A (fst (snd (acquire_ready2 ev k req ct)))" "both_on A (fst (snd (acquire_any2 ev k req ct)))"
proof -
  have fresh: "ev_sid ev \<noteq> ''''" "pm_bySession (ct_pm ct) (ev_sid ev) = None"
    using assms(2) by (simp_all add: fresh_sid_def)
  show "both_on A (fst (snd (acquire_ready2 ev k req ct)))" "both_on A (fst (snd (acquire_any2 ev k req ct)))"
    using both_pmD [OF assms(1)] fresh assms(1)
    by (auto simp: acquire_ready2_def acquire_any2_def case_prod_beta Let_def both_pm both_snapshot pm_inv_acquire pm_fin_acquire
        split: option.split)
qed

lemma both_acquire:
  assumes "good_env ev" "both_on A ct" "fresh_sid ev ct"
  shows "both_on A (fst (handle_port_acquire2 ev k req ct))"
  using assms(2) both_acquired [OF assms(2,3)]
  by (auto simp: handle_port_acquire2_def case_prod_beta Let_def both_broadcast [OF assms(1)] split: option.split sum.split)

lemma both_control:
  assumes "good_env ev" "both_on A ct" "fresh_sid ev ct"
  shows "both_on A (fst (handle_control2 srt ev k msg ct))"
proof -
  have release: "both_on A (fst (handle_port_release ev k sid ct))" for sid
    using both_pmD [OF assms(2)] assms(1,2)
    by (auto simp: handle_port_release_def case_prod_beta Let_def both_pm release_ok pm_fin_others both_broadcast
        split: option.split)
  have keys: "both_on A (fst (handle_key_exchange ev k p ct))" for p
    using assms by (auto simp: handle_key_exchange_def both_broadcast split: option.split)
  note handlers = release keys both_alloc [OF assms(1,2)] both_acquire [OF assms] both_snapshot [OF assms(2)]
  show ?thesis
    using handlers assms(2)
    by (cases msg) (simp add: handle_control2_def with_payload_def split: option.split)
qed

lemma both_register:
  assumes "both_on A ct" "ct_objects ct k = None"
  shows "both_on A (fst (snd (handle_register2 ev k first ct)))"
proof -
  have inv: "ctl_inv ct" "relay_inv_on A (ct_relay ct)" using assms(1) by (simp_all add: both_on_def)
  have new: "k \<notin> set (ct_fe ct)" "k \<notin> set (ct_be ct)"
    using ctl_invD(5,6) [OF inv(1), of k] assms(2) by auto
  have entered: "both_on A ((snd (Hub1_Register k c ct))\<lparr>ct_objects := (ct_objects ct)(k \<mapsto> c')\<rparr>)"
    if "cc_Role c' = cc_Role c" "\<not> cc_once c'" for c c'
    using inv new that unfolding both_on_def ctl_inv_def Hub1_Register_def by auto
  have objects: "ct_objects (snd (Hub1_Register k c ct)) = ct_objects ct" for c
    by (simp add: Hub1_Register_def)
  have same: "both_on A (snd (Hub1_Register k c ct))" if "\<not> fst (Hub1_Register k c ct)" for c
    using that assms(1) by (auto simp: Hub1_Register_def split: if_splits)
  have welcomed: "both_on A (fst (welcome_client2 ev k role ct'))" if "both_on A ct'" for role ct'
    using that by (simp add: welcome_client2_def case_prod_beta Let_def both_snapshot)
  show ?thesis
    using assms(1) entered same welcomed
    by (auto simp: handle_register2_def case_prod_beta Let_def objects split: option.split)
qed

subsection \<open>Runs of the control server\<close>

text \<open>The calls that change its state, with what they do to the outside.\<close>

inductive ctl2_call :: "Control \<Rightarrow> Control \<times> ctl_effect list \<Rightarrow> bool" where
  register: "ct_objects ct k = None \<Longrightarrow> ctl2_call ct (snd (handle_register2 ev k first ct))"
| message: "good_env ev \<Longrightarrow> fresh_sid ev ct \<Longrightarrow> ctl2_call ct (handle_control2 srt ev k msg ct)"
| close: "good_env ev \<Longrightarrow> ctl2_call ct (Close1 ev k ct)"
| log: "good_env ev \<Longrightarrow> ctl2_call ct (stream_log ev line ct)"
| state: "good_env ev \<Longrightarrow> ctl2_call ct (on_state_change2 ev ct)"
| listen: "ctl2_call ct (start_port2 srt ev proto p ct)"
| port_free: "ctl2_call ct (free_hook es ct, [])"
| sweep: "ctl2_call ct (ct\<lparr>ct_pm := sweepLocked now order (ct_pm ct)\<rparr>, [])"
| ranges: "ctl2_call ct (ct\<lparr>ct_pm := snd (SetRanges p (ct_pm ct))\<rparr>, [])"

inductive ctl2_step :: "Control \<Rightarrow> Control \<Rightarrow> bool" where
  call: "ctl2_call ct (ct', es) \<Longrightarrow> ctl2_step ct ct'"
| relay: "rs2_step (ct_relay ct) s \<Longrightarrow> ctl2_step ct (set_relay s ct)"
| reaper: "reap_step (ct_reaper ct) e r \<Longrightarrow> e \<noteq> RelayMoved \<Longrightarrow> ctl2_step ct (ct\<lparr>ct_reaper := r\<rparr>)"

lemma ctl2_callI: "ctl2_call ct S \<Longrightarrow> ctl2_step ct (fst S)"
  by (metis ctl2_step.call prod.collapse)

lemma free_hook_relay: "ct_reaper (free_hook es ct) = ct_reaper ct"
  unfolding free_hook_def by (induction es arbitrary: ct) (simp_all split: rs_effect.split)

lemma reap_relay:
  assumes "reap_step r e r'" "e \<noteq> RelayMoved" "relay_inv_on A (rp_relay r)"
  shows "relay_inv_on A (rp_relay r')"
  using assms
proof (induction rule: reap_step.induct)
  case (schedule r ports now cfg)
  then show ?case using calmer_schedule [of r now cfg ports] by (simp add: calmer_def)
qed (simp_all add: relay_inv_StopPort)

lemma ctl2_call_inv: "ctl2_call ct S \<Longrightarrow> both_on A ct \<Longrightarrow> both_on A (fst S)"
proof (induction rule: ctl2_call.induct)
  case (listen ct srt ev proto p)
  then show ?case using both_start_ports [of A ct srt ev proto "[p]"] by (simp add: case_prod_beta)
next
  case (port_free ct es)
  then show ?case by (simp add: both_on_def free_hook_inv free_hook_relay)
next
  case (sweep ct now order)
  then show ?case using both_pmD [OF sweep] by (simp add: both_pm sweep_inv pm_fin_sweep)
next
  case (ranges ct p)
  then show ?case using both_pmD [OF ranges] by (simp add: both_pm ranges_ok pm_fin_others)
qed (simp_all add: both_register both_control both_close stream_log_def on_state_change2_def case_prod_beta Let_def
    both_broadcast both_snapshot)

lemma ctl2_step_inv: "ctl2_step ct ct' \<Longrightarrow> both_on {} ct \<Longrightarrow> both_on {} ct'"
proof (induction rule: ctl2_step.induct)
  case (call ct ct' es)
  then show ?case using ctl2_call_inv [OF call(1)] by simp
next
  case (relay ct s)
  then show ?case using relay_inv_step2 [OF relay(1)] both_relay by (simp add: both_on_def)
next
  case (reaper ct e r)
  then show ?case using reap_relay [OF reaper(1,2)] by (simp add: both_on_def)
qed

text \<open>What the program does before it listens is the beginning of such a run.\<close>

lemma start_ports2_run: "ctl2_step\<^sup>*\<^sup>* ct (fst (seq_effects (start_port2 srt ev proto) ps ct))"
proof (rule seq_effects_keeps [where Q = "ctl2_step\<^sup>*\<^sup>* ct"])
  fix p S
  assume run: "ctl2_step\<^sup>*\<^sup>* ct S"
  have "ctl2_step S (fst (start_port2 srt ev proto p S))" by (rule ctl2_callI [OF ctl2_call.listen])
  with run show "ctl2_step\<^sup>*\<^sup>* ct (fst (start_port2 srt ev proto p S))" by simp
qed simp

lemma main2_run: "ctl2_step\<^sup>*\<^sup>* (NewControl cfg) (fst (relay_main2 srt ev cfg))"
proof -
  let ?p = "rc_Ports cfg"
  let ?ct1 = "(NewControl cfg)\<lparr>ct_pm := snd (SetRanges ?p (ct_pm (NewControl cfg)))\<rparr>"
  let ?ct2 = "fst (seq_effects (start_port2 srt ev ''zmq'') (filter (\<lambda>p. 0 < p) (port_range (pa_ZMQStartPort ?p) (pa_ZMQEndPort ?p))) ?ct1)"
  let ?ct3 = "fst (seq_effects (start_port2 srt ev ''srt'') (filter (\<lambda>p. 0 < p) (port_range (pa_SRTStartPort ?p) (pa_SRTEndPort ?p))) ?ct2)"
  have "SetOnPortFree (rs_onPortFree (ct_relay ?ct3)) (SetOnStateChange True (ct_relay ?ct3)) = SetOnStateChange True (ct_relay ?ct3)"
    by (simp add: SetOnPortFree_def SetOnStateChange_def)
  then have "ctl2_step ?ct3 (set_relay (SetOnStateChange True (ct_relay ?ct3)) ?ct3)"
    using ctl2_step.relay [OF rs2_step.hooks] by metis
  moreover have "ctl2_step (NewControl cfg) ?ct1" by (rule ctl2_step.call [OF ctl2_call.ranges])
  moreover have "ctl2_step\<^sup>*\<^sup>* ?ct1 ?ct2" "ctl2_step\<^sup>*\<^sup>* ?ct2 ?ct3" by (rule start_ports2_run)+
  ultimately have "ctl2_step\<^sup>*\<^sup>* (NewControl cfg) (set_relay (SetOnStateChange True (ct_relay ?ct3)) ?ct3)"
    by (meson converse_rtranclp_into_rtranclp rtranclp.rtrancl_into_rtrancl rtranclp_trans)
  then show ?thesis by (simp add: relay_main2_def case_prod_beta Let_def)
qed

lemma both_start: "both_on A (NewControl cfg)"
  by (simp add: both_on_def ctl_inv_def NewControl_def pm_inv_New pm_fin_others GlobalReaper_def SetOnPortFree_def)
     (use relay_inv_Global [of A] in \<open>simp add: relay_inv_on_def\<close>)

lemma ctl2_run_inv: "ctl2_step\<^sup>*\<^sup>* (NewControl cfg) ct \<Longrightarrow> both_on {} ct"
  by (induction rule: rtranclp_induct) (auto simp: both_start ctl2_step_inv)

subsection \<open>From the request of a front end to its session\<close>

lemma probes2_listeners: "rs_listeners (fst (seq_effects (probe_pending2 probe) ps s)) = rs_listeners s"
  by (rule seq_effects_keeps) (simp_all add: probe_pending2_def Let_def split: option.split io_error.split)

lemma snapshot2_ready:
  assumes "iterates (rs_listeners s) lorder" and "SnapshotPortState2 probe porder lorder s = (snap, s', es)"
  shows "set (pss_ZMQReadyPorts snap) = {p. rs_listeners s' p \<noteq> None \<and> is_ready s' ''zmq'' p}"
    and "set (pss_SRTReadyPorts snap) = {p. rs_listeners s' p \<noteq> None \<and> is_ready s' ''srt'' p}"
  using assms(2) iteratesD(2) [OF assms(1)] probes2_listeners [of probe porder s]
  by (auto simp: SnapshotPortState2_def Let_def case_prod_beta snap_port2_eq fold_snap_relay empty_state_def)

text \<open>The port of a grant to a front end, in the state in which it was chosen.\<close>

lemma acquire_ready2_port:
  assumes "acquire_ready2 ev k req ct = (Inr g, ct', es)" and "ctl_inv ct" and "fresh_sid ev ct"
    and "iterates (rs_listeners (ct_relay ct)) (ev_lorder ev)" and "iterates (pm_bySession (ct_pm ct)) (ev_sweep ev)"
  shows "\<exists>p be. p = (if aq_NeedZMQ req then gr_ZMQPort g else gr_SRTPort g) \<and> rs_listeners (ct_relay ct') p \<noteq> None \<and>
    rs_portProtocol (ct_relay ct') p = Some (if aq_NeedZMQ req then ''zmq'' else ''srt'') \<and>
    \<not> rs_busy (ct_relay ct') p \<and> rs_pendingBE (ct_relay ct') p = Some be"
proof -
  obtain snap s' fs where snap: "SnapshotPortState2 (ev_probe ev) (ev_porder ev) (ev_lorder ev) (ct_relay ct) = (snap, s', fs)"
    by (cases "SnapshotPortState2 (ev_probe ev) (ev_porder ev) (ev_lorder ev) (ct_relay ct)") auto
  have ok: "check_acquire (Some k) req = None" using assms(1) by (simp add: acquire_ready2_def split: option.splits)
  from assms(1) ok snap obtain pm' where grant: "AcquireFromReady (ev_now ev) (ev_sweep ev) snap (\<lambda>p. IsPortBusy p s') (ev_sid ev)
      (Some k) req (ct_pm ct) = (Inr g, pm')" and ct': "ct_relay ct' = s'"
    by (auto simp: acquire_ready2_def take_snapshot2_def case_prod_beta Let_def prod_eq_iff)
  let ?cands = "if aq_NeedZMQ req then pss_ZMQReadyPorts snap else pss_SRTReadyPorts snap"
  have "grant_spec (ev_now ev) (\<lambda>p. IsPortBusy p s') (ev_sid ev) k req ?cands (ct_pm ct) (Inr g, pm')"
    using grant_from_spec [OF ctl_invD(3) [OF assms(2)] assms(5), of "ev_sid ev" "ev_now ev" "\<lambda>p. IsPortBusy p s'" k req ?cands
        "if aq_NeedZMQ req then NoReadyZMQPort else NoReadySRTPort"] grant AcquireFromReady_grant [OF ok] assms(3)
    by (simp add: fresh_sid_def)
  then obtain p where p: "p \<in> set ?cands" "(gr_ZMQPort g, gr_SRTPort g) = (if aq_NeedZMQ req then (p, 0) else (0, p))"
    by (auto simp: grant_spec_def)
  have named: "p = (if aq_NeedZMQ req then gr_ZMQPort g else gr_SRTPort g)" using p(2) by (simp split: if_splits)
  have "rs_listeners s' p \<noteq> None \<and> is_ready s' (if aq_NeedZMQ req then ''zmq'' else ''srt'') p"
    using p(1) snapshot2_ready [OF assms(4) snap] by (simp split: if_splits)
  with named ct' show ?thesis by (auto simp: is_ready_def has_proto_def)
qed

text \<open>A connection to such a port that does not say it is a back end is joined with the one that waits.\<close>

lemma accept2_joins:
  assumes "\<not> rs_busy s p" "rs_pendingBE s p = Some be" "rs_portProtocol s p = Some proto" "guesses proto"
    and "helloRole (fst (wrapConnAndHello (evs (readHelloTimeout proto)))) \<noteq> ''BE''"
  shows "\<exists>sn. GetSession p (fst (relay_accept2 m (\<lambda>s. s) (\<lambda>s. s) p c evs s)) = Some (rs_next s) \<and>
    rs_store (fst (relay_accept2 m (\<lambda>s. s) (\<lambda>s. s) p c evs s)) (rs_next s) = Some sn \<and> sn_be sn = be \<and> sn_port sn = p \<and>
    pp_ConnFE (sn_pipe sn) = c \<and> pp_ConnBE (sn_pipe sn) = bc_conn be"
proof -
  have "helloRole h = '''' \<or> helloRole h = ''FE'' \<or> helloRole h = ''BE''" for h
    by (auto simp: helloRole_def split: option.split)
  with assms show ?thesis
    by (auto simp: relay_accept2_def accept_role2_def IsPortBusy_def getPortProtocol_def case_prod_beta Let_def relay_admit2_def start_session_def
        GetSession_def NewPipeSession_def)
qed

text \<open>
  C11. A front end that asks for a port gets to a back end. In any run of the second gateway, when a front end's request
  is answered with a grant, the port it names is listened on with the protocol it asked for and a back end waits there; and
  the next connection to that port that does not claim to be a back end, whether it says hello as a
  front end or says nothing at all, starts the port's session between that connection and that back end.
\<close>
theorem grant2_reaches_back_end:
  assumes "ctl2_step\<^sup>*\<^sup>* (NewControl cfg) ct" and "fresh_sid ev ct"
    and "iterates (rs_listeners (ct_relay ct)) (ev_lorder ev)" and "iterates (pm_bySession (ct_pm ct)) (ev_sweep ev)"
    and "ct_objects ct k = Some cl" and "cc_Role cl = RoleFE"
    and "handle_port_acquire2 ev k req ct = (ct', es)" and "Deliver k (PortGrantMsg g None) \<in> set es"
  shows "\<exists>p be. p = (if aq_NeedZMQ req then gr_ZMQPort g else gr_SRTPort g) \<and> rs_listeners (ct_relay ct') p \<noteq> None \<and>
    getPortProtocol p (ct_relay ct') = (if aq_NeedZMQ req then ''zmq'' else ''srt'') \<and>
    rs_pendingBE (ct_relay ct') p = Some be \<and>
    (\<forall>m c evs. helloRole (fst (wrapConnAndHello (evs (50 * millisecond)))) = ''BE'' \<or>
       (\<exists>n sn. GetSession p (fst (relay_accept2 m (\<lambda>s. s) (\<lambda>s. s) p c evs (ct_relay ct'))) = Some n \<and>
          rs_store (fst (relay_accept2 m (\<lambda>s. s) (\<lambda>s. s) p c evs (ct_relay ct'))) n = Some sn \<and> sn_port sn = p \<and>
          pp_ConnFE (sn_pipe sn) = c \<and> pp_ConnBE (sn_pipe sn) = bc_conn be))"
proof -
  have run: "ctl_inv ct" using ctl2_run_inv [OF assms(1)] by (simp add: both_on_def)
  obtain out ct1 e1 where acq: "acquire_ready2 ev k req ct = (out, ct1, e1)" by (metis prod_cases3)
  have quiet: "Deliver k m \<notin> set e1" for m
    using acq by (auto simp: acquire_ready2_def take_snapshot2_def case_prod_beta Let_def split: option.splits)
  have granted: "out = Inr g \<and> calmer (ct_relay ct1) (ct_relay ct')"
  proof (cases out)
    case (Inl e)
    with assms(5-8) acq quiet show ?thesis
      by (auto simp: handle_port_acquire2_def Let_def Send1_def grant_failure_def split: option.splits if_splits)
  next
    case (Inr g')
    have told: "g' = g" if "Deliver k (PortGrantMsg g None) \<in> set (snd (BroadcastToRole ev role (PortGrantMsg g' None) ct1))" for role
    proof -
      have "Deliver j m \<in> set (snd (seq_effects (broadcast_to ev msg) ks c)) \<Longrightarrow> m = msg" for j m ks c msg
        by (induction ks arbitrary: c) (auto simp: case_prod_beta Let_def broadcast_to_delivers)
      with that show ?thesis unfolding BroadcastToRole_def by blast
    qed
    with assms(5-8) acq quiet Inr show ?thesis
      by (auto simp: handle_port_acquire2_def case_prod_beta Let_def Send1_def calmer_broadcast dest: told
          split: option.splits if_splits)
  qed
  let ?proto = "if aq_NeedZMQ req then ''zmq'' else ''srt''"
  obtain p be where p: "p = (if aq_NeedZMQ req then gr_ZMQPort g else gr_SRTPort g)" "rs_listeners (ct_relay ct1) p \<noteq> None"
    "rs_portProtocol (ct_relay ct1) p = Some ?proto" "\<not> rs_busy (ct_relay ct1) p" "rs_pendingBE (ct_relay ct1) p = Some be"
    using acquire_ready2_port [OF _ run assms(2-4), of k req g ct1 e1] acq granted by blast
  have same: "same_ports (ct_relay ct1) (ct_relay ct')" using granted by (simp add: calmer_def)
  have port: "rs_listeners (ct_relay ct') p \<noteq> None" "rs_portProtocol (ct_relay ct') p = Some ?proto" "\<not> rs_busy (ct_relay ct') p"
    "rs_pendingBE (ct_relay ct') p = Some be"
    using same p(2-5) by (simp_all add: same_ports_def)
  have g: "guesses ?proto" "readHelloTimeout ?proto = 50 * millisecond" by (simp_all add: guesses_def readHelloTimeout_def)
  show ?thesis
  proof (intro exI conjI allI)
    show "p = (if aq_NeedZMQ req then gr_ZMQPort g else gr_SRTPort g)" "rs_listeners (ct_relay ct') p \<noteq> None"
      "rs_pendingBE (ct_relay ct') p = Some be" by (fact p(1) port(1) port(4))+
    show "getPortProtocol p (ct_relay ct') = ?proto" by (simp add: getPortProtocol_def port(2))
    fix m c evs
    show "helloRole (fst (wrapConnAndHello (evs (50 * millisecond)))) = ''BE'' \<or>
       (\<exists>n sn. GetSession p (fst (relay_accept2 m (\<lambda>s. s) (\<lambda>s. s) p c evs (ct_relay ct'))) = Some n \<and>
          rs_store (fst (relay_accept2 m (\<lambda>s. s) (\<lambda>s. s) p c evs (ct_relay ct'))) n = Some sn \<and> sn_port sn = p \<and>
          pp_ConnFE (sn_pipe sn) = c \<and> pp_ConnBE (sn_pipe sn) = bc_conn be)"
      using accept2_joins [OF port(3,4,2) g(1), of evs m c] unfolding g(2) by blast
  qed
qed

subsection \<open>Examples\<close>

definition ex_bare2 :: RelayServer where
  "ex_bare2 = fst (snd (StartRelayPortWithProtocol2 (Inr 0) (Inr 1) 7 ''zmq'' (ct_relay (NewControl ex_cfg1))))"

definition ex_wait2 :: RelayServer where
  "ex_wait2 = fst (relay_admit2 9 7 ''BE'' ''b'' (ex_bc 1) ex_bare2)"

definition ex_control2 :: Control where
  "ex_control2 = fst (snd (handle_register2 (ex_env True) 5 (Some ex_first) (set_relay ex_wait2 (NewControl ex_cfg1))))"

abbreviation ex_env2 :: ctl_env where
  "ex_env2 \<equiv> (ex_env True)\<lparr>ev_lorder := [7]\<rparr>"

lemma ex_wait2_fields:
  "rs_listeners ex_wait2 = [7 \<mapsto> 1]" "rs_busy ex_wait2 = (\<lambda>p. False)" "rs_pendingBE ex_wait2 = [7 \<mapsto> ex_bc 1]"
  "rs_portProtocol ex_wait2 = [7 \<mapsto> ''zmq'']" "\<not> rs_busy ex_bare2 7"
  by (simp_all add: ex_wait2_def ex_bare2_def NewControl_def GlobalReaper_def SetOnPortFree_def GlobalRelay_def relay_admit2_def
      StartRelayPortWithProtocol2_def Let_def)

lemma ex_control2_fields:
  "ct_relay ex_control2 = ex_wait2" "ct_pm ex_control2 = NewPortManager" "ct_fe ex_control2 = [5]" "ct_be ex_control2 = []"
  "ct_objects ex_control2 5 = Some \<lparr>cc_Role = ''FE'', cc_AllocatedPorts = [], cc_authed = True, cc_closed = False, cc_once = False\<rparr>"
  by (simp_all add: ex_control2_def handle_register2_def ex_first_eval VerifyAuth_def ex_cfg1_def NewControl_def Hub1_Register_def
      RoleFE_def RoleBE_def Send1_def ex_env_def welcome_client2_def send_state2_def snapshotPortState_def take_snapshot2_def
      SnapshotPortState2_def case_prod_beta Let_def)

lemma ex_control2_run: "ctl2_step\<^sup>*\<^sup>* (NewControl ex_cfg1) ex_control2"
proof -
  let ?ct = "\<lambda>s. set_relay s (NewControl ex_cfg1)"
  have "rs2_step (ct_relay (NewControl ex_cfg1)) ex_bare2" unfolding ex_bare2_def by (rule rs2_step.start)
  then have "ctl2_step (NewControl ex_cfg1) (?ct ex_bare2)" by (rule ctl2_step.relay)
  moreover have "rs2_step (ct_relay (?ct ex_bare2)) ex_wait2"
    unfolding ex_wait2_def by (simp add: rs2_step.admit)
  then have "ctl2_step (?ct ex_bare2) (set_relay ex_wait2 (?ct ex_bare2))" by (rule ctl2_step.relay)
  then have "ctl2_step (?ct ex_bare2) (?ct ex_wait2)" by simp
  moreover have "ctl2_step (?ct ex_wait2) ex_control2"
    unfolding ex_control2_def by (rule ctl2_callI [OF ctl2_call.register]) (simp add: NewControl_def)
  ultimately show ?thesis by (meson converse_rtranclp_into_rtranclp r_into_rtranclp)
qed

lemma grant2_reaches_back_end_witness:
  "\<exists>n sn. GetSession 7 (fst (relay_accept2 9 (\<lambda>s. s) (\<lambda>s. s) 7 3 (\<lambda>_. []) (ct_relay (fst (handle_port_acquire2 ex_env2 5 PortsV1.ex_zmq ex_control2))))) = Some n \<and>
     rs_store (fst (relay_accept2 9 (\<lambda>s. s) (\<lambda>s. s) 7 3 (\<lambda>_. []) (ct_relay (fst (handle_port_acquire2 ex_env2 5 PortsV1.ex_zmq ex_control2))))) n = Some sn \<and>
     pp_ConnFE (sn_pipe sn) = 3 \<and> pp_ConnBE (sn_pipe sn) = 1"
proof -
  have ok: "check_acquire (Some 5) PortsV1.ex_zmq = None" by (simp add: check_acquire_def PortsV1.ex_zmq_def)
  have snap: "fst (SnapshotPortState2 (\<lambda>_. None) [] [7] ex_wait2) = empty_state\<lparr>pss_ZMQTotal := 1, pss_ZMQReadyPorts := [7]\<rparr>"
    "fst (snd (SnapshotPortState2 (\<lambda>_. None) [] [7] ex_wait2)) = ex_wait2"
    by (simp_all add: SnapshotPortState2_def snap_port2_def getPortProtocol_def Let_def ex_wait2_fields empty_state_def)
  have z: "aq_NeedZMQ PortsV1.ex_zmq" by (simp add: PortsV1.ex_zmq_def)
  have env: "ev_probe ex_env2 = (\<lambda>_. None)" "ev_porder ex_env2 = []" "ev_lorder ex_env2 = [7]" "ev_sweep ex_env2 = []"
    "ev_sid ex_env2 = ''id''" by (simp_all add: ex_env_def)
  obtain g where g: "fst (acquire_ready2 ex_env2 5 PortsV1.ex_zmq ex_control2) = Inr g" "gr_ZMQPort g = 7"
    by (simp add: acquire_ready2_def ok take_snapshot2_def case_prod_beta Let_def ex_control2_fields snap env z
        AcquireFromReady_grant [OF ok] grant_from_def pickFreePort_def install_def NewPortManager_def
        sweepLocked_def IsPortBusy_def ex_wait2_fields)
  have role: "''FE'' = RoleFE" "''FE'' \<noteq> RoleBE" by (simp_all add: RoleFE_def RoleBE_def)
  have objects: "ct_objects (fst (snd (acquire_ready2 ev k req ct))) = ct_objects ct" for ev k req ct
    by (simp add: acquire_ready2_def case_prod_beta Let_def split: option.split)
  have told: "Deliver 5 (PortGrantMsg g None) \<in> set (snd (handle_port_acquire2 ex_env2 5 PortsV1.ex_zmq ex_control2))"
    by (simp add: handle_port_acquire2_def ex_control2_fields role case_prod_beta Let_def g(1) Send1_def objects)
  have it: "iterates (rs_listeners (ct_relay ex_control2)) (ev_lorder ex_env2)"
    "iterates (pm_bySession (ct_pm ex_control2)) (ev_sweep ex_env2)"
    by (simp_all add: iterates_def ex_control2_fields ex_wait2_fields ex_env_def NewPortManager_def)
  have fresh: "fresh_sid ex_env2 ex_control2" by (simp add: fresh_sid_def ex_env_def ex_control2_fields NewPortManager_def)
  have "cc_Role \<lparr>cc_Role = ''FE'', cc_AllocatedPorts = [], cc_authed = True, cc_closed = False, cc_once = False\<rparr> = RoleFE"
    by (simp add: role)
  from grant2_reaches_back_end [OF ex_control2_run fresh it ex_control2_fields(5) this prod.collapse [symmetric] told]
  obtain be where be: "rs_pendingBE (ct_relay (fst (handle_port_acquire2 ex_env2 5 PortsV1.ex_zmq ex_control2))) 7 = Some be"
    "\<And>m c evs. helloRole (fst (wrapConnAndHello (evs (50 * millisecond)))) \<noteq> ''BE'' \<Longrightarrow>
       \<exists>n sn. GetSession 7 (fst (relay_accept2 m (\<lambda>s. s) (\<lambda>s. s) 7 c evs (ct_relay (fst (handle_port_acquire2 ex_env2 5 PortsV1.ex_zmq ex_control2))))) = Some n \<and>
          rs_store (fst (relay_accept2 m (\<lambda>s. s) (\<lambda>s. s) 7 c evs (ct_relay (fst (handle_port_acquire2 ex_env2 5 PortsV1.ex_zmq ex_control2))))) n = Some sn \<and>
          pp_ConnFE (sn_pipe sn) = c \<and> pp_ConnBE (sn_pipe sn) = bc_conn be"
    by (simp add: g(2) z) blast
  have "helloRole (fst (wrapConnAndHello [])) \<noteq> ''BE''" by (simp add: wrapConnAndHello_def helloPrefix1_def helloRole_def)
  moreover have acq: "ct_relay (fst (snd (acquire_ready2 ex_env2 5 PortsV1.ex_zmq ex_control2))) = ex_wait2"
    by (simp add: acquire_ready2_def ok take_snapshot2_def case_prod_beta Let_def ex_control2_fields snap env)
  have "rs_pendingBE (ct_relay (fst (BroadcastToRole ev role msg ct))) = rs_pendingBE (ct_relay ct)" for ev role msg ct
    using calmer_broadcast [of ct ev role msg] by (simp add: calmer_def same_ports_def)
  then have "bc_conn be = 1"
    using be(1) by (auto simp: handle_port_acquire2_def ex_control2_fields role case_prod_beta Let_def g(1) acq ex_wait2_fields ex_bc_def)
  ultimately show ?thesis using be(2) [of "\<lambda>_. []" 9 3] by simp
qed

subsection \<open>Where the two versions do the same\<close>

text \<open>The probes differ for a waiting back end on an srt port, and for an error that is neither a timeout nor the end of the connection.\<close>

definition plain_probes :: "(conn \<Rightarrow> io_error option) \<Rightarrow> RelayServer \<Rightarrow> bool" where
  "plain_probes probe s \<longleftrightarrow>
     (\<forall>p bc. rs_pendingBE s p = Some bc \<longrightarrow> rs_portProtocol s p \<noteq> Some ''srt'' \<and> (\<forall>e. probe (bc_conn bc) \<noteq> Some (IoOther e)))"

lemma probe_same: "plain_probes probe s \<Longrightarrow> probe_pending2 probe p s = probe_pending probe p s"
  by (cases "rs_pendingBE s p")
     (auto simp: probe_pending2_def probe_pending_def plain_probes_def Let_def split: option.split io_error.split)

lemma probe_plain: "plain_probes probe s \<Longrightarrow> plain_probes probe (fst (probe_pending probe p s))"
  unfolding plain_probes_def by (auto simp: probe_pending_def Let_def split: option.splits io_error.splits if_splits)

lemma probes_same: "plain_probes probe s \<Longrightarrow> seq_effects (probe_pending2 probe) ps s = seq_effects (probe_pending probe) ps s"
proof (induction ps arbitrary: s)
  case (Cons p ps)
  then show ?case using probe_plain [OF Cons.prems, of p] by (simp add: probe_same case_prod_beta)
qed simp

lemma snapshot_same:
  assumes "plain_probes (ev_probe ev) (ct_relay ct)"
  shows "take_snapshot2 ev ct = take_snapshot ev ct" "send_state2 ev k ct = send_state ev k ct"
    "snapshotPortState ev ct = (case take_snapshot ev ct of (snap, ct', es) \<Rightarrow> (state_payload snap, ct', es))"
proof -
  show take: "take_snapshot2 ev ct = take_snapshot ev ct"
    using assms by (simp add: take_snapshot2_def take_snapshot_def SnapshotPortState2_def SnapshotPortState_def probes_same snap_port2_eq)
  show "send_state2 ev k ct = send_state ev k ct"
    "snapshotPortState ev ct = (case take_snapshot ev ct of (snap, ct', es) \<Rightarrow> (state_payload snap, ct', es))"
    by (simp_all add: send_state2_def send_state_def snapshotPortState_def take state_payload_def case_prod_beta Let_def)
qed

text \<open>Listening on an srt port is by SRT in the second version and by TCP in the first. The environment in which TCP has the
  outcomes of SRT on a range; listening is all that a handler uses of it there.\<close>

definition listen_as :: "srt_listen \<Rightarrow> PortAllocPayload \<Rightarrow> ctl_env \<Rightarrow> ctl_env" where
  "listen_as srt p ev =
     ev\<lparr>ev_listen := (\<lambda>q. if q \<in> set (port_range (pa_SRTStartPort p) (pa_SRTEndPort p)) then srt q else ev_listen ev q)\<rparr>"

definition ranges_disjoint :: "PortAllocPayload \<Rightarrow> bool" where
  "ranges_disjoint p \<longleftrightarrow>
     list_all (\<lambda>q. q \<notin> set (port_range (pa_SRTStartPort p) (pa_SRTEndPort p))) (port_range (pa_ZMQStartPort p) (pa_ZMQEndPort p))"

lemma broadcast_listen: "BroadcastToRole (listen_as srt p ev) role msg ct = BroadcastToRole ev role msg ct"
proof -
  have same: "ev_now (listen_as srt p ev) = ev_now ev" "ev_ok (listen_as srt p ev) = ev_ok ev"
    "ev_sids (listen_as srt p ev) = ev_sids ev" "ev_shuffle (listen_as srt p ev) = ev_shuffle ev"
    by (simp_all add: listen_as_def)
  have released: "release_all (listen_as srt p ev) k ct = release_all ev k ct" for k ct unfolding release_all_def same ..
  have unregistered: "Hub1_Unregister (listen_as srt p ev) k ct = Hub1_Unregister ev k ct" for k ct
    unfolding Hub1_Unregister_def same released ..
  have closed: "Close1 (listen_as srt p ev) k ct = Close1 ev k ct" for k ct unfolding Close1_def unregistered ..
  have told: "broadcast_to (listen_as srt p ev) msg k ct = broadcast_to ev msg k ct" for k ct
    unfolding broadcast_to_def Send1_def same closed ..
  have "broadcast_to (listen_as srt p ev) msg = broadcast_to ev msg" by (intro ext told)
  then show ?thesis unfolding BroadcastToRole_def same by simp
qed

lemma seq_effects_cong: "(\<And>x S. x \<in> set xs \<Longrightarrow> f x S = g x S) \<Longrightarrow> seq_effects f xs S = seq_effects g xs S"
  by (induction xs arbitrary: S) (simp_all add: case_prod_beta)

lemma alloc_same:
  assumes "ranges_disjoint (effective_ports (ct_cfg ct) p)"
  shows "handle_port_alloc2 srt ev k p ct = handle_port_alloc (listen_as srt (effective_ports (ct_cfg ct) p) ev) k p ct"
proof -
  let ?p = "effective_ports (ct_cfg ct) p"
  let ?ev = "listen_as srt ?p ev"
  have zmq: "seq_effects (start_port2 srt ev ''zmq'') (port_range (pa_ZMQStartPort ?p) (pa_ZMQEndPort ?p)) S =
      seq_effects (start_port ?ev ''zmq'') (port_range (pa_ZMQStartPort ?p) (pa_ZMQEndPort ?p)) S" for S
    using assms
    by (intro seq_effects_cong) (auto simp: start_port2_def start_port_def start2_eq listen_as_def ranges_disjoint_def list_all_iff)
  have srt: "seq_effects (start_port2 srt ev ''srt'') (port_range (pa_SRTStartPort ?p) (pa_SRTEndPort ?p)) S =
      seq_effects (start_port ?ev ''srt'') (port_range (pa_SRTStartPort ?p) (pa_SRTEndPort ?p)) S" for S
    by (intro seq_effects_cong) (simp add: start_port2_def start_port_def start2_eq listen_as_def)
  show ?thesis
    by (simp add: handle_port_alloc2_def handle_port_alloc_def Let_def zmq srt broadcast_listen split: option.split)
qed

lemma acquire_same:
  assumes "plain_probes (ev_probe ev) (ct_relay ct)"
  shows "handle_port_acquire2 ev k req ct = handle_port_acquire ev k req ct"
  by (cases "ct_objects ct k")
     (auto simp: handle_port_acquire2_def handle_port_acquire_def acquire_ready2_def acquire_any2_def snapshot_same [OF assms]
        case_prod_beta Let_def split: option.split sum.split)

text \<open>
  C16. The second control server does what the first does, but for the listeners of the srt ports. As long as no back end
  waits on an srt port and no probe fails in an unforeseen way, and given the same outcome of the same draw for a new session id, every
  registration, every change of state and every message other than an allocation of ports is handled exactly as in the first
  version: the same state, the same messages to the same clients in the same order. An allocation with disjoint
  ranges is handled as the first version would where listening by TCP on the srt range had the outcome
  that listening by SRT has.
\<close>
theorem control2_equals_control1:
  assumes "plain_probes (ev_probe ev) (ct_relay ct)"
  shows "(fst msg \<noteq> MessageType1_text M1PortAlloc \<longrightarrow> handle_control2 srt ev k msg ct = handle_control ev k msg ct) \<and>
    (ranges_disjoint (effective_ports (ct_cfg ct) p) \<longrightarrow>
       handle_port_alloc2 srt ev k p ct = handle_port_alloc (listen_as srt (effective_ports (ct_cfg ct) p) ev) k p ct) \<and>
    handle_register2 ev k first ct = handle_register ev k first ct \<and> on_state_change2 ev ct = on_state_change ev ct"
proof (intro conjI impI)
  have "plain_probes (ev_probe ev) (ct_relay ct')" if "ct_reaper ct' = ct_reaper ct" for ct' using assms that by simp
  note same = snapshot_same [OF this]
  show "handle_control2 srt ev k msg ct = handle_control ev k msg ct" if "fst msg \<noteq> MessageType1_text M1PortAlloc"
    using that
    by (cases msg)
       (simp add: handle_control2_def handle_control_def with_payload_def acquire_same [OF assms] same split: option.split)
  show "handle_port_alloc2 srt ev k p ct = handle_port_alloc (listen_as srt (effective_ports (ct_cfg ct) p) ev) k p ct"
    if "ranges_disjoint (effective_ports (ct_cfg ct) p)"
    by (rule alloc_same [OF that])
  show "on_state_change2 ev ct = on_state_change ev ct"
    by (simp add: on_state_change2_def on_state_change_def same case_prod_beta Let_def)
  have greeted: "welcome_client2 ev k role ct' = welcome_client ev k role ct'" if "ct_reaper ct' = ct_reaper ct" for role ct'
    by (simp add: welcome_client2_def welcome_client_def same [OF that])
  have "ct_reaper (snd (Hub1_Register k c ct)) = ct_reaper ct" for c by (simp add: Hub1_Register_def)
  then show "handle_register2 ev k first ct = handle_register ev k first ct"
    by (simp add: handle_register2_def handle_register_def greeted case_prod_beta Let_def split: option.split)
qed

lemma control2_equals_control1_witness:
  "handle_control2 (\<lambda>_. Inr 3) ex_env2 5 (''port_state_q'', None) ex_control2 =
     handle_control ex_env2 5 (''port_state_q'', None) ex_control2 \<and>
   (\<exists>p ct. p = \<lparr>pa_ZMQStartPort = 7, pa_ZMQEndPort = 8, pa_SRTStartPort = 9, pa_SRTEndPort = 9\<rparr> \<and> ct_objects ct 5 \<noteq> None \<and>
      handle_port_alloc2 (\<lambda>_. Inr 3) ex_env2 5 p ct = handle_port_alloc (listen_as (\<lambda>_. Inr 3) p ex_env2) 5 p ct)"
proof (intro conjI exI)
  let ?p = "\<lparr>pa_ZMQStartPort = 7, pa_ZMQEndPort = 8, pa_SRTStartPort = 9, pa_SRTEndPort = 9\<rparr>"
  let ?ct = "ex_control2\<lparr>ct_cfg := ex_cfg1\<lparr>rc_Ports := ?p\<rparr>\<rparr>"
  have plain: "plain_probes (ev_probe ex_env2) (ct_relay ex_control2)" "plain_probes (ev_probe ex_env2) (ct_relay ?ct)"
    by (simp_all add: plain_probes_def ex_control2_fields ex_wait2_fields ex_env_def)
  show "handle_control2 (\<lambda>_. Inr 3) ex_env2 5 (''port_state_q'', None) ex_control2 =
      handle_control ex_env2 5 (''port_state_q'', None) ex_control2"
    using control2_equals_control1 [OF plain(1), of "(''port_state_q'', None)" "\<lambda>_. Inr 3" 5] by simp
  have "effective_ports (ct_cfg ?ct) ?p = ?p" by (simp add: effective_ports_def)
  moreover have "ranges_disjoint ?p" by (simp add: ranges_disjoint_def port_range_def upto.simps)
  ultimately show "handle_port_alloc2 (\<lambda>_. Inr 3) ex_env2 5 ?p ?ct = handle_port_alloc (listen_as (\<lambda>_. Inr 3) ?p ex_env2) 5 ?p ?ct"
    using control2_equals_control1 [OF plain(2), where srt = "\<lambda>_. Inr 3" and k = 5 and p = ?p] by simp
  show "ct_objects ?ct 5 \<noteq> None" by (simp add: ex_control2_fields)
qed (rule refl)

end
