(* ===== verification/GatewayV2.thy ===== *)
theory GatewayV2
  imports HubV2Run
begin

section \<open>The gateway of the second version with its accept loops\<close>

text \<open>
  The control server, its port manager, the reaper and the relay server of the second version in one state, and beside it the
  goroutines that accept data connections, each at its point of \<open>acceptLoop\<close> (v2/relay/server.go). A loop is
  started whenever a port is opened and looks at the busy mark before it admits a connection, but not in the locked region in
  which it does: between the two, calls, other loops, ending sessions and the reaper run. The state remembers, for
  the statement only, which ports the reaper has stopped.
\<close>

subsection \<open>Runs\<close>

text \<open>A loop waits for a connection, reads its hello (with the protocol of the port), or has its role and is about to admit it.\<close>

datatype accept_loop =
    Accepting port
  | Reading port string conn
  | Admitting port string string BufferedConn

fun loop_port :: "accept_loop \<Rightarrow> port" where
  "loop_port (Accepting p) = p"
| "loop_port (Reading p proto c) = p"
| "loop_port (Admitting p role i bc) = p"

fun accepted_port :: "ctl_effect \<Rightarrow> port list" where
  "accepted_port (FromRelay (RGoAccept p l)) = [p]"
| "accepted_port _ = []"

definition accepted_ports :: "ctl_effect list \<Rightarrow> port list" where
  "accepted_ports es = concat (map accepted_port es)"

type_synonym gateway2 = "Control \<times> accept_loop multiset \<times> port set"

definition after_hello :: "string \<Rightarrow> port \<Rightarrow> conn \<Rightarrow> DataHello1 option \<times> reader \<Rightarrow> RelayServer \<Rightarrow> accept_loop" where
  "after_hello proto p c hr s =
     (case accept_role2 proto p (fst hr) s of
        None \<Rightarrow> Accepting p
      | Some role \<Rightarrow> Admitting p role (helloClientID (fst hr)) \<lparr>bc_conn = c, bc_reader = snd hr\<rparr>)"

inductive gw2_step :: "gateway2 \<Rightarrow> gateway2 \<Rightarrow> bool" where
  call: "ctl2_call ct (ct', es) \<Longrightarrow> gw2_step (ct, L, S) (ct', L + mset (map Accepting (accepted_ports es)), S)"
| accept: "Accepting p \<in># L \<Longrightarrow> \<not> IsPortBusy p (ct_relay ct) \<Longrightarrow>
    gw2_step (ct, L, S) (ct, L - {#Accepting p#} + {#Reading p (getPortProtocol p (ct_relay ct)) c#}, S)"
| hello: "Reading p proto c \<in># L \<Longrightarrow>
    gw2_step (ct, L, S) (ct, L - {#Reading p proto c#} +
      {#after_hello proto p c (wrapConnAndHello (evs (readHelloTimeout proto))) (ct_relay ct)#}, S)"
| admit: "Admitting p role i bc \<in># L \<Longrightarrow>
    gw2_step (ct, L, S) (set_relay (fst (relay_admit2 m p role i bc (ct_relay ct))) ct,
      L - {#Admitting p role i bc#} + {#Accepting p#}, S)"
| leave: "Accepting p \<in># L \<Longrightarrow> gw2_step (ct, L, S) (ct, L - {#Accepting p#}, S)"
| pipe: "rs_store (ct_relay ct) n = Some sn \<Longrightarrow> pp_step (sn_pipe sn) (p, es) \<Longrightarrow>
    gw2_step (ct, L, S) (set_relay ((ct_relay ct)\<lparr>rs_store := (rs_store (ct_relay ct))(n \<mapsto> sn\<lparr>sn_pipe := p\<rparr>)\<rparr>) ct, L, S)"
| stopped: "rs_store (ct_relay ct) n = Some sn \<Longrightarrow> pp_ended (sn_pipe sn) \<Longrightarrow> pp_once (sn_pipe sn) \<Longrightarrow> pp_todo (sn_pipe sn) = [] \<Longrightarrow>
    \<not> sn_called sn \<Longrightarrow> gw2_step (ct, L, S) (set_relay (fst (session_stopped n (ct_relay ct))) ct, L, S)"
| hooks: "gw2_step (ct, L, S) (set_relay (SetOnPortFree f (SetOnStateChange g (ct_relay ct))) ct, L, S)"
| reaper: "reap_step (ct_reaper ct) e r \<Longrightarrow> e \<noteq> RelayMoved \<Longrightarrow>
    gw2_step (ct, L, S) (ct\<lparr>ct_reaper := r\<rparr>, L, S \<union> {p. e = Stopped p})"

text \<open>What the gateway does is a run of the steps of the control server.\<close>

lemma gw2_ctl2: "gw2_step G G' \<Longrightarrow> ctl2_step\<^sup>*\<^sup>* (fst G) (fst G')"
proof (induction rule: gw2_step.induct)
  case (call ct ct' es L S)
  then show ?case by (simp add: ctl2_step.call r_into_rtranclp)
next
  case (admit p role i bc L ct S m)
  show ?case using ctl2_step.relay [OF rs2_step.admit] by (simp add: r_into_rtranclp)
next
  case (pipe ct n sn p es L S)
  show ?case using ctl2_step.relay [OF rs2_step.pipe [OF pipe]] by (simp add: r_into_rtranclp)
next
  case (stopped ct n sn L S)
  show ?case using ctl2_step.relay [OF rs2_step.stopped [OF stopped]] by (simp add: r_into_rtranclp)
next
  case (hooks ct L S f g)
  show ?case using ctl2_step.relay [OF rs2_step.hooks] by (simp add: r_into_rtranclp)
next
  case (reaper ct e r L S)
  then show ?case by (simp add: ctl2_step.reaper r_into_rtranclp)
qed simp_all

lemma gw2_run_ctl2: "gw2_step\<^sup>*\<^sup>* G G' \<Longrightarrow> ctl2_step\<^sup>*\<^sup>* (fst G) (fst G')"
  by (induction rule: rtranclp_induct) (auto dest: gw2_ctl2)

subsection \<open>Every opened port gets one loop\<close>

text \<open>From one state to the next no port becomes busy, and a port is opened exactly when a loop is started for it.\<close>

definition opens :: "RelayServer \<Rightarrow> RelayServer \<Rightarrow> port list \<Rightarrow> bool" where
  "opens s t ps \<longleftrightarrow>
     (\<forall>p. (rs_busy t p \<longrightarrow> rs_busy s p) \<and>
       count_list ps p + (if rs_listeners s p = None then 0 else 1) = (if rs_listeners t p = None then 0 else 1 :: nat))"

lemma opens_refl [simp]: "opens s s []"
  by (simp add: opens_def)

lemma opensD:
  assumes "opens s t ps"
  shows "rs_busy t p \<Longrightarrow> rs_busy s p"
    and "count_list ps p + (if rs_listeners s p = None then 0 else 1) = (if rs_listeners t p = None then 0 else 1 :: nat)"
  using assms unfolding opens_def by blast+

lemma opens_trans:
  assumes "opens s t ps" "opens t u qs"
  shows "opens s u (ps @ qs)"
  unfolding opens_def
proof (intro allI conjI impI)
  fix p
  show "rs_busy s p" if "rs_busy u p" using that opensD(1) [OF assms(1)] opensD(1) [OF assms(2)] by blast
  show "count_list (ps @ qs) p + (if rs_listeners s p = None then 0 else 1) = (if rs_listeners u p = None then 0 else 1 :: nat)"
    unfolding opensD(2) [OF assms(2), of p, symmetric] opensD(2) [OF assms(1), of p, symmetric] by simp
qed

lemma opens_same: "same_ports s t \<Longrightarrow> opens s t []"
  by (simp add: opens_def same_ports_def)

definition opens_call :: "Control \<Rightarrow> Control \<times> ctl_effect list \<Rightarrow> bool" where
  "opens_call ct S \<longleftrightarrow> opens (ct_relay ct) (ct_relay (fst S)) (accepted_ports (snd S))"

lemma accepted_ports_simps [simp]:
  "accepted_ports [] = []" "accepted_ports (e # es) = accepted_port e @ accepted_ports es"
  "accepted_ports (es @ fs) = accepted_ports es @ accepted_ports fs"
  by (simp_all add: accepted_ports_def)

lemma accepted_conns [simp]: "accepted_ports (map (FromRelay \<circ> RConn) es) = []"
  by (induction es) simp_all

lemma opens_seq:
  assumes "\<And>x ct. opens_call ct (f x ct)"
  shows "opens_call ct (seq_effects f xs ct)"
proof (induction xs arbitrary: ct)
  case (Cons x xs)
  show ?case
    using opens_trans [OF assms [of ct x, unfolded opens_call_def] Cons [of "fst (f x ct)", unfolded opens_call_def]]
    by (simp add: opens_call_def case_prod_beta Let_def)
qed (simp add: opens_call_def)

lemma send_accepts [simp]: "accepted_ports (snd (Send1 ev k msg ct)) = []"
  by (simp add: Send1_def split: option.split)

lemma schedule_accepts: "accepted_ports (map FromRelay (snd (ScheduleKill now d ports r))) = []"
proof -
  have one: "accepted_ports (map FromRelay (snd (schedule_port now t p r))) = []" for t p r
    by (simp add: schedule_port_def stop_pipe_def case_prod_beta Let_def split: option.split)
  have "accepted_ports (map FromRelay (snd (seq_effects (schedule_port now t) ports r))) = []" for t
    by (induction ports arbitrary: r) (simp_all add: case_prod_beta Let_def one)
  then show ?thesis by (simp add: ScheduleKill_def)
qed

lemma opens_close: "opens_call ct (Close1 ev k ct)"
proof -
  have "accepted_ports (snd (Close1 ev k ct)) = []"
    by (simp add: Close1_def Hub1_Unregister_def case_prod_beta Let_def schedule_accepts split: option.split)
  then show ?thesis using calmer_close [of ct ev k] by (simp add: opens_call_def calmer_def opens_same)
qed

lemma opens_broadcast: "opens_call ct (BroadcastToRole ev role msg ct)"
  unfolding BroadcastToRole_def
proof (rule opens_seq)
  fix k ct
  show "opens_call ct (broadcast_to ev msg k ct)"
  proof (cases "ct_objects ct k")
    case (Some c)
    show ?thesis
      using opens_close [of "ct\<lparr>ct_objects := (ct_objects ct)(k \<mapsto> c\<lparr>cc_closed := True\<rparr>)\<rparr>" ev k] Some
      by (simp add: broadcast_to_def case_prod_beta Let_def opens_call_def)
  qed (simp add: broadcast_to_def case_prod_beta Let_def opens_call_def)
qed

lemma snapshot2_ports:
  "rs_busy (fst (snd (SnapshotPortState2 probe ps ls s))) = rs_busy s"
  "rs_listeners (fst (snd (SnapshotPortState2 probe ps ls s))) = rs_listeners s"
  "accepted_ports (map FromRelay (snd (snd (SnapshotPortState2 probe ps ls s)))) = []"
proof -
  have one: "accepted_ports (map FromRelay (snd (probe_pending2 probe p s))) = []" for p s
    by (auto simp: probe_pending2_def close_bc_def Let_def split: option.split io_error.split)
  have "accepted_ports (map FromRelay (snd (seq_effects (probe_pending2 probe) ps s))) = []"
    by (induction ps arbitrary: s) (simp_all add: case_prod_beta Let_def one)
  then show "accepted_ports (map FromRelay (snd (snd (SnapshotPortState2 probe ps ls s)))) = []"
    "rs_busy (fst (snd (SnapshotPortState2 probe ps ls s))) = rs_busy s"
    "rs_listeners (fst (snd (SnapshotPortState2 probe ps ls s))) = rs_listeners s"
    using probes2_fields [of probe ps s] probes2_listeners [of probe ps s]
    by (simp_all add: SnapshotPortState2_def case_prod_beta Let_def)
qed

lemma opens_snapshot [simp]:
  "opens (ct_relay ct) (ct_relay (fst (snd (take_snapshot2 ev ct)))) []"
  "accepted_ports (snd (snd (take_snapshot2 ev ct))) = []"
  "snd (snd (snapshotPortState ev ct)) = snd (snd (take_snapshot2 ev ct))"
  by (simp_all add: take_snapshot2_def snapshotPortState_def case_prod_beta Let_def snapshot2_ports opens_def)

lemma opens_start: "opens_call ct (start_port2 srt ev proto p ct)"
  by (auto simp: opens_call_def opens_def start_port2_def StartRelayPortWithProtocol2_def case_prod_beta Let_def
      split: option.split sum.split)

lemma opens_starts:
  "opens (ct_relay ct) (ct_relay (fst (seq_effects (start_port2 srt ev proto) ps ct)))
     (accepted_ports (snd (seq_effects (start_port2 srt ev proto) ps ct)))"
  using opens_seq [of "start_port2 srt ev proto", OF opens_start] by (simp add: opens_call_def)

text \<open>A call after one that does not open anything.\<close>

lemma opens_after: "opens (ct_relay ct) (ct_relay ct1) [] \<Longrightarrow> opens_call ct1 S \<Longrightarrow> opens_call ct S"
  using opens_trans [of "ct_relay ct" "ct_relay ct1" "[]"] by (simp add: opens_call_def)

lemma opens_alloc: "opens_call ct (handle_port_alloc2 srt ev k p ct)"
proof (cases "ct_objects ct k")
  case (Some c)
  let ?p = "effective_ports (ct_cfg ct) p"
  let ?ct1 = "ct\<lparr>ct_pm := snd (SetRanges ?p (ct_pm ct))\<rparr>"
  let ?z = "seq_effects (start_port2 srt ev ''zmq'') (port_range (pa_ZMQStartPort ?p) (pa_ZMQEndPort ?p)) ?ct1"
  let ?s = "seq_effects (start_port2 srt ev ''srt'') (port_range (pa_SRTStartPort ?p) (pa_SRTEndPort ?p)) (fst ?z)"
  let ?ports = "port_range (pa_ZMQStartPort ?p) (pa_ZMQEndPort ?p) @ port_range (pa_SRTStartPort ?p) (pa_SRTEndPort ?p)"
  let ?ct4 = "(fst ?s)\<lparr>ct_objects := (ct_objects (fst ?s))(k \<mapsto> c\<lparr>cc_AllocatedPorts := ?ports\<rparr>),
    ct_reaper := CancelKill ?ports (ct_reaper (fst ?s))\<rparr>"
  have "opens (ct_relay ct) (ct_relay (fst ?z)) (accepted_ports (snd ?z))" using opens_starts [of ?ct1] by simp
  from opens_trans [OF opens_trans [OF this opens_starts]]
  have "opens (ct_relay ct) t ((accepted_ports (snd ?z) @ accepted_ports (snd ?s)) @ ps)" if "opens (ct_relay (fst ?s)) t ps" for t ps
    using that by blast
  moreover have "opens (ct_relay (fst ?s)) (ct_relay (fst (BroadcastToRole ev RoleFE (PortAllocMsg ?p) ?ct4)))
      (accepted_ports (snd (BroadcastToRole ev RoleFE (PortAllocMsg ?p) ?ct4)))"
    using opens_broadcast [of ?ct4 ev RoleFE "PortAllocMsg ?p"] by (simp add: opens_call_def)
  ultimately show ?thesis using Some by (simp add: handle_port_alloc2_def opens_call_def case_prod_beta Let_def)
qed (simp add: handle_port_alloc2_def opens_call_def)

lemma opens_acquire: "opens_call ct (handle_port_acquire2 ev k req ct)"
proof -
  have quiet: "opens (ct_relay ct) (ct_relay (fst (snd (acquire_ready2 ev k req ct)))) []"
    "accepted_ports (snd (snd (acquire_ready2 ev k req ct))) = []"
    "opens (ct_relay ct) (ct_relay (fst (snd (acquire_any2 ev k req ct)))) []"
    "accepted_ports (snd (snd (acquire_any2 ev k req ct))) = []"
    by (simp_all add: acquire_ready2_def acquire_any2_def case_prod_beta Let_def split: option.split)
  have "opens (ct_relay ct) (ct_relay (fst (BroadcastToRole ev role msg ct1))) (accepted_ports (snd (BroadcastToRole ev role msg ct1)))"
    if "opens (ct_relay ct) (ct_relay ct1) []" for ct1 role msg
    using opens_after [OF that opens_broadcast] by (simp add: opens_call_def)
  then show ?thesis
    using quiet by (auto simp: handle_port_acquire2_def opens_call_def case_prod_beta Let_def split: option.split sum.split)
qed

lemma opens_control: "opens_call ct (handle_control2 srt ev k msg ct)"
proof -
  have stay: "opens_call ct (ct, es)" if "accepted_ports es = []" for es using that by (simp add: opens_call_def)
  have sent: "opens_call (ct\<lparr>ct_pm := pm\<rparr>) S \<Longrightarrow> opens_call ct S" for pm S by (simp add: opens_call_def)
  have release: "opens_call ct (handle_port_release ev k sid ct)" for sid
    using sent [OF opens_broadcast]
    by (auto simp: handle_port_release_def case_prod_beta Let_def opens_call_def split: option.split)
  have keys: "opens_call ct (handle_key_exchange ev k p ct)" for p
    by (auto simp: handle_key_exchange_def opens_broadcast stay split: option.split)
  have ping: "opens_call ct (ct, HandlePing ev k p ct)" for p by (rule stay) (simp add: HandlePing_def Let_def)
  have queried: "opens_call ct (send_state2 ev k ct)"
    by (simp add: opens_call_def send_state2_def case_prod_beta Let_def)
  show ?thesis
    by (cases msg)
       (simp add: handle_control2_def with_payload_def ping keys opens_alloc opens_acquire release queried stay split: option.split)
qed

lemma opens_register: "opens_call ct (snd (handle_register2 ev k first ct))"
proof -
  have relay: "ct_relay (snd (Hub1_Register k c ct)) = ct_relay ct" for c by (simp add: Hub1_Register_def)
  have "opens (ct_relay ct') (ct_relay (fst (welcome_client2 ev k role ct'))) []" for role ct'
    by (simp add: welcome_client2_def send_state2_def case_prod_beta Let_def)
  then have greeted: "opens (ct_relay ct) (ct_relay (fst (welcome_client2 ev k role ct'))) []"
    if "ct_relay ct' = ct_relay ct" for role ct'
    using that by metis
  have "accepted_ports (snd (welcome_client2 ev k role ct')) = []" for role ct'
    by (simp add: welcome_client2_def send_state2_def case_prod_beta Let_def)
  then show ?thesis
    using greeted
    by (auto simp: handle_register2_def opens_call_def case_prod_beta Let_def relay split: option.split)
qed

lemma opens_calls: "ctl2_call ct S \<Longrightarrow> opens_call ct S"
proof (induction rule: ctl2_call.induct)
  case (log ev ct line)
  show ?case
    using opens_trans [OF opens_broadcast [unfolded opens_call_def] opens_broadcast [unfolded opens_call_def]]
    by (simp add: stream_log_def opens_call_def case_prod_beta Let_def)
next
  case (state ev ct)
  let ?ct1 = "fst (snd (take_snapshot2 ev ct))"
  have "opens (ct_relay ct) (ct_relay (fst (BroadcastToRole ev RoleBE msg ?ct1))) (accepted_ports (snd (BroadcastToRole ev RoleBE msg ?ct1)))" for msg
    using opens_after [OF opens_snapshot(1) opens_broadcast] by (simp add: opens_call_def)
  from opens_trans [OF this opens_broadcast [unfolded opens_call_def]] show ?case
    by (simp add: on_state_change2_def opens_call_def case_prod_beta Let_def)
qed (simp_all add: opens_register opens_control opens_close opens_start, simp_all add: opens_call_def free_hook_relay)

subsection \<open>The invariant\<close>

text \<open>On a port that was never stopped there is at most one loop, and it is about to admit a connection only while the port is
  not busy.\<close>

definition gw2_inv :: "gateway2 \<Rightarrow> bool" where
  "gw2_inv G \<longleftrightarrow>
     (case G of (ct, L, S) \<Rightarrow>
        both_on (- S) ct \<and>
        (\<forall>p. p \<notin> S \<longrightarrow>
          size (filter_mset (\<lambda>x. loop_port x = p) L) \<le> (if rs_listeners (ct_relay ct) p = None then 0 else 1) \<and>
          (\<forall>role i bc. Admitting p role i bc \<in># L \<longrightarrow> \<not> rs_busy (ct_relay ct) p)))"

lemma gw2_invI:
  assumes "both_on (- S) ct"
    and "\<And>p. p \<notin> S \<Longrightarrow> size (filter_mset (\<lambda>x. loop_port x = p) L) \<le> (if rs_listeners (ct_relay ct) p = None then 0 else 1)"
    and "\<And>p role i bc. p \<notin> S \<Longrightarrow> Admitting p role i bc \<in># L \<Longrightarrow> \<not> rs_busy (ct_relay ct) p"
  shows "gw2_inv (ct, L, S)"
  unfolding gw2_inv_def prod.case using assms by blast

lemma gw2_invD:
  assumes "gw2_inv (ct, L, S)"
  shows "both_on (- S) ct" "ctl_inv ct" "relay_inv_on (- S) (ct_relay ct)"
    "p \<notin> S \<Longrightarrow> size (filter_mset (\<lambda>x. loop_port x = p) L) \<le> (if rs_listeners (ct_relay ct) p = None then 0 else 1)"
    "p \<notin> S \<Longrightarrow> Admitting p role i bc \<in># L \<Longrightarrow> \<not> rs_busy (ct_relay ct) p"
  using assms unfolding gw2_inv_def both_on_def prod.case by blast+

lemma started_loops: "size (filter_mset (\<lambda>x. loop_port x = p) (mset (map Accepting ps))) = count_list ps p"
  by (induction ps) simp_all

lemma admitting_started: "Admitting p role i bc \<notin># mset (map Accepting ps)"
  by auto

text \<open>A loop that goes on at its port changes no number of loops.\<close>

lemma moved_loop:
  assumes "x \<in># L" "loop_port y = loop_port x"
  shows "size (filter_mset (\<lambda>z. loop_port z = p) (L - {#x#} + {#y#})) = size (filter_mset (\<lambda>z. loop_port z = p) L)"
proof -
  obtain M where "L = add_mset x M" using assms(1) by (metis mset_add)
  then show ?thesis using assms(2) by simp
qed

lemma only_loop:
  assumes "size (filter_mset (\<lambda>z. loop_port z = p) L) \<le> 1" "x \<in># L" "loop_port x = p" "y \<in># L - {#x#}" "loop_port y = p"
  shows False
proof -
  obtain M where M: "L - {#x#} = add_mset y M" using assms(4) by (metis mset_add)
  have "L = add_mset x (L - {#x#})" using assms(2) by simp
  then have "L = add_mset x (add_mset y M)" unfolding M .
  then show False using assms(1,3,5) by simp
qed

lemma admit2_ports:
  "rs_listeners (fst (relay_admit2 m p role i bc s)) = rs_listeners s"
  "rs_busy (fst (relay_admit2 m p role i bc s)) q \<Longrightarrow> q \<noteq> p \<Longrightarrow> rs_busy s q"
  by (auto simp: relay_admit2_def start_session_def Let_def split: option.splits if_splits)

lemma stopped_ports:
  "rs_listeners (fst (session_stopped n s)) = rs_listeners s" "rs_busy (fst (session_stopped n s)) q \<Longrightarrow> rs_busy s q"
  by (auto simp: session_stopped_def Let_def split: option.splits if_splits)

lemma StopPort_others:
  "q \<noteq> p \<Longrightarrow> rs_listeners (fst (StopPort p s)) q = rs_listeners s q" "q \<noteq> p \<Longrightarrow> rs_busy (fst (StopPort p s)) q = rs_busy s q"
  by (auto simp: StopPort_def stop_listener_def stop_session_def stop_pipe_def drop_BE_def drop_FE_def case_prod_beta Let_def
      split: option.split)

lemma relay_inv_mono: "relay_inv_on A s \<Longrightarrow> B \<subseteq> A \<Longrightarrow> relay_inv_on B s"
  unfolding relay_inv_on_def by blast

lemma set_timer_relay: "rp_relay (set_timer t st r) = rp_relay r"
  by (simp add: set_timer_def split: option.split)

lemma reaper_ports:
  assumes "reap_step r e r'" "e \<noteq> RelayMoved"
  shows "q \<notin> {p. e = Stopped p} \<Longrightarrow> rs_listeners (rp_relay r') q = rs_listeners (rp_relay r) q"
    and "q \<notin> {p. e = Stopped p} \<Longrightarrow> rs_busy (rp_relay r') q = rs_busy (rp_relay r) q"
  using assms
proof (induction rule: reap_step.induct)
  case (schedule r ports now cfg)
  {
    case 1
    then show ?case using calmer_schedule [of r now cfg ports] by (simp add: calmer_def same_ports_def)
  next
    case 2
    then show ?case using calmer_schedule [of r now cfg ports] by (simp add: calmer_def same_ports_def)
  }
qed (auto simp: set_timer_relay kill_forget_def kill_stop_def case_prod_beta Let_def StopPort_others)

lemma gw2_step_inv: "gw2_step G G' \<Longrightarrow> gw2_inv G \<Longrightarrow> gw2_inv G'"
proof (induction rule: gw2_step.induct)
  case (call ct ct' es L S)
  note inv = gw2_invD [OF call(2)]
  from opens_calls [OF call(1)] have ports: "opens (ct_relay ct) (ct_relay ct') (accepted_ports es)" by (simp add: opens_call_def)
  show ?case
  proof (rule gw2_invI)
    show "both_on (- S) ct'" using ctl2_call_inv [OF call(1) inv(1)] by simp
    fix p assume p: "p \<notin> S"
    have "size (filter_mset (\<lambda>x. loop_port x = p) (L + mset (map Accepting (accepted_ports es)))) =
        size (filter_mset (\<lambda>x. loop_port x = p) L) + count_list (accepted_ports es) p"
      unfolding filter_union_mset size_union started_loops ..
    then show "size (filter_mset (\<lambda>x. loop_port x = p) (L + mset (map Accepting (accepted_ports es)))) \<le>
        (if rs_listeners (ct_relay ct') p = None then 0 else 1)"
      using inv(4) [OF p] opensD(2) [OF ports, of p] by linarith
    show "\<not> rs_busy (ct_relay ct') p" if "Admitting p role i bc \<in># L + mset (map Accepting (accepted_ports es))" for role i bc
      using that admitting_started inv(5) [OF p] opensD(1) [OF ports] by (metis union_iff)
  qed
next
  case (accept p L ct S c)
  note inv = gw2_invD [OF accept(3)]
  show ?case
    by (rule gw2_invI [OF inv(1)]) (use inv(4,5) moved_loop [OF accept(1)] in \<open>auto dest: in_diffD\<close>)
next
  case (hello p proto c L ct S evs)
  note inv = gw2_invD [OF hello(2)]
  let ?x = "after_hello proto p c (wrapConnAndHello (evs (readHelloTimeout proto))) (ct_relay ct)"
  have x: "loop_port ?x = p" "\<And>q role i bc. ?x = Admitting q role i bc \<Longrightarrow> q = p \<and> \<not> rs_busy (ct_relay ct) p"
    by (auto simp: after_hello_def accept_role2_def split: option.splits if_splits)
  show ?case
  proof (rule gw2_invI [OF inv(1)])
    fix q assume q: "q \<notin> S"
    show "size (filter_mset (\<lambda>z. loop_port z = q) (L - {#Reading p proto c#} + {#?x#})) \<le>
        (if rs_listeners (ct_relay ct) q = None then 0 else 1)"
      using inv(4) [OF q] moved_loop [OF hello(1), of ?x q] x(1) by simp
    show "\<not> rs_busy (ct_relay ct) q" if "Admitting q role i bc \<in># L - {#Reading p proto c#} + {#?x#}" for role i bc
      using that inv(5) [OF q] x(2) [of q role i bc] by (auto dest: in_diffD)
  qed
next
  case (admit p role i bc L ct S m)
  note inv = gw2_invD [OF admit(2)]
  let ?s = "fst (relay_admit2 m p role i bc (ct_relay ct))"
  show ?case
  proof (rule gw2_invI)
    have "relay_inv_on (- S) ?s"
      by (rule relay_inv_admit2 [OF inv(3)]) (use inv(5) admit(1) in auto)
    then show "both_on (- S) (set_relay ?s ct)" using both_relay [OF inv(1)] by blast
    fix q assume q: "q \<notin> S"
    show "size (filter_mset (\<lambda>z. loop_port z = q) (L - {#Admitting p role i bc#} + {#Accepting p#})) \<le>
        (if rs_listeners (ct_relay (set_relay ?s ct)) q = None then 0 else 1)"
      using inv(4) [OF q] moved_loop [OF admit(1), of "Accepting p" q] by (simp add: admit2_ports(1))
    show "\<not> rs_busy (ct_relay (set_relay ?s ct)) q"
      if "Admitting q role' i' bc' \<in># L - {#Admitting p role i bc#} + {#Accepting p#}" for role' i' bc'
    proof -
      have other: "Admitting q role' i' bc' \<in># L - {#Admitting p role i bc#}" using that by simp
      have "size (filter_mset (\<lambda>z. loop_port z = q) L) \<le> 1" using order_trans [OF inv(4) [OF q]] by simp
      then have "q \<noteq> p" using only_loop [OF _ admit(1) _ other, of p] by auto
      then show ?thesis using inv(5) [OF q in_diffD [OF other]] admit2_ports(2) by auto
    qed
  qed
next
  case (leave p L ct S)
  note inv = gw2_invD [OF leave(2)]
  show ?case
  proof (rule gw2_invI [OF inv(1)])
    fix q assume q: "q \<notin> S"
    have "size (filter_mset (\<lambda>x. loop_port x = q) (L - {#Accepting p#})) \<le> size (filter_mset (\<lambda>x. loop_port x = q) L)"
      by (intro size_mset_mono multiset_filter_mono) simp
    then show "size (filter_mset (\<lambda>x. loop_port x = q) (L - {#Accepting p#})) \<le> (if rs_listeners (ct_relay ct) q = None then 0 else 1)"
      using inv(4) [OF q] by (rule order_trans)
    show "\<not> rs_busy (ct_relay ct) q" if "Admitting q role i bc \<in># L - {#Accepting p#}" for role i bc
      using inv(5) [OF q in_diffD [OF that]] .
  qed
next
  case (pipe ct n sn p es L S)
  note inv = gw2_invD [OF pipe(3)]
  show ?case
    by (rule gw2_invI) (use inv(4,5) both_relay [OF inv(1) relay_inv_pipe [OF inv(3) pipe(1,2)]] in auto)
next
  case (stopped ct n sn L S)
  note inv = gw2_invD [OF stopped(6)]
  show ?case
  proof (rule gw2_invI)
    show "both_on (- S) (set_relay (fst (session_stopped n (ct_relay ct))) ct)"
      by (rule both_relay [OF inv(1) relay_inv_stopped [OF inv(3)]])
    show "size (filter_mset (\<lambda>x. loop_port x = p) L) \<le>
        (if rs_listeners (ct_relay (set_relay (fst (session_stopped n (ct_relay ct))) ct)) p = None then 0 else 1)" if "p \<notin> S" for p
      using inv(4) [OF that] by (simp add: stopped_ports(1))
    show "\<not> rs_busy (ct_relay (set_relay (fst (session_stopped n (ct_relay ct))) ct)) p"
      if "p \<notin> S" "Admitting p role i bc \<in># L" for p role i bc
      using inv(5) [OF that] stopped_ports(2) [of n "ct_relay ct" p] by auto
  qed
next
  case (hooks ct L S f g)
  note inv = gw2_invD [OF hooks]
  show ?case
    by (rule gw2_invI)
       (use inv(4,5) both_relay [OF inv(1) relay_inv_hooks [OF inv(3)]] in \<open>auto simp: SetOnPortFree_def SetOnStateChange_def\<close>)
next
  case (reaper ct e r L S)
  note inv = gw2_invD [OF reaper(3)]
  have "relay_inv_on (- (S \<union> {p. e = Stopped p})) (rp_relay r)"
    by (rule relay_inv_mono [OF reap_relay [OF reaper(1,2) inv(3)]]) blast
  then have "both_on (- (S \<union> {p. e = Stopped p})) (ct\<lparr>ct_reaper := r\<rparr>)" using inv(2) by (simp add: both_on_def)
  then show ?case
    by (rule gw2_invI) (use inv(4,5) reaper_ports [OF reaper(1,2)] in auto)
qed

lemma gw2_run_inv: "gw2_step\<^sup>*\<^sup>* (NewControl cfg, {#}, {}) G \<Longrightarrow> gw2_inv G"
proof (induction rule: rtranclp_induct)
  case base
  show ?case by (rule gw2_invI) (simp_all add: both_start)
qed (simp add: gw2_step_inv)

subsection \<open>The gateway is consistent\<close>

text \<open>
  C15. The second gateway as a whole. Whatever registrations, messages, broadcasts, closes, accepted data connections
  (each in the regions of its accept loop, with anything in between), session ends, snapshots and reaper events have happened
  since the program started, in any order: its two lists hold at most the configured number of open clients of their role, no
  reservation shares a port with another, a busy port of the relay server has a session; and on a port that the reaper
  has never stopped (\<open>S\<close> are those it has) there is at most one accept loop, and no back end waits while the port is busy.
  After a stop an old and a new loop of the port can overlap, and then one may: the second region does not look at the busy mark.
\<close>
theorem control2_consistent:
  assumes "gw2_step\<^sup>*\<^sup>* (NewControl cfg, {#}, {}) (ct, L, S)"
  shows "int (length (ct_fe ct)) \<le> max 0 (rc_MaxFE (ct_cfg ct)) \<and> int (length (ct_be ct)) \<le> max 0 (rc_MaxBE (ct_cfg ct)) \<and>
    distinct (ct_fe ct @ ct_be ct) \<and>
    (\<forall>k \<in> set (ct_fe ct @ ct_be ct). \<exists>c. ct_objects ct k = Some c \<and> \<not> cc_once c \<and>
       cc_Role c = (if k \<in> set (ct_fe ct) then RoleFE else RoleBE)) \<and>
    (\<forall>p sid sid' r r'. pm_bySession (ct_pm ct) sid = Some r \<and> pm_bySession (ct_pm ct) sid' = Some r' \<and> holds_port r p \<and>
       holds_port r' p \<longrightarrow> sid' = sid) \<and>
    (\<forall>p. IsPortBusy p (ct_relay ct) \<longrightarrow> GetSession p (ct_relay ct) \<noteq> None) \<and>
    (\<forall>p. p \<notin> S \<longrightarrow> (IsPortBusy p (ct_relay ct) \<longrightarrow> rs_pendingBE (ct_relay ct) p = None) \<and>
       size (filter_mset (\<lambda>x. loop_port x = p) L) \<le> 1)"
proof -
  note run = gw2_invD [OF gw2_run_inv [OF assms]]
  note inv = ctl_invD [OF run(2)]
  have "set (ct_fe ct) \<inter> set (ct_be ct) = {}" using inv(5,6) by fastforce
  moreover have "\<exists>c. ct_objects ct k = Some c \<and> \<not> cc_once c \<and> cc_Role c = (if k \<in> set (ct_fe ct) then RoleFE else RoleBE)"
    if "k \<in> set (ct_fe ct @ ct_be ct)" for k
    using that inv(5,6) [of k] by (cases "k \<in> set (ct_fe ct)") auto
  moreover have "sid' = sid" if "pm_bySession (ct_pm ct) sid = Some r" "pm_bySession (ct_pm ct) sid' = Some r'"
    "holds_port r p" "holds_port r' p" for p sid sid' r r'
    using pm_invD(5) [OF inv(3), of p] that by (metis option.inject)
  moreover have "IsPortBusy p (ct_relay ct) \<Longrightarrow> GetSession p (ct_relay ct) \<noteq> None" for p
    using relay_invD(2) [OF run(3)] by (simp add: IsPortBusy_def GetSession_def)
  moreover have "IsPortBusy p (ct_relay ct) \<Longrightarrow> rs_pendingBE (ct_relay ct) p = None"
    "size (filter_mset (\<lambda>x. loop_port x = p) L) \<le> 1" if "p \<notin> S" for p
    using relay_invD(3) [OF run(3)] order_trans [OF run(4) [OF that]] that by (simp_all add: IsPortBusy_def)
  ultimately show ?thesis using inv(1,2,7,8) by auto
qed

text \<open>A connection that says no hello is admitted on an idle zmq port.\<close>

lemma silent_admission:
  assumes "\<not> rs_busy (ct_relay ct) 7" "rs_portProtocol (ct_relay ct) 7 = Some ''zmq''"
  shows "gw2_step\<^sup>*\<^sup>* (ct, {#Accepting 7#}, S)
    (set_relay (fst (relay_admit2 9 7 (if rs_pendingBE (ct_relay ct) 7 = None then ''BE'' else ''FE'') '''' (ex_bc c) (ct_relay ct))) ct,
     {#Accepting 7#}, S)"
proof -
  let ?role = "if rs_pendingBE (ct_relay ct) 7 = None then ''BE'' else ''FE''"
  have "gw2_step (ct, {#Accepting 7#}, S) (ct, {#Reading 7 ''zmq'' c#}, S)"
    using gw2_step.accept [of 7 "{#Accepting 7#}" ct S c] assms by (simp add: IsPortBusy_def getPortProtocol_def)
  moreover have "after_hello ''zmq'' 7 c (wrapConnAndHello []) (ct_relay ct) = Admitting 7 ?role '''' (ex_bc c)"
    using assms(1) by (simp add: after_hello_def accept_role2_def wrapConnAndHello_def helloPrefix1_def helloRole_def helloClientID_def
        guesses_def ex_bc_def)
  then have "gw2_step (ct, {#Reading 7 ''zmq'' c#}, S) (ct, {#Admitting 7 ?role '''' (ex_bc c)#}, S)"
    using gw2_step.hello [of 7 "''zmq''" c "{#Reading 7 ''zmq'' c#}" ct S "\<lambda>_. []"] by simp
  moreover have "gw2_step (ct, {#Admitting 7 ?role '''' (ex_bc c)#}, S)
      (set_relay (fst (relay_admit2 9 7 ?role '''' (ex_bc c) (ct_relay ct))) ct, {#Accepting 7#}, S)"
    using gw2_step.admit [of 7 ?role "''''" "ex_bc c" "{#Admitting 7 ?role '''' (ex_bc c)#}" ct S 9] by simp
  ultimately show ?thesis by (meson converse_rtranclp_into_rtranclp r_into_rtranclp)
qed

text \<open>Two of them are a back end and a front end in a session.\<close>

definition ex_gw_wait :: Control where
  "ex_gw_wait = set_relay (fst (relay_admit2 9 7 ''BE'' '''' (ex_bc 1) ex_bare2)) (NewControl ex_cfg1)"

definition ex_gw_joined :: Control where
  "ex_gw_joined = set_relay (fst (relay_admit2 9 7 ''FE'' '''' (ex_bc 2) (ct_relay ex_gw_wait))) ex_gw_wait"

lemma ex_gw_fields:
  "rs_listeners ex_bare2 7 \<noteq> None" "\<not> rs_busy ex_bare2 7" "rs_pendingBE ex_bare2 7 = None" "rs_portProtocol ex_bare2 7 = Some ''zmq''"
  "\<not> rs_busy (ct_relay ex_gw_wait) 7" "rs_pendingBE (ct_relay ex_gw_wait) 7 \<noteq> None" "rs_portProtocol (ct_relay ex_gw_wait) 7 = Some ''zmq''"
  "IsPortBusy 7 (ct_relay ex_gw_joined)"
  by (simp_all add: ex_gw_joined_def ex_gw_wait_def ex_bare2_def NewControl_def GlobalReaper_def SetOnPortFree_def GlobalRelay_def
      relay_admit2_def StartRelayPortWithProtocol2_def start_session_def IsPortBusy_def Let_def)

lemma ex_gw_run: "gw2_step\<^sup>*\<^sup>* (NewControl ex_cfg1, {#}, {}) (ex_gw_joined, {#Accepting 7#}, {})"
proof -
  let ?ev = "(ex_env True)\<lparr>ev_listen := \<lambda>_. Inr 1\<rparr>"
  have "start_port2 (\<lambda>_. Inr 0) ?ev ''zmq'' 7 (NewControl ex_cfg1) =
      (set_relay ex_bare2 (NewControl ex_cfg1), [FromRelay (RGoAccept 7 1)])"
    by (simp add: start_port2_def ex_bare2_def StartRelayPortWithProtocol2_def NewControl_def GlobalReaper_def SetOnPortFree_def
        GlobalRelay_def Let_def)
  with ctl2_call.listen [of "NewControl ex_cfg1" "\<lambda>_. Inr 0" ?ev "''zmq''" 7]
  have "ctl2_call (NewControl ex_cfg1) (set_relay ex_bare2 (NewControl ex_cfg1), [FromRelay (RGoAccept 7 1)])" by simp
  from gw2_step.call [OF this, of "{#}" "{}"]
  have "gw2_step (NewControl ex_cfg1, {#}, {}) (set_relay ex_bare2 (NewControl ex_cfg1), {#Accepting 7#}, {})" by simp
  also have "gw2_step\<^sup>*\<^sup>* \<dots> (ex_gw_wait, {#Accepting 7#}, {})"
    using silent_admission [of "set_relay ex_bare2 (NewControl ex_cfg1)" "{}" 1] by (simp add: ex_gw_fields ex_gw_wait_def)
  also have "gw2_step\<^sup>*\<^sup>* \<dots> (ex_gw_joined, {#Accepting 7#}, {})"
    using silent_admission [of ex_gw_wait "{}" 2] ex_gw_fields(5-7) by (simp add: ex_gw_joined_def)
  finally show ?thesis .
qed

lemma control2_consistent_witness:
  "GetSession 7 (ct_relay ex_gw_joined) \<noteq> None \<and> rs_pendingBE (ct_relay ex_gw_joined) 7 = None"
  using control2_consistent [OF ex_gw_run] ex_gw_fields(8) by blast

end
