(* ===== verification/RelayV3.thy ===== *)
theory RelayV3
  imports PortsV1 "HOL-Library.Word"
begin

section \<open>The relay server of the third version (v3/relay/server.go)\<close>

text \<open>
  In the third version a port carries TCP and UDP at once and its protocol is not looked at. All that
  the server knows of a port is a slot: both listeners, the waiting connections and the session of TCP,
  and the two UDP peers that it relays between. The session and its buffers are the code of the first
  version. Locked regions are functions; what the system answers is an argument.
\<close>

subsection \<open>UDP addresses\<close>

text \<open>A \<open>net.UDPAddr\<close>: \<open>None\<close> is the nil IP. \<open>IP.Equal\<close> identifies an IPv4 address with its IPv6 form.\<close>

record UDPAddr =
  ua_IP :: "8 word list option"
  ua_Port :: int
  ua_Zone :: string

definition v4_in_v6 :: "8 word list" where
  "v4_in_v6 = replicate 10 0 @ [255, 255]"

definition IP_Equal :: "8 word list \<Rightarrow> 8 word list \<Rightarrow> bool" where
  "IP_Equal a b \<longleftrightarrow>
     (if length a = length b then a = b
      else if length a = 4 \<and> length b = 16 then take 12 b = v4_in_v6 \<and> a = drop 12 b
      else if length a = 16 \<and> length b = 4 then take 12 a = v4_in_v6 \<and> drop 12 a = b
      else False)"

fun udpAddrEqual :: "UDPAddr option \<Rightarrow> UDPAddr option \<Rightarrow> bool" where
  "udpAddrEqual (Some a) (Some b) \<longleftrightarrow>
     ua_Port a = ua_Port b \<and> ua_Zone a = ua_Zone b \<and>
     (case (ua_IP a, ua_IP b) of
        (None, None) \<Rightarrow> True
      | (None, Some _) \<Rightarrow> False
      | (Some _, None) \<Rightarrow> False
      | (Some x, Some y) \<Rightarrow> IP_Equal x y)"
| "udpAddrEqual _ _ \<longleftrightarrow> False"

definition cloneUDPAddr :: "UDPAddr option \<Rightarrow> UDPAddr option" where
  "cloneUDPAddr a =
     map_option (\<lambda>a. a\<lparr>ua_IP := Some (case ua_IP a of None \<Rightarrow> [] | Some ip \<Rightarrow> ip)\<rparr>) a"

subsection \<open>Slots\<close>

type_synonym udp_conn = nat

record portSlot =
  sl_tcpLn :: listener
  sl_udpConn :: udp_conn
  sl_tcpBusy :: bool
  sl_tcpSession :: "nat option"
  sl_pendingBE :: "BufferedConn option"
  sl_pendingBEID :: string
  sl_pendingFE :: "BufferedConn option"
  sl_pendingFEID :: string
  sl_udpA :: "UDPAddr option"
  sl_udpB :: "UDPAddr option"
  sl_udpLastA :: time
  sl_udpLastB :: time

text \<open>Sessions are objects in a store, as in the first version.\<close>

record RelayServer3 =
  r3_slots :: "port \<Rightarrow> portSlot option"
  r3_onPortFree :: bool
  r3_onStateChange :: bool
  r3_store :: "nat \<Rightarrow> RelaySession option"
  r3_next :: nat

datatype r3_effect =
    R3Conn effect
  | R3ClearDeadline conn
  | R3CloseTCP listener
  | R3CloseUDP udp_conn
  | R3GoAccept port
  | R3GoUDP port
  | R3GoSweep port
  | R3GoSession nat
  | R3SendUDP udp_conn string UDPAddr
  | R3PortFree port
  | R3StateChange

definition GlobalRelay3 :: RelayServer3 where
  "GlobalRelay3 =
     \<lparr>r3_slots = Map.empty, r3_onPortFree = False, r3_onStateChange = False, r3_store = Map.empty, r3_next = 0\<rparr>"

definition r3_changed :: "RelayServer3 \<Rightarrow> r3_effect list" where
  "r3_changed s = (if r3_onStateChange s then [R3StateChange] else [])"

definition r3_free :: "port \<Rightarrow> RelayServer3 \<Rightarrow> r3_effect list" where
  "r3_free port s = (if r3_onPortFree s then [R3PortFree port] else [])"

definition put_slot :: "port \<Rightarrow> portSlot \<Rightarrow> RelayServer3 \<Rightarrow> RelayServer3" where
  "put_slot port sl s = s\<lparr>r3_slots := (r3_slots s)(port \<mapsto> sl)\<rparr>"

definition close3 :: "BufferedConn option \<Rightarrow> r3_effect list" where
  "close3 p = (case p of None \<Rightarrow> [] | Some bc \<Rightarrow> [R3Conn (CloseConn (bc_conn bc))])"

subsection \<open>Ports\<close>

definition new_slot :: "listener \<Rightarrow> udp_conn \<Rightarrow> portSlot" where
  "new_slot l u =
     \<lparr>sl_tcpLn = l, sl_udpConn = u, sl_tcpBusy = False, sl_tcpSession = None, sl_pendingBE = None,
      sl_pendingBEID = '''', sl_pendingFE = None, sl_pendingFEID = '''', sl_udpA = None, sl_udpB = None,
      sl_udpLastA = zero_time, sl_udpLastB = zero_time\<rparr>"

definition StartRelayPort3 ::
    "io_error + listener \<Rightarrow> io_error + udp_conn \<Rightarrow> port \<Rightarrow> RelayServer3 \<Rightarrow> io_error option \<times> RelayServer3 \<times> r3_effect list" where
  "StartRelayPort3 tcp udp port s =
     (if r3_slots s port \<noteq> None then (None, s, [])
      else (case tcp of
          Inl e \<Rightarrow> (Some e, s, [])
        | Inr l \<Rightarrow>
            (case udp of
               Inl e \<Rightarrow> (Some e, s, [R3CloseTCP l])
             | Inr u \<Rightarrow> (None, put_slot port (new_slot l u) s, [R3GoAccept port, R3GoUDP port, R3GoSweep port]))))"

definition stop_pipe3 :: "nat option \<Rightarrow> RelayServer3 \<Rightarrow> RelayServer3 \<times> r3_effect list" where
  "stop_pipe3 sess s =
     (case sess of
        None \<Rightarrow> (s, [])
      | Some n \<Rightarrow>
          (case r3_store s n of
             None \<Rightarrow> (s, [])
           | Some sn \<Rightarrow> (let (p, es) = pp_Stop (sn_pipe sn)
                        in (s\<lparr>r3_store := (r3_store s)(n \<mapsto> sn\<lparr>sn_pipe := p\<rparr>)\<rparr>, map R3Conn es))))"

text \<open>\<open>StopPort\<close>: the slot is taken out under the mutex and everything in it closed after.\<close>

definition StopPort3 :: "port \<Rightarrow> RelayServer3 \<Rightarrow> RelayServer3 \<times> r3_effect list" where
  "StopPort3 port s =
     (case r3_slots s port of
        None \<Rightarrow> (s, r3_free port s @ r3_changed s)
      | Some sl \<Rightarrow>
          (let s1 = s\<lparr>r3_slots := (r3_slots s)(port := None)\<rparr>;
               (s2, es) = stop_pipe3 (sl_tcpSession sl) s1
           in (s2, [R3CloseTCP (sl_tcpLn sl), R3CloseUDP (sl_udpConn sl)] @ es @ close3 (sl_pendingBE sl) @
                   close3 (sl_pendingFE sl) @ r3_free port s @ r3_changed s)))"

definition reset_slot :: "portSlot \<Rightarrow> portSlot" where
  "reset_slot sl =
     sl\<lparr>sl_tcpSession := None, sl_tcpBusy := False, sl_pendingBE := None, sl_pendingBEID := '''', sl_pendingFE := None,
        sl_pendingFEID := '''', sl_udpA := None, sl_udpB := None, sl_udpLastA := zero_time, sl_udpLastB := zero_time\<rparr>"

definition ResetPort3 :: "port \<Rightarrow> RelayServer3 \<Rightarrow> RelayServer3 \<times> r3_effect list" where
  "ResetPort3 port s =
     (case r3_slots s port of
        None \<Rightarrow> (s, [])
      | Some sl \<Rightarrow>
          (let (s1, es) = stop_pipe3 (sl_tcpSession sl) s; s2 = put_slot port (reset_slot sl) s1
           in (s2, es @ close3 (sl_pendingBE sl) @ close3 (sl_pendingFE sl) @ r3_changed s2)))"

definition GetSession3 :: "port \<Rightarrow> RelayServer3 \<Rightarrow> nat option" where
  "GetSession3 port s = (case r3_slots s port of None \<Rightarrow> None | Some sl \<Rightarrow> sl_tcpSession sl)"

definition SetOnPortFree3 :: "bool \<Rightarrow> RelayServer3 \<Rightarrow> RelayServer3" where
  "SetOnPortFree3 fn s = s\<lparr>r3_onPortFree := fn\<rparr>"

definition SetOnStateChange3 :: "bool \<Rightarrow> RelayServer3 \<Rightarrow> RelayServer3" where
  "SetOnStateChange3 fn s = s\<lparr>r3_onStateChange := fn\<rparr>"

subsection \<open>TCP connections\<close>

text \<open>A connection without a hello is taken for whichever side is missing.\<close>

definition guess_role :: "portSlot \<Rightarrow> string" where
  "guess_role sl =
     (if sl_pendingBE sl = None then ''BE'' else if sl_pendingFE sl = None then ''FE'' else ''BE'')"

definition start_session3 ::
    "int \<Rightarrow> port \<Rightarrow> portSlot \<Rightarrow> BufferedConn \<Rightarrow> BufferedConn \<Rightarrow> string \<Rightarrow> RelayServer3 \<Rightarrow> RelayServer3 \<times> r3_effect list" where
  "start_session3 bufsz port sl fe be beID s =
     (let n = r3_next s;
          session = \<lparr>sn_pipe = NewPipeSession bufsz (bc_conn fe) (bc_conn be), sn_port = port, sn_be = be,
                     sn_beID = beID, sn_called = False\<rparr>;
          s1 = put_slot port (sl\<lparr>sl_tcpSession := Some n, sl_tcpBusy := True\<rparr>)
                 (s\<lparr>r3_store := (r3_store s)(n \<mapsto> session), r3_next := n + 1\<rparr>)
      in (s1, R3GoSession n # r3_changed s1))"

text \<open>The second locked region of \<open>acceptTCPLoop\<close>.\<close>

definition admit3 ::
    "int \<Rightarrow> port \<Rightarrow> string \<Rightarrow> string \<Rightarrow> BufferedConn \<Rightarrow> RelayServer3 \<Rightarrow> RelayServer3 \<times> r3_effect list" where
  "admit3 bufsz port role ident bc s =
     (case r3_slots s port of
        None \<Rightarrow> (s, close3 (Some bc))
      | Some sl \<Rightarrow>
          if role = ''BE''
          then (if sl_pendingBE sl \<noteq> None then (s, close3 (Some bc))
                else (case sl_pendingFE sl of
                    Some fe \<Rightarrow> start_session3 bufsz port (sl\<lparr>sl_pendingFE := None, sl_pendingFEID := ''''\<rparr>) fe bc ident s
                  | None \<Rightarrow> (let s1 = put_slot port (sl\<lparr>sl_pendingBE := Some bc, sl_pendingBEID := ident\<rparr>) s
                            in (s1, r3_changed s1))))
          else if role = ''FE''
          then (if sl_pendingFE sl \<noteq> None then (s, close3 (Some bc))
                else (case sl_pendingBE sl of
                    Some be \<Rightarrow> start_session3 bufsz port (sl\<lparr>sl_pendingBE := None, sl_pendingBEID := ''''\<rparr>) bc be
                      (sl_pendingBEID sl) s
                  | None \<Rightarrow> (let s1 = put_slot port (sl\<lparr>sl_pendingFE := Some bc, sl_pendingFEID := ident\<rparr>) s
                            in (s1, r3_changed s1))))
          else (s, close3 (Some bc)))"

text \<open>One iteration of \<open>acceptTCPLoop\<close> for a connection; \<open>other\<close> is what happens between the two regions.\<close>

definition accept3 ::
    "int \<Rightarrow> (RelayServer3 \<Rightarrow> RelayServer3) \<Rightarrow> port \<Rightarrow> conn \<Rightarrow> read_result list \<Rightarrow> RelayServer3 \<Rightarrow> RelayServer3 \<times> r3_effect list" where
  "accept3 bufsz other port c evs s =
     (let (h, r) = wrapConnAndHello evs; bc = \<lparr>bc_conn = c, bc_reader = r\<rparr>
      in case r3_slots s port of
           None \<Rightarrow> (s, close3 (Some bc))
         | Some sl \<Rightarrow>
             if sl_tcpBusy sl then (s, close3 (Some bc))
             else (let role = (if helloRole h = '''' then guess_role sl else helloRole h)
                   in admit3 bufsz port role (helloClientID h) bc (other s)))"

text \<open>The stop callback of session \<open>n\<close>.\<close>

definition session_stopped3 :: "nat \<Rightarrow> RelayServer3 \<Rightarrow> RelayServer3 \<times> r3_effect list" where
  "session_stopped3 n s =
     (case r3_store s n of
        None \<Rightarrow> (s, [])
      | Some sn \<Rightarrow>
          (let port = sn_port sn;
               s1 = s\<lparr>r3_store := (r3_store s)(n \<mapsto> sn\<lparr>sn_called := True\<rparr>)\<rparr>;
               (s2, es) =
                 (case r3_slots s1 port of
                    None \<Rightarrow> (s1, [])
                  | Some sl \<Rightarrow>
                      if sl_tcpSession sl = Some n
                      then (let sl = sl\<lparr>sl_tcpSession := None, sl_tcpBusy := False\<rparr>
                            in if KeptBE (sn_pipe sn) \<and> sl_pendingBE sl = None
                               then (put_slot port (sl\<lparr>sl_pendingBE := Some (sn_be sn), sl_pendingBEID := sn_beID sn\<rparr>) s1,
                                     [R3ClearDeadline (bc_conn (sn_be sn))])
                               else (put_slot port sl s1, []))
                      else (s1, []))
           in (s2, es @ r3_free port s2 @ r3_changed s2)))"

subsection \<open>UDP datagrams\<close>

text \<open>One datagram of \<open>udpLoop\<close>; the write goes out after the mutex.\<close>

definition udp_datagram3 ::
    "time \<Rightarrow> UDPAddr option \<Rightarrow> string \<Rightarrow> port \<Rightarrow> udp_conn \<Rightarrow> RelayServer3 \<Rightarrow> RelayServer3 \<times> r3_effect list" where
  "udp_datagram3 now addr data port conn s =
     (if data = [] \<or> addr = None then (s, [])
      else (case r3_slots s port of
          None \<Rightarrow> (s, [])
        | Some sl \<Rightarrow>
            if sl_udpA sl = None
            then (let s1 = put_slot port (sl\<lparr>sl_udpA := cloneUDPAddr addr, sl_udpLastA := now\<rparr>) s in (s1, r3_changed s1))
            else if udpAddrEqual addr (sl_udpA sl)
            then (put_slot port (sl\<lparr>sl_udpLastA := now\<rparr>) s,
                  case sl_udpB sl of None \<Rightarrow> [] | Some b \<Rightarrow> [R3SendUDP conn data b])
            else if sl_udpB sl = None
            then (let s1 = put_slot port (sl\<lparr>sl_udpB := cloneUDPAddr addr, sl_udpLastB := now\<rparr>) s in (s1, r3_changed s1))
            else if udpAddrEqual addr (sl_udpB sl)
            then (put_slot port (sl\<lparr>sl_udpLastB := now\<rparr>) s,
                  case sl_udpA sl of None \<Rightarrow> [] | Some a \<Rightarrow> [R3SendUDP conn data a])
            else (s, [])))"

definition udp_timeout :: "duration \<Rightarrow> duration" where
  "udp_timeout cfg = (if cfg \<le> 0 then 30 * second else cfg)"

definition udp_idle :: "time \<Rightarrow> duration \<Rightarrow> time \<Rightarrow> bool" where
  "udp_idle now timeout seen \<longleftrightarrow> seen \<noteq> zero_time \<and> now - seen > timeout"

text \<open>One tick of \<open>udpSweepLoop\<close>; \<open>False\<close> ends the loop.\<close>

definition udp_sweep_slot :: "time \<Rightarrow> duration \<Rightarrow> portSlot \<Rightarrow> portSlot \<times> bool" where
  "udp_sweep_slot now timeout sl =
     (if sl_udpA sl \<noteq> None \<and> sl_udpB sl = None
      then (if udp_idle now timeout (sl_udpLastA sl) then (sl\<lparr>sl_udpA := None, sl_udpLastA := zero_time\<rparr>, True) else (sl, False))
      else if sl_udpA sl \<noteq> None \<and> sl_udpB sl \<noteq> None
      then (if udp_idle now timeout (sl_udpLastA sl) \<and> udp_idle now timeout (sl_udpLastB sl)
            then (sl\<lparr>sl_udpA := None, sl_udpB := None, sl_udpLastA := zero_time, sl_udpLastB := zero_time\<rparr>, True)
            else (sl, False))
      else (sl, False))"

definition udp_sweep3 :: "time \<Rightarrow> duration \<Rightarrow> port \<Rightarrow> RelayServer3 \<Rightarrow> bool \<times> RelayServer3 \<times> r3_effect list" where
  "udp_sweep3 now cfg port s =
     (case r3_slots s port of
        None \<Rightarrow> (False, s, [])
      | Some sl \<Rightarrow>
          (let (sl', changed) = udp_sweep_slot now (udp_timeout cfg) sl
           in (True, put_slot port sl' s, if changed then r3_changed s else [])))"

subsection \<open>The snapshot\<close>

record PortStateSnapshot3 =
  ps3_Total :: nat
  ps3_BusyCount :: nat
  ps3_ReadyPorts :: "port list"
  ps3_EmptyPorts :: "port list"

text \<open>A waiting connection is dropped when its probe says that it is closed.\<close>

definition probe3 :: "(conn \<Rightarrow> io_error option) \<Rightarrow> BufferedConn option \<Rightarrow> BufferedConn option \<times> r3_effect list" where
  "probe3 probe p =
     (case p of
        None \<Rightarrow> (None, [])
      | Some bc \<Rightarrow>
          (let dl = [R3Conn (SetDeadlineNow (bc_conn bc)), R3ClearDeadline (bc_conn bc)]
           in case probe (bc_conn bc) of
                Some IoEOF \<Rightarrow> (None, dl @ close3 p)
              | Some IoClosed \<Rightarrow> (None, dl @ close3 p)
              | _ \<Rightarrow> (p, dl)))"

definition cleanup_slot :: "(conn \<Rightarrow> io_error option) \<Rightarrow> port \<Rightarrow> RelayServer3 \<Rightarrow> RelayServer3 \<times> r3_effect list" where
  "cleanup_slot probe port s =
     (case r3_slots s port of
        None \<Rightarrow> (s, [])
      | Some sl \<Rightarrow>
          (let (be, e1) = probe3 probe (sl_pendingBE sl); (fe, e2) = probe3 probe (sl_pendingFE sl)
           in (put_slot port
                 (sl\<lparr>sl_pendingBE := be, sl_pendingBEID := (if be = None \<and> sl_pendingBE sl \<noteq> None then '''' else sl_pendingBEID sl),
                     sl_pendingFE := fe, sl_pendingFEID := (if fe = None \<and> sl_pendingFE sl \<noteq> None then '''' else sl_pendingFEID sl)\<rparr>) s, e1 @ e2)))"

definition slot_busy :: "portSlot \<Rightarrow> bool" where
  "slot_busy sl \<longleftrightarrow> sl_tcpBusy sl \<or> (sl_udpA sl \<noteq> None \<and> sl_udpB sl \<noteq> None)"

definition slot_ready :: "portSlot \<Rightarrow> bool" where
  "slot_ready sl \<longleftrightarrow>
     \<not> slot_busy sl \<and> (sl_pendingBE sl \<noteq> None \<or> sl_pendingFE sl \<noteq> None \<or> sl_udpA sl \<noteq> None \<or> sl_udpB sl \<noteq> None)"

definition count_slot :: "RelayServer3 \<Rightarrow> port \<Rightarrow> PortStateSnapshot3 \<Rightarrow> PortStateSnapshot3" where
  "count_slot s port snap =
     (case r3_slots s port of
        None \<Rightarrow> snap
      | Some sl \<Rightarrow>
          (let snap = snap\<lparr>ps3_Total := ps3_Total snap + 1\<rparr>
           in if slot_busy sl then snap\<lparr>ps3_BusyCount := ps3_BusyCount snap + 1\<rparr>
              else if slot_ready sl then snap\<lparr>ps3_ReadyPorts := ps3_ReadyPorts snap @ [port]\<rparr>
              else snap\<lparr>ps3_EmptyPorts := ps3_EmptyPorts snap @ [port]\<rparr>))"

definition SnapshotPortState3 ::
    "(conn \<Rightarrow> io_error option) \<Rightarrow> port list \<Rightarrow> port list \<Rightarrow> RelayServer3 \<Rightarrow>
      PortStateSnapshot3 \<times> RelayServer3 \<times> r3_effect list" where
  "SnapshotPortState3 probe order1 order2 s =
     (let (s', es) = seq_effects (cleanup_slot probe) order1 s;
          snap = fold (count_slot s') order2 \<lparr>ps3_Total = 0, ps3_BusyCount = 0, ps3_ReadyPorts = [], ps3_EmptyPorts = []\<rparr>
      in (snap\<lparr>ps3_ReadyPorts := sort (ps3_ReadyPorts snap), ps3_EmptyPorts := sort (ps3_EmptyPorts snap)\<rparr>, s', es))"


subsection \<open>Runs\<close>

text \<open>
  Only the accept loop of a port makes sessions on it, so the port is still not busy when the loop
  reaches its second region (a port that is stopped and started again just between the two regions is
  left out); the role may come from an older state. The
  goroutines of the sessions run as in the first version. Addresses from the socket have an IP.
\<close>

inductive r3_step :: "RelayServer3 \<Rightarrow> RelayServer3 \<Rightarrow> bool" where
  start: "r3_step s (fst (snd (StartRelayPort3 tcp udp port s)))"
| admit: "r3_slots s port = Some sl \<Longrightarrow> \<not> sl_tcpBusy sl \<Longrightarrow> r3_step s (fst (admit3 m port role i bc s))"
| pipe: "r3_store s n = Some sn \<Longrightarrow> pp_step (sn_pipe sn) (p, es) \<Longrightarrow>
    r3_step s (s\<lparr>r3_store := (r3_store s)(n \<mapsto> sn\<lparr>sn_pipe := p\<rparr>)\<rparr>)"
| stopped: "r3_store s n = Some sn \<Longrightarrow> pp_ended (sn_pipe sn) \<Longrightarrow> \<not> sn_called sn \<Longrightarrow> r3_step s (fst (session_stopped3 n s))"
| stop_port: "r3_step s (fst (StopPort3 port s))"
| take_slot: "r3_step s (s\<lparr>r3_slots := (r3_slots s)(port := None)\<rparr>)"
| reset: "r3_step s (fst (ResetPort3 port s))"
| datagram: "ua_IP a \<noteq> None \<Longrightarrow> r3_step s (fst (udp_datagram3 now (Some a) data port conn s))"
| sweep: "r3_step s (fst (snd (udp_sweep3 now cfg port s)))"
| snapshot: "r3_step s (fst (snd (SnapshotPortState3 probe o1 o2 s)))"
| hooks: "r3_step s (SetOnPortFree3 f (SetOnStateChange3 g s))"

definition slot_inv :: "(nat \<Rightarrow> RelaySession option) \<Rightarrow> port \<Rightarrow> portSlot \<Rightarrow> bool" where
  "slot_inv store port sl \<longleftrightarrow>
     (sl_tcpBusy sl \<longleftrightarrow> sl_tcpSession sl \<noteq> None) \<and>
     (sl_tcpBusy sl \<longrightarrow> sl_pendingBE sl = None \<and> sl_pendingFE sl = None) \<and>
     (sl_pendingBE sl = None \<or> sl_pendingFE sl = None) \<and>
     (\<forall>n. sl_tcpSession sl = Some n \<longrightarrow> (\<exists>sn. store n = Some sn \<and> sn_port sn = port)) \<and>
     (sl_udpB sl \<noteq> None \<longrightarrow> sl_udpA sl \<noteq> None \<and> \<not> udpAddrEqual (sl_udpB sl) (sl_udpA sl))"

definition r3_inv :: "RelayServer3 \<Rightarrow> bool" where
  "r3_inv s \<longleftrightarrow>
     (\<forall>p sl. r3_slots s p = Some sl \<longrightarrow> slot_inv (r3_store s) p sl) \<and>
     (\<forall>n sn. r3_store s n = Some sn \<longrightarrow> n < r3_next s)"

lemma r3_invD:
  "r3_inv s \<Longrightarrow> r3_slots s p = Some sl \<Longrightarrow> slot_inv (r3_store s) p sl"
  "r3_inv s \<Longrightarrow> r3_store s n = Some sn \<Longrightarrow> n < r3_next s"
  unfolding r3_inv_def by blast+

lemma put_slot_fields [simp]:
  "r3_slots (put_slot p sl s) = (r3_slots s)(p \<mapsto> sl)" "r3_store (put_slot p sl s) = r3_store s"
  "r3_next (put_slot p sl s) = r3_next s"
  by (simp_all add: put_slot_def)

lemma r3_inv_put: "r3_inv s \<Longrightarrow> slot_inv (r3_store s) p sl \<Longrightarrow> r3_inv (put_slot p sl s)"
  by (simp add: r3_inv_def)

lemma r3_inv_drop: "r3_inv s \<Longrightarrow> r3_inv (s\<lparr>r3_slots := (r3_slots s)(p := None)\<rparr>)"
  by (simp add: r3_inv_def)

text \<open>Sessions may change as long as they stay where they are.\<close>

lemma slot_inv_store:
  assumes "slot_inv store p sl" "\<And>n sn. store n = Some sn \<Longrightarrow> \<exists>sn'. store' n = Some sn' \<and> sn_port sn' = sn_port sn"
  shows "slot_inv store' p sl"
proof -
  have "\<forall>n. sl_tcpSession sl = Some n \<longrightarrow> (\<exists>sn'. store' n = Some sn' \<and> sn_port sn' = p)"
    using assms unfolding slot_inv_def by (metis (no_types))
  with assms(1) show ?thesis unfolding slot_inv_def by simp
qed

lemma r3_inv_store:
  assumes "r3_inv s" "r3_store s n = Some sn" "sn_port sn' = sn_port sn"
  shows "r3_inv (s\<lparr>r3_store := (r3_store s)(n \<mapsto> sn')\<rparr>)"
proof -
  have "slot_inv ((r3_store s)(n \<mapsto> sn')) p sl" if "r3_slots s p = Some sl" for p sl
    by (rule slot_inv_store [OF r3_invD(1) [OF assms(1) that]]) (use assms(2,3) in auto)
  then show ?thesis using assms(1,2) unfolding r3_inv_def by auto
qed

lemma r3_inv_stop_pipe: "r3_inv s \<Longrightarrow> r3_inv (fst (stop_pipe3 sess s))"
  by (auto simp: stop_pipe3_def case_prod_beta Let_def r3_inv_store split: option.split)

lemma stop_pipe3_slots [simp]: "r3_slots (fst (stop_pipe3 sess s)) = r3_slots s"
  by (auto simp: stop_pipe3_def case_prod_beta Let_def split: option.split)

lemma r3_inv_session:
  assumes "r3_inv s" "r3_slots s p = Some sl" "sl_pendingBE sl = None" "sl_pendingFE sl = None"
  shows "r3_inv (fst (start_session3 m p sl fe be i s))"
proof -
  let ?n = "r3_next s"
  have fresh: "r3_store s ?n = None" using r3_invD(2) [OF assms(1), of ?n] by force
  let ?store = "\<lambda>sn. (r3_store s)(?n \<mapsto> sn)"
  have keep: "slot_inv (?store sn) q sl'" if "r3_slots s q = Some sl'" for q sl' sn
    by (rule slot_inv_store [OF r3_invD(1) [OF assms(1) that]]) (use fresh in auto)
  have "r3_inv (s\<lparr>r3_store := ?store sn, r3_next := ?n + 1\<rparr>)" for sn
    using keep r3_invD(2) [OF assms(1)] unfolding r3_inv_def by (auto simp: less_Suc_eq)
  then show ?thesis
    using keep [OF assms(2)] assms(3,4)
    by (auto simp: start_session3_def Let_def slot_inv_def intro!: r3_inv_put)
qed


lemma r3_inv_admit:
  assumes "r3_inv s" "r3_slots s port = Some sl" "\<not> sl_tcpBusy sl"
  shows "r3_inv (fst (admit3 m port role i bc s))"
proof -
  note sl = r3_invD(1) [OF assms(1,2)]
  have put: "r3_inv (put_slot port sl' s)" if "slot_inv (r3_store s) port sl'" for sl' using r3_inv_put [OF assms(1) that] .
  have session: "r3_inv (fst (start_session3 m port sl' fe be j s))"
    if "sl_pendingBE sl' = None" "sl_pendingFE sl' = None" "sl_udpA sl' = sl_udpA sl" "sl_udpB sl' = sl_udpB sl"
      "sl_tcpBusy sl' = sl_tcpBusy sl" "sl_tcpSession sl' = sl_tcpSession sl" for sl' fe be j
  proof -
    have "slot_inv (r3_store s) port sl'" using sl that by (simp add: slot_inv_def)
    from r3_inv_session [OF put [OF this], of port sl'] that(1,2) show ?thesis
      by (simp add: start_session3_def put_slot_def Let_def)
  qed
  show ?thesis
  proof (cases "role = ''BE'' \<or> role = ''FE''")
    case True
    then show ?thesis
      using assms sl
      by (auto simp: admit3_def Let_def split: option.split intro!: put session) (auto simp: slot_inv_def)
  qed (use assms in \<open>simp add: admit3_def\<close>)
qed

lemma r3_inv_stopped: "r3_inv s \<Longrightarrow> r3_inv (fst (session_stopped3 n s))"
proof (cases "r3_store s n")
  case (Some sn)
  assume inv: "r3_inv s"
  let ?s = "s\<lparr>r3_store := (r3_store s)(n \<mapsto> sn\<lparr>sn_called := True\<rparr>)\<rparr>"
  have inv': "r3_inv ?s" by (rule r3_inv_store [OF inv Some]) simp
  show ?thesis
  proof (cases "r3_slots s (sn_port sn)")
    case (Some sl)
    have "slot_inv (r3_store ?s) (sn_port sn) sl" using r3_invD(1) [OF inv'] Some by simp
    then have free: "slot_inv (r3_store ?s) (sn_port sn) (sl\<lparr>sl_tcpSession := None, sl_tcpBusy := False\<rparr>)"
      "sl_tcpSession sl = Some n \<Longrightarrow> slot_inv (r3_store ?s) (sn_port sn)
        (sl\<lparr>sl_tcpSession := None, sl_tcpBusy := False, sl_pendingBE := b, sl_pendingBEID := i\<rparr>)" for b i
      by (simp_all add: slot_inv_def)
    then show ?thesis
      using inv' Some \<open>r3_store s n = Some sn\<close> r3_inv_put [OF inv' free(1)] r3_inv_put [OF inv' free(2)]
      by (simp add: session_stopped3_def Let_def)
  qed (use inv' \<open>r3_store s n = Some sn\<close> in \<open>simp add: session_stopped3_def Let_def\<close>)
qed (simp add: session_stopped3_def)

lemma slot_inv_reset: "slot_inv store p (reset_slot sl)"
  by (simp add: slot_inv_def reset_slot_def)

lemma slot_inv_sweep: "slot_inv store p sl \<Longrightarrow> slot_inv store p (fst (udp_sweep_slot now d sl))"
  by (auto simp: slot_inv_def udp_sweep_slot_def)

lemma clone_eq:
  "ua_IP a \<noteq> None \<Longrightarrow> cloneUDPAddr (Some a) = Some a"
  by (cases a) (auto simp: cloneUDPAddr_def)

lemma r3_inv_datagram:
  assumes "r3_inv s" "ua_IP a \<noteq> None"
  shows "r3_inv (fst (udp_datagram3 now (Some a) data port conn s))"
proof (cases "r3_slots s port")
  case (Some sl)
  note sl = r3_invD(1) [OF assms(1) Some]
  have put: "r3_inv (put_slot port sl' s)" if "slot_inv (r3_store s) port sl'" for sl' using r3_inv_put [OF assms(1) that] .
  show ?thesis
    using sl assms Some
    by (auto simp: udp_datagram3_def Let_def clone_eq split: option.split intro!: put) (auto simp: slot_inv_def)
qed (use assms in \<open>simp add: udp_datagram3_def\<close>)

lemma probe3_shrinks: "fst (probe3 probe p) = p \<or> fst (probe3 probe p) = None"
  by (auto simp: probe3_def Let_def split: option.split io_error.split)

lemma r3_inv_cleanup: "r3_inv s \<Longrightarrow> r3_inv (fst (cleanup_slot probe p s))"
proof (cases "r3_slots s p")
  case (Some sl)
  assume inv: "r3_inv s"
  then have "slot_inv (r3_store s) p sl" using r3_invD(1) Some by blast
  then have "slot_inv (r3_store s) p (sl\<lparr>sl_pendingBE := fst (probe3 probe (sl_pendingBE sl)), sl_pendingBEID := i,
      sl_pendingFE := fst (probe3 probe (sl_pendingFE sl)), sl_pendingFEID := j\<rparr>)" for i j
    using probe3_shrinks [of probe "sl_pendingBE sl"] probe3_shrinks [of probe "sl_pendingFE sl"]
    by (auto simp: slot_inv_def)
  from r3_inv_put [OF inv this] Some show ?thesis by (simp add: cleanup_slot_def case_prod_beta Let_def)
qed (simp add: cleanup_slot_def)

lemma r3_step_inv: "r3_step s s' \<Longrightarrow> r3_inv s \<Longrightarrow> r3_inv s'"
proof (induction rule: r3_step.induct)
  case (start s tcp udp port)
  then show ?case
    by (auto simp: StartRelayPort3_def split: sum.split intro!: r3_inv_put) (simp add: slot_inv_def new_slot_def)
next
  case (stop_port s port)
  then show ?case
    by (auto simp: StopPort3_def case_prod_beta Let_def r3_inv_stop_pipe r3_inv_drop split: option.split)
next
  case (reset s port)
  then show ?case
    by (auto simp: ResetPort3_def case_prod_beta Let_def r3_inv_stop_pipe r3_inv_put slot_inv_reset split: option.split)
next
  case (sweep s now cfg port)
  then show ?case
    using r3_inv_put [OF sweep slot_inv_sweep [OF r3_invD(1) [OF sweep]]]
    by (auto simp: udp_sweep3_def case_prod_beta Let_def split: option.split)
next
  case (snapshot s probe o1 o2)
  have "r3_inv (fst (seq_effects (cleanup_slot probe) o1 s))"
    by (rule seq_effects_inv [of r3_inv, OF r3_inv_cleanup snapshot])
  then show ?case by (simp add: SnapshotPortState3_def case_prod_beta Let_def)
next
  case (hooks s f g)
  then show ?case by (simp add: r3_inv_def SetOnPortFree3_def SetOnStateChange3_def)
qed (simp_all add: r3_inv_admit r3_inv_store r3_inv_stopped r3_inv_drop r3_inv_datagram)

lemma r3_run_inv: "r3_step\<^sup>*\<^sup>* GlobalRelay3 s \<Longrightarrow> r3_inv s"
  by (induction rule: rtranclp_induct) (auto simp: r3_step_inv, simp add: r3_inv_def GlobalRelay3_def)

text \<open>
  C19. A port of the third version is consistent. In every run, a port is marked busy for TCP exactly
  when it has a session; then nobody waits at it; there is never a front end and a back end waiting at
  the same time (they would have been joined); and the second UDP peer is known only with the
  first, from a different address.
\<close>
theorem relay_v3_consistent:
  assumes "r3_step\<^sup>*\<^sup>* GlobalRelay3 s" and "r3_slots s p = Some sl"
  shows "(sl_tcpBusy sl \<longleftrightarrow> GetSession3 p s \<noteq> None) \<and>
    (sl_tcpBusy sl \<longrightarrow> sl_pendingBE sl = None \<and> sl_pendingFE sl = None) \<and>
    (sl_pendingBE sl = None \<or> sl_pendingFE sl = None) \<and>
    (sl_udpB sl \<noteq> None \<longrightarrow> sl_udpA sl \<noteq> None \<and> \<not> udpAddrEqual (sl_udpB sl) (sl_udpA sl))"
  using r3_invD(1) [OF r3_run_inv [OF assms(1)] assms(2)] assms(2) by (simp add: slot_inv_def GetSession3_def)


lemma relay_v3_consistent_witness:
  "(let s = fst (admit3 9 7 ''FE'' ''f'' \<lparr>bc_conn = 2, bc_reader = ([], [])\<rparr>
       (fst (admit3 9 7 ''BE'' ''b'' \<lparr>bc_conn = 1, bc_reader = ([], [])\<rparr>
          (fst (snd (StartRelayPort3 (Inr 0) (Inr 0) 7 GlobalRelay3)))))) in GetSession3 7 s \<noteq> None)"
proof -
  define s1 where "s1 = fst (snd (StartRelayPort3 (Inr 0) (Inr 0) 7 GlobalRelay3))"
  define s2 where "s2 = fst (admit3 9 7 ''BE'' ''b'' \<lparr>bc_conn = 1, bc_reader = ([], [])\<rparr> s1)"
  define s3 where "s3 = fst (admit3 9 7 ''FE'' ''f'' \<lparr>bc_conn = 2, bc_reader = ([], [])\<rparr> s2)"
  have e1: "r3_slots s1 7 = Some (new_slot 0 0)"
    by (simp add: s1_def StartRelayPort3_def GlobalRelay3_def)
  have e2: "r3_slots s2 7 = Some ((new_slot 0 0)\<lparr>sl_pendingBE := Some \<lparr>bc_conn = 1, bc_reader = ([], [])\<rparr>, sl_pendingBEID := ''b''\<rparr>)"
    by (simp add: s2_def admit3_def e1 new_slot_def Let_def)
  have e3: "\<exists>sl. r3_slots s3 7 = Some sl \<and> sl_tcpBusy sl"
    by (simp add: s3_def admit3_def e2 new_slot_def Let_def start_session3_def)
  have "r3_step\<^sup>*\<^sup>* GlobalRelay3 s1" unfolding s1_def by (intro r_into_rtranclp r3_step.start)
  moreover have "r3_step s1 s2" unfolding s2_def by (rule r3_step.admit [OF e1]) (simp add: new_slot_def)
  moreover have "r3_step s2 s3" unfolding s3_def by (rule r3_step.admit [OF e2]) (simp add: new_slot_def)
  ultimately have "r3_step\<^sup>*\<^sup>* GlobalRelay3 s3" by (meson rtranclp.simps)
  with e3 show ?thesis using relay_v3_consistent [of s3 7] unfolding s3_def s2_def s1_def Let_def by blast
qed

subsection \<open>What is relayed over UDP\<close>

declare udpAddrEqual.simps [simp del]

fun udp_sent :: "r3_effect list \<Rightarrow> (string \<times> UDPAddr) list" where
  "udp_sent [] = []"
| "udp_sent (R3SendUDP c d a # es) = (d, a) # udp_sent es"
| "udp_sent (e # es) = udp_sent es"

lemma udp_sent_append [simp]: "udp_sent (es @ fs) = udp_sent es @ udp_sent fs"
  by (induction es rule: udp_sent.induct) simp_all

text \<open>The datagrams of one port, one after the other.\<close>

definition udp_run3 ::
    "port \<Rightarrow> udp_conn \<Rightarrow> (time \<times> UDPAddr \<times> string) list \<Rightarrow> RelayServer3 \<Rightarrow> RelayServer3 \<times> r3_effect list" where
  "udp_run3 port conn ds s = seq_effects (\<lambda>(now, a, d). udp_datagram3 now (Some a) d port conn) ds s"

text \<open>The specification: the first sender and the first other sender are the peers, whose first datagrams
  only make them known; from then on each datagram of one goes to the other.\<close>

abbreviation same_addr :: "UDPAddr \<Rightarrow> UDPAddr \<Rightarrow> bool" where
  "same_addr a b \<equiv> udpAddrEqual (Some a) (Some b)"

definition between :: "UDPAddr \<Rightarrow> UDPAddr \<Rightarrow> time \<times> UDPAddr \<times> string \<Rightarrow> (string \<times> UDPAddr) list" where
  "between x y g = (case g of (now, a, d) \<Rightarrow> if same_addr a x then [(d, y)] else if same_addr a y then [(d, x)] else [])"

definition udp_spec :: "(time \<times> UDPAddr \<times> string) list \<Rightarrow> (string \<times> UDPAddr) list" where
  "udp_spec ds =
     (case ds of
        [] \<Rightarrow> []
      | (t, x, d) # rest \<Rightarrow>
          (case dropWhile (\<lambda>(t, a, d). same_addr a x) rest of
             [] \<Rightarrow> []
           | (t, y, d) # post \<Rightarrow> concat (map (between x y) post)))"

text \<open>What one datagram makes of the two peers.\<close>

definition udp_next ::
    "UDPAddr option \<Rightarrow> UDPAddr option \<Rightarrow> UDPAddr \<Rightarrow> string \<Rightarrow> UDPAddr option \<times> UDPAddr option \<times> (string \<times> UDPAddr) list" where
  "udp_next A B a d =
     (case A of
        None \<Rightarrow> (Some a, B, [])
      | Some x \<Rightarrow>
          if same_addr a x then (A, B, case B of None \<Rightarrow> [] | Some y \<Rightarrow> [(d, y)])
          else (case B of None \<Rightarrow> (A, Some a, []) | Some y \<Rightarrow> (A, B, if same_addr a y then [(d, x)] else [])))"

lemma udp_datagram_next:
  assumes "r3_slots s port = Some sl" "ua_IP a \<noteq> None" "d \<noteq> ''''"
  obtains sl' where "r3_slots (fst (udp_datagram3 now (Some a) d port conn s)) port = Some sl'"
    "(sl_udpA sl', sl_udpB sl', udp_sent (snd (udp_datagram3 now (Some a) d port conn s))) = udp_next (sl_udpA sl) (sl_udpB sl) a d"
proof -
  have quiet: "udp_sent (r3_changed s') = []" for s' by (simp add: r3_changed_def)
  have "\<exists>sl'. r3_slots (fst (udp_datagram3 now (Some a) d port conn s)) port = Some sl' \<and>
    (sl_udpA sl', sl_udpB sl', udp_sent (snd (udp_datagram3 now (Some a) d port conn s))) = udp_next (sl_udpA sl) (sl_udpB sl) a d"
    using assms clone_eq [OF assms(2)]
    by (auto simp: udp_datagram3_def udp_next_def Let_def quiet split: option.split)
  with that show ?thesis by blast
qed

definition good_datagram :: "time \<times> UDPAddr \<times> string \<Rightarrow> bool" where
  "good_datagram g \<longleftrightarrow> (case g of (now, a, d) \<Rightarrow> ua_IP a \<noteq> None \<and> d \<noteq> '''')"

lemma good_datagram_simp [simp]: "good_datagram (now, a, d) \<longleftrightarrow> ua_IP a \<noteq> None \<and> d \<noteq> []"
  by (simp add: good_datagram_def)

lemma udp_run3_Cons:
  "udp_sent (snd (udp_run3 port conn ((now, a, d) # ds) s)) =
     udp_sent (snd (udp_datagram3 now (Some a) d port conn s)) @
     udp_sent (snd (udp_run3 port conn ds (fst (udp_datagram3 now (Some a) d port conn s))))"
  by (simp add: udp_run3_def case_prod_beta Let_def)

lemma udp_run_paired:
  assumes "r3_slots s port = Some sl" "sl_udpA sl = Some x" "sl_udpB sl = Some y" "list_all good_datagram ds"
  shows "udp_sent (snd (udp_run3 port conn ds s)) = concat (map (between x y) ds)"
  using assms
proof (induction ds arbitrary: s sl)
  case (Cons g ds)
  obtain now a d where g: "g = (now, a, d)" by (cases g)
  with Cons.prems(4) have ok: "ua_IP a \<noteq> None" "d \<noteq> ''''" by simp_all
  obtain sl' where sl': "r3_slots (fst (udp_datagram3 now (Some a) d port conn s)) port = Some sl'"
    "(sl_udpA sl', sl_udpB sl', udp_sent (snd (udp_datagram3 now (Some a) d port conn s))) = udp_next (sl_udpA sl) (sl_udpB sl) a d"
    using udp_datagram_next [OF Cons.prems(1) ok] by blast
  then have peers: "sl_udpA sl' = Some x" "sl_udpB sl' = Some y"
    "udp_sent (snd (udp_datagram3 now (Some a) d port conn s)) = between x y g"
    using Cons.prems(2,3) by (auto simp: udp_next_def between_def g split: if_splits)
  from Cons.IH [OF sl'(1) peers(1,2)] Cons.prems(4) peers(3) show ?case
    by (simp add: udp_run3_Cons g)
qed (simp add: udp_run3_def)

lemma udp_run_first:
  assumes "r3_slots s port = Some sl" "sl_udpA sl = Some x" "sl_udpB sl = None" "list_all good_datagram ds"
  shows "udp_sent (snd (udp_run3 port conn ds s)) =
    (case dropWhile (\<lambda>(t, a, d). same_addr a x) ds of [] \<Rightarrow> [] | (t, y, d) # post \<Rightarrow> concat (map (between x y) post))"
  using assms
proof (induction ds arbitrary: s sl)
  case (Cons g ds)
  obtain now a d where g: "g = (now, a, d)" by (cases g)
  with Cons.prems(4) have ok: "ua_IP a \<noteq> None" "d \<noteq> ''''" "list_all good_datagram ds" by simp_all
  obtain sl' where sl': "r3_slots (fst (udp_datagram3 now (Some a) d port conn s)) port = Some sl'"
    "(sl_udpA sl', sl_udpB sl', udp_sent (snd (udp_datagram3 now (Some a) d port conn s))) = udp_next (sl_udpA sl) (sl_udpB sl) a d"
    using udp_datagram_next [OF Cons.prems(1) ok(1,2)] by blast
  show ?case
  proof (cases "same_addr a x")
    case True
    then have "sl_udpA sl' = Some x" "sl_udpB sl' = None" "udp_sent (snd (udp_datagram3 now (Some a) d port conn s)) = []"
      using sl'(2) Cons.prems(2,3) by (auto simp: udp_next_def)
    from Cons.IH [OF sl'(1) this(1,2) ok(3)] this(3) True show ?thesis by (simp add: udp_run3_Cons g)
  next
    case False
    then have "sl_udpA sl' = Some x" "sl_udpB sl' = Some a" "udp_sent (snd (udp_datagram3 now (Some a) d port conn s)) = []"
      using sl'(2) Cons.prems(2,3) by (auto simp: udp_next_def)
    from udp_run_paired [OF sl'(1) this(1,2) ok(3), of conn] this(3) False show ?thesis by (simp add: udp_run3_Cons g)
  qed
qed (simp add: udp_run3_def)

text \<open>
  C8. UDP is relayed between two peers and nobody else. For any datagrams that arrive at a
  port without peers (and no timeout in between), what the server sends is exactly this: the first two
  different addresses become the peers, and each later datagram of one of them is sent on,
  unchanged and in order, to the other; datagrams of any third address and the first ones of both
  peers go nowhere.
\<close>
theorem udp_relay_spec:
  assumes "r3_slots s port = Some sl" and "sl_udpA sl = None" and "sl_udpB sl = None" and "list_all good_datagram ds"
  shows "udp_sent (snd (udp_run3 port conn ds s)) = udp_spec ds"
proof (cases ds)
  case (Cons g rest)
  obtain now a d where g: "g = (now, a, d)" by (cases g)
  with Cons assms(4) have ok: "ua_IP a \<noteq> None" "d \<noteq> []" "list_all good_datagram rest" by simp_all
  obtain sl' where sl': "r3_slots (fst (udp_datagram3 now (Some a) d port conn s)) port = Some sl'"
    "(sl_udpA sl', sl_udpB sl', udp_sent (snd (udp_datagram3 now (Some a) d port conn s))) = udp_next (sl_udpA sl) (sl_udpB sl) a d"
    using udp_datagram_next [OF assms(1) ok(1,2)] by blast
  then have first: "sl_udpA sl' = Some a" "sl_udpB sl' = None"
    "udp_sent (snd (udp_datagram3 now (Some a) d port conn s)) = []"
    using assms(2,3) by (simp_all add: udp_next_def)
  from udp_run_first [OF sl'(1) first(1,2) ok(3), of conn] first(3) show ?thesis
    by (simp add: Cons g udp_run3_Cons udp_spec_def)
qed (simp add: udp_run3_def udp_spec_def)

definition ex_addr :: "int \<Rightarrow> UDPAddr" where
  "ex_addr p = \<lparr>ua_IP = Some [127, 0, 0, 1], ua_Port = p, ua_Zone = []\<rparr>"

lemma udp_relay_spec_witness:
  "udp_sent (snd (udp_run3 7 0 [(0, ex_addr 1, ''x''), (0, ex_addr 2, ''y''), (0, ex_addr 1, ''z''), (0, ex_addr 3, ''u''), (0, ex_addr 2, ''v'')]
     (fst (snd (StartRelayPort3 (Inr 0) (Inr 0) 7 GlobalRelay3))))) = [(''z'', ex_addr 2), (''v'', ex_addr 1)]"
proof -
  have slot: "r3_slots (fst (snd (StartRelayPort3 (Inr 0) (Inr 0) 7 GlobalRelay3))) 7 = Some (new_slot 0 0)"
    by (simp add: StartRelayPort3_def GlobalRelay3_def)
  show ?thesis
    by (subst udp_relay_spec [OF slot]) (simp_all add: new_slot_def udp_spec_def between_def ex_addr_def IP_Equal_def udpAddrEqual.simps)
qed


text \<open>A pair stays as long as one of the two has spoken within the timeout.\<close>

lemma udp_pair_stays:
  assumes "sl_udpA sl \<noteq> None" "sl_udpB sl \<noteq> None" "now - sl_udpLastA sl \<le> d \<or> now - sl_udpLastB sl \<le> d"
  shows "udp_sweep_slot now d sl = (sl, False)"
  using assms by (auto simp: udp_sweep_slot_def udp_idle_def)

subsection \<open>The snapshot is exact\<close>

definition slot_is :: "(portSlot \<Rightarrow> bool) \<Rightarrow> RelayServer3 \<Rightarrow> port \<Rightarrow> bool" where
  "slot_is P s p \<longleftrightarrow> (case r3_slots s p of None \<Rightarrow> False | Some sl \<Rightarrow> P sl)"

definition slot_bare :: "portSlot \<Rightarrow> bool" where
  "slot_bare sl \<longleftrightarrow> \<not> slot_busy sl \<and> \<not> slot_ready sl"

lemma count_slot_parts:
  "count_slot s p t =
    \<lparr>ps3_Total = ps3_Total t + length (filter (slot_is (\<lambda>_. True) s) [p]),
     ps3_BusyCount = ps3_BusyCount t + length (filter (slot_is slot_busy s) [p]),
     ps3_ReadyPorts = ps3_ReadyPorts t @ filter (slot_is slot_ready s) [p],
     ps3_EmptyPorts = ps3_EmptyPorts t @ filter (slot_is slot_bare s) [p]\<rparr>"
  by (cases "r3_slots s p") (auto simp: count_slot_def slot_is_def slot_bare_def slot_ready_def Let_def)

lemma fold_count_slot:
  "fold (count_slot s) ps t =
    \<lparr>ps3_Total = ps3_Total t + length (filter (slot_is (\<lambda>_. True) s) ps),
     ps3_BusyCount = ps3_BusyCount t + length (filter (slot_is slot_busy s) ps),
     ps3_ReadyPorts = ps3_ReadyPorts t @ filter (slot_is slot_ready s) ps,
     ps3_EmptyPorts = ps3_EmptyPorts t @ filter (slot_is slot_bare s) ps\<rparr>"
proof (induction ps arbitrary: t)
  case (Cons p ps)
  show ?case
    unfolding fold.simps o_apply Cons unfolding count_slot_parts
    by (simp only: filter_one append_assoc add.assoc PortStateSnapshot3.select_convs)
qed simp

lemma cleanup_dom: "dom (r3_slots (fst (seq_effects (cleanup_slot probe) order s))) = dom (r3_slots s)"
proof -
  have "dom (r3_slots (fst (cleanup_slot probe p s))) = dom (r3_slots s)" for p s
    by (auto simp: cleanup_slot_def case_prod_beta Let_def split: option.split)
  then show ?thesis by (induction order arbitrary: s) (simp_all add: case_prod_beta Let_def)
qed

text \<open>
  The snapshot of the ports is exact, whatever the order of the map: after the probes, the busy
  ports are counted, the ready and the bare ones listed in ascending order, the three kinds exclude each
  other and add up to the total number of ports.
\<close>
theorem snapshot3_exact:
  assumes "iterates (r3_slots s) order2" and "SnapshotPortState3 probe order1 order2 s = (snap, s', es)"
  shows "ps3_Total snap = card (dom (r3_slots s)) \<and>
    ps3_BusyCount snap = card {p. slot_is slot_busy s' p} \<and>
    set (ps3_ReadyPorts snap) = {p. slot_is slot_ready s' p} \<and> set (ps3_EmptyPorts snap) = {p. slot_is slot_bare s' p} \<and>
    sorted (ps3_ReadyPorts snap) \<and> sorted (ps3_EmptyPorts snap) \<and>
    ps3_Total snap = ps3_BusyCount snap + length (ps3_ReadyPorts snap) + length (ps3_EmptyPorts snap)"
proof -
  have s': "s' = fst (seq_effects (cleanup_slot probe) order1 s)"
    and snap: "snap = \<lparr>ps3_Total = length (filter (slot_is (\<lambda>_. True) s') order2),
      ps3_BusyCount = length (filter (slot_is slot_busy s') order2),
      ps3_ReadyPorts = sort (filter (slot_is slot_ready s') order2),
      ps3_EmptyPorts = sort (filter (slot_is slot_bare s') order2)\<rparr>"
    using assms(2) by (auto simp: SnapshotPortState3_def case_prod_beta Let_def fold_count_slot)
  have dom: "dom (r3_slots s') = dom (r3_slots s)" unfolding s' by (rule cleanup_dom)
  have kind: "set (filter (slot_is P s') order2) = {p. slot_is P s' p}" for P
    using iteratesD(2) [OF assms(1)] dom by (force simp: slot_is_def split: option.splits)
  have card: "length (filter (slot_is P s') order2) = card {p. slot_is P s' p}" for P
    using distinct_card [of "filter (slot_is P s') order2"] iteratesD(1) [OF assms(1)] unfolding kind by simp
  have all: "{p. slot_is (\<lambda>_. True) s' p} = dom (r3_slots s)"
    unfolding dom [symmetric] by (auto simp: slot_is_def split: option.splits)
  have three: "length (filter (slot_is (\<lambda>_. True) s') ps) = length (filter (slot_is slot_busy s') ps) +
      length (filter (slot_is slot_ready s') ps) + length (filter (slot_is slot_bare s') ps)" for ps
    by (induction ps) (auto simp: slot_is_def slot_bare_def slot_ready_def split: option.splits)
  show ?thesis using kind card all three [of order2] by (simp add: snap)
qed

lemma snapshot3_exact_witness:
  "ps3_EmptyPorts (fst (SnapshotPortState3 (\<lambda>_. None) [] [7] (fst (snd (StartRelayPort3 (Inr 0) (Inr 0) 7 GlobalRelay3))))) = [7]"
proof -
  let ?s = "fst (snd (StartRelayPort3 (Inr 0) (Inr 0) 7 GlobalRelay3))"
  have slots: "r3_slots ?s = [7 \<mapsto> new_slot 0 0]" by (simp add: StartRelayPort3_def GlobalRelay3_def)
  obtain snap s' es where out: "SnapshotPortState3 (\<lambda>_. None) [] [7] ?s = (snap, s', es)" by (metis prod_cases3)
  then have "s' = ?s" by (auto simp: SnapshotPortState3_def case_prod_beta Let_def)
  moreover have "iterates (r3_slots ?s) [7]" by (simp add: iterates_def slots)
  ultimately have "set (ps3_EmptyPorts snap) = {7}" "length (ps3_EmptyPorts snap) \<le> 1"
    using snapshot3_exact [OF _ out]
    by (auto simp: slot_is_def slots new_slot_def slot_bare_def slot_busy_def slot_ready_def split: if_splits)
  then show ?thesis using out by (cases "ps3_EmptyPorts snap") auto
qed

subsection \<open>A slow hello\<close>

definition ex_hello_rest :: string where
  "ex_hello_rest = ''{'' @ [quote] @ ''role'' @ [quote] @ '':'' @ [quote] @ ''FE'' @ [quote] @ ''}'' @ [CHR 0x0A]"

text \<open>
  A hello that is slow is not only missed but relayed. When the rest of a front end's hello line
  arrives after the deadline of 50 milliseconds, the connection is taken for a back end, and what is
  left of the line is the first thing that its session will read from it.
\<close>
theorem slow_hello_misread:
  "\<exists>sl bc. r3_slots (fst (accept3 9 (\<lambda>s. s) 7 1 [Got ''RLX1HELLO '', Failed timeout_error, Got ex_hello_rest]
        (fst (snd (StartRelayPort3 (Inr 0) (Inr 0) 7 GlobalRelay3))))) 7 = Some sl \<and>
     sl_pendingBE sl = Some bc \<and> bc_conn bc = 1 \<and>
     fst (BufferedConn_Read 64 (bc_reader bc)) = (ex_hello_rest, None) \<and>
     helloRole (fst (wrapConnAndHello [Got (''RLX1HELLO '' @ ex_hello_rest)])) = ''FE''"
proof -
  let ?s = "fst (snd (StartRelayPort3 (Inr 0) (Inr 0) 7 GlobalRelay3))"
  have slot: "r3_slots ?s 7 = Some (new_slot 0 0)" by (simp add: StartRelayPort3_def GlobalRelay3_def)
  have slow: "wrapConnAndHello [Got ''RLX1HELLO '', Failed timeout_error, Got ex_hello_rest] = (None, [], [Got ex_hello_rest])"
    by (simp add: wrapConnAndHello_def helloPrefix1_def)
  have quick: "helloRole (fst (wrapConnAndHello [Got (''RLX1HELLO '' @ ex_hello_rest)])) = ''FE''"
    by code_simp
  have "fst (BufferedConn_Read 64 ([], [Got ex_hello_rest])) = (ex_hello_rest, None)"
    by (simp add: ex_hello_rest_def)
  then show ?thesis
    using quick by (simp add: accept3_def slow slot admit3_def guess_role_def Let_def) (simp add: new_slot_def helloRole_def)
qed

end
