(* ===== verification/PortsV3.thy ===== *)
theory PortsV3
  imports RelayV3 Leases
begin

section \<open>Port reservations of the third version (v3/control/port_manager.go)\<close>

text \<open>
  One pool of ports, from the union of the two configured ranges; a reservation names its port, its owner
  (possibly none) and its expiry in three maps. The reservations are never changed once made, so the
  pointers of the maps are values here. Unlike in the first version, a grant is not one locked
  region: each candidate is looked up under the mutex and the one that was free is reserved under
  the mutex again. The state that each of these regions meets is therefore an argument of the grant.
\<close>

subsection \<open>Data\<close>

record portReservation3 =
  v3_sessionID :: string
  v3_port :: port
  v3_owner :: "conn option"
  v3_expiresAt :: time

record PortManager3 =
  p3_ports :: "port list"
  p3_bySession :: "string \<Rightarrow> portReservation3 option"
  p3_byPort :: "port \<Rightarrow> portReservation3 option"
  p3_byOwner :: "conn option \<Rightarrow> (string \<Rightarrow> portReservation3 option) option"

definition NewPortManager3 :: PortManager3 where
  "NewPortManager3 = \<lparr>p3_ports = [], p3_bySession = Map.empty, p3_byPort = Map.empty, p3_byOwner = Map.empty\<rparr>"

subsection \<open>Ranges\<close>

text \<open>The loop of \<open>dedupInts\<close> over the sorted list: \<open>prev\<close> is the value kept last.\<close>

fun dedup_loop :: "int option \<Rightarrow> int list \<Rightarrow> int list" where
  "dedup_loop prev [] = []"
| "dedup_loop prev (v # vs) = (if prev = Some v then dedup_loop prev vs else v # dedup_loop (Some v) vs)"

definition dedupInts :: "int list \<Rightarrow> int list" where
  "dedupInts xs = dedup_loop None (sort xs)"

definition addRange :: "port \<Rightarrow> port \<Rightarrow> port list" where
  "addRange a b = (if a \<le> 0 \<or> b \<le> 0 \<or> a > b then [] else [a..b])"

definition unionPortsFromRanges :: "PortAllocPayload \<Rightarrow> port list" where
  "unionPortsFromRanges p =
     dedupInts (addRange (pa_ZMQStartPort p) (pa_ZMQEndPort p) @ addRange (pa_SRTStartPort p) (pa_SRTEndPort p))"

text \<open>\<open>unionPortsFromConfig\<close>: the configured ranges are an argument.\<close>

definition unionPortsFromConfig :: "PortAllocPayload \<Rightarrow> port list" where
  "unionPortsFromConfig cfg = unionPortsFromRanges cfg"

definition ports_or_config :: "PortAllocPayload \<Rightarrow> PortAllocPayload \<Rightarrow> port list" where
  "ports_or_config cfg p =
     (let ports = unionPortsFromRanges p in if ports = [] then unionPortsFromConfig cfg else ports)"

definition SetRanges3 :: "PortAllocPayload \<Rightarrow> PortAllocPayload \<Rightarrow> PortManager3 \<Rightarrow> PortManager3" where
  "SetRanges3 cfg p pm = pm\<lparr>p3_ports := sort (ports_or_config cfg p)\<rparr>"

definition ensureDefaultRanges :: "PortAllocPayload \<Rightarrow> PortManager3 \<Rightarrow> PortManager3" where
  "ensureDefaultRanges cfg pm =
     (if p3_ports pm \<noteq> [] then pm
      else SetRanges3 cfg \<lparr>pa_ZMQStartPort = 0, pa_ZMQEndPort = 0, pa_SRTStartPort = 0, pa_SRTEndPort = 0\<rparr> pm)"

subsection \<open>Reservations\<close>

definition isPortAvailable3 :: "port \<Rightarrow> PortManager3 \<Rightarrow> bool" where
  "isPortAvailable3 port pm \<longleftrightarrow> p3_byPort pm port = None"

definition expiry3 :: "time \<Rightarrow> PortAcquirePayload \<Rightarrow> time" where
  "expiry3 now req =
     (let ttl = (if aq_TTLSeconds req \<le> 0 then 60 else aq_TTLSeconds req) in now + wrap64 (ttl * second))"

definition reservePort3 ::
    "time \<Rightarrow> string \<Rightarrow> conn option \<Rightarrow> PortAcquirePayload \<Rightarrow> port \<Rightarrow> PortManager3 \<Rightarrow> PortGrantPayload1 \<times> PortManager3" where
  "reservePort3 now sid owner req port pm =
     (let expiresAt = expiry3 now req;
          resv = \<lparr>v3_sessionID = sid, v3_port = port, v3_owner = owner, v3_expiresAt = expiresAt\<rparr>;
          pm = pm\<lparr>p3_bySession := (p3_bySession pm)(sid \<mapsto> resv), p3_byPort := (p3_byPort pm)(port \<mapsto> resv)\<rparr>;
          pm = (if owner \<noteq> None
                then (let own = (case p3_byOwner pm owner of None \<Rightarrow> Map.empty | Some own \<Rightarrow> own)
                      in pm\<lparr>p3_byOwner := (p3_byOwner pm)(owner \<mapsto> own(sid \<mapsto> resv))\<rparr>)
                else pm)
      in (\<lparr>gr_RequestID = aq_RequestID req, gr_SessionID = sid, gr_ZMQPort = port, gr_SRTPort = port,
           gr_ExpiresAt = unix_milli expiresAt\<rparr>, pm))"

text \<open>The loops of \<open>Acquire\<close> and \<open>AcquireFromReady\<close> over the ports of a snapshot: \<open>at p\<close> is the manager when
  \<open>p\<close> is looked up.\<close>

definition first_available :: "(port \<Rightarrow> PortManager3) \<Rightarrow> port list \<Rightarrow> port option" where
  "first_available at ps = find (\<lambda>p. isPortAvailable3 p (at p)) ps"

text \<open>\<open>None\<close> is the error \<open>no available ports\<close>; \<open>pm\<close> is the manager when the port is reserved. The
  second snapshot and its lookups (\<open>at2\<close>) come after those of the first.\<close>

definition Acquire3 ::
    "time \<Rightarrow> string \<Rightarrow> PortStateSnapshot3 \<Rightarrow> (port \<Rightarrow> PortManager3) \<Rightarrow> conn option \<Rightarrow> PortAcquirePayload \<Rightarrow> PortManager3 \<Rightarrow>
      PortGrantPayload1 option \<times> PortManager3" where
  "Acquire3 now sid snap at owner req pm =
     (case first_available at (ps3_EmptyPorts snap) of
        None \<Rightarrow> (None, pm)
      | Some p \<Rightarrow> (let (g, pm) = reservePort3 now sid owner req p pm in (Some g, pm)))"

definition AcquireFromReady3 ::
    "time \<Rightarrow> string \<Rightarrow> PortStateSnapshot3 \<Rightarrow> (port \<Rightarrow> PortManager3) \<Rightarrow> PortStateSnapshot3 \<Rightarrow> (port \<Rightarrow> PortManager3) \<Rightarrow>
      conn option \<Rightarrow> PortAcquirePayload \<Rightarrow> PortManager3 \<Rightarrow> PortGrantPayload1 option \<times> PortManager3" where
  "AcquireFromReady3 now sid snap at snap2 at2 owner req pm =
     (case first_available at (ps3_ReadyPorts snap) of
        None \<Rightarrow> Acquire3 now sid snap2 at2 owner req pm
      | Some p \<Rightarrow> (let (g, pm) = reservePort3 now sid owner req p pm in (Some g, pm)))"

subsection \<open>The end of reservations\<close>

definition deleteReservation3 :: "portReservation3 \<Rightarrow> PortManager3 \<Rightarrow> PortManager3" where
  "deleteReservation3 resv pm =
     (let pm = pm\<lparr>p3_bySession := (p3_bySession pm)(v3_sessionID resv := None),
                  p3_byPort := (p3_byPort pm)(v3_port resv := None)\<rparr>
      in case p3_byOwner pm (v3_owner resv) of
           None \<Rightarrow> pm
         | Some own \<Rightarrow>
             (let own = own(v3_sessionID resv := None)
              in pm\<lparr>p3_byOwner := (p3_byOwner pm)(v3_owner resv := (if dom own = {} then None else Some own))\<rparr>))"

definition Release3 :: "conn option \<Rightarrow> string \<Rightarrow> PortManager3 \<Rightarrow> (bool \<times> port) \<times> PortManager3" where
  "Release3 owner sessionID pm =
     (case p3_bySession pm sessionID of
        None \<Rightarrow> ((False, 0), pm)
      | Some resv \<Rightarrow>
          if v3_owner resv \<noteq> None \<and> owner \<noteq> None \<and> v3_owner resv \<noteq> owner then ((False, 0), pm)
          else ((True, v3_port resv), deleteReservation3 resv pm))"

text \<open>The loop of \<open>ReleaseAllForOwner\<close>: the reservations still in the owner's map, in the order of the map.\<close>

definition release_own :: "conn option \<Rightarrow> string \<Rightarrow> PortManager3 \<Rightarrow> PortManager3" where
  "release_own owner sid pm =
     (case p3_byOwner pm owner of
        None \<Rightarrow> pm
      | Some own \<Rightarrow> (case own sid of None \<Rightarrow> pm | Some resv \<Rightarrow> deleteReservation3 resv pm))"

definition ReleaseAllForOwner3 :: "string list \<Rightarrow> conn option \<Rightarrow> PortManager3 \<Rightarrow> PortManager3" where
  "ReleaseAllForOwner3 order owner pm = (if owner = None then pm else fold (release_own owner) order pm)"

definition expired3 :: "time \<Rightarrow> portReservation3 \<Rightarrow> bool" where
  "expired3 now resv \<longleftrightarrow> v3_expiresAt resv \<noteq> zero_time \<and> now > v3_expiresAt resv"

definition sweep_one3 :: "time \<Rightarrow> string \<Rightarrow> PortManager3 \<Rightarrow> PortManager3" where
  "sweep_one3 now sid pm =
     (case p3_bySession pm sid of
        None \<Rightarrow> pm
      | Some resv \<Rightarrow> if expired3 now resv then deleteReservation3 resv pm else pm)"

text \<open>One tick of \<open>sweepLoop\<close>, over an order of the map.\<close>

definition sweep3 :: "time \<Rightarrow> string list \<Rightarrow> PortManager3 \<Rightarrow> PortManager3" where
  "sweep3 now order pm = fold (sweep_one3 now) order pm"


subsection \<open>The ranges are exact\<close>

lemma dedup_loop_props:
  "sorted xs \<Longrightarrow> (\<And>l. prev = Some l \<Longrightarrow> \<forall>x \<in> set xs. l \<le> x) \<Longrightarrow>
   sorted (dedup_loop prev xs) \<and> distinct (dedup_loop prev xs) \<and>
   set (dedup_loop prev xs) = set xs - (case prev of None \<Rightarrow> {} | Some l \<Rightarrow> {l})"
proof (induction prev xs rule: dedup_loop.induct)
  case (2 prev v vs)
  show ?case
  proof (cases "prev = Some v")
    case True
    with "2.IH"(1) "2.prems" show ?thesis by auto
  next
    case False
    have ih: "sorted (dedup_loop (Some v) vs)" "distinct (dedup_loop (Some v) vs)" "set (dedup_loop (Some v) vs) = set vs - {v}"
      using "2.IH"(2) [OF False] "2.prems"(1) by simp_all
    have "l \<notin> set (v # vs)" if "prev = Some l" for l
      using "2.prems"(1,2) that False by force
    then show ?thesis
      using ih False "2.prems"(1) by (auto split: option.split)
  qed
qed (simp split: option.split)

lemma dedupInts_props: "sorted (dedupInts xs)" "distinct (dedupInts xs)" "set (dedupInts xs) = set xs"
  using dedup_loop_props [of "sort xs" None] by (simp_all add: dedupInts_def)

text \<open>
  The pool of ports is the union of the two ranges. \<open>unionPortsFromRanges\<close> returns each
  port of a range with positive bounds once, in ascending order, also where the ranges overlap; a range that is
  empty, reversed or has a bound that is not positive adds nothing.
\<close>
theorem union_ports_exact:
  "sorted (unionPortsFromRanges p) \<and> distinct (unionPortsFromRanges p) \<and>
   set (unionPortsFromRanges p) =
     {q. 0 < pa_ZMQStartPort p \<and> pa_ZMQStartPort p \<le> q \<and> q \<le> pa_ZMQEndPort p} \<union>
     {q. 0 < pa_SRTStartPort p \<and> pa_SRTStartPort p \<le> q \<and> q \<le> pa_SRTEndPort p}"
  using dedupInts_props by (auto simp: unionPortsFromRanges_def addRange_def)

subsection \<open>The three maps agree\<close>

text \<open>The invariant, with the ports that two overlapping grants may have given out twice; for those the map of ports
  knows one of the reservations only.\<close>

definition pm3_ok :: "port set \<Rightarrow> PortManager3 \<Rightarrow> bool" where
  "pm3_ok D pm \<longleftrightarrow>
     (\<forall>sid r. p3_bySession pm sid = Some r \<longrightarrow> v3_sessionID r = sid \<and> (v3_port r \<notin> D \<longrightarrow> p3_byPort pm (v3_port r) = Some r) \<and>
        (v3_owner r \<noteq> None \<longrightarrow> (\<exists>own. p3_byOwner pm (v3_owner r) = Some own \<and> own sid = Some r))) \<and>
     (\<forall>p r. p3_byPort pm p = Some r \<longrightarrow> v3_port r = p \<and> p3_bySession pm (v3_sessionID r) = Some r) \<and>
     (\<forall>c own. p3_byOwner pm c = Some own \<longrightarrow> c \<noteq> None \<and> dom own \<noteq> {} \<and>
        (\<forall>sid r. own sid = Some r \<longrightarrow> p3_bySession pm sid = Some r \<and> v3_owner r = c))"

abbreviation pm3_inv :: "PortManager3 \<Rightarrow> bool" where
  "pm3_inv \<equiv> pm3_ok {}"

lemma pm3_okD:
  assumes "pm3_ok D pm"
  shows "p3_bySession pm sid = Some r \<Longrightarrow> v3_sessionID r = sid"
    "p3_bySession pm sid = Some r \<Longrightarrow> v3_port r \<notin> D \<Longrightarrow> p3_byPort pm (v3_port r) = Some r"
    "p3_bySession pm sid = Some r \<Longrightarrow> v3_owner r \<noteq> None \<Longrightarrow> \<exists>own. p3_byOwner pm (v3_owner r) = Some own \<and> own sid = Some r"
    "p3_byPort pm p = Some r \<Longrightarrow> v3_port r = p" "p3_byPort pm p = Some r \<Longrightarrow> p3_bySession pm (v3_sessionID r) = Some r"
    "p3_byOwner pm c = Some own \<Longrightarrow> c \<noteq> None" "p3_byOwner pm c = Some own \<Longrightarrow> dom own \<noteq> {}"
    "p3_byOwner pm c = Some own \<Longrightarrow> own sid = Some r \<Longrightarrow> p3_bySession pm sid = Some r \<and> v3_owner r = c"
  using assms unfolding pm3_ok_def by blast+

lemmas pm3_invD = pm3_okD [of "{}", simplified]

lemma pm3_inv_New: "pm3_ok D NewPortManager3"
  by (simp add: pm3_ok_def NewPortManager3_def)

lemma pm3_inv_ports: "pm3_ok D pm \<Longrightarrow> pm3_ok D (pm\<lparr>p3_ports := ps\<rparr>)"
  by (simp add: pm3_ok_def)

lemma delete3_fields:
  "p3_bySession (deleteReservation3 r pm) = (p3_bySession pm)(v3_sessionID r := None)"
  "p3_byPort (deleteReservation3 r pm) = (p3_byPort pm)(v3_port r := None)"
  "p3_byOwner (deleteReservation3 r pm) = (\<lambda>c. if c = v3_owner r
     then (case p3_byOwner pm c of None \<Rightarrow> None
           | Some own \<Rightarrow> if dom (own(v3_sessionID r := None)) = {} then None else Some (own(v3_sessionID r := None)))
     else p3_byOwner pm c)"
  by (auto simp: deleteReservation3_def Let_def fun_eq_iff split: option.split)

lemma pm3_inv_delete:
  assumes inv: "pm3_ok D pm" and r: "p3_bySession pm sid = Some r"
  shows "pm3_ok D (deleteReservation3 r pm)"
proof -
  have sid: "v3_sessionID r = sid" and port: "v3_port r \<notin> D \<Longrightarrow> p3_byPort pm (v3_port r) = Some r"
    using pm3_okD(1,2) [OF inv r] by simp_all
  show ?thesis
    unfolding pm3_ok_def
  proof (intro conjI allI impI)
    fix x s assume "p3_bySession (deleteReservation3 r pm) x = Some s"
    then have s: "p3_bySession pm x = Some s" "x \<noteq> sid" by (auto simp: delete3_fields sid split: if_splits)
    show "v3_sessionID s = x" using pm3_okD(1) [OF inv s(1)] .
    show "p3_byPort (deleteReservation3 r pm) (v3_port s) = Some s" if "v3_port s \<notin> D"
    proof -
      have "v3_port s \<noteq> v3_port r"
        using pm3_okD(1) [OF inv s(1)] pm3_okD(2) [OF inv s(1) that] port sid s(2) that by (metis option.inject)
      then show ?thesis using pm3_okD(2) [OF inv s(1) that] by (simp add: delete3_fields)
    qed
    show "\<exists>own. p3_byOwner (deleteReservation3 r pm) (v3_owner s) = Some own \<and> own x = Some s" if "v3_owner s \<noteq> None"
    proof -
      obtain own where own: "p3_byOwner pm (v3_owner s) = Some own" "own x = Some s"
        using pm3_okD(3) [OF inv s(1)] \<open>v3_owner s \<noteq> None\<close> by blast
      have "dom (own(sid := None)) \<noteq> {}" using own(2) s(2) by (auto simp: dom_def)
      then show ?thesis
        using own s(2) by (cases "v3_owner s = v3_owner r") (auto simp: delete3_fields sid)
    qed
  next
    fix p s assume "p3_byPort (deleteReservation3 r pm) p = Some s"
    then have s: "p3_byPort pm p = Some s" "p \<noteq> v3_port r" by (auto simp: delete3_fields split: if_splits)
    show "v3_port s = p" using pm3_okD(4) [OF inv s(1)] .
    have "v3_sessionID s \<noteq> sid" using pm3_okD(4) [OF inv s(1)] pm3_okD(5) [OF inv s(1)] r s(2) by (metis option.inject)
    then show "p3_bySession (deleteReservation3 r pm) (v3_sessionID s) = Some s"
      using pm3_okD(5) [OF inv s(1)] by (simp add: delete3_fields sid)
  next
    fix c own assume c: "p3_byOwner (deleteReservation3 r pm) c = Some own"
    obtain own0 where own: "p3_byOwner pm c = Some own0" "own = (if c = v3_owner r then own0(sid := None) else own0)" "dom own \<noteq> {}"
    proof (cases "c = v3_owner r")
      case True
      with c have "(case p3_byOwner pm c of None \<Rightarrow> None
          | Some own \<Rightarrow> if dom (own(sid := None)) = {} then None else Some (own(sid := None))) = Some own"
        by (simp only: delete3_fields sid refl if_True)
      with that True show thesis
        by (simp del: dom_fun_upd dom_eq_empty_conv split: option.splits if_split_asm)
    next
      case False
      with c have "p3_byOwner pm c = Some own" by (simp add: delete3_fields)
      with that False show thesis using pm3_okD(7) [OF inv] by simp
    qed
    show "c \<noteq> None" "dom own \<noteq> {}" using pm3_okD(6) [OF inv own(1)] own(3) by auto
    show "p3_bySession (deleteReservation3 r pm) x = Some s" "v3_owner s = c" if "own x = Some s" for x s
    proof -
      have x: "own0 x = Some s" "c = v3_owner r \<Longrightarrow> x \<noteq> sid" using that own(2) by (auto split: if_splits)
      have s: "p3_bySession pm x = Some s" "v3_owner s = c" using pm3_okD(8) [OF inv own(1) x(1)] by auto
      have "x \<noteq> sid" using x(2) s r by auto
      with s show "p3_bySession (deleteReservation3 r pm) x = Some s" "v3_owner s = c" by (simp_all add: delete3_fields sid)
    qed
  qed
qed

text \<open>A reservation of a port that is still free, under a new session id.\<close>

lemma reserve3_fields:
  defines "r \<equiv> \<lambda>now sid owner req port. \<lparr>v3_sessionID = sid, v3_port = port, v3_owner = owner, v3_expiresAt = expiry3 now req\<rparr>"
  shows "p3_bySession (snd (reservePort3 now sid owner req port pm)) = (p3_bySession pm)(sid \<mapsto> r now sid owner req port)"
    "p3_byPort (snd (reservePort3 now sid owner req port pm)) = (p3_byPort pm)(port \<mapsto> r now sid owner req port)"
    "p3_byOwner (snd (reservePort3 now sid owner req port pm)) =
      (if owner = None then p3_byOwner pm
       else (p3_byOwner pm)(owner \<mapsto> (case p3_byOwner pm owner of None \<Rightarrow> Map.empty | Some own \<Rightarrow> own)(sid \<mapsto> r now sid owner req port)))"
    "fst (reservePort3 now sid owner req port pm) =
      \<lparr>gr_RequestID = aq_RequestID req, gr_SessionID = sid, gr_ZMQPort = port, gr_SRTPort = port,
       gr_ExpiresAt = unix_milli (expiry3 now req)\<rparr>"
  by (simp_all add: reservePort3_def Let_def r_def)

lemma pm3_inv_reserve:
  assumes inv: "pm3_ok D pm" and fresh: "p3_bySession pm sid = None" and free: "port \<notin> D \<Longrightarrow> isPortAvailable3 port pm"
  shows "pm3_ok D (snd (reservePort3 now sid owner req port pm))"
proof -
  let ?r = "\<lparr>v3_sessionID = sid, v3_port = port, v3_owner = owner, v3_expiresAt = expiry3 now req\<rparr>"
  let ?pm = "snd (reservePort3 now sid owner req port pm)"
  have free: "port \<notin> D \<Longrightarrow> p3_byPort pm port = None" using free by (simp add: isPortAvailable3_def)
  show ?thesis
    unfolding pm3_ok_def
  proof (intro conjI allI impI)
    fix x s assume s: "p3_bySession ?pm x = Some s"
    show "v3_sessionID s = x"
      using s pm3_okD(1) [OF inv] by (auto simp: reserve3_fields split: if_splits)
    show "p3_byPort ?pm (v3_port s) = Some s" if "v3_port s \<notin> D"
    proof (cases "x = sid")
      case False
      then have old: "p3_bySession pm x = Some s" using s by (simp add: reserve3_fields)
      have "port \<noteq> v3_port s" using pm3_okD(2) [OF inv old that] free that by auto
      then show ?thesis using pm3_okD(2) [OF inv old that] by (simp add: reserve3_fields)
    qed (use s in \<open>auto simp: reserve3_fields\<close>)
    show "\<exists>own. p3_byOwner ?pm (v3_owner s) = Some own \<and> own x = Some s" if "v3_owner s \<noteq> None"
    proof (cases "x = sid")
      case True
      with s that show ?thesis by (auto simp: reserve3_fields)
    next
      case False
      then have "p3_bySession pm x = Some s" using s by (simp add: reserve3_fields)
      from pm3_okD(3) [OF inv this that] False show ?thesis by (auto simp: reserve3_fields)
    qed
  next
    fix p s assume s: "p3_byPort ?pm p = Some s"
    show "v3_port s = p" using s pm3_okD(4) [OF inv] by (auto simp: reserve3_fields split: if_splits)
    show "p3_bySession ?pm (v3_sessionID s) = Some s"
      using s pm3_okD(5) [OF inv] fresh by (auto simp: reserve3_fields split: if_splits)
  next
    fix c own assume c: "p3_byOwner ?pm c = Some own"
    show "c \<noteq> None" using c pm3_okD(6) [OF inv] by (auto simp: reserve3_fields split: if_splits)
    show "dom own \<noteq> {}" using c pm3_okD(7) [OF inv] by (auto simp: reserve3_fields split: if_splits)
    show "p3_bySession ?pm x = Some s" "v3_owner s = c" if "own x = Some s" for x s
    proof -
      have "p3_bySession pm x = Some s \<and> v3_owner s = c \<or> x = sid \<and> s = ?r \<and> c = owner"
        using c that pm3_okD(8) [OF inv, of c]
        by (auto simp: reserve3_fields split: if_splits option.splits)
      then show "p3_bySession ?pm x = Some s" "v3_owner s = c" using fresh by (auto simp: reserve3_fields)
    qed
  qed
qed

text \<open>The ends of reservations keep it too.\<close>

lemma pm3_ok_ends:
  assumes "pm3_ok D pm"
  shows "pm3_ok D (release_own owner sid pm)" "pm3_ok D (sweep_one3 now sid pm)" "pm3_ok D (snd (Release3 owner sid pm))"
proof -
  have one: "pm3_ok D (deleteReservation3 r pm)" if "p3_byOwner pm owner = Some own" "own sid = Some r" for own r
    by (rule pm3_inv_delete [OF assms]) (use pm3_okD(8) [OF assms that] in blast)
  then show "pm3_ok D (release_own owner sid pm)" using assms by (simp add: release_own_def split: option.split)
  show "pm3_ok D (sweep_one3 now sid pm)" "pm3_ok D (snd (Release3 owner sid pm))"
    using assms pm3_inv_delete [OF assms] by (auto simp: sweep_one3_def Release3_def split: option.split)
qed

lemma pm3_ok_many:
  "pm3_ok D pm \<Longrightarrow> pm3_ok D (sweep3 now order pm)" "pm3_ok D pm \<Longrightarrow> pm3_ok D (ReleaseAllForOwner3 order owner pm)"
proof -
  have "pm3_ok D pm \<Longrightarrow> pm3_ok D (fold (sweep_one3 now) order pm)" "pm3_ok D pm \<Longrightarrow> pm3_ok D (fold (release_own owner) order pm)"
    by (induction order arbitrary: pm) (simp_all add: pm3_ok_ends)
  then show "pm3_ok D pm \<Longrightarrow> pm3_ok D (sweep3 now order pm)" "pm3_ok D pm \<Longrightarrow> pm3_ok D (ReleaseAllForOwner3 order owner pm)"
    by (simp_all add: sweep3_def ReleaseAllForOwner3_def)
qed

text \<open>No port becomes unavailable by them.\<close>

definition frees :: "PortManager3 \<Rightarrow> PortManager3 \<Rightarrow> bool" where
  "frees pm pm' \<longleftrightarrow> (\<forall>p. isPortAvailable3 p pm \<longrightarrow> isPortAvailable3 p pm')"

lemma frees_refl [simp]: "frees pm pm"
  by (simp add: frees_def)

lemma frees_trans: "frees pm pm' \<Longrightarrow> frees pm' pm'' \<Longrightarrow> frees pm pm''"
  by (simp add: frees_def)

lemma frees_ends:
  "frees pm (deleteReservation3 r pm)" "frees pm (release_own owner sid pm)" "frees pm (sweep_one3 now sid pm)"
  "frees pm (snd (Release3 owner sid pm))" "frees pm (pm\<lparr>p3_ports := ps\<rparr>)"
  by (auto simp: frees_def isPortAvailable3_def delete3_fields release_own_def sweep_one3_def Release3_def split: option.split)

lemma frees_fold:
  assumes "\<And>x pm. frees pm (f x pm)"
  shows "frees pm (fold f xs pm)"
proof (induction xs arbitrary: pm)
  case (Cons x xs)
  show ?case using frees_trans [OF assms Cons] by simp
qed simp

lemma frees_many: "frees pm (sweep3 now order pm)" "frees pm (ReleaseAllForOwner3 order owner pm)"
  by (simp_all add: sweep3_def ReleaseAllForOwner3_def frees_fold frees_ends)

text \<open>The manager is a lease table as well.\<close>

definition end_lease3 :: "string \<Rightarrow> PortManager3 \<Rightarrow> PortManager3" where
  "end_lease3 sid pm = (case p3_bySession pm sid of None \<Rightarrow> pm | Some r \<Rightarrow> deleteReservation3 r pm)"

definition holder3 :: "PortManager3 \<Rightarrow> port \<Rightarrow> string option" where
  "holder3 pm p = map_option v3_sessionID (p3_byPort pm p)"

lemma holder3_Some:
  assumes "pm3_inv pm"
  shows "holder3 pm p = Some sid \<longleftrightarrow> (\<exists>r. p3_bySession pm sid = Some r \<and> v3_port r = p)"
proof
  assume "holder3 pm p = Some sid"
  then obtain r where "p3_byPort pm p = Some r" "v3_sessionID r = sid" by (auto simp: holder3_def)
  then show "\<exists>r. p3_bySession pm sid = Some r \<and> v3_port r = p" using pm3_invD(4,5) [OF assms] by blast
next
  assume "\<exists>r. p3_bySession pm sid = Some r \<and> v3_port r = p"
  then obtain r where "p3_bySession pm sid = Some r" "v3_port r = p" by blast
  then show "holder3 pm p = Some sid" using pm3_invD(1,2) [OF assms] by (auto simp: holder3_def)
qed

lemma option_eqI: "(\<And>y. a = Some y \<longleftrightarrow> b = Some y) \<Longrightarrow> a = b"
  by (cases a; cases b) auto

interpretation leases3: lease_table pm3_inv holder3 p3_bySession end_lease3
proof unfold_locales
  fix m sid p x
  assume inv: "pm3_inv m"
  show inv': "pm3_inv (end_lease3 sid m)" using inv by (simp add: end_lease3_def pm3_inv_delete split: option.split)
  show lease: "p3_bySession (end_lease3 sid m) = (p3_bySession m)(sid := None)"
    using pm3_invD(1) [OF inv] by (auto simp: end_lease3_def delete3_fields split: option.split)
  show "p3_bySession m x \<noteq> None" if "holder3 m p = Some x" using holder3_Some [OF inv] that by auto
  have holder: "holder3 (end_lease3 sid m) p = Some y \<longleftrightarrow> y \<noteq> sid \<and> holder3 m p = Some y" for y
    unfolding holder3_Some [OF inv] holder3_Some [OF inv'] lease by auto
  show "holder3 (end_lease3 sid m) p = (if holder3 m p = Some sid then None else holder3 m p)"
    by (rule option_eqI) (auto simp: holder)
qed

lemma sweep_one3_drop: "sweep_one3 now = leases3.drop_if (expired3 now)"
  by (auto simp: sweep_one3_def leases3.drop_if_def end_lease3_def fun_eq_iff split: option.split)

lemma release_own_drop:
  assumes "pm3_inv pm" "owner \<noteq> None"
  shows "release_own owner sid pm = leases3.drop_if (\<lambda>r. v3_owner r = owner) sid pm"
proof (cases "p3_bySession pm sid")
  case None
  then show ?thesis
    using pm3_invD(8) [OF assms(1)]
    by (fastforce simp: release_own_def leases3.drop_if_def split: option.split)
next
  case (Some r)
  show ?thesis
  proof (cases "v3_owner r = owner")
    case True
    then show ?thesis
      using pm3_invD(3) [OF assms(1) Some] assms(2) by (auto simp: release_own_def leases3.drop_if_def end_lease3_def Some)
  next
    case False
    then have "own sid = None" if "p3_byOwner pm owner = Some own" for own
      using pm3_invD(8) [OF assms(1) that] Some by (cases "own sid") auto
    with False show ?thesis by (auto simp: release_own_def leases3.drop_if_def Some split: option.split)
  qed
qed

text \<open>What is left after a sweep and after a client has gone.\<close>

lemma byPort3: "pm3_inv pm \<Longrightarrow> p3_byPort pm p = Some r \<longleftrightarrow> p3_bySession pm (v3_sessionID r) = Some r \<and> v3_port r = p"
  using pm3_invD(2,4,5) by blast

lemma drop_all_byPort3:
  assumes "pm3_inv pm" "dom (p3_bySession pm) \<subseteq> set order"
  shows "p3_byPort (fold (leases3.drop_if P) order pm) p = Some r \<longleftrightarrow> p3_byPort pm p = Some r \<and> \<not> P r"
  using leases3.drop_many_inv [OF assms(1)] assms
  by (auto simp: byPort3 leases3.drop_all)

lemma sweep3_inv: "pm3_inv pm \<Longrightarrow> pm3_inv (sweep3 now order pm)"
  unfolding sweep3_def sweep_one3_drop by (rule leases3.drop_many_inv)

lemma release_own_fold:
  "pm3_inv pm \<Longrightarrow> owner \<noteq> None \<Longrightarrow>
   fold (release_own owner) order pm = fold (leases3.drop_if (\<lambda>r. v3_owner r = owner)) order pm"
  by (induction order arbitrary: pm) (simp_all add: release_own_drop leases3.drop_if_one(1))

lemma release_all3_inv: "pm3_inv pm \<Longrightarrow> pm3_inv (ReleaseAllForOwner3 order owner pm)"
  by (simp add: ReleaseAllForOwner3_def release_own_fold leases3.drop_many_inv)

lemma release_all3_session:
  "pm3_inv pm \<Longrightarrow> owner \<noteq> None \<Longrightarrow> p3_bySession (ReleaseAllForOwner3 order owner pm) x =
    (if x \<in> set order \<and> (\<exists>r. p3_bySession pm x = Some r \<and> v3_owner r = owner) then None else p3_bySession pm x)"
  by (auto simp: ReleaseAllForOwner3_def release_own_fold leases3.drop_many_lease)

text \<open>
  A port is held for as long as its lease and no longer. On a consistent manager a sweep over the
  reservations leaves exactly the ports whose lease has not expired, and the release of everything a client owns
  exactly those of other clients and of none, each held by the same reservation as before, whatever the order of the maps.
\<close>
theorem leases_end_exact3:
  assumes "pm3_inv pm" and "dom (p3_bySession pm) \<subseteq> set order"
    and "{sid. \<exists>r. p3_bySession pm sid = Some r \<and> v3_owner r = Some c} \<subseteq> set own"
  shows "(p3_byPort (sweep3 now order pm) p = Some r \<longleftrightarrow> p3_byPort pm p = Some r \<and> \<not> expired3 now r) \<and>
    (p3_byPort (ReleaseAllForOwner3 own (Some c) pm) p = Some r \<longleftrightarrow> p3_byPort pm p = Some r \<and> v3_owner r \<noteq> Some c)"
proof
  show "p3_byPort (sweep3 now order pm) p = Some r \<longleftrightarrow> p3_byPort pm p = Some r \<and> \<not> expired3 now r"
    unfolding sweep3_def sweep_one3_drop by (rule drop_all_byPort3 [OF assms(1,2)])
  show "p3_byPort (ReleaseAllForOwner3 own (Some c) pm) p = Some r \<longleftrightarrow> p3_byPort pm p = Some r \<and> v3_owner r \<noteq> Some c"
    using assms(3) by (auto simp: byPort3 release_all3_inv assms(1) release_all3_session)
qed

subsection \<open>Grants\<close>

text \<open>
  C18. A grant that no other overtakes is exact. When the manager does not change between the
  lookups and the reservation, the grant is the first port without a reservation among the ports with somebody waiting
  and then the bare ones; it gets the new session id, the client as its owner and an expiry of the asked
  seconds (60 for none), the maps stay consistent and nothing else changes; if there is no such port, nothing does.
\<close>
theorem acquire3_exact:
  assumes "pm3_inv pm" and "p3_bySession pm sid = None"
  shows "let (out, pm') = AcquireFromReady3 now sid snap (\<lambda>_. pm) snap2 (\<lambda>_. pm) owner req pm in
    case find (\<lambda>p. p3_byPort pm p = None) (ps3_ReadyPorts snap @ ps3_EmptyPorts snap2) of
      None \<Rightarrow> out = None \<and> pm' = pm
    | Some p \<Rightarrow>
        (let r = \<lparr>v3_sessionID = sid, v3_port = p, v3_owner = owner, v3_expiresAt = expiry3 now req\<rparr>
         in pm3_inv pm' \<and> p3_byPort pm' = (p3_byPort pm)(p \<mapsto> r) \<and> p3_bySession pm' = (p3_bySession pm)(sid \<mapsto> r) \<and>
            out = Some \<lparr>gr_RequestID = aq_RequestID req, gr_SessionID = sid, gr_ZMQPort = p, gr_SRTPort = p,
                        gr_ExpiresAt = unix_milli (v3_expiresAt r)\<rparr>)"
proof -
  have reserve: "(let (g, pm') = reservePort3 now sid owner req p pm in (Some g, pm')) =
      (Some \<lparr>gr_RequestID = aq_RequestID req, gr_SessionID = sid, gr_ZMQPort = p, gr_SRTPort = p,
        gr_ExpiresAt = unix_milli (expiry3 now req)\<rparr>, snd (reservePort3 now sid owner req p pm))" for p
    by (simp add: case_prod_beta Let_def reserve3_fields)
  have find: "find P (xs @ ys) = (case find P xs of None \<Rightarrow> find P ys | Some p \<Rightarrow> Some p)" for P and xs ys :: "port list"
    by (induction xs) auto
  have inv: "pm3_inv (snd (reservePort3 now sid owner req p pm))" if "find (\<lambda>p. p3_byPort pm p = None) ps = Some p" for ps p
    by (rule pm3_inv_reserve [OF assms]) (use that in \<open>auto simp: find_Some_iff isPortAvailable3_def\<close>)
  show ?thesis
    unfolding find AcquireFromReady3_def Acquire3_def first_available_def isPortAvailable3_def reserve
    by (auto simp: Let_def reserve3_fields inv split: option.split)
qed

definition ex_snap :: PortStateSnapshot3 where
  "ex_snap = \<lparr>ps3_Total = 2, ps3_BusyCount = 0, ps3_ReadyPorts = [7], ps3_EmptyPorts = [8]\<rparr>"

definition ex_req :: PortAcquirePayload where
  "ex_req = \<lparr>aq_RequestID = ''q'', aq_NeedZMQ = True, aq_NeedSRT = False, aq_TTLSeconds = 0\<rparr>"

lemma acquire3_exact_witness:
  "map_option gr_ZMQPort (fst (AcquireFromReady3 0 ''s'' ex_snap (\<lambda>_. NewPortManager3) ex_snap (\<lambda>_. NewPortManager3) (Some 1) ex_req NewPortManager3)) = Some 7"
  using acquire3_exact [OF pm3_inv_New, of "''s''" 0 ex_snap ex_snap "Some 1" ex_req]
  by (auto simp: ex_snap_def NewPortManager3_def case_prod_beta Let_def)

definition ex_leased :: PortManager3 where
  "ex_leased = snd (reservePort3 0 ''s'' (Some 1) ex_req 7 NewPortManager3)"

lemma leases_end_exact3_witness:
  "p3_byPort (sweep3 (61 * second) [''s''] ex_leased) 7 = None \<and> p3_byPort (ReleaseAllForOwner3 [''s''] (Some 1) ex_leased) 7 = None"
proof -
  have inv: "pm3_inv ex_leased"
    unfolding ex_leased_def by (rule pm3_inv_reserve [OF pm3_inv_New]) (simp_all add: NewPortManager3_def isPortAvailable3_def)
  have maps: "dom (p3_bySession ex_leased) \<subseteq> set [''s'']" "{sid. \<exists>r. p3_bySession ex_leased sid = Some r \<and> v3_owner r = Some 1} \<subseteq> set [''s'']"
    by (auto simp: ex_leased_def reserve3_fields NewPortManager3_def split: if_splits)
  have held: "p3_byPort ex_leased 7 = Some r \<Longrightarrow> expired3 (61 * second) r \<and> v3_owner r = Some 1" for r
    by (auto simp: ex_leased_def reserve3_fields expired3_def expiry3_def ex_req_def wrap64_def second_def zero_time_def)
  have "p3_byPort (sweep3 (61 * second) [''s''] ex_leased) 7 \<noteq> Some r" "p3_byPort (ReleaseAllForOwner3 [''s''] (Some 1) ex_leased) 7 \<noteq> Some r" for r
    using leases_end_exact3 [OF inv maps, of "61 * second" 7 r] held [of r] by auto
  then show ?thesis by auto
qed

text \<open>
  Two grants that overlap can give one port to two clients. If the second client's lookups happen before the
  first one's reservation, both are granted port 7; the map of ports then knows only the second,
  and as soon as the first client releases its session the port counts as free although the second lease is live.
\<close>
theorem double_grant3:
  "let (g1, pm1) = AcquireFromReady3 0 ''s'' ex_snap (\<lambda>_. NewPortManager3) ex_snap (\<lambda>_. NewPortManager3) (Some 1) ex_req NewPortManager3;
       (g2, pm2) = AcquireFromReady3 0 ''t'' ex_snap (\<lambda>_. NewPortManager3) ex_snap (\<lambda>_. pm1) (Some 2) ex_req pm1;
       (released, pm3) = Release3 (Some 1) ''s'' pm2
   in map_option gr_ZMQPort g1 = Some 7 \<and> map_option gr_ZMQPort g2 = Some 7 \<and>
      map_option v3_sessionID (p3_byPort pm2 7) = Some ''t'' \<and> released = (True, 7) \<and>
      isPortAvailable3 7 pm3 \<and> map_option v3_port (p3_bySession pm3 ''t'') = Some 7"
  by (simp add: AcquireFromReady3_def first_available_def isPortAvailable3_def ex_snap_def case_prod_beta Let_def
      Release3_def reserve3_fields delete3_fields NewPortManager3_def)

subsection \<open>Runs\<close>

text \<open>The calls of the manager when grants do not overlap.\<close>

inductive pm3_step :: "PortManager3 \<Rightarrow> PortManager3 \<Rightarrow> bool" where
  ranges: "pm3_step pm (SetRanges3 cfg p pm)"
| acquire: "p3_bySession pm sid = None \<Longrightarrow>
    pm3_step pm (snd (AcquireFromReady3 now sid snap (\<lambda>_. pm) snap2 (\<lambda>_. pm) owner req pm))"
| release: "pm3_step pm (snd (Release3 owner sid pm))"
| release_all: "pm3_step pm (ReleaseAllForOwner3 order owner pm)"
| sweep: "pm3_step pm (sweep3 now order pm)"

lemma first_available_free: "first_available at ps = Some p \<Longrightarrow> p \<in> set ps \<and> isPortAvailable3 p (at p)"
  by (auto simp: first_available_def find_Some_iff)

lemma pm3_inv_acquire:
  assumes "pm3_inv pm" "p3_bySession pm sid = None"
  shows "pm3_inv (snd (AcquireFromReady3 now sid snap (\<lambda>_. pm) snap2 (\<lambda>_. pm) owner req pm))"
  using assms pm3_inv_reserve [OF assms] first_available_free [of "\<lambda>_. pm"]
  by (auto simp: AcquireFromReady3_def Acquire3_def case_prod_beta Let_def split: option.split)

lemma pm3_step_inv: "pm3_step pm pm' \<Longrightarrow> pm3_inv pm \<Longrightarrow> pm3_inv pm'"
proof (induction rule: pm3_step.induct)
  case (release pm owner sid)
  then show ?case by (auto simp: Release3_def pm3_inv_delete split: option.split)
qed (simp_all add: SetRanges3_def pm3_inv_ports pm3_inv_acquire release_all3_inv sweep3_inv)

lemma pm3_run_inv: "pm3_step\<^sup>*\<^sup>* NewPortManager3 pm \<Longrightarrow> pm3_inv pm"
  by (induction rule: rtranclp_induct) (auto simp: pm3_inv_New pm3_step_inv)

end
