(* ===== verification/HubV3.thy ===== *)
theory HubV3
  imports PortsV3 HubV1
begin

section \<open>The control server of the third version (v3/control/hub.go, clock.go)\<close>

text \<open>
  The third version asks for no registration: every control connection is a client from the
  start and is told of every grant, release and key. The messages are those of the first version (the
  protocol files differ in comments only). The state puts the clients beside the port manager and the
  relay server; the relay's state hook, which the program installs, broadcasts a snapshot and is
  called from within the handler. The environment of a handler gives each of its sends, snapshots
  and map iterations, numbered in order, its own answer.
\<close>

subsection \<open>State\<close>

record Client3 =
  c3_Role :: string
  c3_closed :: bool
  c3_once :: bool

record Control3 =
  h3_cfg :: PortAllocPayload
  h3_ctlPort :: port
  h3_objects :: "conn \<Rightarrow> Client3 option"
  h3_clients :: "conn list"
  h3_pm :: PortManager3
  h3_relay :: RelayServer3

datatype Msg3 =
    Auth3
  | Alloc3 PortAllocPayload
  | State3 PortStatePayload1
  | Pong3 ClockPayload
  | Keys3 KeyExchangePayload
  | Grant3 PortGrantPayload1
  | NoGrant3 string
  | Released3 string

datatype h3_effect =
    Deliver3 conn Msg3
  | HangUp3 conn
  | Relay3 r3_effect
  | Serve3 conn
  | Listen3 port

record env3 =
  e3_now :: time
  e3_later :: time
  e3_ok :: "nat \<Rightarrow> conn \<Rightarrow> bool"
  e3_order :: "nat \<Rightarrow> conn list \<Rightarrow> conn list"
  e3_sids :: "conn \<Rightarrow> string list"
  e3_sid :: string
  e3_probe :: "nat \<Rightarrow> conn \<Rightarrow> io_error option"
  e3_ports :: "nat \<Rightarrow> port list \<times> port list"
  e3_tcp :: "port \<Rightarrow> io_error + listener"
  e3_udp :: "port \<Rightarrow> io_error + udp_conn"

definition NewControl3 :: "PortAllocPayload \<Rightarrow> port \<Rightarrow> Control3" where
  "NewControl3 cfg ctlPort =
     \<lparr>h3_cfg = cfg, h3_ctlPort = ctlPort, h3_objects = Map.empty, h3_clients = [], h3_pm = NewPortManager3, h3_relay = GlobalRelay3\<rparr>"

subsection \<open>Clients and the registry\<close>

definition Send3 :: "env3 \<Rightarrow> nat \<Rightarrow> conn \<Rightarrow> Msg3 \<Rightarrow> Control3 \<Rightarrow> bool \<times> h3_effect list" where
  "Send3 ev i k msg h =
     (case h3_objects h k of
        None \<Rightarrow> (False, [])
      | Some c \<Rightarrow> if c3_closed c then (False, []) else (e3_ok ev i k, [Deliver3 k msg]))"

definition Register3 :: "conn \<Rightarrow> Control3 \<Rightarrow> Control3" where
  "Register3 k h = h\<lparr>h3_clients := (if k \<in> set (h3_clients h) then h3_clients h else h3_clients h @ [k])\<rparr>"

definition Unregister3 :: "env3 \<Rightarrow> conn \<Rightarrow> Control3 \<Rightarrow> Control3" where
  "Unregister3 ev k h =
     h\<lparr>h3_clients := filter (\<lambda>j. j \<noteq> k) (h3_clients h), h3_pm := ReleaseAllForOwner3 (e3_sids ev k) (Some k) (h3_pm h)\<rparr>"

definition Close3 :: "env3 \<Rightarrow> conn \<Rightarrow> Control3 \<Rightarrow> Control3 \<times> h3_effect list" where
  "Close3 ev k h =
     (case h3_objects h k of
        None \<Rightarrow> (h, [])
      | Some c \<Rightarrow>
          if c3_once c then (h, [])
          else (Unregister3 ev k (h\<lparr>h3_objects := (h3_objects h)(k \<mapsto> c\<lparr>c3_once := True, c3_closed := True\<rparr>)\<rparr>), [HangUp3 k]))"

definition open3 :: "Control3 \<Rightarrow> conn \<Rightarrow> bool" where
  "open3 h k \<longleftrightarrow> (case h3_objects h k of None \<Rightarrow> False | Some c \<Rightarrow> \<not> c3_closed c)"

definition send_or_close3 :: "env3 \<Rightarrow> nat \<Rightarrow> Msg3 \<Rightarrow> conn \<Rightarrow> Control3 \<Rightarrow> Control3 \<times> h3_effect list" where
  "send_or_close3 ev i msg k h =
     (let (ok, es) = Send3 ev i k msg h
      in if ok then (h, es) else (let (h, fs) = Close3 ev k h in (h, es @ fs)))"

definition Broadcast3 :: "env3 \<Rightarrow> nat \<Rightarrow> Msg3 \<Rightarrow> Control3 \<Rightarrow> Control3 \<times> h3_effect list" where
  "Broadcast3 ev i msg h =
     seq_effects (send_or_close3 ev i msg) (filter (open3 h) (e3_order ev i (h3_clients h))) h"

subsection \<open>Snapshots and the relay\<close>

definition take_snapshot3 :: "env3 \<Rightarrow> nat \<Rightarrow> Control3 \<Rightarrow> PortStateSnapshot3 \<times> Control3 \<times> h3_effect list" where
  "take_snapshot3 ev i h =
     (let (snap, s, es) = SnapshotPortState3 (e3_probe ev i) (fst (e3_ports ev i)) (snd (e3_ports ev i)) (h3_relay h)
      in (snap, h\<lparr>h3_relay := s\<rparr>, map Relay3 es))"

definition snapshotPortState3 :: "env3 \<Rightarrow> nat \<Rightarrow> Control3 \<Rightarrow> PortStatePayload1 \<times> Control3 \<times> h3_effect list" where
  "snapshotPortState3 ev i h =
     (let (snap, h, es) = take_snapshot3 ev i h
      in (\<lparr>ps1_ZMQTotal = ps3_Total snap, ps1_SRTTotal = ps3_Total snap, ps1_ZMQBusy = ps3_BusyCount snap,
           ps1_SRTBusy = ps3_BusyCount snap, ps1_ZMQReadyPorts = ps3_ReadyPorts snap,
           ps1_SRTReadyPorts = ps3_ReadyPorts snap, ps1_ZMQEmptyPorts = ps3_EmptyPorts snap,
           ps1_SRTEmptyPorts = ps3_EmptyPorts snap\<rparr>, h, es))"

definition send_state3 :: "env3 \<Rightarrow> nat \<Rightarrow> conn \<Rightarrow> Control3 \<Rightarrow> Control3 \<times> h3_effect list" where
  "send_state3 ev i k h =
     (let (p, h, es) = snapshotPortState3 ev i h in (h, es @ snd (Send3 ev i k (State3 p) h)))"

definition BroadcastPortState3 :: "env3 \<Rightarrow> nat \<Rightarrow> Control3 \<Rightarrow> Control3 \<times> h3_effect list" where
  "BroadcastPortState3 ev i h =
     (let (p, h, es) = snapshotPortState3 ev i h; (h, fs) = Broadcast3 ev i (State3 p) h in (h, es @ fs))"

text \<open>What the relay does for a handler; its state hook is a broadcast, before the handler goes on.\<close>

definition start_port3 :: "env3 \<Rightarrow> port \<Rightarrow> Control3 \<Rightarrow> Control3 \<times> h3_effect list" where
  "start_port3 ev port h =
     (let (err, s, es) = StartRelayPort3 (e3_tcp ev port) (e3_udp ev port) port (h3_relay h)
      in (h\<lparr>h3_relay := s\<rparr>, map Relay3 es))"

definition reset_port3 :: "env3 \<Rightarrow> nat \<Rightarrow> port \<Rightarrow> Control3 \<Rightarrow> Control3 \<times> h3_effect list" where
  "reset_port3 ev i port h =
     (let (s, es) = ResetPort3 port (h3_relay h); h = h\<lparr>h3_relay := s\<rparr>
      in if R3StateChange \<in> set es then (let (h, fs) = BroadcastPortState3 ev i h in (h, map Relay3 es @ fs))
         else (h, map Relay3 es))"

subsection \<open>Handlers\<close>

definition HandlePing3 :: "env3 \<Rightarrow> conn \<Rightarrow> ClockPayload \<Rightarrow> Control3 \<Rightarrow> Control3 \<times> h3_effect list" where
  "HandlePing3 ev k p h =
     (h, snd (Send3 ev 0 k (Pong3 \<lparr>ck_ClientSendTime = ck_ClientSendTime p, ck_ServerRecvTime = e3_now ev,
       ck_ServerSendTime = e3_later ev\<rparr>) h))"

definition handle_register3 :: "conn \<Rightarrow> RegisterPayload1 \<Rightarrow> Control3 \<Rightarrow> Control3 \<times> h3_effect list" where
  "handle_register3 k reg h =
     (case h3_objects h k of
        None \<Rightarrow> (h, [])
      | Some c \<Rightarrow> (h\<lparr>h3_objects := (h3_objects h)(k \<mapsto> c\<lparr>c3_Role := rg_Role reg\<rparr>)\<rparr>, []))"

definition handle_port_alloc3 :: "env3 \<Rightarrow> PortAllocPayload \<Rightarrow> Control3 \<Rightarrow> Control3 \<times> h3_effect list" where
  "handle_port_alloc3 ev p h =
     (let h = h\<lparr>h3_pm := SetRanges3 (h3_cfg h) p (h3_pm h)\<rparr>;
          (h, e1) = seq_effects (start_port3 ev) (filter (\<lambda>q. q > 0) (ports_or_config (h3_cfg h) p)) h;
          (h, e2) = Broadcast3 ev 0 (Alloc3 p) h;
          (h, e3) = BroadcastPortState3 ev 1 h
      in (h, e1 @ e2 @ e3))"

text \<open>The grant: the second snapshot is taken only when no port of the first is free.\<close>

definition acquire_ports3 ::
    "env3 \<Rightarrow> conn \<Rightarrow> PortAcquirePayload \<Rightarrow> Control3 \<Rightarrow> PortGrantPayload1 option \<times> Control3 \<times> h3_effect list" where
  "acquire_ports3 ev k req h =
     (let (snap, h1, e1) = take_snapshot3 ev 0 h;
          (snap2, h2, e2) =
            (if first_available (\<lambda>_. h3_pm h1) (ps3_ReadyPorts snap) = None then take_snapshot3 ev 1 h1 else (snap, h1, []));
          (out, pm) = AcquireFromReady3 (e3_now ev) (e3_sid ev) snap (\<lambda>_. h3_pm h1) snap2 (\<lambda>_. h3_pm h2) (Some k) req (h3_pm h2)
      in (out, h2\<lparr>h3_pm := pm\<rparr>, e1 @ e2))"

definition handle_port_acquire3 :: "env3 \<Rightarrow> conn \<Rightarrow> PortAcquirePayload \<Rightarrow> Control3 \<Rightarrow> Control3 \<times> h3_effect list" where
  "handle_port_acquire3 ev k req h =
     (let (out, h, e0) = acquire_ports3 ev k req h
      in case out of
           None \<Rightarrow> (h, e0 @ snd (Send3 ev 0 k (NoGrant3 (aq_RequestID req)) h))
         | Some g \<Rightarrow>
             (let (h, e1) = start_port3 ev (gr_ZMQPort g) h;
                  e2 = snd (Send3 ev 0 k (Grant3 g) h);
                  (h, e3) = Broadcast3 ev 1 (Grant3 g) h
              in (h, e0 @ e1 @ e2 @ e3)))"

definition handle_port_release3 :: "env3 \<Rightarrow> conn \<Rightarrow> string \<Rightarrow> Control3 \<Rightarrow> Control3 \<times> h3_effect list" where
  "handle_port_release3 ev k sid h =
     (let ((ok, port), pm) = Release3 (Some k) sid (h3_pm h); h = h\<lparr>h3_pm := pm\<rparr>
      in if ok \<and> port > 0
         then (let (h, e1) = reset_port3 ev 0 port h;
                   (h, e2) = Broadcast3 ev 1 (Released3 sid) h;
                   (h, e3) = BroadcastPortState3 ev 2 h
               in (h, e1 @ e2 @ e3))
         else (h, []))"

definition with_payload3 :: "'a option \<Rightarrow> ('a \<Rightarrow> Control3 \<Rightarrow> Control3 \<times> h3_effect list) \<Rightarrow> Control3 \<Rightarrow> Control3 \<times> h3_effect list" where
  "with_payload3 p f h = (case p of None \<Rightarrow> (h, []) | Some a \<Rightarrow> f a h)"

definition handle_message3 :: "env3 \<Rightarrow> conn \<Rightarrow> string \<times> json option \<Rightarrow> Control3 \<Rightarrow> Control3 \<times> h3_effect list" where
  "handle_message3 ev k msg h =
     (let (ty, pl) = msg in
      if ty = MessageType1_text M1Register then with_payload3 (read_register pl) (handle_register3 k) h
      else if ty = MessageType1_text M1Ping then with_payload3 (read_clock pl) (HandlePing3 ev k) h
      else if ty = MessageType1_text M1KeyExchange then with_payload3 (read_key_exchange pl) (\<lambda>p. Broadcast3 ev 0 (Keys3 p)) h
      else if ty = MessageType1_text M1PortAlloc then with_payload3 (read_port_alloc pl) (handle_port_alloc3 ev) h
      else if ty = MessageType1_text M1PortAcquire then with_payload3 (read_port_acquire pl) (handle_port_acquire3 ev k) h
      else if ty = MessageType1_text M1PortRelease then with_payload3 (read_port_release pl) (handle_port_release3 ev k) h
      else if ty = MessageType1_text M1PortStateQ then send_state3 ev 0 k h
      else (h, []))"

text \<open>A new connection: the client object, its registration and what it is told.\<close>

definition welcome3 :: "env3 \<Rightarrow> conn \<Rightarrow> Control3 \<Rightarrow> Control3 \<times> h3_effect list" where
  "welcome3 ev k h =
     (let h = Register3 k (h\<lparr>h3_objects := (h3_objects h)(k \<mapsto> \<lparr>c3_Role = [], c3_closed = False, c3_once = False\<rparr>)\<rparr>);
          e1 = snd (Send3 ev 0 k Auth3 h); e2 = snd (Send3 ev 1 k (Alloc3 (h3_cfg h)) h);
          (h, e3) = send_state3 ev 2 k h
      in (h, e1 @ e2 @ e3))"

fun message_loop3 :: "conn \<Rightarrow> (env3 \<times> (Control3 \<Rightarrow> Control3) \<times> json option) list \<Rightarrow> Control3 \<Rightarrow> Control3 \<times> h3_effect list" where
  "message_loop3 k [] h = (h, [])"
| "message_loop3 k ((ev, other, inp) # ins) h =
     (case inp of
        None \<Rightarrow> Close3 ev k (other h)
      | Some v \<Rightarrow>
          (case decode_raw v of
             None \<Rightarrow> Close3 ev k (other h)
           | Some msg \<Rightarrow> (let (h, es) = handle_message3 ev k msg (other h); (h, fs) = message_loop3 k ins h in (h, es @ fs))))"

definition handleConnection3 ::
    "env3 \<Rightarrow> conn \<Rightarrow> (env3 \<times> (Control3 \<Rightarrow> Control3) \<times> json option) list \<Rightarrow> Control3 \<Rightarrow> Control3 \<times> h3_effect list" where
  "handleConnection3 ev k ins h =
     (let (h, es) = welcome3 ev k h; (h, fs) = message_loop3 k ins h in (h, es @ fs))"

definition StartServer3 :: "io_error option \<Rightarrow> (io_error + conn) list \<Rightarrow> Control3 \<Rightarrow> io_error option \<times> h3_effect list" where
  "StartServer3 err accepts h =
     (let port = (if h3_ctlPort h \<le> 0 then 5555 else h3_ctlPort h)
      in case err of
           Some e \<Rightarrow> (Some e, [])
         | None \<Rightarrow> (None, Listen3 port # concat (map (\<lambda>a. case a of Inl e \<Rightarrow> [] | Inr k \<Rightarrow> [Serve3 k]) accepts)))"

text \<open>The program (\<open>cmd/relay-server-v3/main.go\<close>): the pool, the listeners of every configured port, the state hook.\<close>

definition config_ports3 :: "PortAllocPayload \<Rightarrow> port list" where
  "config_ports3 cfg =
     (if pa_ZMQStartPort cfg > 0 \<and> pa_ZMQEndPort cfg \<ge> pa_ZMQStartPort cfg then [pa_ZMQStartPort cfg..pa_ZMQEndPort cfg] else []) @
     (if pa_SRTStartPort cfg > 0 \<and> pa_SRTEndPort cfg \<ge> pa_SRTStartPort cfg then [pa_SRTStartPort cfg..pa_SRTEndPort cfg] else [])"

definition relay_main3 :: "env3 \<Rightarrow> PortAllocPayload \<Rightarrow> port \<Rightarrow> Control3 \<times> h3_effect list" where
  "relay_main3 ev cfg ctlPort =
     (let h = NewControl3 cfg ctlPort;
          h = h\<lparr>h3_pm := SetRanges3 cfg cfg (ensureDefaultRanges cfg (h3_pm h))\<rparr>;
          (h, es) = seq_effects (start_port3 ev) (config_ports3 cfg) h
      in (h\<lparr>h3_relay := SetOnStateChange3 True (h3_relay h)\<rparr>, es))"

end
