(* ===== verification/HubV3Run.thy ===== *)
theory HubV3Run
  imports HubV3
begin

section \<open>What the control server of the third version keeps\<close>

text \<open>
  The invariant of the whole server of the third version (clients, leases and ports), its runs, and what broadcasts,
  grants and releases do in them.
\<close>

lemma seq_effects_inv3: "(\<And>x S. Q S \<Longrightarrow> Q (fst (f x S))) \<Longrightarrow> Q S \<Longrightarrow> Q (fst (seq_effects f xs S))"
  by (induction xs arbitrary: S) (simp_all add: case_prod_beta Let_def)

subsection \<open>The invariant\<close>

definition h3_ok :: "port set \<Rightarrow> Control3 \<Rightarrow> bool" where
  "h3_ok D h \<longleftrightarrow>
     pm3_ok D (h3_pm h) \<and> r3_inv (h3_relay h) \<and> distinct (h3_clients h) \<and> (\<forall>k \<in> set (h3_clients h). open3 h k) \<and>
     (\<forall>k c. h3_objects h k = Some c \<longrightarrow> (c3_once c \<longleftrightarrow> c3_closed c))"

abbreviation h3_inv :: "Control3 \<Rightarrow> bool" where
  "h3_inv \<equiv> h3_ok {}"

lemma h3_invD:
  "h3_ok D h \<Longrightarrow> pm3_ok D (h3_pm h)" "h3_ok D h \<Longrightarrow> r3_inv (h3_relay h)" "h3_ok D h \<Longrightarrow> distinct (h3_clients h)"
  "h3_ok D h \<Longrightarrow> k \<in> set (h3_clients h) \<Longrightarrow> open3 h k"
  "h3_ok D h \<Longrightarrow> h3_objects h k = Some c \<Longrightarrow> c3_once c = c3_closed c"
  unfolding h3_ok_def by blast+

lemma h3_inv_pm: "h3_ok D h \<Longrightarrow> pm3_ok D pm \<Longrightarrow> h3_ok D (h\<lparr>h3_pm := pm\<rparr>)"
  by (simp add: h3_ok_def open3_def)

lemma h3_inv_relay: "h3_ok D h \<Longrightarrow> r3_inv s \<Longrightarrow> h3_ok D (h\<lparr>h3_relay := s\<rparr>)"
  by (simp add: h3_ok_def open3_def)

lemma h3_inv_close: "h3_ok D h \<Longrightarrow> h3_ok D (fst (Close3 ev k h))"
  by (auto simp: h3_ok_def Close3_def Unregister3_def open3_def pm3_ok_many(2) split: option.splits)

lemma h3_inv_send_or_close: "h3_ok D h \<Longrightarrow> h3_ok D (fst (send_or_close3 ev i msg k h))"
  by (simp add: send_or_close3_def case_prod_beta Let_def h3_inv_close)

lemma h3_inv_broadcast: "h3_ok D h \<Longrightarrow> h3_ok D (fst (Broadcast3 ev i msg h))"
  unfolding Broadcast3_def by (rule seq_effects_inv3) (rule h3_inv_send_or_close)

lemma snapshot_keeps_r3: "r3_inv s \<Longrightarrow> r3_inv (fst (snd (SnapshotPortState3 probe o1 o2 s)))"
  using r3_step_inv [OF r3_step.snapshot] by blast

lemma h3_inv_snapshot: "h3_ok D h \<Longrightarrow> h3_ok D (fst (snd (take_snapshot3 ev i h)))"
  by (simp add: take_snapshot3_def case_prod_beta Let_def h3_inv_relay h3_invD(2) snapshot_keeps_r3)

lemma snapshot_state: "fst (snd (snapshotPortState3 ev i h)) = fst (snd (take_snapshot3 ev i h))"
  by (simp add: snapshotPortState3_def case_prod_beta Let_def)

lemma h3_inv_send_state: "h3_ok D h \<Longrightarrow> h3_ok D (fst (send_state3 ev i k h))"
  by (simp add: send_state3_def case_prod_beta Let_def snapshot_state h3_inv_snapshot)

lemma h3_inv_broadcast_state: "h3_ok D h \<Longrightarrow> h3_ok D (fst (BroadcastPortState3 ev i h))"
  by (simp add: BroadcastPortState3_def case_prod_beta Let_def snapshot_state h3_inv_snapshot h3_inv_broadcast)

lemma h3_inv_start_port: "h3_ok D h \<Longrightarrow> h3_ok D (fst (start_port3 ev p h))"
  using r3_step_inv [OF r3_step.start h3_invD(2)]
  by (simp add: start_port3_def case_prod_beta Let_def h3_inv_relay)

lemma h3_inv_reset_port: "h3_ok D h \<Longrightarrow> h3_ok D (fst (reset_port3 ev i p h))"
  using r3_step_inv [OF r3_step.reset h3_invD(2), of D h p]
  by (simp add: reset_port3_def case_prod_beta Let_def h3_inv_relay h3_inv_broadcast_state)

lemma h3_inv_start_ports: "h3_ok D h \<Longrightarrow> h3_ok D (fst (seq_effects (start_port3 ev) ps h))"
  by (rule seq_effects_inv3) (rule h3_inv_start_port)

lemma snapshot3_pm [simp]: "h3_pm (fst (snd (take_snapshot3 ev i h))) = h3_pm h"
  by (simp add: take_snapshot3_def case_prod_beta Let_def)

lemma h3_inv_acquire_ports:
  assumes "h3_inv h" "p3_bySession (h3_pm h) (e3_sid ev) = None"
  shows "h3_inv (fst (snd (acquire_ports3 ev k req h)))"
proof -
  obtain snap h1 e1 where 1: "take_snapshot3 ev 0 h = (snap, h1, e1)" by (metis prod_cases3)
  then have inv1: "h3_inv h1" "h3_pm h1 = h3_pm h"
    using h3_inv_snapshot [OF assms(1), of ev 0] snapshot3_pm [of ev 0 h] by simp_all
  show ?thesis
    using assms(2) h3_invD(1) [OF assms(1)]
    by (simp add: acquire_ports3_def 1 case_prod_beta Let_def inv1 h3_inv_snapshot h3_inv_pm pm3_inv_acquire)
qed

lemma h3_inv_other_message:
  assumes "h3_ok D h" and "fst msg \<noteq> MessageType1_text M1PortAcquire"
  shows "h3_ok D (fst (handle_message3 ev k msg h))"
proof -
  have alloc: "h3_ok D (fst (handle_port_alloc3 ev p h))" for p
    using assms(1)
    by (simp add: handle_port_alloc3_def case_prod_beta Let_def h3_inv_broadcast_state h3_inv_broadcast h3_inv_start_ports
        h3_inv_pm SetRanges3_def pm3_inv_ports h3_invD(1))
  have release: "h3_ok D (fst (handle_port_release3 ev k sid h))" for sid
    using assms(1) pm3_ok_ends(3) [OF h3_invD(1) [OF assms(1)]]
    by (simp add: handle_port_release3_def case_prod_beta Let_def h3_inv_broadcast_state h3_inv_broadcast h3_inv_reset_port h3_inv_pm)
  have reg: "h3_ok D (fst (handle_register3 k r h))" for r
    using assms(1) by (auto simp: handle_register3_def h3_ok_def open3_def split: option.split)
  have payload: "h3_ok D (fst (with_payload3 p f h))" if "\<And>a. h3_ok D (fst (f a h))" for p :: "'x option" and f
    using that assms(1) by (simp add: with_payload3_def split: option.split)
  have ping: "h3_ok D (fst (HandlePing3 ev k p h))" for p using assms(1) by (simp add: HandlePing3_def)
  show ?thesis
    using assms
    by (cases msg)
       (simp add: handle_message3_def payload ping alloc release reg h3_inv_broadcast h3_inv_send_state)
qed

lemma h3_inv_message:
  assumes "h3_inv h" and "p3_bySession (h3_pm h) (e3_sid ev) = None"
  shows "h3_inv (fst (handle_message3 ev k msg h))"
proof (cases "fst msg = MessageType1_text M1PortAcquire")
  case True
  have "h3_inv (fst (handle_port_acquire3 ev k req h))" for req
    using h3_inv_acquire_ports [OF assms]
    by (auto simp: handle_port_acquire3_def case_prod_beta Let_def h3_inv_broadcast h3_inv_start_port split: option.split)
  with True assms(1) show ?thesis by (cases msg) (simp add: handle_message3_def with_payload3_def split: option.split)
qed (rule h3_inv_other_message [OF assms(1)])

lemma h3_inv_welcome:
  assumes "h3_ok D h" "h3_objects h k = None"
  shows "h3_ok D (fst (welcome3 ev k h))"
proof -
  have "k \<notin> set (h3_clients h)" using h3_invD(4) [OF assms(1), of k] assms(2) by (auto simp: open3_def)
  then have "h3_ok D (Register3 k (h\<lparr>h3_objects := (h3_objects h)(k \<mapsto> \<lparr>c3_Role = [], c3_closed = False, c3_once = False\<rparr>)\<rparr>))"
    using assms by (auto simp: Register3_def h3_ok_def open3_def)
  then show ?thesis by (simp add: welcome3_def case_prod_beta Let_def h3_inv_send_state)
qed

subsection \<open>Runs\<close>

text \<open>Runs in which no two grants overlap. A session id is 12 random bytes, taken to be new. Handlers are steps; what the relay does
  by itself are its own. The theory \<open>GrantsV3\<close> takes the grants apart.\<close>

inductive h3_step :: "Control3 \<Rightarrow> Control3 \<Rightarrow> bool" where
  connect: "h3_objects h k = None \<Longrightarrow> h3_step h (fst (welcome3 ev k h))"
| message: "p3_bySession (h3_pm h) (e3_sid ev) = None \<Longrightarrow> h3_step h (fst (handle_message3 ev k msg h))"
| close: "h3_step h (fst (Close3 ev k h))"
| hook: "h3_step h (fst (BroadcastPortState3 ev i h))"
| expire: "h3_step h (h\<lparr>h3_pm := sweep3 now order (h3_pm h)\<rparr>)"
| relay: "r3_step (h3_relay h) s \<Longrightarrow> h3_step h (h\<lparr>h3_relay := s\<rparr>)"

lemma h3_step_inv: "h3_step h h' \<Longrightarrow> h3_inv h \<Longrightarrow> h3_inv h'"
  by (induction rule: h3_step.induct)
     (simp_all add: h3_inv_welcome h3_inv_message h3_inv_close h3_inv_broadcast_state h3_inv_pm h3_inv_relay h3_invD
       sweep3_inv r3_step_inv)

lemma h3_inv_main: "h3_ok D (fst (relay_main3 ev cfg port))"
proof -
  have "r3_inv GlobalRelay3" by (rule r3_run_inv) simp
  then have "h3_ok D (NewControl3 cfg port)" by (simp add: h3_ok_def NewControl3_def pm3_inv_New)
  moreover have "pm3_ok D (SetRanges3 cfg p (ensureDefaultRanges cfg pm))" if "pm3_ok D pm" for p pm
    using that by (simp add: SetRanges3_def ensureDefaultRanges_def pm3_inv_ports)
  ultimately have "h3_ok D (fst (seq_effects (start_port3 ev) (config_ports3 cfg)
      ((NewControl3 cfg port)\<lparr>h3_pm := SetRanges3 cfg cfg (ensureDefaultRanges cfg (h3_pm (NewControl3 cfg port)))\<rparr>)))"
    by (intro h3_inv_start_ports h3_inv_pm) (simp_all add: h3_invD)
  moreover have "r3_inv (SetOnStateChange3 True s)" if "r3_inv s" for s
    using that by (simp add: r3_inv_def SetOnStateChange3_def)
  ultimately show ?thesis
    by (simp add: relay_main3_def case_prod_beta Let_def h3_inv_relay h3_invD(2))
qed

lemma h3_run_inv: "h3_step\<^sup>*\<^sup>* (fst (relay_main3 ev cfg port)) h \<Longrightarrow> h3_inv h"
  by (induction rule: rtranclp_induct) (auto simp: h3_inv_main h3_step_inv)

definition ex_env3 :: env3 where
  "ex_env3 = \<lparr>e3_now = 0, e3_later = 1, e3_ok = (\<lambda>_ k. k \<noteq> 2), e3_order = (\<lambda>_ ks. ks), e3_sids = (\<lambda>_. [''s'']), e3_sid = ''s'',
     e3_probe = (\<lambda>_ _. None), e3_ports = (\<lambda>_. ([], [])), e3_tcp = (\<lambda>_. Inr 0), e3_udp = (\<lambda>_. Inr 0)\<rparr>"

definition ex_ports3 :: PortAllocPayload where
  "ex_ports3 = \<lparr>pa_ZMQStartPort = 7, pa_ZMQEndPort = 7, pa_SRTStartPort = 0, pa_SRTEndPort = 0\<rparr>"

definition ex_ctl3 :: Control3 where
  "ex_ctl3 = fst (welcome3 ex_env3 2 (fst (welcome3 ex_env3 1 (fst (relay_main3 ex_env3 ex_ports3 0)))))"

lemma ex_ctl3_run: "h3_step\<^sup>*\<^sup>* (fst (relay_main3 ex_env3 ex_ports3 0)) ex_ctl3"
proof -
  let ?h = "fst (relay_main3 ex_env3 ex_ports3 0)"
  have objects: "h3_objects (fst (seq_effects (start_port3 ev) ps h)) = h3_objects h" for ev ps h
    by (induction ps arbitrary: h) (simp_all add: case_prod_beta Let_def start_port3_def)
  then have none: "h3_objects ?h k = None" for k
    by (simp add: relay_main3_def case_prod_beta Let_def NewControl3_def)
  have "h3_objects (fst (welcome3 ex_env3 1 ?h)) 2 = None"
    by (simp add: welcome3_def case_prod_beta Let_def send_state3_def snapshot_state take_snapshot3_def Register3_def none)
  then have "h3_step (fst (welcome3 ex_env3 1 ?h)) ex_ctl3" unfolding ex_ctl3_def by (rule h3_step.connect)
  moreover have "h3_step ?h (fst (welcome3 ex_env3 1 ?h))" by (rule h3_step.connect [OF none])
  ultimately show ?thesis by (meson converse_rtranclp_into_rtranclp r_into_rtranclp)
qed

lemma ex_ctl3_clients: "h3_clients ex_ctl3 = [1, 2]" "h3_pm ex_ctl3 = NewPortManager3\<lparr>p3_ports := [7]\<rparr>"
proof -
  have keep: "h3_clients (fst (seq_effects (start_port3 ev) ps h)) = h3_clients h"
    "h3_pm (fst (seq_effects (start_port3 ev) ps h)) = h3_pm h" for ev ps h
    by (induction ps arbitrary: h) (simp_all add: case_prod_beta Let_def start_port3_def)
  have "h3_clients (fst (welcome3 ev k h)) = (if k \<in> set (h3_clients h) then h3_clients h else h3_clients h @ [k])"
    "h3_pm (fst (welcome3 ev k h)) = h3_pm h" for ev k h
    by (simp_all add: welcome3_def case_prod_beta Let_def send_state3_def snapshot_state take_snapshot3_def Register3_def)
  then show "h3_clients ex_ctl3 = [1, 2]" "h3_pm ex_ctl3 = NewPortManager3\<lparr>p3_ports := [7]\<rparr>"
    by (simp_all add: ex_ctl3_def relay_main3_def case_prod_beta Let_def keep NewControl3_def SetRanges3_def ensureDefaultRanges_def
        ex_ports3_def ports_or_config_def unionPortsFromRanges_def unionPortsFromConfig_def addRange_def dedupInts_def
        NewPortManager3_def upto.simps)
qed

subsection \<open>Broadcasts\<close>

lemma open3_close: "j \<noteq> k \<Longrightarrow> open3 (fst (Close3 ev k h)) j = open3 h j"
  by (auto simp: open3_def Close3_def Unregister3_def split: option.split)

lemma send_or_close3_open:
  assumes "h3_inv h" "open3 h k"
  shows "send_or_close3 ev i msg k h =
    (if e3_ok ev i k then (h, [Deliver3 k msg]) else (fst (Close3 ev k h), [Deliver3 k msg, HangUp3 k]))"
proof -
  obtain c where c: "h3_objects h k = Some c" "\<not> c3_closed c" using assms(2) by (auto simp: open3_def split: option.splits)
  with h3_invD(5) [OF assms(1) c(1)] show ?thesis
    by (simp add: send_or_close3_def Send3_def Close3_def)
qed

lemma close3_open:
  assumes "h3_inv h" "open3 h k"
  shows "h3_clients (fst (Close3 ev k h)) = filter (\<lambda>j. j \<noteq> k) (h3_clients h)" "h3_relay (fst (Close3 ev k h)) = h3_relay h"
    "h3_pm (fst (Close3 ev k h)) = ReleaseAllForOwner3 (e3_sids ev k) (Some k) (h3_pm h)"
proof -
  obtain c where c: "h3_objects h k = Some c" "\<not> c3_closed c" using assms(2) by (auto simp: open3_def split: option.splits)
  with h3_invD(5) [OF assms(1) c(1)]
  show "h3_clients (fst (Close3 ev k h)) = filter (\<lambda>j. j \<noteq> k) (h3_clients h)" "h3_relay (fst (Close3 ev k h)) = h3_relay h"
    "h3_pm (fst (Close3 ev k h)) = ReleaseAllForOwner3 (e3_sids ev k) (Some k) (h3_pm h)"
    by (simp_all add: Close3_def Unregister3_def)
qed

definition knows_leases :: "env3 \<Rightarrow> Control3 \<Rightarrow> bool" where
  "knows_leases ev h \<longleftrightarrow>
     (\<forall>k sid r. p3_bySession (h3_pm h) sid = Some r \<and> v3_owner r = Some k \<longrightarrow> sid \<in> set (e3_sids ev k))"

text \<open>Who is told, who stays, and which leases remain: one client after the other.\<close>

lemma broadcast_fold3:
  assumes "h3_inv h" "list_all (open3 h) ks" "distinct ks" "knows_leases ev h"
  shows "snd (seq_effects (send_or_close3 ev i msg) ks h) =
      concat (map (\<lambda>k. Deliver3 k msg # (if e3_ok ev i k then [] else [HangUp3 k])) ks) \<and>
    h3_clients (fst (seq_effects (send_or_close3 ev i msg) ks h)) = filter (\<lambda>k. k \<in> set ks \<longrightarrow> e3_ok ev i k) (h3_clients h) \<and>
    h3_relay (fst (seq_effects (send_or_close3 ev i msg) ks h)) = h3_relay h \<and>
    (p3_byPort (h3_pm (fst (seq_effects (send_or_close3 ev i msg) ks h))) p = Some r \<longleftrightarrow>
      p3_byPort (h3_pm h) p = Some r \<and> \<not> list_ex (\<lambda>k. \<not> e3_ok ev i k \<and> v3_owner r = Some k) ks)"
  using assms
proof (induction ks arbitrary: h)
  case (Cons k ks)
  have k: "open3 h k" and ks: "list_all (open3 h) ks" "k \<notin> set ks" "distinct ks" using Cons.prems(2,3) by simp_all
  note one = send_or_close3_open [OF Cons.prems(1) k, of ev i msg]
  show ?case
  proof (cases "e3_ok ev i k")
    case True
    with one Cons.IH [OF Cons.prems(1) ks(1,3) Cons.prems(4)] ks(2) show ?thesis
      by (auto simp: case_prod_beta Let_def intro: filter_cong)
  next
    case False
    let ?h = "fst (Close3 ev k h)"
    note closed = close3_open [OF Cons.prems(1) k, of ev]
    have pm: "pm3_inv (h3_pm h)" by (rule h3_invD(1) [OF Cons.prems(1)])
    have owned: "{sid. \<exists>r. p3_bySession (h3_pm h) sid = Some r \<and> v3_owner r = Some k} \<subseteq> set (e3_sids ev k)"
      using Cons.prems(4) by (auto simp: knows_leases_def)
    have port: "p3_byPort (h3_pm ?h) p = Some r \<longleftrightarrow> p3_byPort (h3_pm h) p = Some r \<and> v3_owner r \<noteq> Some k"
      using owned by (auto simp: closed byPort3 release_all3_inv pm release_all3_session)
    have "knows_leases ev ?h"
      using Cons.prems(4) by (auto simp: knows_leases_def closed release_all3_session [OF pm] split: if_splits)
    moreover have "list_all (open3 ?h) ks"
      unfolding list_all_iff
    proof
      fix j assume "j \<in> set ks"
      then show "open3 ?h j" using ks(1,2) open3_close [of j k ev h] by (auto simp: list_all_iff)
    qed
    ultimately have ih: "snd (seq_effects (send_or_close3 ev i msg) ks ?h) =
        concat (map (\<lambda>k. Deliver3 k msg # (if e3_ok ev i k then [] else [HangUp3 k])) ks)"
      "h3_clients (fst (seq_effects (send_or_close3 ev i msg) ks ?h)) = filter (\<lambda>k. k \<in> set ks \<longrightarrow> e3_ok ev i k) (h3_clients ?h)"
      "h3_relay (fst (seq_effects (send_or_close3 ev i msg) ks ?h)) = h3_relay ?h"
      "p3_byPort (h3_pm (fst (seq_effects (send_or_close3 ev i msg) ks ?h))) p = Some r \<longleftrightarrow>
        p3_byPort (h3_pm ?h) p = Some r \<and> \<not> list_ex (\<lambda>k. \<not> e3_ok ev i k \<and> v3_owner r = Some k) ks"
      using Cons.IH [OF h3_inv_close [OF Cons.prems(1)] _ ks(3)] by blast+
    have "filter (\<lambda>j. j \<in> set ks \<longrightarrow> e3_ok ev i j) (h3_clients ?h) = filter (\<lambda>j. j \<in> set (k # ks) \<longrightarrow> e3_ok ev i j) (h3_clients h)"
      unfolding closed filter_filter using False ks(2) by (auto intro: filter_cong)
    then show ?thesis
      using one False ih port closed(2) by (simp add: case_prod_beta Let_def)
  qed
qed simp

text \<open>
  C9. A broadcast reaches every client once, and a client that cannot be reached loses its leases. Each
  registered client is sent the message, in the order of the map; exactly those whose write fails are hung up on and leave the
  registry, and exactly their leases end; the relay is not touched.
\<close>
theorem broadcast3_exact:
  assumes "h3_inv h" and "distinct (e3_order ev i (h3_clients h))" and "set (e3_order ev i (h3_clients h)) = set (h3_clients h)"
    and "knows_leases ev h"
  shows "snd (Broadcast3 ev i msg h) =
      concat (map (\<lambda>k. Deliver3 k msg # (if e3_ok ev i k then [] else [HangUp3 k])) (e3_order ev i (h3_clients h))) \<and>
    h3_clients (fst (Broadcast3 ev i msg h)) = filter (e3_ok ev i) (h3_clients h) \<and>
    h3_relay (fst (Broadcast3 ev i msg h)) = h3_relay h \<and>
    (p3_byPort (h3_pm (fst (Broadcast3 ev i msg h))) p = Some r \<longleftrightarrow>
      p3_byPort (h3_pm h) p = Some r \<and> \<not> list_ex (\<lambda>k. \<not> e3_ok ev i k \<and> v3_owner r = Some k) (h3_clients h))"
proof -
  have all: "list_all (open3 h) (e3_order ev i (h3_clients h))"
    using h3_invD(4) [OF assms(1)] assms(3) by (simp add: list_all_iff)
  then have "filter (open3 h) (e3_order ev i (h3_clients h)) = e3_order ev i (h3_clients h)"
    by (simp add: filter_id_conv list_all_iff)
  moreover have "list_ex P (e3_order ev i (h3_clients h)) = list_ex P (h3_clients h)" for P
    using assms(3) by (simp add: list_ex_iff)
  moreover have "filter (\<lambda>k. k \<in> set (h3_clients h) \<longrightarrow> e3_ok ev i k) (h3_clients h) = filter (e3_ok ev i) (h3_clients h)"
    by (rule filter_cong) auto
  ultimately show ?thesis
    using broadcast_fold3 [OF assms(1) all assms(2,4), of i msg p r] by (simp add: Broadcast3_def assms(3))
qed

lemma broadcast3_exact_witness:
  "h3_clients (fst (Broadcast3 ex_env3 0 Auth3 ex_ctl3)) = [1] \<and>
   snd (Broadcast3 ex_env3 0 Auth3 ex_ctl3) = [Deliver3 1 Auth3, Deliver3 2 Auth3, HangUp3 2]"
proof -
  have "knows_leases ex_env3 ex_ctl3" by (simp add: knows_leases_def ex_ctl3_clients NewPortManager3_def)
  from broadcast3_exact [OF h3_run_inv [OF ex_ctl3_run] _ _ this, of 0 Auth3 7] show ?thesis
    by (simp add: ex_env3_def ex_ctl3_clients)
qed

subsection \<open>Releases\<close>

text \<open>A port that has been given back: no lease, and a slot with nothing in it.\<close>

definition slot_clear :: "portSlot \<Rightarrow> bool" where
  "slot_clear sl \<longleftrightarrow>
     \<not> sl_tcpBusy sl \<and> sl_tcpSession sl = None \<and> sl_pendingBE sl = None \<and> sl_pendingFE sl = None \<and>
     sl_udpA sl = None \<and> sl_udpB sl = None"

definition port_clear :: "RelayServer3 \<Rightarrow> port \<Rightarrow> bool" where
  "port_clear s p \<longleftrightarrow> (case r3_slots s p of None \<Rightarrow> True | Some sl \<Rightarrow> slot_clear sl)"

definition given_back :: "port \<Rightarrow> string \<Rightarrow> Control3 \<Rightarrow> bool" where
  "given_back p sid h \<longleftrightarrow>
     h3_inv h \<and> p3_byPort (h3_pm h) p = None \<and> p3_bySession (h3_pm h) sid = None \<and> port_clear (h3_relay h) p"

lemma no_port_left:
  assumes "pm3_inv pm" "pm3_inv pm'" "p3_byPort pm p = None"
    and "\<And>x r. p3_bySession pm' x = Some r \<Longrightarrow> p3_bySession pm x = Some r"
  shows "p3_byPort pm' p = None"
proof (cases "p3_byPort pm' p")
  case (Some r)
  then have "p3_bySession pm (v3_sessionID r) = Some r" "v3_port r = p"
    using byPort3 [OF assms(2)] assms(4) by blast+
  then have "p3_byPort pm p = Some r" using byPort3 [OF assms(1)] by blast
  with assms(3) show ?thesis by simp
qed

lemma close_pm: "h3_pm (fst (Close3 ev k h)) = h3_pm h \<or> h3_pm (fst (Close3 ev k h)) = ReleaseAllForOwner3 (e3_sids ev k) (Some k) (h3_pm h)"
  by (auto simp: Close3_def Unregister3_def split: option.split)

lemma close_relay [simp]: "h3_relay (fst (Close3 ev k h)) = h3_relay h"
  by (auto simp: Close3_def Unregister3_def split: option.split)

lemma given_back_close:
  assumes "given_back p sid h"
  shows "given_back p sid (fst (Close3 ev k h))"
proof -
  have inv: "h3_inv h" and pm: "pm3_inv (h3_pm h)" using assms h3_invD(1) by (auto simp: given_back_def)
  let ?pm = "ReleaseAllForOwner3 (e3_sids ev k) (Some k) (h3_pm h)"
  have "p3_byPort ?pm p = None"
    by (rule no_port_left [OF pm release_all3_inv [OF pm]])
       (use assms in \<open>auto simp: given_back_def release_all3_session [OF pm] split: if_splits\<close>)
  moreover have "p3_bySession ?pm sid = None" using assms by (simp add: given_back_def release_all3_session [OF pm])
  ultimately show ?thesis
    using assms close_pm [of ev k h] h3_inv_close [OF inv] by (auto simp: given_back_def)
qed

lemma given_back_broadcast: "given_back p sid h \<Longrightarrow> given_back p sid (fst (Broadcast3 ev i msg h))"
  unfolding Broadcast3_def
  by (rule seq_effects_inv3) (simp_all add: send_or_close3_def case_prod_beta Let_def given_back_close)

lemma port_clear_cleanup: "port_clear s p \<Longrightarrow> port_clear (fst (cleanup_slot probe q s)) p"
  by (auto simp: port_clear_def cleanup_slot_def slot_clear_def probe3_def case_prod_beta Let_def split: option.split)

lemma given_back_snapshot: "given_back p sid h \<Longrightarrow> given_back p sid (fst (snd (take_snapshot3 ev i h)))"
proof -
  assume h: "given_back p sid h"
  then have "port_clear (fst (seq_effects (cleanup_slot (e3_probe ev i)) (fst (e3_ports ev i)) (h3_relay h))) p"
    by (intro seq_effects_inv3 [of "\<lambda>s. port_clear s p"]) (simp_all add: port_clear_cleanup given_back_def)
  then show ?thesis
    using h h3_inv_snapshot [of "{}" h ev i]
    by (simp add: given_back_def take_snapshot3_def SnapshotPortState3_def case_prod_beta Let_def)
qed

lemma given_back_broadcast_state: "given_back p sid h \<Longrightarrow> given_back p sid (fst (BroadcastPortState3 ev i h))"
  by (simp add: BroadcastPortState3_def case_prod_beta Let_def snapshot_state given_back_snapshot given_back_broadcast)

lemma reset_clears: "port_clear (fst (ResetPort3 p s)) p"
  by (auto simp: port_clear_def ResetPort3_def reset_slot_def slot_clear_def case_prod_beta Let_def split: option.split)

lemma reset_hangs_up:
  "r3_slots s p = Some sl \<Longrightarrow> set (close3 (sl_pendingBE sl) @ close3 (sl_pendingFE sl)) \<subseteq> set (snd (ResetPort3 p s))"
  by (auto simp: ResetPort3_def case_prod_beta Let_def)

text \<open>
  C10. A release gives the whole port back. When a client releases a session it owns (or that has no owner), afterwards
  nobody holds the port or the session, the port has no TCP session, no waiting connection and no UDP peers, and the
  connections that waited there have been closed; a session of another client, or an unknown one, is left
  alone and nothing is sent.
\<close>
theorem release3_gives_back:
  assumes "h3_inv h"
  shows "case p3_bySession (h3_pm h) sid of
      None \<Rightarrow> handle_port_release3 ev k sid h = (h, [])
    | Some r \<Rightarrow>
        (v3_owner r \<noteq> None \<and> v3_owner r \<noteq> Some k \<longrightarrow> handle_port_release3 ev k sid h = (h, [])) \<and>
        ((v3_owner r = None \<or> v3_owner r = Some k) \<and> 0 < v3_port r \<longrightarrow>
           given_back (v3_port r) sid (fst (handle_port_release3 ev k sid h)) \<and>
           (\<forall>sl. r3_slots (h3_relay h) (v3_port r) = Some sl \<longrightarrow>
              set (map Relay3 (close3 (sl_pendingBE sl) @ close3 (sl_pendingFE sl))) \<subseteq> set (snd (handle_port_release3 ev k sid h))))"
proof (cases "p3_bySession (h3_pm h) sid")
  case None
  then show ?thesis by (simp add: handle_port_release3_def Release3_def)
next
  case (Some r)
  have pm: "pm3_inv (h3_pm h)" by (rule h3_invD(1) [OF assms])
  have sid: "v3_sessionID r = sid" by (rule pm3_invD(1) [OF pm Some])
  let ?pm = "deleteReservation3 r (h3_pm h)"
  let ?h = "h\<lparr>h3_pm := ?pm\<rparr>"
  let ?r = "h\<lparr>h3_pm := ?pm, h3_relay := fst (ResetPort3 (v3_port r) (h3_relay h))\<rparr>"
  have "h3_inv ?h" by (rule h3_inv_pm [OF assms pm3_inv_delete [OF pm Some]])
  then have "h3_inv ?r"
    using r3_step_inv [OF r3_step.reset h3_invD(2) [OF assms]] h3_inv_relay [of "{}" ?h] by simp
  then have "given_back (v3_port r) sid ?r" by (simp add: given_back_def delete3_fields sid reset_clears)
  then have reset: "given_back (v3_port r) sid (fst (reset_port3 ev 0 (v3_port r) ?h))"
    by (simp add: reset_port3_def case_prod_beta Let_def given_back_broadcast_state)
  have hung: "set (map Relay3 (close3 (sl_pendingBE sl) @ close3 (sl_pendingFE sl))) \<subseteq> set (snd (reset_port3 ev 0 (v3_port r) ?h))"
    if "r3_slots (h3_relay h) (v3_port r) = Some sl" for sl
    using reset_hangs_up [OF that] by (auto simp: reset_port3_def case_prod_beta Let_def)
  have granted: "handle_port_release3 ev k sid h =
      (let (h, e1) = reset_port3 ev 0 (v3_port r) ?h; (h, e2) = Broadcast3 ev 1 (Released3 sid) h;
           (h, e3) = BroadcastPortState3 ev 2 h in (h, e1 @ e2 @ e3))"
    if "v3_owner r = None \<or> v3_owner r = Some k" "0 < v3_port r"
    using that by (auto simp: handle_port_release3_def Release3_def Some)
  have other: "handle_port_release3 ev k sid h = (h, [])" if "v3_owner r \<noteq> None" "v3_owner r \<noteq> Some k"
    using that by (simp add: handle_port_release3_def Release3_def Some)
  have "given_back (v3_port r) sid (fst (handle_port_release3 ev k sid h)) \<and>
      (\<forall>sl. r3_slots (h3_relay h) (v3_port r) = Some sl \<longrightarrow>
         set (map Relay3 (close3 (sl_pendingBE sl) @ close3 (sl_pendingFE sl))) \<subseteq> set (snd (handle_port_release3 ev k sid h)))"
    if "v3_owner r = None \<or> v3_owner r = Some k" "0 < v3_port r"
  proof -
    have "set (snd (reset_port3 ev 0 (v3_port r) ?h)) \<subseteq> set (snd (handle_port_release3 ev k sid h))"
      unfolding granted [OF that] by (auto simp: case_prod_beta Let_def)
    moreover have "given_back (v3_port r) sid (fst (handle_port_release3 ev k sid h))"
      unfolding granted [OF that] using reset
      by (simp add: case_prod_beta Let_def given_back_broadcast given_back_broadcast_state)
    ultimately show ?thesis using hung by blast
  qed
  with other show ?thesis unfolding Some option.case by blast
qed

lemma release3_gives_back_witness:
  "given_back 7 ''s'' (fst (handle_port_release3 ex_env3 1 ''s'' (ex_ctl3\<lparr>h3_pm := ex_leased\<rparr>)))"
proof -
  have lease: "pm3_inv ex_leased"
    unfolding ex_leased_def by (rule pm3_inv_reserve [OF pm3_inv_New]) (simp_all add: NewPortManager3_def isPortAvailable3_def)
  have "p3_bySession ex_leased ''s'' = Some \<lparr>v3_sessionID = ''s'', v3_port = 7, v3_owner = Some 1, v3_expiresAt = expiry3 0 ex_req\<rparr>"
    by (simp add: ex_leased_def reserve3_fields)
  then show ?thesis
    using release3_gives_back [OF h3_inv_pm [OF h3_run_inv [OF ex_ctl3_run] lease], of ex_env3 1 "''s''"] by simp
qed

end
