(* ===== verification/GrantsV3.thy ===== *)
theory GrantsV3
  imports HubV3Run "HOL-Library.Multiset"
begin

section \<open>Grants of the third version that overlap\<close>

text \<open>
  A grant of the third version is not one locked region: \<open>AcquireFromReady\<close> and \<open>Acquire\<close> (v3/control/port_manager.go) look a
  port up under the mutex and reserve it under the mutex again, and other handlers run in between. The runs here have the grants
  between their two regions beside the server, and remember, for the statements only, the ports of which
  two grants have overlapped. The other calls of the manager and broadcasts are steps of their own too, beside the handlers made
  of them. The steps of the relay are those of \<open>RelayV3\<close>, where a port has one accept loop, as it has in this program, which
  never stops a port.
\<close>

subsection \<open>Runs\<close>

text \<open>A grant that has found its port free and not reserved it yet: the client, its request and the port.\<close>

type_synonym grant3 = "conn \<times> PortAcquirePayload \<times> port"

definition grant_port :: "grant3 \<Rightarrow> port" where
  "grant_port g = snd (snd g)"

abbreviation grants_of :: "port \<Rightarrow> grant3 multiset \<Rightarrow> grant3 multiset" where
  "grants_of p F \<equiv> filter_mset (\<lambda>g. grant_port g = p) F"

type_synonym server3 = "Control3 \<times> grant3 multiset \<times> port set"

inductive g3_step :: "server3 \<Rightarrow> server3 \<Rightarrow> bool" where
  connect: "h3_objects h k = None \<Longrightarrow> g3_step (h, F, D) (fst (welcome3 ev k h), F, D)"
| message: "fst msg \<noteq> MessageType1_text M1PortAcquire \<Longrightarrow> g3_step (h, F, D) (fst (handle_message3 ev k msg h), F, D)"
| close: "g3_step (h, F, D) (fst (Close3 ev k h), F, D)"
| hook: "g3_step (h, F, D) (fst (BroadcastPortState3 ev i h), F, D)"
| expire: "g3_step (h, F, D) (h\<lparr>h3_pm := sweep3 now order (h3_pm h)\<rparr>, F, D)"
| relay: "r3_step (h3_relay h) s \<Longrightarrow> g3_step (h, F, D) (h\<lparr>h3_relay := s\<rparr>, F, D)"
| snapshot: "g3_step (h, F, D) (fst (snd (take_snapshot3 ev i h)), F, D)"
| look: "isPortAvailable3 p (h3_pm h) \<Longrightarrow>
    g3_step (h, F, D) (h, F + {#(k, req, p)#}, D \<union> {q. q = p \<and> grants_of p F \<noteq> {#}})"
| reserve: "(k, req, p) \<in># F \<Longrightarrow> p3_bySession (h3_pm h) sid = None \<Longrightarrow>
    g3_step (h, F, D) (h\<lparr>h3_pm := snd (reservePort3 now sid (Some k) req p (h3_pm h))\<rparr>, F - {#(k, req, p)#}, D)"
| listen: "g3_step (h, F, D) (fst (start_port3 ev p h), F, D)"
| tell: "g3_step (h, F, D) (fst (Broadcast3 ev i msg h), F, D)"
| ranges: "g3_step (h, F, D) (h\<lparr>h3_pm := SetRanges3 cfg pl (h3_pm h)\<rparr>, F, D)"
| release: "g3_step (h, F, D) (h\<lparr>h3_pm := snd (Release3 owner sid (h3_pm h))\<rparr>, F, D)"

text \<open>The handler of a request, as it is written, is such a run: its snapshots, the lookup, the reservation, the listener and
  the broadcast (the send to the client changes nothing).\<close>

lemma acquire_is_run:
  assumes "p3_bySession (h3_pm h) (e3_sid ev) = None"
  shows "\<exists>D'. g3_step\<^sup>*\<^sup>* (h, F, D) (fst (handle_port_acquire3 ev k req h), F, D')"
proof -
  obtain snap h1 e1 where 1: "take_snapshot3 ev 0 h = (snap, h1, e1)" by (metis prod_cases3)
  define S2 where "S2 = (if first_available (\<lambda>_. h3_pm h1) (ps3_ReadyPorts snap) = None then take_snapshot3 ev 1 h1 else (snap, h1, []))"
  obtain snap2 h2 e2 where 2: "S2 = (snap2, h2, e2)" by (metis prod_cases3)
  have "h2 = h1 \<or> h2 = fst (snd (take_snapshot3 ev 1 h1))" using 2 by (auto simp: S2_def split: if_splits)
  moreover have "h1 = fst (snd (take_snapshot3 ev 0 h))" by (simp add: 1)
  ultimately have pm: "h3_pm h1 = h3_pm h" "h3_pm h2 = h3_pm h" by (metis snapshot3_pm)+
  have step1: "g3_step (h, F, D) (h1, F, D)" for F D using g3_step.snapshot [of h F D ev 0] 1 by simp
  have "h2 = h1 \<or> g3_step (h1, F, D) (h2, F, D)" for F D
    using g3_step.snapshot [of h1 F D ev 1] 2 by (auto simp: S2_def split: if_splits)
  with step1 have run2: "g3_step\<^sup>*\<^sup>* (h, F, D) (h2, F, D)" by (metis rtranclp.simps)
  obtain out pm' where grant: "AcquireFromReady3 (e3_now ev) (e3_sid ev) snap (\<lambda>_. h3_pm h1) snap2 (\<lambda>_. h3_pm h2) (Some k) req (h3_pm h2) = (out, pm')"
    by (metis surj_pair)
  have acq: "acquire_ports3 ev k req h = (out, h2\<lparr>h3_pm := pm'\<rparr>, e1 @ e2)"
    using 2 grant by (simp add: acquire_ports3_def 1 S2_def [symmetric])
  show ?thesis
  proof (cases out)
    case None
    then have "pm' = h3_pm h2"
      using grant by (auto simp: AcquireFromReady3_def Acquire3_def case_prod_beta Let_def split: option.splits)
    then show ?thesis using run2 None by (auto simp: handle_port_acquire3_def acq)
  next
    case (Some g)
    then obtain p where p: "isPortAvailable3 p (h3_pm h2)" "pm' = snd (reservePort3 (e3_now ev) (e3_sid ev) (Some k) req p (h3_pm h2))"
      using grant first_available_free [of "\<lambda>_. h3_pm h1" "ps3_ReadyPorts snap"] first_available_free [of "\<lambda>_. h3_pm h2" "ps3_EmptyPorts snap2"]
      by (auto simp: AcquireFromReady3_def Acquire3_def case_prod_beta Let_def pm split: option.splits)
    let ?D = "D \<union> {q. q = p \<and> grants_of p F \<noteq> {#}}"
    let ?h3 = "h2\<lparr>h3_pm := pm'\<rparr>"
    let ?h4 = "fst (start_port3 ev (gr_ZMQPort g) ?h3)"
    note run2
    also have "g3_step (h2, F, D) (h2, F + {#(k, req, p)#}, ?D)" by (rule g3_step.look [OF p(1)])
    also have "g3_step (h2, F + {#(k, req, p)#}, ?D) (?h3, F, ?D)"
      using g3_step.reserve [of k req p "F + {#(k, req, p)#}" h2 "e3_sid ev" ?D "e3_now ev"] assms by (simp add: p(2) pm)
    also have "g3_step (?h3, F, ?D) (?h4, F, ?D)" by (rule g3_step.listen)
    also have "g3_step (?h4, F, ?D) (fst (Broadcast3 ev 1 (Grant3 g) ?h4), F, ?D)" by (rule g3_step.tell)
    also have "fst (Broadcast3 ev 1 (Grant3 g) ?h4) = fst (handle_port_acquire3 ev k req h)"
      by (simp add: handle_port_acquire3_def acq Some case_prod_beta Let_def)
    finally have "g3_step\<^sup>*\<^sup>* (h, F, D) (fst (handle_port_acquire3 ev k req h), F, ?D)" .
    then show ?thesis by blast
  qed
qed

subsection \<open>No handler takes a port\<close>

definition frees3 :: "Control3 \<Rightarrow> Control3 \<Rightarrow> bool" where
  "frees3 h h' \<longleftrightarrow> frees (h3_pm h) (h3_pm h')"

lemma frees3_refl [simp]: "frees3 h h"
  by (simp add: frees3_def)

lemma frees3_trans: "frees3 h h1 \<Longrightarrow> frees3 h1 h2 \<Longrightarrow> frees3 h h2"
  unfolding frees3_def by (rule frees_trans)

lemma frees3_close: "frees3 h (fst (Close3 ev k h))"
  by (simp add: frees3_def Close3_def Unregister3_def frees_many split: option.split)

lemma frees3_seq:
  assumes "\<And>x h. frees3 h (fst (f x h))"
  shows "frees3 h (fst (seq_effects f xs h))"
proof (induction xs arbitrary: h)
  case (Cons x xs)
  show ?case using frees3_trans [OF assms Cons] by (simp add: case_prod_beta Let_def)
qed simp

lemma frees3_broadcast: "frees3 h (fst (Broadcast3 ev i msg h))"
  unfolding Broadcast3_def by (rule frees3_seq) (simp add: send_or_close3_def case_prod_beta Let_def frees3_close)

lemma frees3_snapshot: "frees3 h (fst (snd (take_snapshot3 ev i h)))"
  by (simp add: frees3_def)

lemma frees3_broadcast_state: "frees3 h (fst (BroadcastPortState3 ev i h))"
  using frees3_trans [OF frees3_snapshot frees3_broadcast] by (simp add: BroadcastPortState3_def case_prod_beta Let_def snapshot_state)

lemma frees3_start: "frees3 h (fst (start_port3 ev p h))"
  by (simp add: frees3_def start_port3_def case_prod_beta Let_def)

lemma frees3_reset: "frees3 h (fst (reset_port3 ev i p h))"
  using frees3_broadcast_state [of "h\<lparr>h3_relay := s\<rparr>" ev i for s]
  by (auto simp: reset_port3_def case_prod_beta Let_def frees3_def)

lemma frees3_send_state: "frees3 h (fst (send_state3 ev i k h))"
  using frees3_snapshot by (simp add: send_state3_def case_prod_beta Let_def snapshot_state)

lemma frees3_message:
  assumes "fst msg \<noteq> MessageType1_text M1PortAcquire"
  shows "frees3 h (fst (handle_message3 ev k msg h))"
proof -
  have pm: "frees3 (h\<lparr>h3_pm := pm\<rparr>) h' \<Longrightarrow> frees (h3_pm h) pm \<Longrightarrow> frees3 h h'" for pm h'
    using frees_trans by (simp add: frees3_def)
  have alloc: "frees3 h (fst (handle_port_alloc3 ev p h))" for p
  proof (rule pm)
    let ?h = "h\<lparr>h3_pm := SetRanges3 (h3_cfg h) p (h3_pm h)\<rparr>"
    let ?h1 = "fst (seq_effects (start_port3 ev) (filter (\<lambda>q. q > 0) (ports_or_config (h3_cfg h) p)) ?h)"
    have "frees3 ?h (fst (BroadcastPortState3 ev 1 (fst (Broadcast3 ev 0 (Alloc3 p) ?h1))))"
      by (intro frees3_trans [OF frees3_seq frees3_trans [OF frees3_broadcast frees3_broadcast_state]] frees3_start)
    then show "frees3 ?h (fst (handle_port_alloc3 ev p h))" by (simp add: handle_port_alloc3_def case_prod_beta Let_def)
    show "frees (h3_pm h) (SetRanges3 (h3_cfg h) p (h3_pm h))" by (simp add: SetRanges3_def frees_ends)
  qed
  have release: "frees3 h (fst (handle_port_release3 ev k sid h))" for sid
  proof (rule pm)
    let ?h = "h\<lparr>h3_pm := snd (Release3 (Some k) sid (h3_pm h))\<rparr>"
    have "frees3 ?h (fst (BroadcastPortState3 ev 2 (fst (Broadcast3 ev 1 m (fst (reset_port3 ev 0 p ?h))))))" for m p
      by (intro frees3_trans [OF frees3_reset frees3_trans [OF frees3_broadcast frees3_broadcast_state]])
    then show "frees3 ?h (fst (handle_port_release3 ev k sid h))" by (simp add: handle_port_release3_def case_prod_beta Let_def)
    show "frees (h3_pm h) (snd (Release3 (Some k) sid (h3_pm h)))" by (rule frees_ends)
  qed
  have reg: "frees3 h (fst (handle_register3 k r h))" for r
    by (simp add: handle_register3_def frees3_def split: option.split)
  have payload: "frees3 h (fst (with_payload3 p f h))" if "\<And>a. frees3 h (fst (f a h))" for p :: "'x option" and f
    using that by (simp add: with_payload3_def split: option.split)
  have ping: "frees3 h (fst (HandlePing3 ev k p h))" for p by (simp add: HandlePing3_def)
  show ?thesis
    using assms
    by (cases msg) (simp add: handle_message3_def payload ping alloc release reg frees3_broadcast frees3_send_state)
qed

lemma frees3_welcome: "frees3 h (fst (welcome3 ev k h))"
proof -
  have "h3_pm (fst (welcome3 ev k h)) = h3_pm h"
    by (simp add: welcome3_def send_state3_def case_prod_beta Let_def snapshot_state Register3_def)
  then show ?thesis by (simp add: frees3_def)
qed

subsection \<open>The invariant\<close>

text \<open>Of a port outside \<open>D\<close> at most one grant is between its two regions, and the port is still free for it.\<close>

definition g3_inv :: "server3 \<Rightarrow> bool" where
  "g3_inv S \<longleftrightarrow>
     (let (h, F, D) = S in h3_ok D h \<and>
        (\<forall>p. p \<notin> D \<longrightarrow> size (grants_of p F) \<le> 1 \<and> (grants_of p F \<noteq> {#} \<longrightarrow> isPortAvailable3 p (h3_pm h))))"

lemma g3_invD:
  assumes "g3_inv (h, F, D)"
  shows "h3_ok D h" "p \<notin> D \<Longrightarrow> size (grants_of p F) \<le> 1" "p \<notin> D \<Longrightarrow> grants_of p F \<noteq> {#} \<Longrightarrow> isPortAvailable3 p (h3_pm h)"
  using assms by (simp_all add: g3_inv_def)

lemma g3_inv_keep: "g3_inv (h, F, D) \<Longrightarrow> h3_ok D h' \<Longrightarrow> frees3 h h' \<Longrightarrow> g3_inv (h', F, D)"
  by (simp add: g3_inv_def frees3_def frees_def)

lemma g3_inv_pm: "g3_inv (h, F, D) \<Longrightarrow> pm3_ok D pm \<Longrightarrow> frees (h3_pm h) pm \<Longrightarrow> g3_inv (h\<lparr>h3_pm := pm\<rparr>, F, D)"
  by (rule g3_inv_keep) (simp_all add: g3_invD h3_inv_pm frees3_def)

lemma h3_ok_mono: "h3_ok D h \<Longrightarrow> D \<subseteq> E \<Longrightarrow> h3_ok E h"
  unfolding h3_ok_def pm3_ok_def by blast

lemma g3_inv_look:
  assumes inv: "g3_inv (h, F, D)" and free: "isPortAvailable3 p (h3_pm h)"
  shows "g3_inv (h, F + {#(k, req, p)#}, D \<union> {q. q = p \<and> grants_of p F \<noteq> {#}})"
proof -
  have "h3_ok (D \<union> {q. q = p \<and> grants_of p F \<noteq> {#}}) h" by (rule h3_ok_mono [OF g3_invD(1) [OF inv]]) blast
  then show ?thesis
    using g3_invD(2,3) [OF inv] free by (auto simp: g3_inv_def grant_port_def)
qed

lemma g3_inv_reserve:
  assumes inv: "g3_inv (h, F, D)" and g: "(k, req, p) \<in># F" and fresh: "p3_bySession (h3_pm h) sid = None"
  shows "g3_inv (h\<lparr>h3_pm := snd (reservePort3 now sid (Some k) req p (h3_pm h))\<rparr>, F - {#(k, req, p)#}, D)"
proof -
  let ?pm = "snd (reservePort3 now sid (Some k) req p (h3_pm h))"
  obtain G where G: "F = add_mset (k, req, p) G" using g by (metis mset_add)
  have "p \<notin> D \<Longrightarrow> isPortAvailable3 p (h3_pm h)" using g3_invD(3) [OF inv, of p] by (simp add: G grant_port_def)
  then have "h3_ok D (h\<lparr>h3_pm := ?pm\<rparr>)"
    using h3_inv_pm [OF g3_invD(1) [OF inv]] pm3_inv_reserve [OF h3_invD(1) [OF g3_invD(1) [OF inv]] fresh] by blast
  moreover have "size (grants_of q G) \<le> 1 \<and> (grants_of q G \<noteq> {#} \<longrightarrow> isPortAvailable3 q ?pm)" if "q \<notin> D" for q
  proof (cases "q = p")
    case True
    then have "size (grants_of q G) = 0" using g3_invD(2) [OF inv that] by (simp only: G) (simp add: grant_port_def)
    then show ?thesis by (simp only: size_eq_0_iff_empty) simp
  next
    case False
    then show ?thesis
      using g3_invD(2,3) [OF inv that] by (simp add: G grant_port_def isPortAvailable3_def reserve3_fields)
  qed
  ultimately show ?thesis by (simp add: g3_inv_def G)
qed

lemma g3_step_inv: "g3_step S S' \<Longrightarrow> g3_inv S \<Longrightarrow> g3_inv S'"
proof (induction rule: g3_step.induct)
  case (connect h k F D ev)
  show ?case by (rule g3_inv_keep [OF connect(2) h3_inv_welcome frees3_welcome]) (use connect g3_invD(1) in blast)+
next
  case (message msg h F D ev k)
  show ?case by (rule g3_inv_keep [OF message(2) h3_inv_other_message frees3_message]) (use message g3_invD(1) in blast)+
next
  case (close h F D ev k)
  show ?case by (rule g3_inv_keep [OF close h3_inv_close [OF g3_invD(1) [OF close]] frees3_close])
next
  case (hook h F D ev i)
  show ?case by (rule g3_inv_keep [OF hook h3_inv_broadcast_state [OF g3_invD(1) [OF hook]] frees3_broadcast_state])
next
  case (expire h F D now order)
  show ?case by (rule g3_inv_pm [OF expire pm3_ok_many(1) frees_many(1)]) (rule h3_invD(1) [OF g3_invD(1) [OF expire]])
next
  case (relay h s F D)
  have "h3_ok D (h\<lparr>h3_relay := s\<rparr>)"
    using r3_step_inv [OF relay(1)] h3_inv_relay h3_invD(2) g3_invD(1) [OF relay(2)] by blast
  then show ?case by (rule g3_inv_keep [OF relay(2)]) (simp add: frees3_def)
next
  case (snapshot h F D ev i)
  show ?case by (rule g3_inv_keep [OF snapshot h3_inv_snapshot [OF g3_invD(1) [OF snapshot]] frees3_snapshot])
next
  case (listen h F D ev p)
  show ?case by (rule g3_inv_keep [OF listen h3_inv_start_port [OF g3_invD(1) [OF listen]] frees3_start])
next
  case (tell h F D ev i msg)
  show ?case by (rule g3_inv_keep [OF tell h3_inv_broadcast [OF g3_invD(1) [OF tell]] frees3_broadcast])
next
  case (ranges h F D cfg pl)
  show ?case
    using h3_invD(1) [OF g3_invD(1) [OF ranges]] by (intro g3_inv_pm [OF ranges]) (simp_all add: SetRanges3_def pm3_inv_ports frees_ends)
next
  case (release h F D owner sid)
  show ?case by (rule g3_inv_pm [OF release pm3_ok_ends(3) frees_ends(4)]) (rule h3_invD(1) [OF g3_invD(1) [OF release]])
qed (simp_all only: g3_inv_look g3_inv_reserve)

lemma g3_run_inv: "g3_step\<^sup>*\<^sup>* (fst (relay_main3 ev cfg port), {#}, {}) S \<Longrightarrow> g3_inv S"
proof (induction rule: rtranclp_induct)
  case base
  show ?case using h3_inv_main [of "{}" ev cfg port] by (simp add: g3_inv_def)
qed (rule g3_step_inv)

subsection \<open>Consistency\<close>

lemma connect_runs: "h3_objects h k = None \<Longrightarrow> g3_step\<^sup>*\<^sup>* S (h, F, D) \<Longrightarrow> g3_step\<^sup>*\<^sup>* S (fst (welcome3 ev k h), F, D)"
  by (blast intro: g3_step.connect rtranclp.rtrancl_into_rtrancl)

lemma ex_ctl3_grants: "g3_step\<^sup>*\<^sup>* (fst (relay_main3 ex_env3 ex_ports3 0), {#}, {}) (ex_ctl3, {#}, {})"
proof -
  let ?h = "fst (relay_main3 ex_env3 ex_ports3 0)"
  have objects: "h3_objects (fst (seq_effects (start_port3 ev) ps h)) = h3_objects h" for ev ps h
    by (induction ps arbitrary: h) (simp_all add: case_prod_beta Let_def start_port3_def)
  then have none: "h3_objects ?h k = None" for k
    by (simp add: relay_main3_def case_prod_beta Let_def NewControl3_def)
  moreover have "h3_objects (fst (welcome3 ex_env3 1 ?h)) 2 = None"
    by (simp add: welcome3_def case_prod_beta Let_def send_state3_def snapshot_state take_snapshot3_def Register3_def none)
  ultimately show ?thesis unfolding ex_ctl3_def by (intro connect_runs rtranclp.rtrancl_refl)
qed

text \<open>
  C17. The third control server is consistent as a whole. In every run from the start of the program, with each grant in its two
  locked regions and anything in between, each registered client is registered once and its connection has not been
  closed; a port that is marked busy for TCP has a session and nobody waiting; and on every port outside \<open>D\<close> no two leases are
  for the port, a leased port does not count as free and at most one grant is on its way to it. \<open>D\<close> are the ports that a grant
  has found free while another grant of the same port had done so and not reserved it yet: those can be leased twice.
\<close>
theorem control3_consistent:
  assumes "g3_step\<^sup>*\<^sup>* (fst (relay_main3 ev cfg port), {#}, {}) (h, F, D)"
  shows "distinct (h3_clients h) \<and> list_all (open3 h) (h3_clients h) \<and>
    (r3_slots (h3_relay h) p = Some sl \<and> sl_tcpBusy sl \<longrightarrow>
      sl_tcpSession sl \<noteq> None \<and> sl_pendingBE sl = None \<and> sl_pendingFE sl = None) \<and>
    (p \<notin> D \<longrightarrow>
      (p3_bySession (h3_pm h) sid = Some r \<and> p3_bySession (h3_pm h) sid' = Some r' \<and> v3_port r = p \<and> v3_port r' = p \<longrightarrow> sid = sid') \<and>
      (p3_bySession (h3_pm h) sid = Some r \<and> v3_port r = p \<longrightarrow> \<not> isPortAvailable3 p (h3_pm h)) \<and>
      size (grants_of p F) \<le> 1)"
proof -
  have g: "g3_inv (h, F, D)" by (rule g3_run_inv [OF assms])
  note inv = g3_invD(1) [OF g]
  note pm = pm3_okD [OF h3_invD(1) [OF inv]]
  have one: "sid = sid'"
    if "p3_bySession (h3_pm h) sid = Some r" "p3_bySession (h3_pm h) sid' = Some r'" "v3_port r = p" "v3_port r' = p" "p \<notin> D"
    using pm(1,2) that by (metis option.inject)
  have taken: "\<not> isPortAvailable3 p (h3_pm h)" if "p3_bySession (h3_pm h) sid = Some r" "v3_port r = p" "p \<notin> D"
    using pm(2) [OF that(1)] that(2,3) by (simp add: isPortAvailable3_def)
  have slot: "slot_inv (r3_store (h3_relay h)) p sl" if "r3_slots (h3_relay h) p = Some sl"
    by (rule r3_invD(1) [OF h3_invD(2) [OF inv] that])
  have "list_all (open3 h) (h3_clients h)" using h3_invD(4) [OF inv] by (simp add: list_all_iff)
  moreover have "sl_tcpSession sl \<noteq> None \<and> sl_pendingBE sl = None \<and> sl_pendingFE sl = None"
    if "r3_slots (h3_relay h) p = Some sl" "sl_tcpBusy sl"
    using slot [OF that(1)] that(2) by (simp add: slot_inv_def)
  ultimately show ?thesis using h3_invD(3) [OF inv] one taken g3_invD(2) [OF g] by blast
qed

lemma control3_consistent_witness:
  "\<exists>h. g3_step\<^sup>*\<^sup>* (fst (relay_main3 ex_env3 ex_ports3 0), {#}, {}) (h, {#}, {}) \<and> h3_clients h = [1, 2] \<and>
     map_option v3_port (p3_bySession (h3_pm h) ''s'') = Some 7 \<and> \<not> isPortAvailable3 7 (h3_pm h)"
proof -
  let ?pm = "NewPortManager3\<lparr>p3_ports := [7]\<rparr>"
  let ?h = "ex_ctl3\<lparr>h3_pm := snd (reservePort3 0 ''s'' (Some 1) ex_req 7 ?pm)\<rparr>"
  note ex_ctl3_grants
  also have "g3_step (ex_ctl3, {#}, {}) (ex_ctl3, {#(1, ex_req, 7)#}, {})"
    using g3_step.look [of 7 ex_ctl3 "{#}" "{}" 1 ex_req] by (simp add: ex_ctl3_clients isPortAvailable3_def NewPortManager3_def)
  also have "g3_step (ex_ctl3, {#(1, ex_req, 7)#}, {}) (?h, {#}, {})"
    using g3_step.reserve [of 1 ex_req 7 "{#(1, ex_req, 7)#}" ex_ctl3 "''s''" "{}" 0] by (simp add: ex_ctl3_clients NewPortManager3_def)
  finally have run: "g3_step\<^sup>*\<^sup>* (fst (relay_main3 ex_env3 ex_ports3 0), {#}, {}) (?h, {#}, {})" .
  have lease: "p3_bySession (h3_pm ?h) ''s'' = Some \<lparr>v3_sessionID = ''s'', v3_port = 7, v3_owner = Some 1, v3_expiresAt = expiry3 0 ex_req\<rparr>"
    by (simp add: reserve3_fields)
  have "\<not> isPortAvailable3 7 (h3_pm ?h)"
    using control3_consistent [OF run, of 7 _ "''s''"] lease by fastforce
  then show ?thesis using run lease by (intro exI [of _ ?h]) (simp add: ex_ctl3_clients)
qed

text \<open>The exception is needed: two grants that overlap end as two leases of one port.\<close>

lemma overlapping_grants_share:
  "\<exists>h. g3_step\<^sup>*\<^sup>* (fst (relay_main3 ex_env3 ex_ports3 0), {#}, {}) (h, {#}, {7}) \<and>
     map_option v3_port (p3_bySession (h3_pm h) ''s'') = Some 7 \<and> map_option v3_port (p3_bySession (h3_pm h) ''t'') = Some 7"
proof -
  let ?pm = "NewPortManager3\<lparr>p3_ports := [7]\<rparr>"
  let ?h = "ex_ctl3\<lparr>h3_pm := snd (reservePort3 0 ''s'' (Some 1) ex_req 7 ?pm)\<rparr>"
  let ?h' = "?h\<lparr>h3_pm := snd (reservePort3 0 ''t'' (Some 2) ex_req 7 (h3_pm ?h))\<rparr>"
  have free: "isPortAvailable3 7 (h3_pm ex_ctl3)" by (simp add: ex_ctl3_clients isPortAvailable3_def NewPortManager3_def)
  note ex_ctl3_grants
  also have "g3_step (ex_ctl3, {#}, {}) (ex_ctl3, {#(1, ex_req, 7)#}, {})"
    using g3_step.look [OF free, of "{#}" "{}" 1 ex_req] by simp
  also have "g3_step (ex_ctl3, {#(1, ex_req, 7)#}, {}) (ex_ctl3, {#(2, ex_req, 7), (1, ex_req, 7)#}, {7})"
    using g3_step.look [OF free, of "{#(1, ex_req, 7)#}" "{}" 2 ex_req] by (simp add: grant_port_def)
  also have "g3_step (ex_ctl3, {#(2, ex_req, 7), (1, ex_req, 7)#}, {7}) (?h, {#(2, ex_req, 7)#}, {7})"
    using g3_step.reserve [of 1 ex_req 7 "{#(2, ex_req, 7), (1, ex_req, 7)#}" ex_ctl3 "''s''" "{7}" 0]
    by (simp add: ex_ctl3_clients NewPortManager3_def)
  also have "g3_step (?h, {#(2, ex_req, 7)#}, {7}) (?h', {#}, {7})"
    using g3_step.reserve [of 2 ex_req 7 "{#(2, ex_req, 7)#}" ?h "''t''" "{7}" 0]
    by (simp add: reserve3_fields NewPortManager3_def)
  finally have "g3_step\<^sup>*\<^sup>* (fst (relay_main3 ex_env3 ex_ports3 0), {#}, {}) (?h', {#}, {7})" .
  then show ?thesis by (intro exI [of _ ?h']) (simp add: reserve3_fields)
qed

end
