(* ===== verification/Paths.thy ===== *)
theory Paths
  imports Prelude
begin

section \<open>File paths (path/filepath on Unix)\<close>

text \<open>
  The lexical functions on paths that the entry points use to find their files: \<open>Clean\<close>, \<open>Join\<close> and
  \<open>Dir\<close>. \<open>Clean\<close> takes the elements between the slashes one by one and keeps those before it on a stack; a
  stack that it has made is the same after another pass, so cleaning twice is cleaning once, and the
  directory of a file joined to a directory is that directory.
\<close>

subsection \<open>The functions\<close>

definition slash :: char where "slash = CHR ''/''"

fun join_on :: "string \<Rightarrow> string list \<Rightarrow> string" where
  "join_on sep [] = []"
| "join_on sep [x] = x"
| "join_on sep (x # xs) = x @ sep @ join_on sep xs"

definition clean_step :: "bool \<Rightarrow> string \<Rightarrow> string list \<Rightarrow> string list" where
  "clean_step rooted c stack =
     (if c = '''' \<or> c = ''.'' then stack
      else if c = ''..''
      then (case stack of
              [] \<Rightarrow> if rooted then [] else [c]
            | t # ts \<Rightarrow> if t = ''..'' then c # stack else ts)
      else c # stack)"

definition elements :: "bool \<Rightarrow> string \<Rightarrow> string list" where
  "elements rooted p = rev (fold (clean_step rooted) (split_on slash p) [])"

definition Clean :: "string \<Rightarrow> string" where
  "Clean p =
     (let rooted = has_prefix p [slash]; body = join_on [slash] (elements rooted p)
      in if rooted then slash # body else if body = '''' then ''.'' else body)"

definition Join :: "string list \<Rightarrow> string" where
  "Join es = (case dropWhile (\<lambda>e. e = '''') es of [] \<Rightarrow> '''' | es \<Rightarrow> Clean (join_on [slash] es))"

definition Dir :: "string \<Rightarrow> string" where
  "Dir p = Clean (rev (dropWhile (\<lambda>c. c \<noteq> slash) (rev p)))"

subsection \<open>Splitting and joining\<close>

lemma split_on_free: "x \<in> set (split_on c s) \<Longrightarrow> c \<notin> set x"
  by (induction c s arbitrary: x rule: split_on.induct) (auto split: list.splits if_splits)

lemma split_on_app: "split_on c (a @ c # b) = split_on c a @ split_on c b"
  by (induction a) (auto split: list.split)

lemma split_join:
  "xs \<noteq> [] \<Longrightarrow> \<forall>x \<in> set xs. c \<notin> set x \<Longrightarrow> split_on c (join_on [c] xs) = xs"
  by (induction xs rule: induct_list012) (auto simp: split_on_no_sep split_on_app)

lemma join_on_snoc: "xs \<noteq> [] \<Longrightarrow> join_on sep (xs @ [x]) = join_on sep xs @ sep @ x"
  by (induction sep xs rule: join_on.induct) auto

subsection \<open>A clean stack stays as it is\<close>

fun clean_stack :: "bool \<Rightarrow> string list \<Rightarrow> bool" where
  "clean_stack rooted [] = True"
| "clean_stack rooted (c # st) =
     (slash \<notin> set c \<and> c \<noteq> '''' \<and> c \<noteq> ''.'' \<and> (c = ''..'' \<longrightarrow> \<not> rooted \<and> (st = [] \<or> hd st = ''..'')) \<and> clean_stack rooted st)"

lemma clean_step_keeps: "clean_stack r st \<Longrightarrow> slash \<notin> set c \<Longrightarrow> clean_stack r (clean_step r c st)"
  by (cases st) (auto simp: clean_step_def)

lemma clean_fold_keeps: "clean_stack r st \<Longrightarrow> \<forall>c \<in> set cs. slash \<notin> set c \<Longrightarrow> clean_stack r (fold (clean_step r) cs st)"
  by (induction cs arbitrary: st) (simp_all add: clean_step_keeps)

lemma clean_push: "clean_stack r (c # st) \<Longrightarrow> clean_step r c st = c # st"
  by (cases st) (auto simp: clean_step_def)

lemma clean_again: "clean_stack r st \<Longrightarrow> fold (clean_step r) (rev st) [] = st"
proof (induction st)
  case (Cons c st)
  then show ?case using clean_push [OF Cons.prems] by simp
qed simp

lemma clean_stack_free: "clean_stack r st \<Longrightarrow> c \<in> set st \<Longrightarrow> slash \<notin> set c \<and> c \<noteq> ''''"
  by (induction st) auto

lemma elements_clean: "clean_stack r (rev (elements r p))"
  unfolding elements_def rev_rev_ident by (rule clean_fold_keeps) (auto dest: split_on_free)

lemma elements_free: "c \<in> set (elements r p) \<Longrightarrow> slash \<notin> set c \<and> c \<noteq> ''''"
  using clean_stack_free [OF elements_clean [of r p], of c] by simp

lemma elements_again: "fold (clean_step r) (elements r p) [] = rev (elements r p)"
  using clean_again [OF elements_clean [of r p]] by simp

text \<open>The elements of a cleaned path, of a directory with its slash and of a file in it.\<close>

lemma split_body: "split_on slash (join_on [slash] (elements r p)) = (if elements r p = [] then [[]] else elements r p)"
  using split_join [of "elements r p" slash] elements_free [of _ r p] by auto

lemma clean_step_nothing [simp]: "clean_step r [] st = st"
  by (simp add: clean_step_def)

lemma fold_body: "fold (clean_step r) (split_on slash (join_on [slash] (elements r p))) [] = rev (elements r p)"
  by (simp add: split_body elements_again)

lemma elements_nothing:
  "elements r (q @ [slash]) = elements r q" "elements r (slash # q) = elements r q"
  "elements r (join_on [slash] (elements r p)) = elements r p"
proof -
  show "elements r (join_on [slash] (elements r p)) = elements r p"
    unfolding elements_def [of r "join_on [slash] (elements r p)"] fold_body by simp
  show "elements r (q @ [slash]) = elements r q" by (simp add: elements_def split_on_app)
  show "elements r (slash # q) = elements r q" by (simp add: elements_def)
qed

lemma elements_file:
  "slash \<notin> set f \<Longrightarrow> f \<noteq> '''' \<Longrightarrow> f \<noteq> ''.'' \<Longrightarrow> f \<noteq> ''..'' \<Longrightarrow> elements r (d @ slash # f) = elements r d @ [f]"
  by (simp add: elements_def split_on_app split_on_no_sep clean_step_def)

text \<open>The text of clean elements: not empty, and no slash at its start or end.\<close>

lemma has_prefix_one: "x \<noteq> [] \<Longrightarrow> has_prefix x [c] \<longleftrightarrow> hd x = c"
  by (cases x) (simp_all add: has_prefix_def)

lemma body_plain:
  assumes "elements r p \<noteq> []"
  shows "join_on [slash] (elements r p) \<noteq> ''''" and "\<not> has_prefix (join_on [slash] (elements r p)) [slash]"
proof -
  obtain c cs where c: "elements r p = c # cs" using assms by (auto simp: neq_Nil_conv)
  then have free: "slash \<notin> set c" "c \<noteq> ''''" using elements_free [of c r p] by simp_all
  have "join_on [slash] (c # cs) \<noteq> ''''" "hd (join_on [slash] (c # cs)) = hd c"
    using free(2) by (cases cs; simp)+
  moreover have "hd c \<noteq> slash" using free by (cases c) auto
  ultimately show "join_on [slash] (elements r p) \<noteq> ''''" "\<not> has_prefix (join_on [slash] (elements r p)) [slash]"
    unfolding c by (simp_all add: has_prefix_one)
qed

lemma dir_part:
  "slash \<notin> set f \<Longrightarrow> rev (dropWhile (\<lambda>c. c \<noteq> slash) (rev (q @ slash # f))) = q @ [slash]"
  "slash \<notin> set f \<Longrightarrow> rev (dropWhile (\<lambda>c. c \<noteq> slash) (rev f)) = ''''"
  by (simp_all add: dropWhile_append) (auto simp: dropWhile_append3)

subsection \<open>What they promise\<close>

lemma Clean_idem: "Clean (Clean p) = Clean p"
proof (cases "has_prefix p [slash]")
  case True
  then show ?thesis by (simp add: Clean_def Let_def elements_nothing) (simp add: has_prefix_def)
next
  case False
  let ?E = "elements False p"
  show ?thesis
  proof (cases "?E = []")
    case True
    with False show ?thesis by (simp add: Clean_def Let_def has_prefix_def elements_def clean_step_def slash_def)
  next
    case nonempty: False
    note body = body_plain [OF this]
    from False body have "Clean p = join_on [slash] ?E" by (simp add: Clean_def Let_def)
    with body show ?thesis by (simp add: Clean_def Let_def elements_nothing)
  qed
qed

lemma Dir_Join:
  assumes "slash \<notin> set f" "f \<noteq> ''''" "f \<noteq> ''.''" "f \<noteq> ''..''" "d \<noteq> ''''"
  shows "Dir (Join [d, f]) = Clean d"
proof -
  let ?r = "has_prefix d [slash]"
  let ?E = "elements ?r d"
  have "has_prefix (d @ slash # f) [slash] = ?r" using assms(5) by (cases d) (simp_all add: has_prefix_def)
  moreover have "join_on [slash] (?E @ [f]) \<noteq> ''''" using assms(2) join_on_snoc [of ?E "[slash]" f] by (cases "?E = []") auto
  ultimately have "Join [d, f] = (if ?r then [slash] else []) @ join_on [slash] (?E @ [f])"
    using assms by (cases ?r) (simp_all add: Join_def Clean_def Let_def elements_file)
  then have joined: "Join [d, f] = (if ?r then [slash] else []) @ (if ?E = [] then [] else join_on [slash] ?E @ [slash]) @ f"
    by (simp add: join_on_snoc)
  consider "?E = []" "?r" | "?E = []" "\<not> ?r" | "?E \<noteq> []" "?r" | "?E \<noteq> []" "\<not> ?r" by blast
  then show ?thesis
  proof cases
    case 1
    then have "Dir (Join [d, f]) = Clean [slash]" using joined dir_part(1) [OF assms(1), of "[]"] by (simp add: Dir_def)
    with 1 show ?thesis by (simp add: Clean_def Let_def has_prefix_def elements_def)
  next
    case 2
    then have "Join [d, f] = f" using joined by simp
    then have "Dir (Join [d, f]) = Clean []" unfolding Dir_def by (simp only: dir_part(2) [OF assms(1)])
    with 2 show ?thesis by (simp add: Clean_def Let_def has_prefix_def elements_def)
  next
    case 3
    then have "Dir (Join [d, f]) = Clean (slash # join_on [slash] ?E @ [slash])"
      using joined dir_part(1) [OF assms(1), of "slash # join_on [slash] ?E"] by (simp add: Dir_def)
    with 3 show ?thesis
      using elements_nothing(1) [of True "slash # join_on [slash] ?E"]
      by (simp add: Clean_def Let_def elements_nothing) (simp add: has_prefix_def)
  next
    case 4
    note body = body_plain [OF 4(1)]
    from 4 have "Dir (Join [d, f]) = Clean (join_on [slash] ?E @ [slash])"
      using joined dir_part(1) [OF assms(1), of "join_on [slash] ?E"] by (simp add: Dir_def)
    moreover have "\<not> has_prefix (join_on [slash] ?E @ [slash]) [slash]"
      using body by (cases "join_on [slash] ?E") (simp_all add: has_prefix_def)
    ultimately show ?thesis using 4 body by (simp add: Clean_def Let_def elements_nothing)
  qed
qed

end
