(* ===== verification/JsonText.thy ===== *)
theory JsonText
  imports Json
begin

section \<open>JSON text is read back\<close>

text \<open>
  What \<open>json.Marshal\<close> writes for a value whose strings are UTF-8, \<open>json.Unmarshal\<close> reads back, with
  whatever follows it left over. The messages of the control connections are such values.
\<close>

subsection \<open>Strings\<close>

function valid_utf8 :: "string \<Rightarrow> bool" where
  "valid_utf8 [] = True"
| "valid_utf8 (c # cs) = (let n = utf8_len (c # cs) in n \<noteq> 0 \<and> valid_utf8 (drop (n - 1) cs))"
  by pat_completeness auto
termination
  by (relation "measure length") auto

declare valid_utf8.simps(2) [simp del]

lemma utf8_len_prefix:
  assumes "utf8_len s = n" and "0 < n"
  shows "n \<le> length s \<and> utf8_len (take n s @ t) = n"
proof -
  consider "s = []" | a where "s = [a]" | a b where "s = [a, b]" | a b c where "s = [a, b, c]" | a b c d r where "s = a # b # c # d # r"
    by (metis list.exhaust)
  then show ?thesis
    using assms by cases (auto simp: utf8_len_def split: if_splits)
qed

lemma char_codes:
  "char_of (8 :: nat) = CHR 0x08" "char_of (9 :: nat) = CHR 0x09" "char_of (10 :: nat) = CHR 0x0A"
  "char_of (12 :: nat) = CHR 0x0C" "char_of (13 :: nat) = CHR 0x0D"
  "char_of (226 :: nat) = CHR 0xE2" "char_of (128 :: nat) = CHR 0x80" "char_of (168 :: nat) = CHR 0xA8"
  "char_of (169 :: nat) = CHR 0xA9"
  by (simp_all add: char_of_eq_iff take_bit_eq_mod)

lemma hex_back:
  assumes "n < 128"
  shows "hex4 (CHR ''0'' # CHR ''0'' # hex_char (n div 16) # hex_char (n mod 16) # t) = Some n"
proof -
  have h: "hex_val (hex_char d) = Some d" if "d < 16" for d
    using that by (auto simp: hex_val_def hex_char_def code_of_def Let_def)
  have "n div 16 < 16" "n mod 16 < 16" using assms by simp_all
  moreover have "hex_val CHR ''0'' = Some 0" by code_simp
  ultimately show ?thesis by (simp add: h)
qed

lemma str_lit_ascii:
  assumes "code_of c < 128"
  shows "str_lit (quote_ascii c @ s) = prepend [c] (str_lit s)"
proof -
  have esc: "str_lit (backslash # CHR ''u'' # CHR ''0'' # CHR ''0'' # hex_char (code_of c div 16) # hex_char (code_of c mod 16) # s)
      = prepend [c] (str_lit s)"
    using assms hex_back [OF assms, of s] by (simp add: unicode_escape_def utf8_enc_def code_of_def)
  consider "c = quote \<or> c = backslash" | "code_of c \<in> {8, 9, 10, 12, 13}"
    | "c \<noteq> quote \<and> c \<noteq> backslash" "code_of c \<notin> {8, 9, 10, 12, 13}" "\<not> plain_char c" | "plain_char c"
    by blast
  then show ?thesis
  proof cases
    case 1
    then show ?thesis by (auto simp: quote_ascii_def Let_def simple_escape_def)
  next
    case 2
    have k: "code_of c = n \<Longrightarrow> c = char_of n" for n by (auto simp: code_of_def)
    have "c = CHR 0x08 \<or> c = CHR 0x09 \<or> c = CHR 0x0A \<or> c = CHR 0x0C \<or> c = CHR 0x0D"
      using 2 k [of 8] k [of 9] k [of 10] k [of 12] k [of 13] unfolding char_codes by blast
    moreover have "code_of (CHR 0x08) = 8" "code_of (CHR 0x09) = 9" "code_of (CHR 0x0A) = 10" "code_of (CHR 0x0C) = 12"
      "code_of (CHR 0x0D) = 13"
      by (simp_all add: code_of_def)
    ultimately show ?thesis by (elim disjE) (simp_all add: quote_ascii_def simple_escape_def)
  next
    case 3
    then have "code_of c < 32 \<or> c = CHR ''<'' \<or> c = CHR ''>'' \<or> c = CHR 0x26"
      using assms by (auto simp: plain_char_def)
    with 3 show ?thesis using esc by (simp add: quote_ascii_def Let_def del: str_lit.simps)
  next
    case 4
    then show ?thesis by (simp only: quote_ascii_plain append_Cons append_Nil str_lit_plain_Cons)
  qed
qed

lemma str_lit_unit:
  assumes "c \<noteq> quote" "c \<noteq> backslash" "\<not> code_of c < 32" and "utf8_len (c # l @ t) = Suc (length l)"
  shows "str_lit (c # l @ t) = prepend (c # l) (str_lit t)"
  using assms by (simp add: Let_def)

text \<open>Every valid text is written and read back, escapes included.\<close>

lemma str_lit_quote: "valid_utf8 s \<Longrightarrow> str_lit (quote_body s @ quote # r) = Some (s, r)"
proof (induction s rule: valid_utf8.induct)
  case 1
  show ?case by simp
next
  case (2 c cs)
  define n where "n = utf8_len (c # cs)"
  let ?t = "quote_body (drop (n - 1) cs) @ quote # r"
  have n: "0 < n" "valid_utf8 (drop (n - 1) cs)" using 2(2) by (simp_all add: valid_utf8.simps Let_def n_def)
  have IH: "str_lit ?t = Some (drop (n - 1) cs, r)" using 2(1) n by (simp add: n_def)
  have pre: "n \<le> length (c # cs)" "utf8_len (take n (c # cs) @ s) = n" for s
    using utf8_len_prefix [OF n_def [symmetric] n(1)] by blast+
  have all: "take n (c # cs) @ drop (n - 1) cs = c # cs"
    using n(1) append_take_drop_id [of n "c # cs"] by (cases n) auto
  show ?case
  proof (cases "code_of c < 128")
    case True
    then have "n = 1" by (simp add: n_def utf8_len_ascii)
    with IH True show ?thesis by (simp add: str_lit_ascii prepend_def del: str_lit.simps)
  next
    case False
    let ?u = "take n (c # cs)"
    define l where "l = take (n - 1) cs"
    have u: "?u = c # l" using n(1) by (cases n) (auto simp: l_def)
    have l: "n = Suc (length l)" using n(1) pre(1) by (simp add: l_def)
    have c: "c \<noteq> quote" "c \<noteq> backslash" "\<not> code_of c < 32" using False by (auto simp: code_of_def)
    have "utf8_len (c # l @ ?t) = Suc (length l)" using pre(2) [of ?t, unfolded u] l by simp
    then have "str_lit (?u @ ?t) = prepend ?u (str_lit ?t)"
      unfolding u append_Cons by (rule str_lit_unit [OF c])
    moreover have "str_lit (backslash # ''u2028'' @ ?t) = prepend [CHR 0xE2, CHR 0x80, CHR 0xA8] (str_lit ?t)"
      "str_lit (backslash # ''u2029'' @ ?t) = prepend [CHR 0xE2, CHR 0x80, CHR 0xA9] (str_lit ?t)"
      by (simp_all add: hex_val_def code_of_def unicode_escape_def utf8_enc_def char_codes)
    ultimately show ?thesis
      using IH False n(1) all
      by (auto simp: Let_def n_def [symmetric] prepend_def simp del: str_lit.simps)
  qed
qed

lemma plain_valid: "plain_text s \<Longrightarrow> valid_utf8 s"
  by (induction s) (auto simp: valid_utf8.simps(2) utf8_len_ascii plain_char_def)

subsection \<open>Values of Go\<close>

text \<open>A number of JSON: the scanner takes all of it.\<close>

definition number_lit :: "string \<Rightarrow> bool" where
  "number_lit t \<longleftrightarrow> num_lit t = Some (t, [])"

fun json_valid :: "json \<Rightarrow> bool" where
  "json_valid JNull = True"
| "json_valid (JBool b) = True"
| "json_valid (JNum t) = number_lit t"
| "json_valid (JStr s) = valid_utf8 s"
| "json_valid (JArr vs) = list_all json_valid vs"
| "json_valid (JObj ms) = list_all (\<lambda>(k, v). valid_utf8 k \<and> json_valid v) ms"

fun json_depth :: "json \<Rightarrow> nat" where
  "json_depth (JArr vs) = Suc (fold max (map json_depth vs) 0)"
| "json_depth (JObj ms) = Suc (fold max (map (\<lambda>(k, v). json_depth v) ms) 0)"
| "json_depth v = 0"

text \<open>What may follow a value in a text: not a character that could continue a number.\<close>

definition ends_value :: "string \<Rightarrow> bool" where
  "ends_value r \<longleftrightarrow> r = [] \<or> \<not> is_digit (hd r) \<and> hd r \<notin> {CHR ''.'', CHR ''e'', CHR ''E''}"

lemma ends_value_simps [simp]:
  "ends_value []" "ends_value (CHR '','' # r)" "ends_value (CHR '']'' # r)" "ends_value (CHR ''}'' # r)"
  "ends_value (CHR 0x0A # r)"
  by (simp_all add: ends_value_def is_digit_def)

subsection \<open>Numbers\<close>

lemma digits_then_end:
  assumes "list_all is_digit ds" and "ends_value r"
  shows "takeWhile is_digit (ds @ r) = ds"
  using assms by (cases r) (auto simp: ends_value_def list_all_iff takeWhile_append2)

lemma no_fraction:
  assumes "ends_value r"
  shows "\<not> has_prefix r ''.''" "\<not> has_prefix r ''e''" "\<not> has_prefix r ''E''"
  using assms by (cases r; auto simp: ends_value_def has_prefix_def)+

lemma digits_append: "ends_value r \<Longrightarrow> takeWhile is_digit (x @ r) = takeWhile is_digit x"
  by (induction x) (cases r; auto simp: ends_value_def)+

lemma prefix_one: "has_prefix s [c] \<longleftrightarrow> (\<exists>s'. s = c # s')"
  by (cases s) (auto simp: has_prefix_def)

lemma num_lit_append:
  assumes "number_lit t" and "ends_value r"
  shows "num_lit (t @ r) = Some (t, r)"
proof -
  define sign s1 where "sign = (if has_prefix t ''-'' then ''-'' else '''')" and "s1 = (if has_prefix t ''-'' then tl t else t)"
  define ip where "ip = (if has_prefix s1 ''0'' then ''0'' else takeWhile is_digit s1)"
  define s2 where "s2 = drop (length ip) s1"
  define fp where "fp = (if has_prefix s2 ''.'' then ''.'' @ takeWhile is_digit (tl s2) else '''')"
  define s3 where "s3 = drop (length fp) s2"
  define sg where "sg = (if has_prefix (tl s3) ''+'' \<or> has_prefix (tl s3) ''-'' then take 1 (tl s3) else '''')"
  define ex where "ex = (if has_prefix s3 ''e'' \<or> has_prefix s3 ''E'' then take 1 s3 @ sg @ takeWhile is_digit (drop (1 + length sg) s3) else '''')"
  have pair: "(if has_prefix t ''-'' then (''-'', tl t) else ('''', t)) = (sign, s1)" by (simp add: sign_def s1_def)
  have "num_lit t = (if ip = '''' \<or> fp = ''.'' \<or> (ex \<noteq> '''' \<and> \<not> is_digit (last ex)) then None
         else Some (sign @ ip @ fp @ ex, drop (length ex) s3))"
    by (simp only: num_lit_def pair Let_def prod.case ip_def [symmetric] s2_def [symmetric] fp_def [symmetric] s3_def [symmetric]
        sg_def [symmetric] ex_def [symmetric])
  then have ok: "ip \<noteq> ''''" "fp \<noteq> ''.''" "ex \<noteq> '''' \<longrightarrow> is_digit (last ex)" "sign @ ip @ fp @ ex = t" "drop (length ex) s3 = []"
    using assms(1) by (auto simp: number_lit_def split: if_splits)
  have "t \<noteq> []" using ok(1,4) by auto
  then have sign: "(if has_prefix (t @ r) ''-'' then (''-'', tl (t @ r)) else ('''', t @ r)) = (sign, s1 @ r)"
    by (cases t) (auto simp: sign_def s1_def has_prefix_def)
  have "s1 \<noteq> []" using ok(1) by (auto simp: ip_def has_prefix_def split: if_splits)
  then have ip': "(if has_prefix (s1 @ r) ''0'' then ''0'' else takeWhile is_digit (s1 @ r)) = ip"
    unfolding ip_def digits_append [OF assms(2)] by (cases s1) (auto simp: has_prefix_def)
  have lip: "length ip \<le> length s1" using \<open>s1 \<noteq> []\<close> by (auto simp: ip_def length_takeWhile_le Suc_le_eq)
  then have s2': "drop (length ip) (s1 @ r) = s2 @ r" by (simp add: s2_def)
  have dot: "has_prefix (s2 @ r) ''.'' = has_prefix s2 ''.''"
    using no_fraction(1) [OF assms(2)] by (cases s2) (auto simp: has_prefix_def)
  have fp': "(if has_prefix (s2 @ r) ''.'' then ''.'' @ takeWhile is_digit (tl (s2 @ r)) else '''') = fp"
    using digits_append [OF assms(2), of "tl s2"] unfolding dot fp_def by (cases s2) (auto simp: has_prefix_def)
  have "length fp \<le> length s2" by (cases s2) (auto simp: fp_def has_prefix_def length_takeWhile_le)
  then have s3': "drop (length fp) (s2 @ r) = s3 @ r" by (simp add: s3_def)
  have ee: "has_prefix (s3 @ r) ''e'' = has_prefix s3 ''e''" "has_prefix (s3 @ r) ''E'' = has_prefix s3 ''E''"
    using no_fraction(2,3) [OF assms(2)] by (cases s3; auto simp: has_prefix_def)+
  have ex': "(if has_prefix (s3 @ r) ''e'' \<or> has_prefix (s3 @ r) ''E'' then
      (let sg = (if has_prefix (tl (s3 @ r)) ''+'' \<or> has_prefix (tl (s3 @ r)) ''-'' then take 1 (tl (s3 @ r)) else '''')
       in take 1 (s3 @ r) @ sg @ takeWhile is_digit (drop (1 + length sg) (s3 @ r))) else '''') = ex"
  proof (cases "has_prefix s3 ''e'' \<or> has_prefix s3 ''E''")
    case True
    then obtain c s where s3: "s3 = c # s" by (cases s3) (auto simp: has_prefix_def)
    have "s \<noteq> []"
    proof
      assume "s = []"
      then have "ex = [c]" using True by (simp add: ex_def sg_def s3 has_prefix_def)
      moreover have "\<not> is_digit c" using True by (auto simp: s3 has_prefix_def is_digit_def)
      ultimately show False using ok(3) by simp
    qed
    then have sg: "(if has_prefix (tl (s3 @ r)) ''+'' \<or> has_prefix (tl (s3 @ r)) ''-'' then take 1 (tl (s3 @ r)) else '''') = sg"
      "length sg \<le> length s" by (cases s; auto simp: sg_def s3 has_prefix_def)+
    have "takeWhile is_digit (drop (1 + length sg) (s3 @ r)) = takeWhile is_digit (drop (1 + length sg) s3)"
      using sg(2) digits_append [OF assms(2), of "drop (length sg) s"] by (simp add: s3)
    with True show ?thesis unfolding ee Let_def sg(1) by (simp add: ex_def s3)
  qed (simp add: ee ex_def)
  have "drop (length ex) (s3 @ r) = r"
  proof -
    have "length (sign @ ip @ fp @ ex) = length t" using ok(4) by simp
    moreover have "length t = length sign + length s1" using \<open>t \<noteq> []\<close> by (cases t) (auto simp: sign_def s1_def)
    ultimately have "length ex = length s3" using lip \<open>length fp \<le> length s2\<close> by (simp add: s2_def s3_def)
    then show ?thesis by simp
  qed
  then show ?thesis
    unfolding num_lit_def sign Let_def prod.case ip' s2' fp' s3' ex' [unfolded Let_def] using ok by auto
qed

text \<open>The text of an integer is one.\<close>

definition int_text :: "string \<Rightarrow> bool" where
  "int_text t \<longleftrightarrow>
     (let ds = (if has_prefix t ''-'' then tl t else t)
      in ds \<noteq> [] \<and> list_all is_digit ds \<and> (hd ds = CHR ''0'' \<longrightarrow> ds = ''0''))"

lemma int_text_lit:
  assumes "int_text t" and "ends_value r"
  shows "num_lit (t @ r) = Some (t, r)"
proof -
  let ?neg = "has_prefix t ''-''"
  define ds where "ds = (if ?neg then tl t else t)"
  have ds: "ds \<noteq> []" "list_all is_digit ds" "hd ds = CHR ''0'' \<longrightarrow> ds = ''0''"
    using assms(1) by (simp_all add: int_text_def ds_def Let_def)
  have t: "t = (if ?neg then ''-'' else '''') @ ds"
    by (cases t) (auto simp: ds_def has_prefix_def)
  have "?neg = has_prefix (t @ r) ''-''"
    using ds assms(1) by (cases t) (auto simp: has_prefix_def ds_def)
  then have s1: "(if has_prefix (t @ r) ''-'' then (''-'', tl (t @ r)) else ('''', t @ r)) =
      ((if ?neg then ''-'' else ''''), ds @ r)"
    using ds(1) by (cases t) (auto simp: ds_def has_prefix_def)
  have ip: "(if has_prefix (ds @ r) ''0'' then ''0'' else takeWhile is_digit (ds @ r)) = ds"
    using ds(1,3) digits_then_end [OF ds(2) assms(2)] by (cases ds) (auto simp: has_prefix_def)
  show ?thesis
    unfolding num_lit_def s1 using ds(1) no_fraction [OF assms(2)] t
    by (simp add: Let_def ip)
qed

subsection \<open>The first character\<close>

definition opens_value :: "char \<Rightarrow> bool" where
  "opens_value c \<longleftrightarrow> \<not> json_ws c \<and> c \<noteq> CHR '']'' \<and> c \<noteq> CHR ''}''"

lemma digit_opens: "is_digit c \<Longrightarrow> opens_value c"
  by (auto simp: is_digit_def opens_value_def json_ws_def)

lemma number_opens: "number_lit t \<Longrightarrow> t \<noteq> [] \<and> (hd t = CHR ''-'' \<or> is_digit (hd t))"
proof -
  assume "number_lit t"
  then obtain c s where t: "t = c # s" by (cases t) (auto simp: number_lit_def num_lit_def has_prefix_def)
  have "is_digit CHR ''0''" by (simp add: is_digit_def)
  moreover have "num_lit (c # s) = None" if "c \<noteq> CHR ''-''" "c \<noteq> CHR ''0''" "\<not> is_digit c"
    using that by (simp add: num_lit_def has_prefix_def)
  ultimately show ?thesis using \<open>number_lit t\<close> t by (auto simp: number_lit_def)
qed

lemma encode_opens: "json_valid v \<Longrightarrow> \<exists>c s. encode_json v = c # s \<and> opens_value c"
proof (cases v)
  case (JNum t)
  moreover assume "json_valid v"
  ultimately have "t \<noteq> []" "hd t = CHR ''-'' \<or> is_digit (hd t)" using number_opens [of t] by auto
  then show ?thesis using digit_opens JNum by (cases t) (auto simp: opens_value_def json_ws_def)
qed (auto simp: opens_value_def json_ws_def json_quote_def)

lemma skip_encode: "json_valid v \<Longrightarrow> skip_ws (encode_json v @ r) = encode_json v @ r"
  using encode_opens [of v] by (auto simp: skip_ws_def opens_value_def)

lemma encode_not_closed:
  assumes "json_valid v"
  shows "\<not> has_prefix (encode_json v @ r) '']''" "\<not> has_prefix (encode_json v @ r) ''}''"
  using encode_opens [OF assms] by (auto simp: opens_value_def has_prefix_def)

lemma parse_number:
  assumes "number_lit t" and "ends_value r"
  shows "parse_value d (t @ r) = Some (JNum t, r)"
proof -
  obtain c s where t: "t = c # s" "c = CHR ''-'' \<or> is_digit c"
    using number_opens [OF assms(1)] by (cases t) auto
  then have "c \<noteq> quote \<and> c \<noteq> CHR ''['' \<and> c \<noteq> CHR ''{'' \<and> c \<noteq> CHR ''n'' \<and> c \<noteq> CHR ''t'' \<and> c \<noteq> CHR ''f''"
    by (auto simp: is_digit_def)
  then show ?thesis
    using num_lit_append [OF assms] t(1) by (simp add: parse_value.simps [of _ "c # _"] has_prefix_def)
qed


subsection \<open>Values\<close>

text \<open>The statement for one value, at a depth the scanner has left.\<close>

definition reads_back :: "json \<Rightarrow> bool" where
  "reads_back v \<longleftrightarrow>
     (\<forall>d r. json_depth v \<le> d \<longrightarrow> ends_value r \<longrightarrow> parse_value d (encode_json v @ r) = Some (v, r))"

lemma fold_max_le: "x \<in> set xs \<Longrightarrow> x \<le> fold max xs (a :: nat)" "a \<le> fold max xs a"
  by (induction xs arbitrary: a) (auto intro: le_trans [OF max.cobounded1] le_trans [OF max.cobounded2])

lemma parse_elems_back:
  assumes "vs \<noteq> []" and "\<And>v. v \<in> set vs \<Longrightarrow> json_valid v \<and> reads_back v \<and> json_depth v \<le> d"
  shows "parse_elems d (join_comma (map encode_json vs) @ CHR '']'' # r) = Some (vs, r)"
  using assms
proof (induction vs rule: induct_list012)
  case 1
  then show ?case by simp
next
  case (2 v)
  then have "parse_value d (encode_json v @ CHR '']'' # r) = Some (v, CHR '']'' # r)" "json_valid v"
    by (auto simp: reads_back_def)
  then show ?case
    by (simp add: parse_elems.simps skip_encode) (simp add: skip_ws_def json_ws_def)
next
  case (3 v w vs)
  let ?t = "join_comma (map encode_json (w # vs)) @ CHR '']'' # r"
  have "parse_value d (encode_json v @ CHR '','' # ?t) = Some (v, CHR '','' # ?t)" "json_valid v"
    using 3(4) [of v] by (auto simp: reads_back_def)
  moreover have "parse_elems d ?t = Some (w # vs, r)"
    using 3(2,4) by simp
  ultimately show ?case
    by (simp add: parse_elems.simps [of _ "encode_json v @ _"] skip_encode) (simp add: skip_ws_def json_ws_def)
qed

abbreviation encode_member :: "string \<times> json \<Rightarrow> string" where
  "encode_member \<equiv> \<lambda>(k, v). json_quote k @ '':'' @ encode_json v"

lemma parse_members_step:
  assumes "valid_utf8 k" and "json_valid v" and "parse_value d (encode_json v @ c # r) = Some (v, c # r)"
    and "c = CHR ''}'' \<or> c = CHR '',''"
  shows "parse_members d (json_quote k @ CHR '':'' # encode_json v @ c # r) =
     (if c = CHR ''}'' then Some ([(k, v)], r)
      else map_option (\<lambda>(ms, r). ((k, v) # ms, r)) (parse_members d r))"
proof -
  have "str_lit (quote_body k @ quote # CHR '':'' # encode_json v @ c # r) = Some (k, CHR '':'' # encode_json v @ c # r)"
    using assms(1) by (rule str_lit_quote)
  then show ?thesis
    using assms skip_encode [OF assms(2), of "c # r"]
    by (auto simp: parse_members.simps [of _ "quote # _"] json_quote_def skip_ws_def json_ws_def
        has_prefix_def)
qed

lemma parse_members_back:
  assumes "ms \<noteq> []" and "\<And>k v. (k, v) \<in> set ms \<Longrightarrow> valid_utf8 k \<and> json_valid v \<and> reads_back v \<and> json_depth v \<le> d"
  shows "parse_members d (join_comma (map encode_member ms) @ CHR ''}'' # r) = Some (ms, r)"
  using assms
proof (induction ms rule: induct_list012)
  case 1
  then show ?case by simp
next
  case (2 m)
  obtain k v where m: "m = (k, v)" by (cases m)
  with 2 have "valid_utf8 k" "json_valid v" "parse_value d (encode_json v @ CHR ''}'' # r) = Some (v, CHR ''}'' # r)"
    by (auto simp: reads_back_def)
  then show ?case by (simp add: m parse_members_step)
next
  case (3 m n ms)
  obtain k v where m: "m = (k, v)" by (cases m)
  let ?t = "join_comma (map encode_member (n # ms)) @ CHR ''}'' # r"
  have "valid_utf8 k" "json_valid v" "parse_value d (encode_json v @ CHR '','' # ?t) = Some (v, CHR '','' # ?t)"
    using 3(4) [of k v] by (auto simp: m reads_back_def)
  moreover have "parse_members d ?t = Some (n # ms, r)" by (rule 3(2)) (use 3(4) in auto)
  ultimately show ?case by (simp add: m parse_members_step)
qed

lemma depth_member:
  "v \<in> set vs \<Longrightarrow> json_depth v < json_depth (JArr vs)"
  "(k, v) \<in> set ms \<Longrightarrow> json_depth v < json_depth (JObj ms)"
proof -
  assume "v \<in> set vs"
  then show "json_depth v < json_depth (JArr vs)"
    using fold_max_le(1) [of "json_depth v" "map json_depth vs" 0] by (simp add: less_Suc_eq_le)
next
  assume "(k, v) \<in> set ms"
  then have "json_depth v \<in> set (map (\<lambda>(k, v). json_depth v) ms)" by (auto intro: image_eqI [of _ _ "(k, v)"])
  from fold_max_le(1) [OF this, of 0] show "json_depth v < json_depth (JObj ms)" by (simp add: less_Suc_eq_le)
qed

lemma valid_reads_back: "json_valid v \<Longrightarrow> reads_back v"
proof (induction v)
  case (JNum t)
  then show ?case by (simp add: reads_back_def parse_number)
next
  case (JStr s)
  then show ?case by (simp add: reads_back_def json_quote_def parse_value.simps str_lit_quote)
next
  case (JArr vs)
  show ?case
    unfolding reads_back_def
  proof (intro allI impI)
    fix d r assume d: "json_depth (JArr vs) \<le> d" and "ends_value r"
    show "parse_value d (encode_json (JArr vs) @ r) = Some (JArr vs, r)"
    proof (cases vs)
      case Nil
      with d show ?thesis by (simp add: parse_value.simps skip_ws_def json_ws_def has_prefix_def)
    next
      case (Cons w ws)
      have all: "json_valid v \<and> reads_back v \<and> json_depth v \<le> d - 1" if "v \<in> set vs" for v
        using JArr that depth_member(1) [OF that] d by (force simp: list_all_iff)
      let ?t = "join_comma (map encode_json vs) @ CHR '']'' # r"
      have "parse_elems (d - 1) ?t = Some (vs, r)"
        using Cons all by (intro parse_elems_back) auto
      moreover obtain s where "?t = encode_json w @ s" by (cases ws) (auto simp: Cons)
      then have "skip_ws ?t = ?t" "\<not> has_prefix ?t '']''"
        using all [of w] Cons by (auto simp: skip_encode encode_not_closed)
      moreover have "0 < d" using d by (cases d) auto
      ultimately show ?thesis by (simp add: parse_value.simps [of _ "CHR ''['' # _"])
    qed
  qed
next
  case (JObj ms)
  show ?case
    unfolding reads_back_def
  proof (intro allI impI)
    fix d r assume d: "json_depth (JObj ms) \<le> d" and "ends_value r"
    show "parse_value d (encode_json (JObj ms) @ r) = Some (JObj ms, r)"
    proof (cases ms)
      case Nil
      with d show ?thesis by (simp add: parse_value.simps skip_ws_def json_ws_def has_prefix_def)
    next
      case (Cons m ns)
      have all: "valid_utf8 k \<and> json_valid v \<and> reads_back v \<and> json_depth v \<le> d - 1" if "(k, v) \<in> set ms" for k v
        using JObj that depth_member(2) [OF that] d by (force simp: list_all_iff)
      let ?t = "join_comma (map encode_member ms) @ CHR ''}'' # r"
      have "parse_members (d - 1) ?t = Some (ms, r)"
        using Cons all by (intro parse_members_back) auto
      moreover obtain s where "?t = quote # s" by (cases ns) (auto simp: Cons json_quote_def case_prod_beta)
      then have "skip_ws ?t = ?t" "\<not> has_prefix ?t ''}''"
        by (auto simp: skip_ws_def json_ws_def has_prefix_def)
      moreover have "0 < d" using d by (cases d) auto
      ultimately show ?thesis by (simp add: parse_value.simps [of _ "CHR ''{'' # _"])
    qed
  qed
qed (simp_all add: reads_back_def parse_value.simps has_prefix_def)

text \<open>A valid value that is written is read back, also with the line feed that \<open>json.Encoder\<close> writes after it.\<close>

lemma parse_encode:
  assumes "json_valid v" and "json_depth v \<le> 10000"
  shows "parse_json (encode_json v) = Some v" "parse_json (encode_json v @ [CHR 0x0A]) = Some v"
proof -
  have whole: "parse_value 10000 (encode_json v @ r) = Some (v, r)" if "ends_value r" for r
    using valid_reads_back [OF assms(1)] assms(2) that unfolding reads_back_def by blast
  show "parse_json (encode_json v) = Some v"
    using whole [of "[]"] skip_encode [OF assms(1), of "[]"] by (simp add: parse_json_def skip_ws_def)
  show "parse_json (encode_json v @ [CHR 0x0A]) = Some v"
    using whole [of "[CHR 0x0A]"] skip_encode [OF assms(1), of "[CHR 0x0A]"] by (simp add: parse_json_def skip_ws_def json_ws_def)
qed

lemma show_int_text: "int_text (show_int i)"
proof -
  have z: "hd (show_nat n) = CHR ''0'' \<Longrightarrow> n = 0" for n
  proof (induction n rule: show_nat.induct)
    case (1 n)
    show ?case
    proof (cases "n < 10")
      case True
      with 1(2) show ?thesis using digit_val_digit_char [OF True] by (simp add: show_nat.simps [of n] digit_val_def)
    next
      case False
      then have "hd (show_nat n) = hd (show_nat (n div 10))" by (simp add: show_nat.simps [of n])
      with 1 False show ?thesis by simp
    qed
  qed
  show ?thesis
    using z [of "nat i"] z [of "nat (- i)"] digits_no_sign(1) [of "show_nat (nat i)"] show_nat_digits
    by (auto simp: int_text_def show_int_def Let_def list_all_iff has_prefix_def show_nat.simps [of 0] digit_char_eval)
qed

lemma json_valid_int: "json_valid (json_int i)"
  using int_text_lit [OF show_int_text [of i], of "[]"] by (simp add: json_int_def number_lit_def)

end
