(* ===== verification/Startup.thy ===== *)
theory Startup
  imports Paths HubV2Run HubV3 JsonText
begin

section \<open>Starting a gateway (cmd/relay-server, relay-server-v2, relay-server-v3, v1/config, v1/common)\<close>

text \<open>
  From the argument on the command line to a control server that listens: where the two configuration files are, how they
  are read, the log level, the ports that are opened. The answers of the file system and of the network are
  arguments, and so is the decoder of YAML, which is a third-party package; the JSON of the second file is decoded here.
  The texts of errors are left out, their kinds are the constructors of \<open>start_error\<close>.
\<close>

subsection \<open>Log levels\<close>

datatype log_level = LevelDebug | LevelInfo | LevelWarn | LevelError

text \<open>\<open>SetLogLevel\<close>: the level that is set, or nothing.\<close>

definition SetLogLevel :: "string \<Rightarrow> log_level option" where
  "SetLogLevel level =
     (let l = lower_role (trim_space level) in
      if l = '''' \<or> l = ''info'' then Some LevelInfo
      else if l = ''debug'' then Some LevelDebug
      else if l = ''warn'' \<or> l = ''warning'' then Some LevelWarn
      else if l = ''error'' then Some LevelError
      else None)"

subsection \<open>The configuration files\<close>

datatype start_error =
    NoSuchPath | DirLacksYaml | DirLacksEnv | YamlLacksEnv | NotYaml
  | YamlUnreadable | YamlInvalid | EnvUnreadable | EnvInvalid

definition envFile :: string where "envFile = ''.env.local.json''"

text \<open>\<open>stat\<close> answers whether a path is a directory, when it exists.\<close>

definition resolveConfigPaths :: "(string \<Rightarrow> io_error + bool) \<Rightarrow> string \<Rightarrow> start_error + string \<times> string" where
  "resolveConfigPaths stat configArg =
     (if configArg = '''' then Inr (''configs/config.yaml'', envFile)
      else (case stat configArg of
          Inl e \<Rightarrow> Inl NoSuchPath
        | Inr isDir \<Rightarrow>
            if isDir
            then (let yamlPath = Join [configArg, ''config.yaml'']; envPath = Join [configArg, envFile]
                  in if isl (stat yamlPath) then Inl DirLacksYaml
                     else if isl (stat envPath) then Inl DirLacksEnv else Inr (yamlPath, envPath))
            else if has_suffix (lower_role configArg) ''.yaml'' \<or> has_suffix (lower_role configArg) ''.yml''
            then (let dir = Dir configArg; envPath = Join [dir, envFile]
                  in if isl (stat envPath) then Inl YamlLacksEnv else Inr (configArg, envPath))
            else Inl NotYaml))"

text \<open>The global configuration; the secret is the last field of \<open>RelayConfig\<close>. The environment file sets it and the key, and as
  \<open>EnvConfig\<close> carries no yaml tag the YAML file can set them too; the environment file is read second.\<close>

record FileConfig =
  fc_Relay :: RelayConfig
  fc_RelayPublicKey :: string
  fc_LogLevel :: string

definition zero_config :: FileConfig where
  "zero_config =
     \<lparr>fc_Relay = \<lparr>rc_MaxFE = 0, rc_MaxBE = 0, rc_RingBufferSize = 0, rc_ReaperTimeout = 0, rc_ControlPort = 0,
        rc_Ports = \<lparr>pa_ZMQStartPort = 0, pa_ZMQEndPort = 0, pa_SRTStartPort = 0, pa_SRTEndPort = 0\<rparr>, rc_AuthSecret = ''''\<rparr>,
      fc_RelayPublicKey = '''', fc_LogLevel = ''''\<rparr>"

definition set_secret :: "string \<Rightarrow> FileConfig \<Rightarrow> FileConfig" where
  "set_secret s c = c\<lparr>fc_Relay := (fc_Relay c)\<lparr>rc_AuthSecret := s\<rparr>\<rparr>"

definition read_env :: "string \<Rightarrow> FileConfig \<Rightarrow> FileConfig option" where
  "read_env raw c =
     (case parse_json raw of
        None \<Rightarrow> None
      | Some v \<Rightarrow>
          (let (c, ok) = decode_struct
             [(''relay_public_key'', set_string (\<lambda>s c. c\<lparr>fc_RelayPublicKey := s\<rparr>)), (''auth_secret'', set_string set_secret)] v c
           in if ok then Some c else None))"

type_synonym yaml_decoder = "string \<Rightarrow> FileConfig \<Rightarrow> FileConfig option"

definition loadFromFiles ::
    "yaml_decoder \<Rightarrow> (string \<Rightarrow> io_error + string) \<Rightarrow> string \<Rightarrow> string \<Rightarrow> start_error + FileConfig" where
  "loadFromFiles yaml read yamlPath envPath =
     (case read yamlPath of
        Inl e \<Rightarrow> Inl YamlUnreadable
      | Inr yamlFile \<Rightarrow>
          (case yaml yamlFile zero_config of
             None \<Rightarrow> Inl YamlInvalid
           | Some c \<Rightarrow>
               (case read envPath of
                  Inl e \<Rightarrow> Inl EnvUnreadable
                | Inr jsonFile \<Rightarrow> (case read_env jsonFile c of None \<Rightarrow> Inl EnvInvalid | Some c \<Rightarrow> Inr c))))"

text \<open>The first version reads two fixed paths.\<close>

definition Load1 :: "yaml_decoder \<Rightarrow> (string \<Rightarrow> io_error + string) \<Rightarrow> start_error + FileConfig" where
  "Load1 yaml read = loadFromFiles yaml read ''configs/config.yaml'' ''.env.local.json''"

subsection \<open>The main programs\<close>

text \<open>What a program has done when it waits for ever: the log level, the state and the effects. A level that is not known leaves
  that of \<open>InitLogger\<close>. \<open>ctl\<close> is the outcome of the control server's \<open>Listen\<close> and its accepted connections.\<close>

definition level_of :: "FileConfig \<Rightarrow> log_level" where
  "level_of c = (case SetLogLevel (fc_LogLevel c) of None \<Rightarrow> LevelInfo | Some l \<Rightarrow> l)"

definition relay_start1 ::
    "ctl_env \<Rightarrow> yaml_decoder \<Rightarrow> (string \<Rightarrow> io_error + string) \<Rightarrow> io_error option \<times> (io_error + conn) list \<Rightarrow>
      start_error + log_level \<times> Control \<times> ctl_effect list" where
  "relay_start1 ev yaml read ctl =
     (case Load1 yaml read of
        Inl e \<Rightarrow> Inl e
      | Inr c \<Rightarrow> (let (ct, es) = relay_main ev (fc_Relay c); (err, fs) = StartServer (fst ctl) (snd ctl) ct
                  in Inr (level_of c, ct, es @ fs)))"

definition relay_start2 ::
    "srt_listen \<Rightarrow> ctl_env \<Rightarrow> yaml_decoder \<Rightarrow> (string \<Rightarrow> io_error + bool) \<Rightarrow> (string \<Rightarrow> io_error + string) \<Rightarrow>
      io_error option \<times> (io_error + conn) list \<Rightarrow> string \<Rightarrow> start_error + log_level \<times> Control \<times> ctl_effect list" where
  "relay_start2 srt ev yaml stat read ctl configArg =
     (case resolveConfigPaths stat (trim_space configArg) of
        Inl e \<Rightarrow> Inl e
      | Inr (yamlPath, envPath) \<Rightarrow>
          (case loadFromFiles yaml read yamlPath envPath of
             Inl e \<Rightarrow> Inl e
           | Inr c \<Rightarrow> (let (ct, es) = relay_main2 srt ev (fc_Relay c); (err, fs) = StartServer (fst ctl) (snd ctl) ct
                       in Inr (level_of c, ct, es @ fs))))"

definition relay_start3 ::
    "env3 \<Rightarrow> yaml_decoder \<Rightarrow> (string \<Rightarrow> io_error + bool) \<Rightarrow> (string \<Rightarrow> io_error + string) \<Rightarrow>
      io_error option \<times> (io_error + conn) list \<Rightarrow> string \<Rightarrow> start_error + log_level \<times> Control3 \<times> h3_effect list" where
  "relay_start3 ev yaml stat read ctl configArg =
     (case resolveConfigPaths stat (trim_space configArg) of
        Inl e \<Rightarrow> Inl e
      | Inr (yamlPath, envPath) \<Rightarrow>
          (case loadFromFiles yaml read yamlPath envPath of
             Inl e \<Rightarrow> Inl e
           | Inr c \<Rightarrow> (let (h, es) = relay_main3 ev (rc_Ports (fc_Relay c)) (rc_ControlPort (fc_Relay c));
                           (err, fs) = StartServer3 (fst ctl) (snd ctl) h
                       in Inr (level_of c, h, es @ fs))))"

subsection \<open>The files lie in one directory\<close>

lemma envFile_name: "slash \<notin> set envFile" "envFile \<noteq> ''''" "envFile \<noteq> ''.''" "envFile \<noteq> ''..''"
  by (simp_all add: envFile_def slash_def)

lemma Clean_nonempty: "Clean p \<noteq> ''''"
  by (simp add: Clean_def Let_def)

lemma Dir_Dir: "Clean (Dir p) = Dir p" "Dir p \<noteq> ''''"
  by (simp_all add: Dir_def Clean_idem Clean_nonempty)

lemma config_one_directory:
  assumes "resolveConfigPaths stat arg = Inr (y, e)" "arg \<noteq> ''''"
  shows "Dir y = Dir e" "\<not> isl (stat e)" "\<not> isl (stat y)"
proof -
  have yaml: "slash \<notin> set ''config.yaml''" "''config.yaml'' \<noteq> ''''" "''config.yaml'' \<noteq> ''.''" "''config.yaml'' \<noteq> ''..''"
    by (simp_all add: slash_def)
  show "Dir y = Dir e" "\<not> isl (stat e)" "\<not> isl (stat y)"
    using assms Dir_Join [OF envFile_name, of arg] Dir_Join [OF yaml, of arg] Dir_Join [OF envFile_name, of "Dir arg"] Dir_Dir [of arg]
    by (auto simp: resolveConfigPaths_def Let_def split: sum.splits if_splits)
qed

lemma config_file_named:
  "resolveConfigPaths stat arg = Inr (y, e) \<Longrightarrow> arg \<noteq> '''' \<Longrightarrow> y = arg \<or> y = Join [arg, ''config.yaml'']"
  by (auto simp: resolveConfigPaths_def Let_def split: sum.splits if_splits)

subsection \<open>What a started gateway has\<close>

lemma opened_listeners:
  "rs_listeners (ct_relay (fst (seq_effects (start_port2 srt ev proto) ps ct))) q =
     (case rs_listeners (ct_relay ct) q of
        Some l \<Rightarrow> Some l
      | None \<Rightarrow> if q \<in> set ps then (case (if proto = ''srt'' then srt q else ev_listen ev q) of Inl e \<Rightarrow> None | Inr l \<Rightarrow> Some l) else None)"
proof (induction ps arbitrary: ct)
  case (Cons p ps)
  have one: "rs_listeners (ct_relay (fst (start_port2 srt ev proto p ct))) q =
     (case rs_listeners (ct_relay ct) q of
        Some l \<Rightarrow> Some l
      | None \<Rightarrow> if q = p then (case (if proto = ''srt'' then srt q else ev_listen ev q) of Inl e \<Rightarrow> None | Inr l \<Rightarrow> Some l) else None)"
    by (auto simp: start_port2_def StartRelayPortWithProtocol2_def case_prod_beta Let_def split: option.split sum.split)
  show ?case
    by (simp add: case_prod_beta Let_def Cons one split: option.split sum.split)
qed (simp split: option.split)

lemma main2_cfg: "ct_cfg (fst (relay_main2 srt ev cfg)) = cfg"
proof -
  have "ct_cfg (fst (seq_effects (start_port2 srt ev proto) ps ct)) = ct_cfg ct" for proto ps ct
    by (rule seq_effects_keeps) (simp_all add: start_port2_def case_prod_beta)
  then show ?thesis by (simp add: relay_main2_def case_prod_beta Let_def NewControl_def)
qed

lemma main2_listeners:
  "rs_listeners (ct_relay (fst (relay_main2 srt ev cfg))) p \<noteq> None \<longleftrightarrow>
     0 < p \<and> (p \<in> {pa_ZMQStartPort (rc_Ports cfg)..pa_ZMQEndPort (rc_Ports cfg)} \<and> \<not> isl (ev_listen ev p) \<or>
       p \<in> {pa_SRTStartPort (rc_Ports cfg)..pa_SRTEndPort (rc_Ports cfg)} \<and> \<not> isl (srt p))"
  by (auto simp: relay_main2_def case_prod_beta Let_def SetOnStateChange_def opened_listeners NewControl_def GlobalReaper_def
      SetOnPortFree_def GlobalRelay_def port_range_def split: option.split sum.split)

text \<open>
  C25. What a gateway of the second version that starts has done. It has read two files: the two fixed paths when it was
  given no argument, and otherwise a file and the environment file beside it; its configuration is what the YAML file decodes to with
  the members of the environment file over it; it listens on exactly the configured ports where listening
  succeeded, by TCP on the zmq range and by SRT on the srt range; it is in a state of the runs of the control
  server; and from then on a control connection gets beyond its first message only with the secret of
  that configuration, which is not empty.
\<close>
theorem gateway2_starts:
  assumes "relay_start2 srt ev yaml stat read ctl arg = Inr (level, ct, es)"
  shows "\<exists>y e yt et c0 c.
    (if trim_space arg = '''' then y = ''configs/config.yaml'' \<and> e = ''.env.local.json''
     else Dir y = Dir e \<and> (y = trim_space arg \<or> y = Join [trim_space arg, ''config.yaml''])) \<and> read y = Inr yt \<and> yaml yt zero_config = Some c0 \<and> read e = Inr et \<and> read_env et c0 = Some c \<and>
    ct_cfg ct = fc_Relay c \<and> level = level_of c \<and> ctl2_step\<^sup>*\<^sup>* (NewControl (fc_Relay c)) ct \<and>
    {p. rs_listeners (ct_relay ct) p \<noteq> None} =
      {p. 0 < p \<and> (p \<in> {pa_ZMQStartPort (rc_Ports (fc_Relay c))..pa_ZMQEndPort (rc_Ports (fc_Relay c))} \<and> \<not> isl (ev_listen ev p) \<or>
        p \<in> {pa_SRTStartPort (rc_Ports (fc_Relay c))..pa_SRTEndPort (rc_Ports (fc_Relay c))} \<and> \<not> isl (srt p))} \<and>
    (\<forall>ev' k first ct' es'. handle_register2 ev' k first ct = (True, ct', es') \<longrightarrow>
      (\<exists>v pl reg. first = Some v \<and> decode_raw v = Some (''register'', pl) \<and> read_register pl = Some reg \<and>
        rg_Secret reg = rc_AuthSecret (fc_Relay c) \<and> rg_Secret reg \<noteq> ''''))"
proof -
  from assms(1) obtain y e c where c: "resolveConfigPaths stat (trim_space arg) = Inr (y, e)" "loadFromFiles yaml read y e = Inr c"
    "ct = fst (relay_main2 srt ev (fc_Relay c))" "level = level_of c"
    by (auto simp: relay_start2_def case_prod_beta Let_def split: sum.splits)
  from c(2) obtain yt et c0 where files: "read y = Inr yt" "yaml yt zero_config = Some c0" "read e = Inr et" "read_env et c0 = Some c"
    by (auto simp: loadFromFiles_def split: sum.splits option.splits)
  have cfg: "ct_cfg ct = fc_Relay c" by (simp add: c(3) main2_cfg)
  have "\<exists>v pl reg. first = Some v \<and> decode_raw v = Some (''register'', pl) \<and> read_register pl = Some reg \<and>
        rg_Secret reg = rc_AuthSecret (fc_Relay c) \<and> rg_Secret reg \<noteq> ''''"
    if "handle_register2 ev' k first ct = (True, ct', es')" for ev' k first ct' es'
    using that by (auto simp: handle_register2_def VerifyAuth_def cfg Let_def case_prod_beta split: option.splits if_splits)
  moreover have "{p. rs_listeners (ct_relay ct) p \<noteq> None} =
      {p. 0 < p \<and> (p \<in> {pa_ZMQStartPort (rc_Ports (fc_Relay c))..pa_ZMQEndPort (rc_Ports (fc_Relay c))} \<and> \<not> isl (ev_listen ev p) \<or>
        p \<in> {pa_SRTStartPort (rc_Ports (fc_Relay c))..pa_SRTEndPort (rc_Ports (fc_Relay c))} \<and> \<not> isl (srt p))}"
    unfolding c(3) main2_listeners ..
  moreover have "ctl2_step\<^sup>*\<^sup>* (NewControl (fc_Relay c)) ct" unfolding c(3) by (rule main2_run)
  moreover have "if trim_space arg = '''' then y = ''configs/config.yaml'' \<and> e = ''.env.local.json''
     else Dir y = Dir e \<and> (y = trim_space arg \<or> y = Join [trim_space arg, ''config.yaml''])"
  proof (cases "trim_space arg = ''''")
    case True
    then show ?thesis using c(1) by (simp add: resolveConfigPaths_def envFile_def)
  next
    case False
    then show ?thesis using c(1) config_one_directory [OF c(1) False] by (simp add: config_file_named)
  qed
  ultimately show ?thesis
    using files cfg c(4) by blast
qed

text \<open>A secret that is written to the environment file as JSON is the secret of the gateway.\<close>

lemma read_env_secret:
  assumes "valid_utf8 s"
  shows "read_env (encode_json (JObj [(''auth_secret'', JStr s)])) c = Some (set_secret s c)"
proof -
  have "valid_utf8 ''auth_secret''" by (rule plain_valid) (simp add: plain_char_def code_of_def)
  with assms have "parse_json (encode_json (JObj [(''auth_secret'', JStr s)])) = Some (JObj [(''auth_secret'', JStr s)])"
    by (intro parse_encode(1)) simp_all
  then show ?thesis
    by (simp add: read_env_def decode_struct_def decode_member_def field_match_def ascii_upper_def set_secret_def)
qed

definition ex_file_config :: FileConfig where
  "ex_file_config = zero_config\<lparr>fc_Relay := (fc_Relay zero_config)\<lparr>rc_MaxFE := 1, rc_MaxBE := 1,
     rc_Ports := \<lparr>pa_ZMQStartPort = 7, pa_ZMQEndPort = 8, pa_SRTStartPort = 9, pa_SRTEndPort = 9\<rparr>\<rparr>\<rparr>"

lemma gateway2_starts_witness:
  "\<exists>level ct es. relay_start2 (\<lambda>p. Inr 2) (ex_env True) (\<lambda>t c. Some ex_file_config) (\<lambda>p. Inr (p = ''etc''))
      (\<lambda>p. Inr (encode_json (JObj [(''auth_secret'', JStr ''s'')]))) (None, []) '' etc'' = Inr (level, ct, es) \<and>
    {p. rs_listeners (ct_relay ct) p \<noteq> None} = {7, 8, 9} \<and> rc_AuthSecret (ct_cfg ct) = ''s''"
proof -
  define t where "t = encode_json (JObj [(''auth_secret'', JStr ''s'')])"
  have trim: "trim_space '' etc'' = ''etc''" by code_simp
  have env: "read_env t c = Some (set_secret ''s'' c)" for c
    unfolding t_def by (rule read_env_secret, rule plain_valid) (simp add: plain_char_def code_of_def)
  obtain level ct es where run: "relay_start2 (\<lambda>p. Inr 2) (ex_env True) (\<lambda>t c. Some ex_file_config) (\<lambda>p. Inr (p = ''etc''))
      (\<lambda>p. Inr t) (None, []) '' etc'' = Inr (level, ct, es)"
    by (simp add: relay_start2_def trim resolveConfigPaths_def loadFromFiles_def env case_prod_beta Let_def)
  from gateway2_starts [OF run] obtain c where c: "Some (set_secret ''s'' ex_file_config) = Some c" "ct_cfg ct = fc_Relay c"
    "{p. rs_listeners (ct_relay ct) p \<noteq> None} =
      {p. 0 < p \<and> (p \<in> {pa_ZMQStartPort (rc_Ports (fc_Relay c))..pa_ZMQEndPort (rc_Ports (fc_Relay c))} \<and> \<not> isl (ev_listen (ex_env True) p) \<or>
        p \<in> {pa_SRTStartPort (rc_Ports (fc_Relay c))..pa_SRTEndPort (rc_Ports (fc_Relay c))} \<and> \<not> isl ((\<lambda>p. Inr 2 :: go_error + listener) p))}"
    by (auto simp: env)
  have "{p. rs_listeners (ct_relay ct) p \<noteq> None} = {7, 8, 9}"
    unfolding c(3) using c(1) by (auto simp: set_secret_def ex_file_config_def ex_env_def)
  with run c(1,2) show ?thesis unfolding t_def [symmetric] by (auto simp: set_secret_def)
qed

end
