(* ===== verification/ByteSize.thy ===== *)
theory ByteSize
  imports Float64 Config
begin

section \<open>Byte sizes of the configuration (v4/config/parse.go)\<close>

text \<open>
  The size of the log files is a text like 100MB or 1.5 gb. Its number is read by \<open>strconv.ParseFloat\<close>, which takes
  decimal and hexadecimal numbers, exponents, underscores between digits, infinities and NaN, multiplied by
  the unit as a float64 and converted to int64. A conversion of what does not fit is left to the
  implementation by the language: it is the argument \<open>oor\<close>. Errors are \<open>None\<close>; their texts are left out.
\<close>

subsection \<open>Text\<close>

text \<open>\<open>strings.ToUpper\<close>: apart from ASCII only the letters whose upper case is ASCII matter, the dotless i and the long s.\<close>

fun upper_text :: "string \<Rightarrow> string" where
  "upper_text [] = []"
| "upper_text [a] = [ascii_upper a]"
| "upper_text (a # b # s) =
     (if a = CHR 0xC4 \<and> b = CHR 0xB1 then CHR ''I'' # upper_text s
      else if a = CHR 0xC5 \<and> b = CHR 0xBF then CHR ''S'' # upper_text s
      else ascii_upper a # upper_text (b # s))"

definition upper_is :: "string \<Rightarrow> string \<Rightarrow> bool" where
  "upper_is s t \<longleftrightarrow> map ascii_upper s = t"

subsection \<open>\<open>strconv.ParseFloat\<close>\<close>

text \<open>Infinities with a sign or without, and NaN without.\<close>

definition special_float :: "string \<Rightarrow> f64 option" where
  "special_float s =
     (let signed = has_prefix s ''+'' \<or> has_prefix s ''-''; t = (if signed then tl s else s)
      in if upper_is t ''INF'' \<or> upper_is t ''INFINITY'' then Some (Inf (has_prefix s ''-''))
         else if upper_is s ''NAN'' then Some NaN else None)"

definition float_digit :: "bool \<Rightarrow> char \<Rightarrow> nat option" where
  "float_digit hex c =
     (if is_digit c then Some (digit_val c)
      else (let n = of_char (ascii_upper c) :: nat
            in if hex \<and> 65 \<le> n \<and> n \<le> 70 then Some (n - 55) else None))"

text \<open>The digits: the number they make, how many come after the point, whether there are any, and the rest.\<close>

fun scan_digits :: "bool \<Rightarrow> nat \<times> nat \<times> bool \<Rightarrow> bool \<Rightarrow> string \<Rightarrow> (nat \<times> nat \<times> bool) \<times> string" where
  "scan_digits hex acc dot [] = (acc, [])"
| "scan_digits hex (m, k, seen) dot (c # cs) =
     (if c = CHR ''_'' then scan_digits hex (m, k, seen) dot cs
      else if c = CHR ''.'' then (if dot then ((m, k, seen), c # cs) else scan_digits hex (m, k, seen) True cs)
      else (case float_digit hex c of
          None \<Rightarrow> ((m, k, seen), c # cs)
        | Some d \<Rightarrow> scan_digits hex ((if hex then 16 else 10) * m + d, (if dot then k + 1 else k), True) dot cs))"

text \<open>The exponent stops growing at five digits; \<open>None\<close> is an error.\<close>

definition exp_value :: "string \<Rightarrow> nat" where
  "exp_value ds = foldl (\<lambda>e c. if e < 10000 then 10 * e + digit_val c else e) 0 (filter is_digit ds)"

definition scan_exponent :: "string \<Rightarrow> (int \<times> string) option" where
  "scan_exponent s =
     (let neg = has_prefix s ''-''; s1 = (if neg \<or> has_prefix s ''+'' then tl s else s)
      in if s1 = [] \<or> \<not> is_digit (hd s1) then None
         else (let ds = takeWhile (\<lambda>c. is_digit c \<or> c = CHR ''_'') s1; e = int (exp_value ds)
               in Some (if neg then - e else e, drop (length ds) s1)))"

text \<open>\<open>underscoreOK\<close>: an underscore stands between two digits, or a base prefix and a digit.\<close>

fun underscores_ok :: "bool \<Rightarrow> char \<Rightarrow> string \<Rightarrow> bool" where
  "underscores_ok hex saw [] \<longleftrightarrow> saw \<noteq> CHR ''_''"
| "underscores_ok hex saw (c # cs) \<longleftrightarrow>
     (if float_digit hex c \<noteq> None then underscores_ok hex CHR ''0'' cs
      else if c = CHR ''_'' then saw = CHR ''0'' \<and> underscores_ok hex CHR ''_'' cs
      else saw \<noteq> CHR ''_'' \<and> underscores_ok hex CHR ''!'' cs)"

definition hex_prefix :: "string \<Rightarrow> bool" where
  "hex_prefix s \<longleftrightarrow> upper_is (take 2 s) ''0X''"

definition underscoreOK :: "string \<Rightarrow> bool" where
  "underscoreOK s =
     (let s = (if has_prefix s ''+'' \<or> has_prefix s ''-'' then tl s else s);
          base = upper_is (take 2 s) ''0B'' \<or> upper_is (take 2 s) ''0O'' \<or> hex_prefix s
      in if base then underscores_ok (hex_prefix s) CHR ''0'' (drop 2 s) else underscores_ok False CHR ''^'' s)"

definition power_int :: "rat \<Rightarrow> int \<Rightarrow> rat" where
  "power_int b e = (if 0 \<le> e then b ^ nat e else 1 / b ^ nat (- e))"

text \<open>\<open>readFloat\<close> of the whole text, as the exact number it stands for.\<close>

definition readFloat :: "string \<Rightarrow> rat option" where
  "readFloat s =
     (let neg = has_prefix s ''-''; s1 = (if neg \<or> has_prefix s ''+'' then tl s else s);
          hex = (hex_prefix s1 \<and> length s1 > 2); s2 = (if hex then drop 2 s1 else s1);
          ((m, k, seen), rest) = scan_digits hex (0, 0, False) False s2;
          ex = (if rest \<noteq> [] \<and> ascii_upper (hd rest) = (if hex then CHR ''P'' else CHR ''E'') then scan_exponent (tl rest)
                else if hex then None else Some (0, rest))
      in if \<not> seen then None
         else (case ex of
             None \<Rightarrow> None
           | Some (e, rest) \<Rightarrow>
               if rest \<noteq> [] \<or> CHR ''_'' \<in> set s \<and> \<not> underscoreOK s then None
               else (let v = of_nat m * power_int (if hex then 2 else 10) (e - int k * (if hex then 4 else 1))
                     in Some (if neg then - v else v))))"

text \<open>What rounds to an infinity is out of range, an error.\<close>

definition ParseFloat :: "string \<Rightarrow> f64 option" where
  "ParseFloat s =
     (case special_float s of
        Some f \<Rightarrow> Some f
      | None \<Rightarrow> (case readFloat s of
            None \<Rightarrow> None
          | Some r \<Rightarrow> (case rnd r of Inf sg \<Rightarrow> None | f \<Rightarrow> Some f)))"

subsection \<open>Byte sizes\<close>

definition to_int64 :: "(f64 \<Rightarrow> int) \<Rightarrow> f64 \<Rightarrow> int" where
  "to_int64 oor f =
     (case f of
        Fin x \<Rightarrow> (let i = (if 0 \<le> x then \<lfloor>x\<rfloor> else \<lceil>x\<rceil>) in if int64_min \<le> i \<and> i \<le> int64_max then i else oor f)
      | _ \<Rightarrow> oor f)"

definition split_unit :: "string \<Rightarrow> int \<times> string" where
  "split_unit s =
     (if has_suffix s ''KB'' then (1024, trim_suffix s ''KB'')
      else if has_suffix s ''MB'' then (1024 * 1024, trim_suffix s ''MB'')
      else if has_suffix s ''GB'' then (1024 * 1024 * 1024, trim_suffix s ''GB'')
      else if has_suffix s ''B'' then (1, trim_suffix s ''B'') else (1, s))"

definition parseByteSize :: "(f64 \<Rightarrow> int) \<Rightarrow> string \<Rightarrow> int option" where
  "parseByteSize oor s =
     (let (mult, t) = split_unit (trim_space (upper_text s))
      in case ParseFloat (trim_space t) of
           None \<Rightarrow> None
         | Some f \<Rightarrow> if f_less f (Fin 0) then None else Some (to_int64 oor (f_scale f (of_int mult))))"

text \<open>\<open>UnmarshalYAML\<close> of the text of a node, if there is a node.\<close>

definition ByteSize_UnmarshalYAML :: "(f64 \<Rightarrow> int) \<Rightarrow> string option \<Rightarrow> int option" where
  "ByteSize_UnmarshalYAML oor node =
     (case node of
        None \<Rightarrow> Some 0
      | Some value \<Rightarrow> (let v = trim_space value in if v = '''' then Some 0 else parseByteSize oor v))"

definition ByteSize_Int64 :: "int \<Rightarrow> int" where
  "ByteSize_Int64 b = b"

subsection \<open>Whole numbers are read exactly\<close>

lemma round_even_int [simp]: "round_even (of_int j) = j"
  by (simp add: round_even_def)

lemma pow2_split: "e \<le> j \<Longrightarrow> pow2 j = of_int (2 ^ nat (j - e)) * pow2 e"
proof (induction j rule: int_ge_induct)
  case (step j)
  then have "nat (j + 1 - e) = Suc (nat (j - e))" by simp
  with step show ?case by (simp add: pow2_Suc)
qed simp

text \<open>A number of at most 53 bits, shifted to the left, is a float64.\<close>

lemma rnd_shifted:
  assumes "0 < n" "n < 2 ^ 53" "j \<le> 900"
  shows "rnd (of_nat n * 2 ^ j) = Fin (of_nat n * 2 ^ j)"
proof -
  define a where "a = (of_nat n * 2 ^ j :: rat)"
  define e where "e = ulp_exp a"
  have two: "pow2 (int j) = 2 ^ j" for j by (simp add: pow2_def)
  have pos: "0 < a" using assms(1) by (simp add: a_def)
  have n: "of_nat n < (2 :: rat) ^ 53" using assms(2) by (metis of_nat_less_iff of_nat_numeral of_nat_power)
  then have lt: "a < 2 ^ (53 + j)" by (simp add: power_add a_def)
  then have "a < pow2 (int (52 + j) + 1)" using two [of "53 + j"] by (simp add: ac_simps)
  from ilog2_up_bound [OF this, of 0 1100] pos have e: "e \<le> int j" by (simp add: ulp_exp_def e_def)
  obtain K where K: "a = of_int K * pow2 e"
    using pow2_split [OF e] two [of j] by (intro that [of "int n * 2 ^ nat (int j - e)"]) (simp add: a_def)
  have "a / pow2 e = of_int K"
    unfolding K nonzero_mult_div_cancel_right [OF less_imp_neq [OF pow2_pos, symmetric]] ..
  then have v: "of_int (round_even (a / pow2 e)) * pow2 e = a" by (simp only: round_even_int K)
  have "(2 :: rat) ^ (53 + j) \<le> 2 ^ 1024" using assms(3) by (intro power_increasing) simp_all
  with lt have "\<not> 2 ^ 1024 \<le> of_int (round_even (a / pow2 e)) * pow2 e" unfolding v by simp
  then have "rnd a = Fin a" using pos v by (simp add: rnd_def Let_def e_def)
  then show ?thesis by (simp add: a_def)
qed

lemma digit_facts:
  "is_digit c \<Longrightarrow> c \<noteq> CHR ''_'' \<and> c \<noteq> CHR ''.'' \<and> c \<noteq> CHR ''+'' \<and> c \<noteq> CHR ''-'' \<and> float_digit hex c = Some (digit_val c)"
  using is_digit_not_special by (auto simp: float_digit_def is_digit_def)

lemma scan_digits_plain:
  "list_all is_digit ds \<Longrightarrow> scan_digits False (m, k, seen) False ds = ((foldl (\<lambda>n c. 10 * n + digit_val c) m ds, k, seen \<or> ds \<noteq> []), [])"
  by (induction ds arbitrary: m seen) (auto simp: digit_facts)

lemma ParseFloat_digits:
  assumes "list_all is_digit ds" "ds \<noteq> []" "read_nat ds < 2 ^ 53"
  shows "ParseFloat ds = Some (Fin (of_nat (read_nat ds)))"
proof -
  obtain c cs where ds: "ds = c # cs" "is_digit c" using assms(1,2) by (cases ds) auto
  have up: "ascii_upper d = d" if "is_digit d" for d using that by (simp add: ascii_upper_def is_digit_def)
  have signs: "\<not> has_prefix ds ''-''" "\<not> has_prefix ds ''+''" using ds digit_facts [of c] by (auto simp: has_prefix_def)
  have "map ascii_upper ds = ds" using assms(1) by (induction ds) (auto simp: up)
  moreover have "c \<noteq> CHR ''I''" "c \<noteq> CHR ''N''" using ds(2) by (auto simp: is_digit_def)
  ultimately have "special_float ds = None"
    using signs ds by (simp add: special_float_def upper_is_def Let_def)
  moreover have "\<not> hex_prefix ds"
  proof
    assume "hex_prefix ds"
    then have "map ascii_upper (take 2 ds) = ''0X''" by (simp add: hex_prefix_def upper_is_def)
    then have "CHR ''X'' \<in> ascii_upper ` set (take 2 ds)" by (metis list.set_intros(1,2) set_map)
    then obtain d where "d \<in> set ds" "ascii_upper d = CHR ''X''" using set_take_subset by fastforce
    then show False using assms(1) up by (auto simp: list_all_iff is_digit_def)
  qed
  moreover have "CHR ''_'' \<notin> set ds" using assms(1) digit_facts by (auto simp: list_all_iff)
  ultimately have "readFloat ds = Some (of_nat (read_nat ds))"
    using signs assms(2) scan_digits_plain [OF assms(1), of 0 0 False]
    by (simp add: readFloat_def Let_def power_int_def read_nat_def)
  moreover have "rnd (of_nat (read_nat ds)) = Fin (of_nat (read_nat ds))"
    using rnd_shifted [of "read_nat ds" 0] assms(3) by (cases "read_nat ds = 0") (simp_all add: rnd_def)
  ultimately show ?thesis using \<open>special_float ds = None\<close> by (simp add: ParseFloat_def)
qed

lemma upper_text_ascii: "\<forall>c \<in> set s. (of_char c :: nat) < 128 \<Longrightarrow> upper_text s = map ascii_upper s"
  by (induction s rule: upper_text.induct) auto

lemma ascii_upper_low: "(of_char c :: nat) < 97 \<Longrightarrow> ascii_upper c = c"
  by (simp add: ascii_upper_def)

lemma upper_digits: "map ascii_upper (show_nat n) = show_nat n"
  by (rule map_idI) (use show_nat_digits in \<open>force simp: is_digit_def ascii_upper_low\<close>)

lemma upper_blank: "blank w \<Longrightarrow> map ascii_upper w = w"
  by (induction w) (auto simp: blank_def ascii_upper_low)

subsection \<open>The sizes that are meant\<close>

definition byte_units :: "(string \<times> nat) list" where
  "byte_units = [('''', 0), (''B'', 0), (''KB'', 10), (''MB'', 20), (''GB'', 30)]"

text \<open>The unit at the end of a text whose number and blanks end in none of its letters.\<close>

lemma split_unit_units:
  assumes "(U, k) \<in> set byte_units" "x \<noteq> []" "last x \<notin> set ''KMGB''"
  shows "split_unit (x @ U) = (2 ^ k, x)"
proof -
  obtain y c where x: "x = y @ [c]" "c \<notin> set ''KMGB''" using assms(2,3) by (metis append_butlast_last_id)
  from assms(1) consider "U = ''''" "k = 0" | "U = ''B''" "k = 0" | "U = ''KB''" "k = 10" | "U = ''MB''" "k = 20" | "U = ''GB''" "k = 30"
    by (auto simp: byte_units_def)
  then show ?thesis
    by cases (use x(2) in \<open>simp_all add: x(1) split_unit_def has_suffix_def has_prefix_def trim_suffix_def\<close>)
qed

lemma visible_upper: "visible (ascii_upper c) \<Longrightarrow> visible c"
  by (cases "97 \<le> (of_char c :: nat) \<and> (of_char c :: nat) \<le> 122") (auto simp: visible_def ascii_upper_def)

lemma unit_visible: "(U, k) \<in> set byte_units \<Longrightarrow> c \<in> set U \<Longrightarrow> visible c"
  by (auto simp: byte_units_def visible_def)

lemma unit_end:
  assumes "(map ascii_upper u, k) \<in> set byte_units" "u \<noteq> ''''"
  shows "visible (last u)" "visible (last (map ascii_upper u))"
proof -
  have "visible (ascii_upper c)" if "c \<in> set u" for c using unit_visible [OF assms(1)] that by simp
  then have "visible (ascii_upper (last u))" using assms(2) by simp
  then show "visible (last u)" "visible (last (map ascii_upper u))" using assms(2) by (simp_all add: visible_upper last_map)
qed

lemma visible_ascii: "visible c \<Longrightarrow> (of_char c :: nat) < 128"
  by (simp add: visible_def)

lemma blank_ascii: "blank w \<Longrightarrow> c \<in> set w \<Longrightarrow> (of_char c :: nat) < 128"
  by (induction w) (auto simp: blank_def)

lemma blank_no_unit: "blank w \<Longrightarrow> c \<in> set w \<Longrightarrow> c \<notin> set ''KMGB''"
  by (induction w) (auto simp: blank_def)

lemma digit_no_unit: "is_digit c \<Longrightarrow> c \<notin> set ''KMGB''"
  by (auto simp: is_digit_def)

text \<open>
  C34. The sizes that the configuration means. A whole number below \<open>2 ^ 53\<close> with a unit (none, B, KB, MB or GB, in
  any case) and blanks before, between and after is read as that many bytes of the unit, a power of
  1024, exactly, as long as the product fits in an int64.
\<close>
theorem byte_size_units:
  assumes "(map ascii_upper u, k) \<in> set byte_units" and "blank w1" "blank w2" "blank w3"
    and "n < 2 ^ 53" and "int n * 2 ^ k \<le> int64_max"
  shows "ByteSize_UnmarshalYAML oor (Some (w1 @ show_nat n @ w2 @ u @ w3)) = Some (int n * 2 ^ k)"
proof -
  define x where "x = show_nat n @ (if u = '''' then '''' else w2)"
  let ?U = "map ascii_upper u"
  have digits: "solid (show_nat n)" by (rule solid_show_nat)
  have low: "(of_char c :: nat) < 128" if "c \<in> set (show_nat n) \<or> c \<in> set w2" for c
    using that show_nat_digits [of c n] blank_ascii [OF assms(3), of c] by (auto intro: visible_ascii)
  have solid: "solid (x @ u)" "solid (x @ ?U)"
    using digits unit_end(1,2) [OF assms(1)] by (auto simp: solid_def x_def)
  have trim: "trim_space (w1 @ show_nat n @ w2 @ u @ w3) = x @ u"
  proof (cases "u = ''''")
    case True
    then show ?thesis
      using trim_space_solid [OF digits assms(2), of "w2 @ w3"] assms(3,4) by (simp add: x_def blank_def)
  next
    case False
    then show ?thesis
      using trim_space_solid [OF solid(1) assms(2,4)] by (simp add: x_def)
  qed
  have "upper_text (x @ u) = map ascii_upper (x @ u)"
    using low unit_visible [OF assms(1)] by (intro upper_text_ascii) (fastforce simp: x_def intro: visible_ascii visible_upper split: if_splits)
  also have "\<dots> = x @ ?U" by (simp add: x_def upper_digits upper_blank assms(3))
  finally have upper: "trim_space (upper_text (x @ u)) = x @ ?U" by (simp add: trim_space_solid_id solid(2))
  have "last x \<notin> set ''KMGB''"
  proof -
    have "last x \<in> set (show_nat n) \<or> last x \<in> set w2" using last_in_set [of x] by (auto simp: x_def split: if_splits)
    then show ?thesis using show_nat_digits [of "last x" n] blank_no_unit [OF assms(3)] digit_no_unit by blast
  qed
  then have unit: "split_unit (x @ ?U) = (2 ^ k, x)" by (intro split_unit_units assms(1)) (simp_all add: x_def)
  have "trim_space x = show_nat n"
    using trim_space_solid [OF digits _ assms(3), of "[]"] trim_space_solid_id [OF digits] by (simp add: x_def blank_def)
  moreover have "ParseFloat (show_nat n) = Some (Fin (of_nat n))"
    using ParseFloat_digits [of "show_nat n"] show_nat_digits [of _ n] assms(5) by (simp add: list_all_iff)
  moreover have "f_scale (Fin (of_nat n)) (of_int (2 ^ k)) = Fin (of_nat n * 2 ^ k)"
    using rnd_shifted [of n k] assms(1,5) by (cases "n = 0") (auto simp: rnd_def byte_units_def)
  moreover have "to_int64 oor (Fin (of_nat n * 2 ^ k)) = int n * 2 ^ k"
  proof -
    have "\<lfloor>of_nat n * 2 ^ k :: rat\<rfloor> = int n * 2 ^ k" using floor_of_int [of "int n * 2 ^ k", where ?'a = rat] by simp
    moreover have "int64_min \<le> int n * 2 ^ k" by (rule order_trans [of _ 0]) (simp_all add: int64_min_def)
    ultimately show ?thesis using assms(6) by (simp add: to_int64_def Let_def)
  qed
  ultimately have "parseByteSize oor (x @ u) = Some (int n * 2 ^ k)"
    unfolding parseByteSize_def upper unit by simp
  then show ?thesis by (simp add: ByteSize_UnmarshalYAML_def trim Let_def x_def)
qed

lemma byte_size_units_witness: "ByteSize_UnmarshalYAML (\<lambda>f. 0) (Some '' 100 Mb'') = Some 104857600"
proof -
  have "show_nat 100 = ''100''" by code_simp
  moreover have "(map ascii_upper ''Mb'', 20) \<in> set byte_units" by code_simp
  ultimately show ?thesis
    using byte_size_units [of "''Mb''" 20 "'' ''" "'' ''" "''''" 100 "\<lambda>f. 0"] by (simp add: blank_def int64_max_def)
qed

text \<open>
  C35. What a byte size can be. It is a number of bytes between 0 and the largest int64, except where the language leaves
  the conversion open: for what is too large after the multiplication, and for infinities and NaN, which
  \<open>ParseFloat\<close> accepts as words and the check for negative numbers lets through.
\<close>
theorem byte_size_bounds:
  "(case parseByteSize oor s of
      None \<Rightarrow> True
    | Some k \<Rightarrow> k \<in> {0..int64_max} \<or> (\<exists>f \<in> {NaN, Inf False} \<union> Fin ` {2 ^ 63..}. k = oor f)) \<and>
   parseByteSize oor ''nan'' = Some (oor NaN) \<and> parseByteSize oor ''inf MB'' = Some (oor (Inf False))"
proof -
  have "f_less (Fin 0) (Fin 0) = False" by simp
  have special: "special_float ''NAN'' = Some NaN" "special_float ''INF'' = Some (Inf False)" by code_simp+
  have "trim_space (upper_text ''nan'') = ''NAN''" "trim_space (upper_text ''inf MB'') = ''INF MB''"
    "trim_space ''NAN'' = ''NAN''" "trim_space ''INF '' = ''INF''" "split_unit ''NAN'' = (1, ''NAN'')"
    "split_unit ''INF MB'' = (1024 * 1024, ''INF '')" by code_simp+
  then have "parseByteSize oor ''nan'' = Some (oor NaN)" "parseByteSize oor ''inf MB'' = Some (oor (Inf False))"
    by (simp_all add: parseByteSize_def ParseFloat_def special to_int64_def)
  moreover have "k \<in> {0..int64_max} \<or> (\<exists>f \<in> {NaN, Inf False} \<union> Fin ` {2 ^ 63..}. k = oor f)" if k: "parseByteSize oor s = Some k" for k
  proof -
    obtain mult t where unit: "split_unit (trim_space (upper_text s)) = (mult, t)" by force
    then have "0 < mult" by (auto simp: split_unit_def split: if_splits)
    from k unit obtain f where f: "\<not> f_less f (Fin 0)" "k = to_int64 oor (f_scale f (of_int mult))"
      by (auto simp: parseByteSize_def split: option.splits if_splits)
    have fin: "k \<in> {0..int64_max} \<or> k = oor (Fin v) \<and> 2 ^ 63 \<le> v" if "k = to_int64 oor (Fin v)" "0 \<le> v" for v
    proof -
      have "2 ^ 63 \<le> v" if "\<not> \<lfloor>v\<rfloor> \<le> int64_max"
      proof -
        have "2 ^ 63 \<le> \<lfloor>v\<rfloor>" using that by (simp add: int64_max_def)
        then show ?thesis by (simp add: le_floor_iff)
      qed
      moreover have "0 \<le> \<lfloor>v\<rfloor>" using that(2) by simp
      moreover from this have "int64_min \<le> \<lfloor>v\<rfloor>" by (rule order_trans [rotated]) (simp add: int64_min_def)
      ultimately show ?thesis using that by (auto simp: to_int64_def Let_def split: if_splits)
    qed
    show ?thesis
    proof (cases f)
      case (Fin x)
      then have "0 \<le> x * of_int mult" using f(1) \<open>0 < mult\<close> by simp
      from rnd_nonneg [OF this] show ?thesis
      proof
        assume "rnd (x * of_int mult) = Inf False"
        then show ?thesis using f(2) Fin by (simp add: to_int64_def)
      next
        assume "\<exists>v. rnd (x * of_int mult) = Fin v \<and> 0 \<le> v"
        then obtain v where "f_scale f (of_int mult) = Fin v" "0 \<le> v" using Fin by auto
        then show ?thesis using fin [of v] f(2) by auto
      qed
    qed (use f in \<open>auto simp: to_int64_def\<close>)
  qed
  ultimately show ?thesis by (simp split: option.split)
qed

end
