(* ===== verification/MainV4.thy ===== *)
theory MainV4
  imports Hub Hello Paths ByteSize
begin

section \<open>Starting the gateway of version 4 (cmd/relay-server-v4, v4/log, v4/ports/occupy.go)\<close>

text \<open>
  The main program up to the point where it waits for a signal: the configuration file, the log, the check that every data
  port is free, the two pools, the data plane and the control hub. Each step that fails panics with its error. What
  the file system, the network and the log library answer are arguments. The manager and the hub share the
  pools in the program; here each has them in its state.
\<close>

subsection \<open>The configuration path\<close>

definition resolveConfigPath :: "(string \<Rightarrow> io_error + bool) \<Rightarrow> string \<Rightarrow> string" where
  "resolveConfigPath stat p =
     (if p = '''' then ''configs/config.yaml''
      else (case stat p of Inl e \<Rightarrow> p | Inr isDir \<Rightarrow> if isDir then Join [p, ''config.yaml''] else p))"

subsection \<open>The log (v4/log/log.go)\<close>

record file_rotation =
  fr_Filename :: string
  fr_MaxSize :: int
  fr_MaxAge :: int
  fr_Compress :: bool

datatype log_output = ToStdout | ToFile file_rotation

record 'lvl log_setup =
  lg_level :: 'lvl
  lg_json :: bool
  lg_output :: log_output

definition max_int :: "int \<Rightarrow> int \<Rightarrow> int" where
  "max_int a b = (if a > b then a else b)"

text \<open>\<open>Init\<close>: an unknown level is the info level, the file is rotated in whole megabytes. \<open>mkdir\<close> is the outcome of making
  the directory of the file.\<close>

definition Log_Init ::
    "(string \<Rightarrow> 'lvl option) \<Rightarrow> 'lvl \<Rightarrow> (string \<Rightarrow> go_error option) \<Rightarrow> LoggingConfig \<Rightarrow> go_error + 'lvl log_setup" where
  "Log_Init parse_level info mkdir cfg =
     (let level = (case parse_level (lower_role (log_Level cfg)) of None \<Rightarrow> info | Some l \<Rightarrow> l);
          js = (lower_role (log_Format cfg) = ''json''); out = lower_role (log_Output cfg);
          setup = (\<lambda>dest. Inr \<lparr>lg_level = level, lg_json = js, lg_output = dest\<rparr>)
      in if out = ''console'' then setup ToStdout
         else if out = ''file''
         then (case mkdir (Dir (log_FilePath cfg)) of
                 Some e \<Rightarrow> Inl e
               | None \<Rightarrow> setup (ToFile \<lparr>fr_Filename = log_FilePath cfg,
                   fr_MaxSize = max_int 1 (ByteSize_Int64 (log_MaxSize cfg) div (1024 * 1024)),
                   fr_MaxAge = max_int 1 (log_MaxAge cfg), fr_Compress = log_Compress cfg\<rparr>))
         else setup ToStdout)"

text \<open>The hook of the log: fields that are missing in an entry are filled in.\<close>

datatype log_value = LogInt int | LogText string

definition fill_field :: "string \<Rightarrow> log_value option \<Rightarrow> (string \<rightharpoonup> log_value) \<Rightarrow> (string \<rightharpoonup> log_value)" where
  "fill_field name v d = (if d name \<noteq> None then d else case v of None \<Rightarrow> d | Some v \<Rightarrow> d(name \<mapsto> v))"

definition Fire :: "int \<Rightarrow> string option \<Rightarrow> time \<Rightarrow> (string \<rightharpoonup> log_value) \<Rightarrow> (string \<rightharpoonup> log_value)" where
  "Fire gid caller now d =
     fill_field ''ts_ms'' (Some (LogInt (unix_milli now)))
       (fill_field ''func'' (map_option LogText caller) (fill_field ''goid'' (Some (LogInt gid)) d))"

text \<open>\<open>strconv.ParseInt(s, 10, 64)\<close> with its error thrown away: 0 for what is no number, the nearest int64 for what is too large.\<close>

definition ParseInt_or :: "string \<Rightarrow> int" where
  "ParseInt_or s =
     (let neg = has_prefix s ''-''; ds = (if neg \<or> has_prefix s ''+'' then tl s else s)
      in if ds = [] \<or> \<not> list_all is_digit ds then 0
         else if neg then max int64_min (- int (read_nat ds)) else min int64_max (int (read_nat ds)))"

text \<open>\<open>goid\<close> reads the number in the first line of the goroutine's stack, as much of it as 64 bytes hold.\<close>

definition goid :: "string \<Rightarrow> int" where
  "goid stack =
     (let s = trim_prefix (take 64 stack) ''goroutine ''
      in if CHR '' '' \<notin> set s then 0 else ParseInt_or (takeWhile (\<lambda>c. c \<noteq> CHR '' '') s))"

subsection \<open>The check of the ports (v4/ports/occupy.go)\<close>

text \<open>A port is free when listening on it succeeds; the listener is closed again.\<close>

definition CheckTCPPortAvailable :: "go_error + listener \<Rightarrow> go_error option" where
  "CheckTCPPortAvailable listen = (case listen of Inl e \<Rightarrow> Some e | Inr l \<Rightarrow> None)"

definition CheckUDPPortAvailable :: "go_error + listener \<Rightarrow> go_error option" where
  "CheckUDPPortAvailable listen = (case listen of Inl e \<Rightarrow> Some e | Inr c \<Rightarrow> None)"

fun first_taken :: "(port \<Rightarrow> go_error option) \<Rightarrow> port list \<Rightarrow> go_error option" where
  "first_taken check [] = None"
| "first_taken check (p # ps) = (case check p of Some e \<Rightarrow> Some e | None \<Rightarrow> first_taken check ps)"

subsection \<open>The main program\<close>

datatype start4 = Panicked go_error | Serving Manager Hub "go_error option" "srv_effect list" "start_effect list"

text \<open>The data ports are tried with \<open>probe\<close> first and listened on with \<open>listen\<close> later; \<open>ctl\<close> is the outcome of the hub's own
  \<open>Listen\<close>, whose error the program ignores.\<close>

definition gateway4_ports ::
    "(Kind \<Rightarrow> port \<Rightarrow> go_error + listener) \<Rightarrow> (Kind \<Rightarrow> port \<Rightarrow> go_error + listener) \<Rightarrow> go_error option \<times> accepted list \<Rightarrow> time \<Rightarrow>
      Config \<Rightarrow> PortRange \<Rightarrow> PortRange \<Rightarrow> start4" where
  "gateway4_ports probe listen ctl now cfg zmqRange srtRange =
     (case first_taken (\<lambda>p. CheckTCPPortAvailable (probe KindZMQ p)) [range_Start zmqRange..range_End zmqRange] of
        Some e \<Rightarrow> Panicked e
      | None \<Rightarrow>
          (case first_taken (\<lambda>p. CheckUDPPortAvailable (probe KindSRT p)) [range_Start srtRange..range_End srtRange] of
             Some e \<Rightarrow> Panicked e
           | None \<Rightarrow>
               (case NewPool KindZMQ (range_Start zmqRange) (range_End zmqRange) of
                  Inl e \<Rightarrow> Panicked e
                | Inr zmqPool \<Rightarrow>
                    (case NewPool KindSRT (range_Start srtRange) (range_End srtRange) of
                       Inl e \<Rightarrow> Panicked e
                     | Inr srtPool \<Rightarrow>
                         (let (err, rm, es) = Manager_Start listen (NewManager cfg zmqPool srtPool)
                          in case err of
                               Some e \<Rightarrow> Panicked e
                             | None \<Rightarrow> (let (herr, hub, fs) = Hub_Start (fst ctl) (snd ctl) (NewHub now cfg zmqPool srtPool)
                                        in Serving rm hub herr es fs))))))"

definition gateway4_start ::
    "(string \<Rightarrow> io_error + bool) \<Rightarrow> (string \<Rightarrow> go_error + string) \<Rightarrow> (string \<Rightarrow> Config \<Rightarrow> go_error + Config) \<Rightarrow>
      (LoggingConfig \<Rightarrow> go_error + 'lvl log_setup) \<Rightarrow> (Kind \<Rightarrow> port \<Rightarrow> go_error + listener) \<Rightarrow>
      (Kind \<Rightarrow> port \<Rightarrow> go_error + listener) \<Rightarrow> go_error option \<times> accepted list \<Rightarrow> time \<Rightarrow> string \<Rightarrow> start4" where
  "gateway4_start stat read unmarshal log_init probe listen ctl now configPath =
     (case Load unmarshal (read (resolveConfigPath stat configPath)) of
        Inl e \<Rightarrow> Panicked e
      | Inr cfg \<Rightarrow>
          (case log_init (cfg_Logging cfg) of
             Inl e \<Rightarrow> Panicked e
           | Inr setup \<Rightarrow>
               (case ParsePortRange (zmq_PortRange (cfg_ZeroMQ cfg)) of
                  Inl e \<Rightarrow> Panicked e
                | Inr zmqRange \<Rightarrow>
                    (case ParsePortRange (srt_PortRange (cfg_GoSRT cfg)) of
                       Inl e \<Rightarrow> Panicked e
                     | Inr srtRange \<Rightarrow> gateway4_ports probe listen ctl now cfg zmqRange srtRange))))"

subsection \<open>When it serves\<close>

lemma first_taken_None: "first_taken check ps = None \<longleftrightarrow> (\<forall>p \<in> set ps. check p = None)"
  by (induction ps) (auto split: option.split)

lemma available_None:
  "CheckTCPPortAvailable l = None \<longleftrightarrow> \<not> isl l" "CheckUDPPortAvailable l = None \<longleftrightarrow> \<not> isl l"
  by (simp_all add: CheckTCPPortAvailable_def CheckUDPPortAvailable_def split: sum.split)

lemma cfg_ports_range: "ParsePortRange s = Inr r \<Longrightarrow> cfg_ports s = [range_Start r..range_End r]"
  by (simp add: cfg_ports_def range_or_zero_def)

lemma valid_ranges:
  assumes "Load unmarshal file = Inr cfg"
  obtains zr sr where "ParsePortRange (zmq_PortRange (cfg_ZeroMQ cfg)) = Inr zr" "ParsePortRange (srt_PortRange (cfg_GoSRT cfg)) = Inr sr"
proof -
  have "Validate cfg = None" using assms by (auto simp: Load_def Let_def split: sum.splits option.splits)
  then have "\<not> isl (ParsePortRange (zmq_PortRange (cfg_ZeroMQ cfg)))" "\<not> isl (ParsePortRange (srt_PortRange (cfg_GoSRT cfg)))"
    by (simp_all add: Validate_None)
  then show thesis using that by (metis isl_def sum.exhaust)
qed

text \<open>What has to hold for the program to get to its waiting: a valid file, a log, and every data port free twice.\<close>

definition can_serve ::
    "go_error + string \<Rightarrow> (string \<Rightarrow> Config \<Rightarrow> go_error + Config) \<Rightarrow> (LoggingConfig \<Rightarrow> go_error + 'lvl log_setup) \<Rightarrow>
      (Kind \<Rightarrow> port \<Rightarrow> go_error + listener) \<Rightarrow> (Kind \<Rightarrow> port \<Rightarrow> go_error + listener) \<Rightarrow> Config \<Rightarrow> bool" where
  "can_serve file unmarshal log_init probe listen cfg \<longleftrightarrow>
     Load unmarshal file = Inr cfg \<and> \<not> isl (log_init (cfg_Logging cfg)) \<and>
     (let zq = cfg_ports (zmq_PortRange (cfg_ZeroMQ cfg)); sq = cfg_ports (srt_PortRange (cfg_GoSRT cfg))
      in listens (probe KindZMQ) zq \<and> listens (probe KindSRT) sq \<and> listens (listen KindZMQ) zq \<and> listens (listen KindSRT) sq)"

definition idle_on :: "port list \<Rightarrow> Pool \<Rightarrow> bool" where
  "idle_on ps p \<longleftrightarrow> view_port p = (\<lambda>q. if q \<in> set ps then VIdle else VUnknown)"

lemma gateway4_ports_serves:
  assumes zr: "ParsePortRange (zmq_PortRange (cfg_ZeroMQ cfg)) = Inr zr" and sr: "ParsePortRange (srt_PortRange (cfg_GoSRT cfg)) = Inr sr"
  defines "zq \<equiv> cfg_ports (zmq_PortRange (cfg_ZeroMQ cfg))" and "sq \<equiv> cfg_ports (srt_PortRange (cfg_GoSRT cfg))"
  shows "case gateway4_ports probe listen ctl now cfg zr sr of
      Panicked e \<Rightarrow> \<not> (listens (probe KindZMQ) zq \<and> listens (probe KindSRT) sq \<and> listens (listen KindZMQ) zq \<and> listens (listen KindSRT) sq)
    | Serving m h herr es fs \<Rightarrow>
        (listens (probe KindZMQ) zq \<and> listens (probe KindSRT) sq \<and> listens (listen KindZMQ) zq \<and> listens (listen KindSRT) sq) \<and>
        hub_cfg h = cfg \<and> mgr_running m \<and> herr = fst ctl \<and> idle_on zq (hub_zmqPool h) \<and> idle_on sq (hub_srtPool h) \<and>
        tcp_listeners (mgr_zmq m) = (\<lambda>q. if q \<in> set zq then Some (projr (listen KindZMQ q)) else None) \<and>
        srt_listeners (mgr_srt m) = (\<lambda>q. if q \<in> set sq then Some (projr (listen KindSRT q)) else None)"
proof -
  obtain zp where zp: "NewPool KindZMQ (range_Start zr) (range_End zr) = Inr zp"
    "\<And>q. view_port zp q = (if range_Start zr \<le> q \<and> q \<le> range_End zr then VIdle else VUnknown)"
    using NewPool_range [OF zr] by metis
  obtain sp where sp: "NewPool KindSRT (range_Start sr) (range_End sr) = Inr sp"
    "\<And>q. view_port sp q = (if range_Start sr \<le> q \<and> q \<le> range_End sr then VIdle else VUnknown)"
    using NewPool_range [OF sr] by metis
  have q: "zq = [range_Start zr..range_End zr]" "sq = [range_Start sr..range_End sr]"
    using cfg_ports_range zr sr by (simp_all add: zq_def sq_def)
  have idle: "idle_on zq zp" "idle_on sq sp" by (simp_all add: idle_on_def q fun_eq_iff zp(2) sp(2))
  have taken: "first_taken (\<lambda>p. CheckTCPPortAvailable (probe KindZMQ p)) zq = None \<longleftrightarrow> listens (probe KindZMQ) zq"
    "first_taken (\<lambda>p. CheckUDPPortAvailable (probe KindSRT p)) sq = None \<longleftrightarrow> listens (probe KindSRT) sq"
    by (simp_all add: first_taken_None available_None listens_def list_all_iff)
  obtain r m es where start: "Manager_Start listen (NewManager cfg zp sp) = (r, m, es)" by (metis prod_cases3)
  note listens = Manager_Start_listens [where listen = listen and cfg = cfg and zp = zp and sp = sp, unfolded start, simplified, folded zq_def sq_def, unfolded Let_def]
  have hub: "hub_cfg (fst (snd (Hub_Start a b (NewHub now cfg zp sp)))) = cfg" "fst (Hub_Start a b (NewHub now cfg zp sp)) = a"
    "hub_zmqPool (fst (snd (Hub_Start a b (NewHub now cfg zp sp)))) = zp" "hub_srtPool (fst (snd (Hub_Start a b (NewHub now cfg zp sp)))) = sp" for a b
    by (simp_all add: Hub_Start_def NewHub_def Let_def split: option.split)
  show ?thesis
    using taken listens idle
    by (auto simp: gateway4_ports_def q [symmetric] zp(1) sp(1) start case_prod_beta Let_def hub split: option.split)
qed

text \<open>
  C21. When the gateway of version 4 starts. The program gets to serving exactly when its configuration file loads, the log can be set up
  and every port of both ranges could be listened on, first for the check and then for good; otherwise it panics. When it serves,
  the data plane runs with one listener on each configured port and no others, and the hub has the
  configuration and two pools in which exactly those ports are idle. The error of the control port's
  own listening is dropped: with it, the gateway serves data ports that nobody can ask for.
\<close>
theorem gateway4_serves:
  "case gateway4_start stat read unmarshal log_init probe listen ctl now path of
      Panicked e \<Rightarrow> \<not> (\<exists>cfg. can_serve (read (resolveConfigPath stat path)) unmarshal log_init probe listen cfg)
    | Serving m h herr es fs \<Rightarrow>
        can_serve (read (resolveConfigPath stat path)) unmarshal log_init probe listen (hub_cfg h) \<and> mgr_running m \<and> herr = fst ctl \<and>
        (let zq = cfg_ports (zmq_PortRange (cfg_ZeroMQ (hub_cfg h))); sq = cfg_ports (srt_PortRange (cfg_GoSRT (hub_cfg h)))
         in idle_on zq (hub_zmqPool h) \<and> idle_on sq (hub_srtPool h) \<and>
            tcp_listeners (mgr_zmq m) = (\<lambda>q. if q \<in> set zq then Some (projr (listen KindZMQ q)) else None) \<and>
            srt_listeners (mgr_srt m) = (\<lambda>q. if q \<in> set sq then Some (projr (listen KindSRT q)) else None))"
proof (cases "Load unmarshal (read (resolveConfigPath stat path))")
  case (Inr cfg)
  note loaded = this
  obtain zr sr where ranges: "ParsePortRange (zmq_PortRange (cfg_ZeroMQ cfg)) = Inr zr" "ParsePortRange (srt_PortRange (cfg_GoSRT cfg)) = Inr sr"
    using valid_ranges [OF Inr] by blast
  show ?thesis
  proof (cases "log_init (cfg_Logging cfg)")
    case Inl
    then show ?thesis using loaded by (simp add: gateway4_start_def can_serve_def)
  next
    case (Inr lg)
    note log = this
    with loaded ranges have "gateway4_start stat read unmarshal log_init probe listen ctl now path = gateway4_ports probe listen ctl now cfg zr sr"
      by (simp add: gateway4_start_def)
    with gateway4_ports_serves [OF ranges, of probe listen ctl now] loaded log show ?thesis
      by (cases "gateway4_ports probe listen ctl now cfg zr sr") (auto simp: can_serve_def Let_def)
  qed
qed (simp add: gateway4_start_def can_serve_def)

lemma gateway4_serves_witness:
  "\<exists>m h es fs. gateway4_start (\<lambda>p. Inr True) (\<lambda>p. Inr ''x'') (\<lambda>raw c. Inr c)
       (Log_Init (\<lambda>s. Some 4) (4 :: nat) (\<lambda>d. None)) (\<lambda>k p. Inr 1) (\<lambda>k p. Inr 2) (Some (ErrText ''in use''), []) 0 ''etc'' =
       Serving m h (Some (ErrText ''in use'')) es fs \<and> tcp_listeners (mgr_zmq m) 2310 = Some 2"
proof -
  have "can_serve (Inr ''x'') (\<lambda>raw c. Inr c) (Log_Init (\<lambda>s. Some 4) (4 :: nat) (\<lambda>d. None)) (\<lambda>k p. Inr 1) (\<lambda>k p. Inr 2) DefaultConfig"
    by (simp add: can_serve_def Load_def Validate_DefaultConfig listens_def Log_Init_def Let_def list_all_iff)
  moreover have "2310 \<in> set (cfg_ports (zmq_PortRange (cfg_ZeroMQ DefaultConfig)))"
    by (simp add: DefaultConfig_def cfg_ports_range [OF ParsePortRange_defaults(1)])
  moreover have "can_serve (Inr ''x'') (\<lambda>raw c. Inr c) l probe listen c \<Longrightarrow> c = DefaultConfig"
    for l :: "LoggingConfig \<Rightarrow> go_error + nat log_setup" and probe listen c
    by (auto simp: can_serve_def Load_def split: option.splits)
  ultimately show ?thesis
    using gateway4_serves [where stat = "\<lambda>p. Inr True" and read = "\<lambda>p. Inr ''x''" and unmarshal = "\<lambda>raw c. Inr c"
        and log_init = "Log_Init (\<lambda>s. Some 4) (4 :: nat) (\<lambda>d. None)" and probe = "\<lambda>k p. Inr 1" and listen = "\<lambda>k p. Inr 2"
        and ctl = "(Some (ErrText ''in use''), [])" and now = 0 and path = "''etc''"]
    by (force simp: Let_def split: start4.splits)
qed

end
