(* ===== verification/SysStat.thy ===== *)
theory SysStat
  imports Float64 "HOL-Library.Word"
begin

section \<open>The system sampler (v4/control/sysstat.go)\<close>

text \<open>
  The telemetry of the hub carries the CPU load, from two readings of the first line of /proc/stat. The
  counters are 64-bit words that wrap, the load is a float64 between 0 and 100. The content of the
  file and the allocated bytes are arguments.
\<close>

subsection \<open>Reading the line\<close>

text \<open>\<open>strings.Fields\<close>: the maximal pieces without white space.\<close>

fun word_of :: "string \<Rightarrow> string \<times> string" where
  "word_of [] = ([], [])"
| "word_of (c # cs) =
     (if strip_first space_encodings (c # cs) \<noteq> None then ([], c # cs)
      else (let (w, r) = word_of cs in (c # w, r)))"

lemma word_of_length: "length (snd (word_of s)) \<le> length s"
  by (induction s) (auto simp: case_prod_beta Let_def)

lemma strip_all_length: "length (strip_all es s) \<le> length s"
  using strip_all_suffix [of s es] by (metis le_add2 length_append)

function Fields :: "string \<Rightarrow> string list" where
  "Fields s =
     (case trim_left s of
        [] \<Rightarrow> []
      | c # cs \<Rightarrow> (let (w, r) = word_of cs in (c # w) # Fields r))"
  by pat_completeness auto
termination
proof (relation "measure length")
  fix s c cs x w r
  assume "trim_left s = c # cs" "x = word_of cs" "(w, r) = x"
  moreover have "length (trim_left s) \<le> length s" unfolding trim_left_def by (rule strip_all_length)
  ultimately show "(r, s) \<in> measure length" using word_of_length [of cs] by (auto dest: sym)
qed simp

declare Fields.simps [simp del]

text \<open>\<open>strconv.ParseUint(f, 10, 64)\<close>.\<close>

definition ParseUint :: "string \<Rightarrow> 64 word option" where
  "ParseUint s =
     (if s \<noteq> [] \<and> list_all is_digit s \<and> read_nat s < 2 ^ 64 then Some (of_nat (read_nat s)) else None)"

fun parse_all :: "string list \<Rightarrow> 64 word list option" where
  "parse_all [] = Some []"
| "parse_all (f # fs) = (case ParseUint f of None \<Rightarrow> None | Some v \<Rightarrow> map_option ((#) v) (parse_all fs))"

text \<open>The first token of a \<open>bufio.Scanner\<close>: a line of less than 64 KiB, without its end.\<close>

definition first_line :: "string \<Rightarrow> string option" where
  "first_line content =
     (let line = takeWhile (\<lambda>c. c \<noteq> CHR 0x0A) content
      in if content = [] \<or> length line \<ge> 64 * 1024 then None
         else Some (if line \<noteq> [] \<and> last line = CHR 0x0D then butlast line else line))"

text \<open>\<open>None\<close> for the content: the file cannot be opened.\<close>

definition readProcStat :: "string option \<Rightarrow> (64 word \<times> 64 word) option" where
  "readProcStat file =
     (case Option.bind file first_line of
        None \<Rightarrow> None
      | Some line \<Rightarrow>
          (let fields = Fields line
           in if length fields < 5 \<or> hd fields \<noteq> ''cpu'' then None
              else (case parse_all (tl fields) of
                  None \<Rightarrow> None
                | Some vals \<Rightarrow>
                    (let sum = fold (\<lambda>v acc. acc + v) vals 0; idle = vals ! 3;
                         idle = (if length vals > 4 then idle + vals ! 4 else idle)
                     in Some (sum, idle)))))"

subsection \<open>The load\<close>

record sysSampler =
  sy_lastTotal :: "64 word"
  sy_lastIdle :: "64 word"

definition newSysSampler :: sysSampler where
  "newSysSampler = \<lparr>sy_lastTotal = 0, sy_lastIdle = 0\<rparr>"

fun f_div :: "f64 \<Rightarrow> f64 \<Rightarrow> f64" where
  "f_div NaN y = NaN"
| "f_div (Inf s) NaN = NaN"
| "f_div (Inf s) (Inf t) = NaN"
| "f_div (Inf s) (Fin y) = Inf (s \<noteq> (y < 0))"
| "f_div (Fin x) NaN = NaN"
| "f_div (Fin x) (Inf t) = Fin 0"
| "f_div (Fin x) (Fin y) = (if y = 0 then (if x = 0 then NaN else Inf (x < 0)) else rnd (x / y))"

definition f_of_word :: "64 word \<Rightarrow> f64" where
  "f_of_word w = f_of_int (uint w)"

definition CPUPercent :: "string option \<Rightarrow> sysSampler \<Rightarrow> f64 \<times> sysSampler" where
  "CPUPercent file s =
     (case readProcStat file of
        None \<Rightarrow> (Fin 0, s)
      | Some (tot, idle) \<Rightarrow>
          (let s' = s\<lparr>sy_lastTotal := tot, sy_lastIdle := idle\<rparr>
           in if sy_lastTotal s = 0 then (Fin 0, s')
              else (let dt = tot - sy_lastTotal s; di = idle - sy_lastIdle s
                    in if dt = 0 then (Fin 0, s')
                       else (let busy = f_scale (f_div (f_of_word (dt - di)) (f_of_word dt)) 100
                             in if f_less busy (Fin 0) then (Fin 0, s')
                                else if f_less (Fin 100) busy then (Fin 100, s')
                                else (busy, s')))))"

definition MemMB :: "64 word \<Rightarrow> f64" where
  "MemMB alloc = f_scale (f_of_word alloc) (1 / (1024 * 1024))"

subsection \<open>The load is a percentage\<close>

lemma ilog2_up_le: "pow2 e \<le> r \<Longrightarrow> pow2 (ilog2_up n r e) \<le> r"
  by (induction n arbitrary: e) (auto simp: not_less)

lemma round_even_bounds: "round_even x \<le> \<lfloor>x\<rfloor> + 1" "\<lfloor>x\<rfloor> \<le> round_even x"
  by (auto simp: round_even_def Let_def)

text \<open>A word as a float is finite, and at least 1 unless it is 0.\<close>

lemma rnd_int_finite:
  assumes "1 \<le> i" and "i < 2 ^ 64"
  obtains v where "rnd (of_int i) = Fin v" and "0 < v"
proof -
  let ?a = "of_int i :: rat" and ?e = "ulp_exp (of_int i)"
  have a: "1 \<le> ?a" using assms(1) by simp
  have "pow2 0 \<le> ?a" using a by (simp add: pow2_def)
  from ilog2_up_le [OF this, of 1100] have le: "pow2 (ilog2_up 1100 ?a 0) \<le> ?a" .
  have "pow2 (-1074) \<le> pow2 0" by (rule pow2_mono) simp
  then have "pow2 (-1074) \<le> ?a" using a by (simp add: pow2_def)
  moreover have "pow2 (ilog2_up 1100 ?a 0 - 52) \<le> ?a" using le pow2_mono [of "ilog2_up 1100 ?a 0 - 52" "ilog2_up 1100 ?a 0"] by simp
  ultimately have e: "pow2 ?e \<le> ?a" by (auto simp: ulp_exp_def max_def)
  have "1 \<le> ?a / pow2 ?e" using e by (simp add: pos_le_divide_eq)
  then have "1 \<le> \<lfloor>?a / pow2 ?e\<rfloor>" by simp
  then have r1: "1 \<le> round_even (?a / pow2 ?e)" using round_even_bounds(2) [of "?a / pow2 ?e"] by linarith
  have "of_int (round_even (?a / pow2 ?e)) \<le> (of_int (\<lfloor>?a / pow2 ?e\<rfloor> + 1) :: rat)"
    using round_even_bounds(1) [of "?a / pow2 ?e"] by (simp only: of_int_le_iff)
  also have "\<dots> \<le> ?a / pow2 ?e + 1" by simp
  finally have "of_int (round_even (?a / pow2 ?e)) * pow2 ?e \<le> (?a / pow2 ?e + 1) * pow2 ?e"
    by (rule mult_right_mono) (simp add: less_imp_le)
  also have "\<dots> = ?a + pow2 ?e" using pow2_pos [of ?e] by (simp add: distrib_right less_imp_neq [symmetric])
  also have "\<dots> \<le> 2 * ?a" using e by simp
  also have "\<dots> < 2 * of_int (2 ^ 64)" using assms(2) by (simp only: mult_less_cancel_left_pos zero_less_numeral of_int_less_iff)
  also have "\<dots> = 2 ^ 65" by simp
  also have "\<dots> \<le> (2 ^ 1024 :: rat)" by (rule power_increasing) simp_all
  finally have small: "of_int (round_even (?a / pow2 ?e)) * pow2 ?e < (2 ^ 1024 :: rat)" .
  have "0 < (of_int (round_even (?a / pow2 ?e)) :: rat)" using r1 by simp
  then have "0 < of_int (round_even (?a / pow2 ?e)) * pow2 ?e" by simp
  moreover have "rnd ?a = Fin (of_int (round_even (?a / pow2 ?e)) * pow2 ?e)"
    using small a by (simp add: rnd_def Let_def)
  ultimately show thesis by (rule that [rotated])
qed

lemma f_of_word_finite:
  obtains v where "f_of_word w = Fin v" and "0 \<le> v" and "w \<noteq> 0 \<Longrightarrow> 0 < v"
proof (cases "w = 0")
  case True
  then have "f_of_word w = Fin 0" by (simp add: f_of_word_def f_of_int_def rnd_def)
  with True that show thesis by simp
next
  case False
  then have "1 \<le> uint w" using uint_nonnegative [of w] by (metis int_one_le_iff_zero_less le_less unsigned_eq_0_iff)
  moreover have "uint w < 2 ^ 64" using uint_bounded [of w] by simp
  ultimately obtain v where "rnd (of_int (uint w)) = Fin v" "0 < v" by (rule rnd_int_finite)
  with that show thesis by (simp add: f_of_word_def f_of_int_def)
qed

text \<open>
  The CPU load is a number between 0 and 100, whatever the file says and whatever was read before: also
  when the counters wrap or go back, the result is never NaN or infinite.
\<close>
theorem CPUPercent_bounded: "\<exists>v. fst (CPUPercent file s) = Fin v \<and> 0 \<le> v \<and> v \<le> 100"
proof -
  have load: "\<exists>v. (if f_less b (Fin 0) then Fin 0 else if f_less (Fin 100) b then Fin 100 else b) = Fin v \<and> 0 \<le> v \<and> v \<le> 100"
    if "b = Inf False \<or> (\<exists>v. b = Fin v)" for b
    using that by (auto simp: not_less)
  have "f_scale (f_div (f_of_word x) (f_of_word y)) 100 = Inf False \<or> (\<exists>v. f_scale (f_div (f_of_word x) (f_of_word y)) 100 = Fin v)"
    if y: "y \<noteq> 0" for x y
  proof -
    obtain u v where u: "f_of_word x = Fin u" "0 \<le> u" and v: "f_of_word y = Fin v" "0 < v"
      using f_of_word_finite y by metis
    then have "f_div (f_of_word x) (f_of_word y) = rnd (u / v)" by simp
    moreover have "rnd (u / v) = Inf False \<or> (\<exists>q. rnd (u / v) = Fin q \<and> 0 \<le> q)" using u(2) v(2) by (intro rnd_nonneg) simp
    ultimately show ?thesis using rnd_nonneg [of "q * 100" for q] by fastforce
  qed
  then have "\<exists>v. (if f_less (f_scale (f_div (f_of_word x) (f_of_word y)) 100) (Fin 0) then Fin 0
      else if f_less (Fin 100) (f_scale (f_div (f_of_word x) (f_of_word y)) 100) then Fin 100
      else f_scale (f_div (f_of_word x) (f_of_word y)) 100) = Fin v \<and> 0 \<le> v \<and> v \<le> 100" if "y \<noteq> 0" for x y
    using load that by blast
  note load = this
  show ?thesis
  proof (cases "readProcStat file")
    case (Some r)
    obtain tot idle where r: "r = (tot, idle)" by (cases r)
    show ?thesis
    proof (cases "sy_lastTotal s = 0 \<or> tot - sy_lastTotal s = 0")
      case False
      with load [of "tot - sy_lastTotal s" "tot - sy_lastTotal s - (idle - sy_lastIdle s)"] show ?thesis
        unfolding CPUPercent_def Some r option.case prod.case Let_def if_distrib [of fst] fst_conv by simp
    qed (auto simp: CPUPercent_def Some r Let_def)
  qed (simp add: CPUPercent_def)
qed

text \<open>A reading, by evaluation.\<close>

lemma readProcStat_example:
  "readProcStat (Some (''cpu 10 0 5 100 7'' @ [CHR 0x0A])) = Some (122, 107)"
  by (simp add: readProcStat_def first_line_def Fields.simps space_encodings_def trim_left_def strip_all.simps has_prefix_def
      ParseUint_def is_digit_def read_nat_def digit_val_def)

end
