(* ===== verification/VideoProto.thy ===== *)
theory VideoProto
  imports Errors "HOL-Library.Word"
begin

section \<open>The frames of the video tests (v4/testing/video/proto.go)\<close>

text \<open>
  The repository's video front and back ends measure a session with binary frames: a header of 48
  bytes, big endian, and a payload under a CRC-32. Bytes are 8-bit words, the int64 fields their
  64-bit words. A writer answers each \<open>Write\<close> with an error or none, a reader is the bytes that arrive before it ends.
\<close>

unbundle bit_operations_syntax

subsection \<open>Numbers and checksums\<close>

text \<open>\<open>binary.BigEndian\<close>.\<close>

definition PutUint32 :: "32 word \<Rightarrow> 8 word list" where
  "PutUint32 v = map (\<lambda>i. ucast (drop_bit i v)) [24, 16, 8, 0]"

definition PutUint64 :: "64 word \<Rightarrow> 8 word list" where
  "PutUint64 v = map (\<lambda>i. ucast (drop_bit i v)) [56, 48, 40, 32, 24, 16, 8, 0]"

definition Uint32 :: "8 word list \<Rightarrow> 32 word" where
  "Uint32 b = ucast (b ! 3) OR push_bit 8 (ucast (b ! 2)) OR push_bit 16 (ucast (b ! 1)) OR push_bit 24 (ucast (b ! 0))"

definition Uint64 :: "8 word list \<Rightarrow> 64 word" where
  "Uint64 b = ucast (b ! 7) OR push_bit 8 (ucast (b ! 6)) OR push_bit 16 (ucast (b ! 5)) OR push_bit 24 (ucast (b ! 4)) OR
     push_bit 32 (ucast (b ! 3)) OR push_bit 40 (ucast (b ! 2)) OR push_bit 48 (ucast (b ! 1)) OR push_bit 56 (ucast (b ! 0))"

text \<open>\<open>crc32.ChecksumIEEE\<close>, bit by bit with the reversed polynomial.\<close>

definition crc_bit :: "32 word \<Rightarrow> 32 word" where
  "crc_bit c = (if bit c 0 then drop_bit 1 c XOR 0xEDB88320 else drop_bit 1 c)"

definition crc_byte :: "8 word \<Rightarrow> 32 word \<Rightarrow> 32 word" where
  "crc_byte b c = (crc_bit ^^ 8) (c XOR ucast b)"

definition ChecksumIEEE :: "8 word list \<Rightarrow> 32 word" where
  "ChecksumIEEE bs = NOT (fold crc_byte bs (NOT 0))"

subsection \<open>Frames\<close>

definition magic :: "32 word" where "magic = 0x56345654"
definition version :: "8 word" where "version = 1"
definition MsgData :: "8 word" where "MsgData = 1"
definition MsgEcho :: "8 word" where "MsgEcho = 2"
definition MsgPing :: "8 word" where "MsgPing = 3"
definition MsgPong :: "8 word" where "MsgPong = 4"

record Frame =
  fr_Type :: "8 word"
  fr_Seq :: "64 word"
  fr_SentUnixNs :: "64 word"
  fr_ServerRecvUnixNs :: "64 word"
  fr_ServerSendUnixNs :: "64 word"
  fr_CRC32 :: "32 word"
  fr_Payload :: "8 word list"

text \<open>The header that all four writers fill in; the two bytes after the type stay 0.\<close>

definition frame_header :: "8 word \<Rightarrow> 64 word \<Rightarrow> 64 word \<Rightarrow> 64 word \<Rightarrow> 64 word \<Rightarrow> 32 word \<Rightarrow> 32 word \<Rightarrow> 8 word list" where
  "frame_header typ seq sent recv send crc len =
     PutUint32 magic @ [version, typ, 0, 0] @ PutUint64 seq @ PutUint64 sent @ PutUint64 recv @ PutUint64 send @
     PutUint32 crc @ PutUint32 len"

text \<open>The writes, and the error of the call: of the header, then of a payload that is not empty.\<close>

definition write_parts :: "(nat \<Rightarrow> go_error option) \<Rightarrow> 8 word list \<Rightarrow> 8 word list \<Rightarrow> go_error option \<times> 8 word list list" where
  "write_parts w hdr payload =
     (case w 0 of
        Some e \<Rightarrow> (Some e, [hdr])
      | None \<Rightarrow> if payload = [] then (None, [hdr]) else (w 1, [hdr, payload]))"

definition payload_error :: "nat \<Rightarrow> go_error" where
  "payload_error n = ErrText (''payload too large: '' @ show_nat n)"

definition WriteDataFrame ::
    "(nat \<Rightarrow> go_error option) \<Rightarrow> 64 word \<Rightarrow> 64 word \<Rightarrow> 8 word list \<Rightarrow> go_error option \<times> 8 word list list" where
  "WriteDataFrame w seq sent payload =
     (if length payload > 2 ^ 32 - 1 then (Some (payload_error (length payload)), [])
      else write_parts w (frame_header MsgData seq sent 0 0 (ChecksumIEEE payload) (of_nat (length payload))) payload)"

definition WriteEchoFrame ::
    "(nat \<Rightarrow> go_error option) \<Rightarrow> 64 word \<Rightarrow> 64 word \<Rightarrow> 64 word \<Rightarrow> 64 word \<Rightarrow> 8 word list \<Rightarrow> go_error option \<times> 8 word list list" where
  "WriteEchoFrame w seq sent recv send payload =
     (if length payload > 2 ^ 32 - 1 then (Some (payload_error (length payload)), [])
      else write_parts w (frame_header MsgEcho seq sent recv send (ChecksumIEEE payload) (of_nat (length payload))) payload)"

definition WritePingFrame :: "(nat \<Rightarrow> go_error option) \<Rightarrow> 64 word \<Rightarrow> 64 word \<Rightarrow> go_error option \<times> 8 word list list" where
  "WritePingFrame w seq sent = (w 0, [frame_header MsgPing seq sent 0 0 0 0])"

definition WritePongFrame ::
    "(nat \<Rightarrow> go_error option) \<Rightarrow> 64 word \<Rightarrow> 64 word \<Rightarrow> 64 word \<Rightarrow> 64 word \<Rightarrow> go_error option \<times> 8 word list list" where
  "WritePongFrame w seq sent recv send = (w 0, [frame_header MsgPong seq sent recv send 0 0])"

datatype frame_error = FrameEOF | FrameUnexpectedEOF | BadMagic | BadVersion "8 word" | TooLarge nat | CrcMismatch

text \<open>\<open>io.ReadFull\<close>: all \<open>n\<close> bytes, or what is left and an error.\<close>

definition ReadFull :: "nat \<Rightarrow> 8 word list \<Rightarrow> (frame_error + 8 word list) \<times> 8 word list" where
  "ReadFull n bs =
     (if n \<le> length bs then (Inr (take n bs), drop n bs)
      else (Inl (if bs = [] then FrameEOF else FrameUnexpectedEOF), []))"

definition ReadFrame :: "8 word list \<Rightarrow> int \<Rightarrow> (frame_error + Frame) \<times> 8 word list" where
  "ReadFrame bs maxPayloadBytes =
     (case ReadFull 48 bs of
        (Inl e, r) \<Rightarrow> (Inl e, r)
      | (Inr hdr, r) \<Rightarrow>
          if Uint32 hdr \<noteq> magic then (Inl BadMagic, r)
          else if hdr ! 4 \<noteq> version then (Inl (BadVersion (hdr ! 4)), r)
          else (let typ = hdr ! 5; seq = Uint64 (drop 8 hdr); sent = Uint64 (drop 16 hdr); recv = Uint64 (drop 24 hdr);
                    send = Uint64 (drop 32 hdr); crc = Uint32 (drop 40 hdr); n = unat (Uint32 (drop 44 hdr))
                in if maxPayloadBytes > 0 \<and> int n > maxPayloadBytes then (Inl (TooLarge n), r)
                   else (case (if n > 0 then ReadFull n r else (Inr [], r)) of
                       (Inl e, r) \<Rightarrow> (Inl e, r)
                     | (Inr payload, r) \<Rightarrow>
                         if n > 0 \<and> ChecksumIEEE payload \<noteq> crc then (Inl CrcMismatch, r)
                         else (Inr \<lparr>fr_Type = typ, fr_Seq = seq, fr_SentUnixNs = sent, fr_ServerRecvUnixNs = recv,
                                    fr_ServerSendUnixNs = send, fr_CRC32 = crc, fr_Payload = payload\<rparr>, r))))"

subsection \<open>What is written is read back\<close>

lemma put_length [simp]: "length (PutUint32 w) = 4" "length (PutUint64 v) = 8"
  by (simp_all add: PutUint32_def PutUint64_def)

lemma bytes_join:
  fixes w :: "32 word" and v :: "64 word"
  shows "ucast (ucast w :: 8 word) OR push_bit 8 (ucast (ucast (drop_bit 8 w) :: 8 word)) OR
      push_bit 16 (ucast (ucast (drop_bit 16 w) :: 8 word)) OR push_bit 24 (ucast (ucast (drop_bit 24 w) :: 8 word)) = w"
    and "ucast (ucast v :: 8 word) OR push_bit 8 (ucast (ucast (drop_bit 8 v) :: 8 word)) OR
      push_bit 16 (ucast (ucast (drop_bit 16 v) :: 8 word)) OR push_bit 24 (ucast (ucast (drop_bit 24 v) :: 8 word)) OR
      push_bit 32 (ucast (ucast (drop_bit 32 v) :: 8 word)) OR push_bit 40 (ucast (ucast (drop_bit 40 v) :: 8 word)) OR
      push_bit 48 (ucast (ucast (drop_bit 48 v) :: 8 word)) OR push_bit 56 (ucast (ucast (drop_bit 56 v) :: 8 word)) = v"
proof -
  show "ucast (ucast w :: 8 word) OR push_bit 8 (ucast (ucast (drop_bit 8 w) :: 8 word)) OR
      push_bit 16 (ucast (ucast (drop_bit 16 w) :: 8 word)) OR push_bit 24 (ucast (ucast (drop_bit 24 w) :: 8 word)) = w" (is "?w = _")
  proof (rule bit_word_eqI)
    fix n assume "n < LENGTH(32)"
    then consider "n < 8" | "8 \<le> n" "n < 16" | "16 \<le> n" "n < 24" | "24 \<le> n" "n < 32" by force
    then show "bit (?w) n = bit w n" by cases (auto simp: bit_simps)
  qed
  show "ucast (ucast v :: 8 word) OR push_bit 8 (ucast (ucast (drop_bit 8 v) :: 8 word)) OR
      push_bit 16 (ucast (ucast (drop_bit 16 v) :: 8 word)) OR push_bit 24 (ucast (ucast (drop_bit 24 v) :: 8 word)) OR
      push_bit 32 (ucast (ucast (drop_bit 32 v) :: 8 word)) OR push_bit 40 (ucast (ucast (drop_bit 40 v) :: 8 word)) OR
      push_bit 48 (ucast (ucast (drop_bit 48 v) :: 8 word)) OR push_bit 56 (ucast (ucast (drop_bit 56 v) :: 8 word)) = v" (is "?v = _")
  proof (rule bit_word_eqI)
    fix n assume "n < LENGTH(64)"
    then consider "n < 8" | "8 \<le> n" "n < 16" | "16 \<le> n" "n < 24" | "24 \<le> n" "n < 32" | "32 \<le> n" "n < 40"
      | "40 \<le> n" "n < 48" | "48 \<le> n" "n < 56" | "56 \<le> n" "n < 64" by force
    then show "bit (?v) n = bit v n" by cases (auto simp: bit_simps)
  qed
qed

lemma put_get [simp]: "Uint32 (PutUint32 w @ r) = w" "Uint64 (PutUint64 v @ r) = v" "Uint32 (PutUint32 w) = w"
  by (simp_all add: Uint32_def Uint64_def PutUint32_def PutUint64_def bytes_join)

lemma header_parts:
  defines "h \<equiv> frame_header"
  shows "length (h typ seq sent recv send crc len) = 48" "Uint32 (h typ seq sent recv send crc len) = magic"
    "h typ seq sent recv send crc len ! 4 = version" "h typ seq sent recv send crc len ! 5 = typ"
    "Uint64 (drop 8 (h typ seq sent recv send crc len)) = seq" "Uint64 (drop 16 (h typ seq sent recv send crc len)) = sent"
    "Uint64 (drop 24 (h typ seq sent recv send crc len)) = recv" "Uint64 (drop 32 (h typ seq sent recv send crc len)) = send"
    "Uint32 (drop 40 (h typ seq sent recv send crc len)) = crc" "Uint32 (drop 44 (h typ seq sent recv send crc len)) = len"
  by (simp_all add: h_def frame_header_def nth_append)

lemma ReadFrame_header:
  assumes "n = unat len" "n = length payload" "0 < n \<Longrightarrow> ChecksumIEEE payload = crc" "maxPayloadBytes \<le> 0 \<or> int n \<le> maxPayloadBytes"
  shows "ReadFrame (frame_header typ seq sent recv send crc len @ payload @ rest) maxPayloadBytes =
    (Inr \<lparr>fr_Type = typ, fr_Seq = seq, fr_SentUnixNs = sent, fr_ServerRecvUnixNs = recv, fr_ServerSendUnixNs = send,
      fr_CRC32 = crc, fr_Payload = payload\<rparr>, rest)"
proof -
  have "ReadFull 48 (frame_header typ seq sent recv send crc len @ payload @ rest) =
      (Inr (frame_header typ seq sent recv send crc len), payload @ rest)"
    by (simp add: ReadFull_def header_parts)
  moreover have "ReadFull n (payload @ rest) = (Inr payload, rest)" using assms(2) by (simp add: ReadFull_def)
  ultimately show ?thesis
    using assms by (auto simp: ReadFrame_def header_parts Let_def)
qed

lemma write_parts_ok: "concat (snd (write_parts (\<lambda>_. None) hdr payload)) = hdr @ payload"
  by (simp add: write_parts_def)

text \<open>
  Every frame that is written is read back. The bytes of a data, echo, ping or pong frame, with anything after
  them, are read as a frame with the same type, numbers and payload, and the bytes after it are
  left, as long as the payload is under the limits of writer and reader.
\<close>
theorem frames_roundtrip:
  assumes "length payload < 2 ^ 32" and "maxPayloadBytes \<le> 0 \<or> int (length payload) \<le> maxPayloadBytes"
  shows "ReadFrame (concat (snd (WriteDataFrame (\<lambda>_. None) seq sent payload)) @ rest) maxPayloadBytes =
      (Inr \<lparr>fr_Type = MsgData, fr_Seq = seq, fr_SentUnixNs = sent, fr_ServerRecvUnixNs = 0, fr_ServerSendUnixNs = 0,
        fr_CRC32 = ChecksumIEEE payload, fr_Payload = payload\<rparr>, rest) \<and>
    ReadFrame (concat (snd (WriteEchoFrame (\<lambda>_. None) seq sent recv send payload)) @ rest) maxPayloadBytes =
      (Inr \<lparr>fr_Type = MsgEcho, fr_Seq = seq, fr_SentUnixNs = sent, fr_ServerRecvUnixNs = recv, fr_ServerSendUnixNs = send,
        fr_CRC32 = ChecksumIEEE payload, fr_Payload = payload\<rparr>, rest) \<and>
    ReadFrame (concat (snd (WritePingFrame (\<lambda>_. None) seq sent)) @ rest) maxPayloadBytes =
      (Inr \<lparr>fr_Type = MsgPing, fr_Seq = seq, fr_SentUnixNs = sent, fr_ServerRecvUnixNs = 0, fr_ServerSendUnixNs = 0,
        fr_CRC32 = 0, fr_Payload = []\<rparr>, rest) \<and>
    ReadFrame (concat (snd (WritePongFrame (\<lambda>_. None) seq sent recv send)) @ rest) maxPayloadBytes =
      (Inr \<lparr>fr_Type = MsgPong, fr_Seq = seq, fr_SentUnixNs = sent, fr_ServerRecvUnixNs = recv, fr_ServerSendUnixNs = send,
        fr_CRC32 = 0, fr_Payload = []\<rparr>, rest)"
proof -
  have len: "length payload = unat (of_nat (length payload) :: 32 word)"
    using assms(1) by (simp add: unsigned_of_nat take_bit_nat_eq_self)
  have with_payload: "ReadFrame (frame_header ty seq sent recv send (ChecksumIEEE payload) (of_nat (length payload)) @ payload @ rest) maxPayloadBytes =
      (Inr \<lparr>fr_Type = ty, fr_Seq = seq, fr_SentUnixNs = sent, fr_ServerRecvUnixNs = recv, fr_ServerSendUnixNs = send,
        fr_CRC32 = ChecksumIEEE payload, fr_Payload = payload\<rparr>, rest)" for ty recv send
    by (rule ReadFrame_header [OF len refl]) (use assms(2) in auto)
  have without_payload: "ReadFrame (frame_header ty seq sent recv send 0 0 @ rest) maxPayloadBytes =
      (Inr \<lparr>fr_Type = ty, fr_Seq = seq, fr_SentUnixNs = sent, fr_ServerRecvUnixNs = recv, fr_ServerSendUnixNs = send,
        fr_CRC32 = 0, fr_Payload = []\<rparr>, rest)" for ty recv send
    using ReadFrame_header [of 0 0 "[]" 0 maxPayloadBytes ty seq sent recv send rest] linorder_linear [of maxPayloadBytes 0] by simp
  have small: "\<not> length payload > 2 ^ 32 - 1" using assms(1) by simp
  show ?thesis
    unfolding WriteDataFrame_def WriteEchoFrame_def WritePingFrame_def WritePongFrame_def if_not_P [OF small] write_parts_ok
    using with_payload without_payload by simp
qed

lemma frames_roundtrip_witness:
  "fst (ReadFrame (concat (snd (WriteDataFrame (\<lambda>_. None) 7 1 [1, 2, 3])) @ [9]) 100) =
     Inr \<lparr>fr_Type = 1, fr_Seq = 7, fr_SentUnixNs = 1, fr_ServerRecvUnixNs = 0, fr_ServerSendUnixNs = 0,
       fr_CRC32 = ChecksumIEEE [1, 2, 3], fr_Payload = [1, 2, 3]\<rparr>"
  using frames_roundtrip [of "[1, 2, 3]" 100 7 1 "[9]"] by (simp add: MsgData_def)

text \<open>
  A frame that is accepted is intact. Whatever bytes arrive, a frame that \<open>ReadFrame\<close> returns has a payload under the limit
  with the checksum that its header carries, and it and its header are exactly the bytes consumed.
\<close>
theorem accepted_frame_intact:
  assumes "ReadFrame bs maxPayloadBytes = (Inr fr, rest)"
  shows "\<exists>hdr. bs = hdr @ fr_Payload fr @ rest \<and> length hdr = 48 \<and> Uint32 hdr = magic \<and>
    hdr ! 5 = fr_Type fr \<and> Uint32 (drop 40 hdr) = fr_CRC32 fr \<and> unat (Uint32 (drop 44 hdr)) = length (fr_Payload fr) \<and>
    (fr_Payload fr \<noteq> [] \<longrightarrow> fr_CRC32 fr = ChecksumIEEE (fr_Payload fr)) \<and>
    (0 < maxPayloadBytes \<longrightarrow> int (length (fr_Payload fr)) \<le> maxPayloadBytes)"
proof -
  let ?hdr = "take 48 bs" and ?n = "unat (Uint32 (drop 44 (take 48 bs)))"
  have long: "48 \<le> length bs" using assms by (auto simp: ReadFrame_def ReadFull_def split: if_splits)
  then have full: "ReadFull 48 bs = (Inr ?hdr, drop 48 bs)" by (simp add: ReadFull_def)
  have ok: "Uint32 ?hdr = magic" "?hdr ! 4 = version" "\<not> (maxPayloadBytes > 0 \<and> int ?n > maxPayloadBytes)"
    using assms by (auto simp: ReadFrame_def full Let_def split: if_splits)
  have "?n \<le> length (drop 48 bs) \<and> fr_Payload fr = take ?n (drop 48 bs) \<and> rest = drop ?n (drop 48 bs) \<and>
      ?hdr ! 5 = fr_Type fr \<and> Uint32 (drop 40 ?hdr) = fr_CRC32 fr \<and>
      (?n > 0 \<longrightarrow> fr_CRC32 fr = ChecksumIEEE (fr_Payload fr))"
    using assms by (cases "?n = 0") (auto simp: ReadFrame_def full ok Let_def ReadFull_def split: if_splits)
  moreover from this have "?n = length (fr_Payload fr)" by simp
  ultimately show ?thesis
    using ok long append_take_drop_id [of 48 bs] append_take_drop_id [of ?n "drop 48 bs"]
    by (intro exI [of _ ?hdr]) (auto simp: not_less)
qed

lemma accepted_frame_intact_witness:
  "\<exists>hdr. frame_header 1 7 1 0 0 (ChecksumIEEE [1]) 1 @ [1] @ [9] = hdr @ [1] @ [9] \<and> length hdr = 48 \<and> Uint32 hdr = magic \<and>
    hdr ! 5 = 1 \<and> Uint32 (drop 40 hdr) = ChecksumIEEE [1]"
proof -
  have "ReadFrame (frame_header 1 7 1 0 0 (ChecksumIEEE [1]) 1 @ [1] @ [9]) 0 =
      (Inr \<lparr>fr_Type = 1, fr_Seq = 7, fr_SentUnixNs = 1, fr_ServerRecvUnixNs = 0, fr_ServerSendUnixNs = 0,
        fr_CRC32 = ChecksumIEEE [1], fr_Payload = [1]\<rparr>, [9])"
    by (rule ReadFrame_header) simp_all
  from accepted_frame_intact [OF this] show ?thesis by auto
qed

end
