(* ===== verification/WireV1.thy ===== *)
theory WireV1
  imports HubV1 JsonText
begin

section \<open>The messages of the first control server on the wire (v1/control/protocol.go)\<close>

text \<open>
  The structs of the protocol with their field tags, as \<open>json.Encoder\<close> writes them, and as the
  repository's test back end (server_test/client) reads them: what one side sends, the other side decodes to the
  same values.
\<close>

subsection \<open>What the server writes\<close>

abbreviation runes :: "nat list \<Rightarrow> string" where
  "runes cs \<equiv> concat (map utf8_enc cs)"

fun acquire_error_text :: "acquire_error \<Rightarrow> string" where
  "acquire_error_text OwnerNil = ''owner'' @ runes [0x4E0D, 0x80FD, 0x4E3A, 0x7A7A]"
| "acquire_error_text NeedOne = ''need_zmq/need_srt'' @ runes [0x81F3, 0x5C11, 0x4E00, 0x4E2A, 0x4E3A] @ ''true''"
| "acquire_error_text NeedOnlyOne =
     runes [0x4E00, 0x6B21, 0x53EA, 0x80FD, 0x7533, 0x8BF7, 0x4E00, 0x79CD, 0x534F, 0x8BAE, 0x7AEF, 0x53E3] @
     ''(need_zmq'' @ runes [0x6216] @ ''need_srt)''"
| "acquire_error_text NoZMQPort = runes [0x65E0, 0x53EF, 0x7528] @ ''zmq'' @ runes [0x7AEF, 0x53E3]"
| "acquire_error_text NoSRTPort = runes [0x65E0, 0x53EF, 0x7528] @ ''srt'' @ runes [0x7AEF, 0x53E3]"
| "acquire_error_text NoReadyZMQPort = runes [0x65E0, 0x53EF, 0x7528, 0x5DF2, 0x6FC0, 0x6D3B] @ ''zmq'' @ runes [0x7AEF, 0x53E3]"
| "acquire_error_text NoReadySRTPort = runes [0x65E0, 0x53EF, 0x7528, 0x5DF2, 0x6FC0, 0x6D3B] @ ''srt'' @ runes [0x7AEF, 0x53E3]"

text \<open>The tag \<open>omitempty\<close>, and a slice of ports, which is nil when nothing was appended to it.\<close>

definition omit_string :: "string \<Rightarrow> string \<Rightarrow> (string \<times> json) list" where
  "omit_string k s = (if s = '''' then [] else [(k, JStr s)])"

definition omit_int :: "string \<Rightarrow> int \<Rightarrow> (string \<times> json) list" where
  "omit_int k i = (if i = 0 then [] else [(k, json_int i)])"

definition json_ports :: "port list \<Rightarrow> json" where
  "json_ports ps = (if ps = [] then JNull else JArr (map json_int ps))"

definition grant_json :: "PortGrantPayload1 \<Rightarrow> string \<Rightarrow> json" where
  "grant_json g err = JObj
     (omit_string ''request_id'' (gr_RequestID g) @ [(''session_id'', JStr (gr_SessionID g))] @
      omit_int ''zmq_port'' (gr_ZMQPort g) @ omit_int ''srt_port'' (gr_SRTPort g) @
      [(''expires_at'', json_int (gr_ExpiresAt g))] @ omit_string ''error'' err)"

definition port_alloc_json :: "PortAllocPayload \<Rightarrow> json" where
  "port_alloc_json p = JObj
     [(''zmq_start_port'', json_int (pa_ZMQStartPort p)), (''zmq_end_port'', json_int (pa_ZMQEndPort p)),
      (''srt_start_port'', json_int (pa_SRTStartPort p)), (''srt_end_port'', json_int (pa_SRTEndPort p))]"

definition key_exchange_json :: "KeyExchangePayload \<Rightarrow> json" where
  "key_exchange_json k = JObj ((''public_key'', JStr (kx_PublicKey k)) # omit_string ''private_key'' (kx_PrivateKey k))"

definition clock_json :: "ClockPayload \<Rightarrow> json" where
  "clock_json c = JObj
     [(''c_send'', json_int (ck_ClientSendTime c)), (''s_recv'', json_int (ck_ServerRecvTime c)),
      (''s_send'', json_int (ck_ServerSendTime c))]"

definition port_state_json :: "PortStatePayload1 \<Rightarrow> json" where
  "port_state_json p = JObj
     [(''zmq_total'', json_int (int (ps1_ZMQTotal p))), (''srt_total'', json_int (int (ps1_SRTTotal p))),
      (''zmq_busy'', json_int (int (ps1_ZMQBusy p))), (''srt_busy'', json_int (int (ps1_SRTBusy p))),
      (''zmq_ready_ports'', json_ports (ps1_ZMQReadyPorts p)), (''srt_ready_ports'', json_ports (ps1_SRTReadyPorts p)),
      (''zmq_empty_ports'', json_ports (ps1_ZMQEmptyPorts p)), (''srt_empty_ports'', json_ports (ps1_SRTEmptyPorts p))]"

text \<open>The payload of each message; \<open>fmt\<close> is the decimal text that \<open>encoding/json\<close> writes for a float64.\<close>

fun payload_json :: "(f64 \<Rightarrow> string) \<Rightarrow> BaseMessage \<Rightarrow> json" where
  "payload_json fmt (AuthMsg s) = JObj [(''status'', JStr s)]"
| "payload_json fmt (PortAllocMsg p) = port_alloc_json p"
| "payload_json fmt (PortGrantMsg g e) = grant_json g (case e of None \<Rightarrow> '''' | Some e \<Rightarrow> acquire_error_text e)"
| "payload_json fmt (PortReleaseMsg s) = JObj [(''session_id'', JStr s)]"
| "payload_json fmt (PortStateMsg p) = port_state_json p"
| "payload_json fmt (KeyExchangeMsg k) = key_exchange_json k"
| "payload_json fmt (PongMsg c) = clock_json c"
| "payload_json fmt (TelemetryMsg v) = JObj [(''current_speed'', JNum (fmt v))]"
| "payload_json fmt (LogMsg s) = JStr s"

definition message_json :: "string \<Rightarrow> json \<Rightarrow> json" where
  "message_json ty pl = JObj [(''type'', JStr ty), (''payload'', pl)]"

definition BaseMessage_json :: "(f64 \<Rightarrow> string) \<Rightarrow> BaseMessage \<Rightarrow> json" where
  "BaseMessage_json fmt msg = message_json (MessageType1_text (BaseMessage_type msg)) (payload_json fmt msg)"

text \<open>A line of \<open>json.Encoder\<close>.\<close>

definition Encode :: "json \<Rightarrow> string" where
  "Encode v = encode_json v @ [CHR 0x0A]"

subsection \<open>Field by field\<close>

lemma decode_message [simp]: "decode_raw (message_json ty pl) = Some (ty, Some pl)"
proof -
  have "field_match ''type'' ''type''" "field_match ''payload'' ''payload''" "\<not> field_match ''payload'' ''type''"
    by (simp_all add: field_match_def ascii_upper_def)
  then show ?thesis by (simp add: message_json_def decode_raw_def decode_struct_def decode_member_def)
qed

definition int64 :: "int \<Rightarrow> bool" where "int64 i \<longleftrightarrow> int64_min \<le> i \<and> i \<le> int64_max"

lemma set_int64_json [simp]: "int64 i \<Longrightarrow> set_int64 f (json_int i) a = Some (f i a)"
  by (simp add: json_int_def int64_def atoi_show_int)

text \<open>The members of an object one after the other; the names of the fields are compared by evaluation.\<close>

lemma decode_cons:
  assumes "find (\<lambda>(name, put). field_match k name) fds = Some (name, put)" and "put v a = Some a'"
  shows "fold (decode_member fds) ((k, v) # ms) (a, ok) = fold (decode_member fds) ms (a', ok)"
  using assms by (simp add: decode_member_def)

lemma read_back:
  "int64 (pa_ZMQStartPort p) \<Longrightarrow> int64 (pa_ZMQEndPort p) \<Longrightarrow> int64 (pa_SRTStartPort p) \<Longrightarrow> int64 (pa_SRTEndPort p) \<Longrightarrow>
     read_port_alloc (Some (port_alloc_json p)) = Some p"
  "read_key_exchange (Some (key_exchange_json k)) = Some k"
  "int64 (ck_ClientSendTime c) \<Longrightarrow> int64 (ck_ServerRecvTime c) \<Longrightarrow> int64 (ck_ServerSendTime c) \<Longrightarrow>
     read_clock (Some (clock_json c)) = Some c"
  by (simp_all add: read_port_alloc_def port_alloc_json_def read_key_exchange_def key_exchange_json_def read_clock_def
      clock_json_def unmarshal_payload_def decode_struct_def decode_member_def field_match_def ascii_upper_def omit_string_def)

end
