(* ===== verification/BackEndControl.thy ===== *)
theory BackEndControl
  imports WireV1 ByteSize
begin

section \<open>The control connection of the test back end (server_test/client/control.go, protocol.go)\<close>

text \<open>
  The repository's back end registers, offers its ports and keys, pings, and listens for grants and
  port states, which it hands to the main program through bounded channels. What arrives is a list of
  decoded values, \<open>None\<close> a read that fails (or the deadline); a write is answered with success or
  failure. Console output is not modelled.
\<close>

subsection \<open>State\<close>

record BEConfig =
  tb_GatewayAddr :: string
  tb_DataHost :: string
  tb_AuthSecret :: string
  tb_BEID :: string
  tb_ZMQConnLimit :: int
  tb_SRTConnLimit :: int
  tb_SRTPorts :: "port list"
  tb_ZMQPorts :: "port list"

text \<open>A grant with its error text, and a port state as the client decodes it.\<close>

type_synonym be_grant = "PortGrantPayload1 \<times> string"

record be_state =
  es_ZMQTotal :: int
  es_SRTTotal :: int
  es_ZMQBusy :: int
  es_SRTBusy :: int
  es_ZMQReadyPorts :: "port list"
  es_SRTReadyPorts :: "port list"
  es_ZMQEmptyPorts :: "port list"
  es_SRTEmptyPorts :: "port list"

text \<open>\<open>kc_encErr\<close>: the encoder has failed once and writes no more.\<close>

record ControlClient =
  kc_conn :: "conn option"
  kc_encErr :: bool
  kc_lastPortAlloc :: PortAllocPayload
  kc_hasPortAlloc :: bool
  kc_lastKeyExchange :: KeyExchangePayload
  kc_hasKeyExchange :: bool
  kc_portGrantCh :: "be_grant list"
  kc_portStateCh :: "be_state list"
  kc_lastPingSendNs :: time
  kc_lastPingRTTMs :: f64

datatype be_error =
  DialFailed | SendFailed | ReadFailed | WrongType string | AuthRefused string | NoPortsConfigured | AcquireRefused string

datatype be_effect = WriteLine string | ReadDeadline "time option" | HangUpControl conn

definition NewControlClient :: ControlClient where
  "NewControlClient =
     \<lparr>kc_conn = None, kc_encErr = False,
      kc_lastPortAlloc = \<lparr>pa_ZMQStartPort = 0, pa_ZMQEndPort = 0, pa_SRTStartPort = 0, pa_SRTEndPort = 0\<rparr>, kc_hasPortAlloc = False,
      kc_lastKeyExchange = \<lparr>kx_PublicKey = '''', kx_PrivateKey = ''''\<rparr>, kc_hasKeyExchange = False,
      kc_portGrantCh = [], kc_portStateCh = [], kc_lastPingSendNs = 0, kc_lastPingRTTMs = Fin 0\<rparr>"

definition Connect :: "conn option \<Rightarrow> ControlClient \<Rightarrow> be_error option \<times> ControlClient" where
  "Connect dial c =
     (case dial of None \<Rightarrow> (Some DialFailed, c) | Some k \<Rightarrow> (None, c\<lparr>kc_conn := Some k, kc_encErr := False\<rparr>))"

definition Close_control :: "ControlClient \<Rightarrow> be_effect list" where
  "Close_control c = (case kc_conn c of None \<Rightarrow> [] | Some k \<Rightarrow> [HangUpControl k])"

subsection \<open>Messages\<close>

definition register_json :: "string \<Rightarrow> string \<Rightarrow> json" where
  "register_json role secret = JObj ((''role'', JStr role) # omit_string ''secret'' secret)"

definition port_acquire_json :: "PortAcquirePayload \<Rightarrow> json" where
  "port_acquire_json r = JObj
     (omit_string ''request_id'' (aq_RequestID r) @
      [(''need_zmq'', JBool (aq_NeedZMQ r)), (''need_srt'', JBool (aq_NeedSRT r))] @ omit_int ''ttl_seconds'' (aq_TTLSeconds r))"

text \<open>\<open>Encode\<close> of the client: after a failed write the encoder repeats its error.\<close>

definition encode_message :: "bool \<Rightarrow> MessageType1 \<Rightarrow> json \<Rightarrow> ControlClient \<Rightarrow> bool \<times> ControlClient \<times> be_effect list" where
  "encode_message ok ty pl c =
     (if kc_encErr c then (False, c, [])
      else (ok, c\<lparr>kc_encErr := \<not> ok\<rparr>, [WriteLine (Encode (message_json (MessageType1_text ty) pl))]))"

text \<open>\<open>readRaw\<close>, and the decoding of the payloads.\<close>

definition readRaw :: "json option \<Rightarrow> (string \<times> json option) option" where
  "readRaw inp = Option.bind inp decode_raw"

definition read_status :: "json option \<Rightarrow> string" where
  "read_status pl =
     (case pl of None \<Rightarrow> '''' | Some v \<Rightarrow> fst (decode_struct [(''status'', set_string (\<lambda>s _. s))] v ''''))"

definition read_grant :: "json option \<Rightarrow> be_grant option" where
  "read_grant =
     unmarshal_payload
       [(''request_id'', set_string (\<lambda>s (g, e). (g\<lparr>gr_RequestID := s\<rparr>, e))), (''session_id'', set_string (\<lambda>s (g, e). (g\<lparr>gr_SessionID := s\<rparr>, e))),
        (''zmq_port'', set_int64 (\<lambda>i (g, e). (g\<lparr>gr_ZMQPort := i\<rparr>, e))), (''srt_port'', set_int64 (\<lambda>i (g, e). (g\<lparr>gr_SRTPort := i\<rparr>, e))),
        (''expires_at'', set_int64 (\<lambda>i (g, e). (g\<lparr>gr_ExpiresAt := i\<rparr>, e))), (''error'', set_string (\<lambda>s (g, e). (g, s)))]
       (\<lparr>gr_RequestID = '''', gr_SessionID = '''', gr_ZMQPort = 0, gr_SRTPort = 0, gr_ExpiresAt = 0\<rparr>, '''')"

text \<open>A float64 is read by \<open>strconv.ParseFloat\<close>; null leaves it alone. The client decodes telemetry to print it.\<close>

fun set_float64 :: "(f64 \<Rightarrow> 'a \<Rightarrow> 'a) \<Rightarrow> 'a setter" where
  "set_float64 f (JNum t) a = map_option (\<lambda>x. f x a) (ParseFloat t)"
| "set_float64 f JNull a = Some a"
| "set_float64 f _ a = None"

definition read_telemetry :: "json option \<Rightarrow> f64 option" where
  "read_telemetry = unmarshal_payload [(''current_speed'', set_float64 (\<lambda>x _. x))] (Fin 0)"

text \<open>A slice of ints: null makes it nil, a null element is 0.\<close>

fun int_elem :: "json \<Rightarrow> int option" where
  "int_elem (JNum t) = atoi t"
| "int_elem JNull = Some 0"
| "int_elem _ = None"

fun set_ints :: "(int list \<Rightarrow> 'a \<Rightarrow> 'a) \<Rightarrow> 'a setter" where
  "set_ints f (JArr vs) a = map_option (\<lambda>is. f is a) (those (map int_elem vs))"
| "set_ints f JNull a = Some (f [] a)"
| "set_ints f _ a = None"

definition read_port_state :: "json option \<Rightarrow> be_state option" where
  "read_port_state =
     unmarshal_payload
       [(''zmq_total'', set_int64 (\<lambda>i s. s\<lparr>es_ZMQTotal := i\<rparr>)), (''srt_total'', set_int64 (\<lambda>i s. s\<lparr>es_SRTTotal := i\<rparr>)),
        (''zmq_busy'', set_int64 (\<lambda>i s. s\<lparr>es_ZMQBusy := i\<rparr>)), (''srt_busy'', set_int64 (\<lambda>i s. s\<lparr>es_SRTBusy := i\<rparr>)),
        (''zmq_ready_ports'', set_ints (\<lambda>ps s. s\<lparr>es_ZMQReadyPorts := ps\<rparr>)), (''srt_ready_ports'', set_ints (\<lambda>ps s. s\<lparr>es_SRTReadyPorts := ps\<rparr>)),
        (''zmq_empty_ports'', set_ints (\<lambda>ps s. s\<lparr>es_ZMQEmptyPorts := ps\<rparr>)), (''srt_empty_ports'', set_ints (\<lambda>ps s. s\<lparr>es_SRTEmptyPorts := ps\<rparr>))]
       \<lparr>es_ZMQTotal = 0, es_SRTTotal = 0, es_ZMQBusy = 0, es_SRTBusy = 0, es_ZMQReadyPorts = [], es_SRTReadyPorts = [],
        es_ZMQEmptyPorts = [], es_SRTEmptyPorts = []\<rparr>"

subsection \<open>Registration and offers\<close>

definition Register_be :: "BEConfig \<Rightarrow> bool \<Rightarrow> ControlClient \<Rightarrow> be_error option \<times> ControlClient \<times> be_effect list" where
  "Register_be cfg ok c =
     (let (sent, c, es) = encode_message ok M1Register (register_json RoleBE (tb_AuthSecret cfg)) c
      in (if sent then None else Some SendFailed, c, es))"

text \<open>An unreadable status counts as none, and none as success.\<close>

definition WaitForAuth :: "json option \<Rightarrow> be_error option" where
  "WaitForAuth inp =
     (case readRaw inp of
        None \<Rightarrow> Some ReadFailed
      | Some (mt, payload) \<Rightarrow>
          if mt \<noteq> MessageType1_text M1Auth then Some (WrongType mt)
          else if read_status payload \<noteq> '''' \<and> read_status payload \<noteq> ''ok'' then Some (AuthRefused (read_status payload))
          else None)"

definition SendPortAllocation :: "BEConfig \<Rightarrow> bool \<Rightarrow> ControlClient \<Rightarrow> be_error option \<times> ControlClient \<times> be_effect list" where
  "SendPortAllocation cfg ok c =
     (if tb_ZMQPorts cfg = [] \<or> tb_SRTPorts cfg = [] then (Some NoPortsConfigured, c, [])
      else (let payload = \<lparr>pa_ZMQStartPort = hd (tb_ZMQPorts cfg), pa_ZMQEndPort = last (tb_ZMQPorts cfg),
                           pa_SRTStartPort = hd (tb_SRTPorts cfg), pa_SRTEndPort = last (tb_SRTPorts cfg)\<rparr>;
                (sent, c, es) = encode_message ok M1PortAlloc (port_alloc_json payload) c
            in if sent then (None, c\<lparr>kc_lastPortAlloc := payload, kc_hasPortAlloc := True\<rparr>, es)
               else (Some SendFailed, c, es)))"

definition SendKeyExchange :: "BEConfig \<Rightarrow> bool \<Rightarrow> ControlClient \<Rightarrow> be_error option \<times> ControlClient \<times> be_effect list" where
  "SendKeyExchange cfg ok c =
     (let payload = \<lparr>kx_PublicKey = ''dummy_public_key'', kx_PrivateKey = ''temp_private_key_'' @ tb_BEID cfg\<rparr>;
          (sent, c, es) = encode_message ok M1KeyExchange (key_exchange_json payload) c
      in if sent then (None, c\<lparr>kc_lastKeyExchange := payload, kc_hasKeyExchange := True\<rparr>, es)
         else (Some SendFailed, c, es))"

subsection \<open>Asking for a port\<close>

text \<open>The loop of \<open>AcquirePort\<close> over what arrives before the deadline, and what it leaves unread.\<close>

fun acquire_wait :: "string \<Rightarrow> json option list \<Rightarrow> (be_error option \<times> be_grant) \<times> json option list" where
  "acquire_wait rid [] = ((Some ReadFailed, (\<lparr>gr_RequestID = '''', gr_SessionID = '''', gr_ZMQPort = 0, gr_SRTPort = 0, gr_ExpiresAt = 0\<rparr>, '''')), [])"
| "acquire_wait rid (inp # ins) =
     (case readRaw inp of
        None \<Rightarrow> ((Some ReadFailed, (\<lparr>gr_RequestID = '''', gr_SessionID = '''', gr_ZMQPort = 0, gr_SRTPort = 0, gr_ExpiresAt = 0\<rparr>, '''')), ins)
      | Some (mt, payload) \<Rightarrow>
          if mt \<noteq> MessageType1_text M1PortGrant then acquire_wait rid ins
          else (case read_grant payload of
              None \<Rightarrow> acquire_wait rid ins
            | Some (g, e) \<Rightarrow>
                if rid \<noteq> '''' \<and> gr_RequestID g \<noteq> rid then acquire_wait rid ins
                else if e \<noteq> '''' then ((Some (AcquireRefused e), (g, e)), ins)
                else ((None, (g, e)), ins)))"

definition AcquirePort ::
    "PortAcquirePayload \<Rightarrow> duration \<Rightarrow> bool \<Rightarrow> time \<Rightarrow> json option list \<Rightarrow> ControlClient \<Rightarrow>
      (be_error option \<times> be_grant) \<times> ControlClient \<times> be_effect list \<times> json option list" where
  "AcquirePort req timeout ok now ins c =
     (let (sent, c, es) = encode_message ok M1PortAcquire (port_acquire_json req) c
      in if \<not> sent
         then ((Some SendFailed, (\<lparr>gr_RequestID = '''', gr_SessionID = '''', gr_ZMQPort = 0, gr_SRTPort = 0, gr_ExpiresAt = 0\<rparr>, '''')), c, es, ins)
         else (let timeout = (if timeout \<le> 0 then 5 * second else timeout); (out, ins) = acquire_wait (aq_RequestID req) ins
               in (out, c, es @ [ReadDeadline (Some (now + timeout)), ReadDeadline None], ins)))"

subsection \<open>Pings\<close>

datatype ping_event = PingTick time bool | PingStop

fun StartPingLoop :: "ping_event list \<Rightarrow> ControlClient \<Rightarrow> ControlClient \<times> be_effect list" where
  "StartPingLoop [] c = (c, [])"
| "StartPingLoop (PingStop # evs) c = (c, [])"
| "StartPingLoop (PingTick sendNs ok # evs) c =
     (let (sent, c, es) = encode_message ok M1Ping
            (clock_json \<lparr>ck_ClientSendTime = sendNs, ck_ServerRecvTime = 0, ck_ServerSendTime = 0\<rparr>)
            (c\<lparr>kc_lastPingSendNs := sendNs\<rparr>)
      in if sent then (let (c, fs) = StartPingLoop evs c in (c, es @ fs)) else (c, es))"

subsection \<open>Listening\<close>

definition resendForNewFE :: "bool \<Rightarrow> bool \<Rightarrow> ControlClient \<Rightarrow> ControlClient \<times> be_effect list" where
  "resendForNewFE ok1 ok2 c =
     (let (_, c, es) = (if kc_hasPortAlloc c then encode_message ok1 M1PortAlloc (port_alloc_json (kc_lastPortAlloc c)) c
                        else (True, c, []));
          (_, c, fs) = (if kc_hasKeyExchange c then encode_message ok2 M1KeyExchange (key_exchange_json (kc_lastKeyExchange c)) c
                        else (True, c, []))
      in (c, es @ fs))"

text \<open>A log line is a JSON string; of another value \<open>render\<close> is the text (an object goes through a map and back).\<close>

definition decodeLog :: "(json \<Rightarrow> string) \<Rightarrow> json option \<Rightarrow> string" where
  "decodeLog render payload =
     (case payload of
        None \<Rightarrow> ''''
      | Some (JStr s) \<Rightarrow> s
      | Some JNull \<Rightarrow> ''null''
      | Some v \<Rightarrow> render v)"

text \<open>The log line of a front end that has registered.\<close>

definition announces_fe :: "string \<Rightarrow> bool" where
  "announces_fe line \<longleftrightarrow>
     line \<noteq> '''' \<and> str_contains line (runes [0x5BA2, 0x6237, 0x7AEF, 0x6CE8, 0x518C, 0x6210, 0x529F]) \<and> str_contains line ''role=FE''"

text \<open>The channels hold 256 grants and 64 port states; what does not fit is dropped.\<close>

definition offer :: "nat \<Rightarrow> 'a \<Rightarrow> 'a list \<Rightarrow> 'a list" where
  "offer cap x ch = (if length ch < cap then ch @ [x] else ch)"

definition listen_one ::
    "(json \<Rightarrow> string) \<Rightarrow> time \<Rightarrow> bool \<Rightarrow> bool \<Rightarrow> string \<times> json option \<Rightarrow> ControlClient \<Rightarrow> ControlClient \<times> be_effect list" where
  "listen_one render now ok1 ok2 msg c =
     (let (mt, payload) = msg in
      if mt = MessageType1_text M1Log
      then (if announces_fe (decodeLog render payload) then resendForNewFE ok1 ok2 c else (c, []))
      else if mt = MessageType1_text M1Pong
      then (case read_clock payload of
              None \<Rightarrow> (c, [])
            | Some ck \<Rightarrow>
                if ck_ClientSendTime ck > 0
                then (c\<lparr>kc_lastPingRTTMs := f_scale (f_of_int (PortsV1.wrap64 (now - ck_ClientSendTime ck))) (1 / 1000000)\<rparr>, [])
                else (c, []))
      else if mt = MessageType1_text M1PortGrant
      then (case read_grant payload of None \<Rightarrow> (c, []) | Some g \<Rightarrow> (c\<lparr>kc_portGrantCh := offer 256 g (kc_portGrantCh c)\<rparr>, []))
      else if mt = MessageType1_text M1PortState
      then (case read_port_state payload of None \<Rightarrow> (c, []) | Some s \<Rightarrow> (c\<lparr>kc_portStateCh := offer 64 s (kc_portStateCh c)\<rparr>, []))
      else (c, []))"

text \<open>\<open>StartListening\<close>: each read with what others (the pings, the consumers of the channels) do before it is handled.\<close>

fun StartListening ::
    "(json \<Rightarrow> string) \<Rightarrow> (time \<times> bool \<times> bool \<times> (ControlClient \<Rightarrow> ControlClient) \<times> json option) list \<Rightarrow> ControlClient \<Rightarrow>
      ControlClient \<times> be_effect list" where
  "StartListening render [] c = (c, [])"
| "StartListening render ((now, ok1, ok2, other, inp) # ins) c =
     (case readRaw inp of
        None \<Rightarrow> (other c, [])
      | Some msg \<Rightarrow>
          (let (c, es) = listen_one render now ok1 ok2 msg (other c); (c, fs) = StartListening render ins c
           in (c, es @ fs)))"

subsection \<open>The messages reach the other side\<close>

lemma message_line:
  assumes "valid_utf8 ty" and "json_valid pl" and "json_depth pl \<le> 9999"
  shows "parse_json (Encode (message_json ty pl)) = Some (message_json ty pl)"
  unfolding Encode_def
proof (rule parse_encode(2))
  have "valid_utf8 ''type''" "valid_utf8 ''payload''"
    by (rule plain_valid, simp add: plain_char_def code_of_def)+
  then show "json_valid (message_json ty pl)" using assms by (simp add: message_json_def)
  show "json_depth (message_json ty pl) \<le> 10000" using assms by (simp add: message_json_def)
qed

lemma type_valid: "valid_utf8 (MessageType1_text ty)"
  by (rule plain_valid, cases ty) (simp_all add: plain_char_def code_of_def)

lemma int_valid [simp]: "json_valid (json_int i)" "json_depth (json_int i) = 0"
  by (rule json_valid_int) (simp add: json_int_def)

lemma read_ints [simp]: "list_all int64 ps \<Longrightarrow> set_ints f (json_ports ps) a = Some (f ps a)"
proof -
  assume "list_all int64 ps"
  then have "those (map int_elem (map json_int ps)) = Some ps"
    by (induction ps) (simp_all add: json_int_def int64_def atoi_show_int)
  then show ?thesis by (simp add: json_ports_def)
qed

text \<open>The content a Go program can hold: strings in UTF-8, numbers of 64 bits.\<close>

fun valid_message :: "(f64 \<Rightarrow> string) \<Rightarrow> BaseMessage \<Rightarrow> bool" where
  "valid_message fmt (AuthMsg s) = valid_utf8 s"
| "valid_message fmt (PortAllocMsg p) =
     (int64 (pa_ZMQStartPort p) \<and> int64 (pa_ZMQEndPort p) \<and> int64 (pa_SRTStartPort p) \<and> int64 (pa_SRTEndPort p))"
| "valid_message fmt (PortGrantMsg g e) =
     (valid_utf8 (gr_RequestID g) \<and> valid_utf8 (gr_SessionID g) \<and> int64 (gr_ZMQPort g) \<and> int64 (gr_SRTPort g) \<and> int64 (gr_ExpiresAt g))"
| "valid_message fmt (PortReleaseMsg s) = valid_utf8 s"
| "valid_message fmt (PortStateMsg p) =
     (list_all int64 [int (ps1_ZMQTotal p), int (ps1_SRTTotal p), int (ps1_ZMQBusy p), int (ps1_SRTBusy p)] \<and>
      list_all int64 (ps1_ZMQReadyPorts p) \<and> list_all int64 (ps1_SRTReadyPorts p) \<and>
      list_all int64 (ps1_ZMQEmptyPorts p) \<and> list_all int64 (ps1_SRTEmptyPorts p))"
| "valid_message fmt (KeyExchangeMsg k) = (valid_utf8 (kx_PublicKey k) \<and> valid_utf8 (kx_PrivateKey k))"
| "valid_message fmt (PongMsg c) = (int64 (ck_ClientSendTime c) \<and> int64 (ck_ServerRecvTime c) \<and> int64 (ck_ServerSendTime c))"
| "valid_message fmt (TelemetryMsg v) = number_lit (fmt v)"
| "valid_message fmt (LogMsg s) = valid_utf8 s"

lemma error_text_valid: "valid_utf8 (acquire_error_text e)" "acquire_error_text e \<noteq> ''''"
  by (cases e; simp add: utf8_enc_def valid_utf8.simps utf8_len_def code_of_def cont_def)
    (cases e; simp add: utf8_enc_def)

lemma payload_valid:
  assumes "valid_message fmt m"
  shows "json_valid (payload_json fmt m)" "json_depth (payload_json fmt m) \<le> 2"
proof -
  have ports: "json_valid (json_ports ps)" "json_depth (json_ports ps) \<le> 1" for ps
  proof -
    have "fold max (map (json_depth \<circ> json_int) ps) 0 = 0" by (induction ps) simp_all
    then show "json_depth (json_ports ps) \<le> 1" by (simp add: json_ports_def)
  qed (simp add: json_ports_def list_all_iff)
  have "plain_text k \<Longrightarrow> valid_utf8 k" for k by (rule plain_valid)
  then show "json_valid (payload_json fmt m)"
    using assms error_text_valid ports(1)
    by (cases m) (auto simp: port_alloc_json_def grant_json_def omit_string_def omit_int_def port_state_json_def
        key_exchange_json_def clock_json_def plain_char_def code_of_def split: option.split)
  show "json_depth (payload_json fmt m) \<le> 2"
    using assms ports(2)
    by (cases m) (auto simp: port_alloc_json_def grant_json_def omit_string_def omit_int_def port_state_json_def
        key_exchange_json_def clock_json_def)
qed

text \<open>What the client reads of a message.\<close>

definition client_state :: "PortStatePayload1 \<Rightarrow> be_state" where
  "client_state p =
     \<lparr>es_ZMQTotal = int (ps1_ZMQTotal p), es_SRTTotal = int (ps1_SRTTotal p), es_ZMQBusy = int (ps1_ZMQBusy p), es_SRTBusy = int (ps1_SRTBusy p),
      es_ZMQReadyPorts = ps1_ZMQReadyPorts p, es_SRTReadyPorts = ps1_SRTReadyPorts p,
      es_ZMQEmptyPorts = ps1_ZMQEmptyPorts p, es_SRTEmptyPorts = ps1_SRTEmptyPorts p\<rparr>"

text \<open>What it makes of each kind: it decodes six of them as \<open>WaitForAuth\<close>, \<open>AcquirePort\<close> and \<open>StartListening\<close> do, and the
  other three change nothing. A number of telemetry is whatever \<open>strconv\<close> reads in the text that was written.\<close>

fun read_right :: "(f64 \<Rightarrow> string) \<Rightarrow> BaseMessage \<Rightarrow> json option \<Rightarrow> bool" where
  "read_right fmt (AuthMsg s) pl = (read_status pl = s)"
| "read_right fmt (PortGrantMsg g e) pl = (read_grant pl = Some (g, case e of None \<Rightarrow> '''' | Some e \<Rightarrow> acquire_error_text e))"
| "read_right fmt (PortStateMsg p) pl = (read_port_state pl = Some (client_state p))"
| "read_right fmt (PongMsg c) pl = (read_clock pl = Some c)"
| "read_right fmt (TelemetryMsg v) pl = (read_telemetry pl = ParseFloat (fmt v))"
| "read_right fmt (LogMsg s) pl = (\<forall>render. decodeLog render pl = s)"
| "read_right fmt m pl = (\<forall>render now ok1 ok2 c. listen_one render now ok1 ok2 (MessageType1_text (BaseMessage_type m), pl) c = (c, []))"

lemma grant_read:
  assumes "int64 (gr_ZMQPort g)" "int64 (gr_SRTPort g)" "int64 (gr_ExpiresAt g)"
  shows "read_grant (Some (grant_json g e)) = Some (g, e)"
  using assms
  by (cases g) (simp add: read_grant_def grant_json_def unmarshal_payload_def decode_struct_def decode_member_def field_match_def
      ascii_upper_def omit_string_def omit_int_def)

lemma state_read:
  assumes "valid_message fmt (PortStateMsg p)"
  shows "read_port_state (Some (port_state_json p)) = Some (client_state p)"
  using assms
  by (simp add: read_port_state_def port_state_json_def unmarshal_payload_def decode_struct_def decode_member_def field_match_def
      ascii_upper_def client_state_def)

lemma telemetry_read: "read_telemetry (Some (JObj [(''current_speed'', JNum t)])) = ParseFloat t"
  by (cases "ParseFloat t") (simp_all add: read_telemetry_def unmarshal_payload_def decode_struct_def decode_member_def
      field_match_def ascii_upper_def)

lemma payload_read: "valid_message fmt m \<Longrightarrow> read_right fmt m (Some (payload_json fmt m))"
  by (cases m) (simp_all add: read_back grant_read state_read telemetry_read read_status_def decode_struct_def decode_member_def
      field_match_def ascii_upper_def unmarshal_payload_def decodeLog_def listen_one_def)

lemma server_line:
  assumes "valid_message fmt m"
  shows "readRaw (parse_json (Encode (BaseMessage_json fmt m))) =
    Some (MessageType1_text (BaseMessage_type m), Some (payload_json fmt m))"
proof -
  have "parse_json (Encode (BaseMessage_json fmt m)) = Some (BaseMessage_json fmt m)"
    unfolding BaseMessage_json_def using payload_valid [OF assms] by (intro message_line type_valid) auto
  then show ?thesis by (simp add: readRaw_def BaseMessage_json_def)
qed

subsection \<open>Protocol properties\<close>



lemma register_line:
  assumes "valid_utf8 secret"
  shows "parse_json (Encode (message_json (MessageType1_text M1Register) (register_json RoleBE secret))) =
      Some (message_json (MessageType1_text M1Register) (register_json RoleBE secret))"
    and "read_register (Some (register_json RoleBE secret)) = Some \<lparr>rg_Role = RoleBE, rg_Secret = secret, rg_ClientID = ''''\<rparr>"
proof -
  have "valid_utf8 ''role''" "valid_utf8 ''secret''" "valid_utf8 RoleBE"
    by (rule plain_valid, simp add: plain_char_def code_of_def RoleBE_def)+
  then show "parse_json (Encode (message_json (MessageType1_text M1Register) (register_json RoleBE secret))) =
      Some (message_json (MessageType1_text M1Register) (register_json RoleBE secret))"
    using assms by (intro message_line type_valid) (auto simp: register_json_def omit_string_def)
  show "read_register (Some (register_json RoleBE secret)) = Some \<lparr>rg_Role = RoleBE, rg_Secret = secret, rg_ClientID = ''''\<rparr>"
    by (simp add: read_register_def register_json_def unmarshal_payload_def decode_struct_def decode_member_def field_match_def
        ascii_upper_def omit_string_def)
qed

text \<open>
  The registration of the test back end is accepted exactly when it should be. The line it writes makes the
  server's handler accept the connection as a back end if the secrets agree, one is configured and there is
  room, and its first answer is one that the client takes for success; with another secret the connection is hung up and the
  server unchanged.
\<close>
theorem backend_registers:
  assumes "valid_utf8 (tb_AuthSecret cfg)" and "\<not> kc_encErr c"
  shows "\<exists>line c'. Register_be cfg True c = (None, c', [WriteLine line]) \<and>
    (tb_AuthSecret cfg = rc_AuthSecret (ct_cfg ct) \<and> tb_AuthSecret cfg \<noteq> '''' \<and> int (length (ct_be ct)) < rc_MaxBE (ct_cfg ct) \<and> ev_ok ev k \<longrightarrow>
       (\<exists>ct' es. handle_register ev k (parse_json line) ct = (True, ct', Deliver k (AuthMsg ''ok'') # es)) \<and>
       WaitForAuth (parse_json (Encode (BaseMessage_json fmt (AuthMsg ''ok'')))) = None) \<and>
    (tb_AuthSecret cfg \<noteq> rc_AuthSecret (ct_cfg ct) \<longrightarrow>
       handle_register ev k (parse_json line) ct = (False, ct, [HangUp k]))"
proof -
  let ?line = "Encode (message_json (MessageType1_text M1Register) (register_json RoleBE (tb_AuthSecret cfg)))"
  note reg = register_line [OF assms(1)]
  have sent: "\<exists>c'. Register_be cfg True c = (None, c', [WriteLine ?line])"
    using assms(2) by (simp add: Register_be_def encode_message_def)
  have ok: "\<exists>ct' es. handle_register ev k (parse_json ?line) ct = (True, ct', Deliver k (AuthMsg ''ok'') # es)"
    if "tb_AuthSecret cfg = rc_AuthSecret (ct_cfg ct)" "tb_AuthSecret cfg \<noteq> ''''"
      "int (length (ct_be ct)) < rc_MaxBE (ct_cfg ct)" "ev_ok ev k"
  proof -
    have "RoleBE \<noteq> RoleFE" by (simp add: RoleBE_def RoleFE_def)
    then show ?thesis
      using that unfolding handle_register_def reg(1) option.case decode_message
      by (simp add: reg(2) [unfolded that(1)] VerifyAuth_def Hub1_Register_def Send1_def case_prod_beta Let_def del: MessageType1_text.simps)
  qed
  have "valid_message fmt (AuthMsg ''ok'')" by (simp add: plain_valid plain_char_def code_of_def)
  from server_line [OF this] payload_read [OF this]
  have auth: "WaitForAuth (parse_json (Encode (BaseMessage_json fmt (AuthMsg ''ok'')))) = None"
    by (simp add: WaitForAuth_def)
  have bad: "handle_register ev k (parse_json ?line) ct = (False, ct, [HangUp k])" if "tb_AuthSecret cfg \<noteq> rc_AuthSecret (ct_cfg ct)"
    using that unfolding handle_register_def reg(1) option.case decode_message by (simp add: reg(2) VerifyAuth_def)
  from sent ok auth bad show ?thesis by blast
qed

lemma backend_registers_witness:
  "\<forall>ev. \<exists>line c' ct' es.
     Register_be \<lparr>tb_GatewayAddr = '''', tb_DataHost = '''', tb_AuthSecret = ''s3'', tb_BEID = ''be'', tb_ZMQConnLimit = 0,
       tb_SRTConnLimit = 0, tb_SRTPorts = [], tb_ZMQPorts = []\<rparr> True NewControlClient = (None, c', [WriteLine line]) \<and>
     handle_register (ev\<lparr>ev_ok := (\<lambda>_. True)\<rparr>) 1 (parse_json line)
       (NewControl \<lparr>rc_MaxFE = 1, rc_MaxBE = 1, rc_RingBufferSize = 0, rc_ReaperTimeout = 0, rc_ControlPort = 0,
          rc_Ports = \<lparr>pa_ZMQStartPort = 0, pa_ZMQEndPort = 0, pa_SRTStartPort = 0, pa_SRTEndPort = 0\<rparr>, rc_AuthSecret = ''s3''\<rparr>) =
       (True, ct', Deliver 1 (AuthMsg ''ok'') # es)"
proof
  fix ev
  have "valid_utf8 ''s3''" by (simp add: plain_valid plain_char_def code_of_def)
  then show "\<exists>line c' ct' es.
     Register_be \<lparr>tb_GatewayAddr = '''', tb_DataHost = '''', tb_AuthSecret = ''s3'', tb_BEID = ''be'', tb_ZMQConnLimit = 0,
       tb_SRTConnLimit = 0, tb_SRTPorts = [], tb_ZMQPorts = []\<rparr> True NewControlClient = (None, c', [WriteLine line]) \<and>
     handle_register (ev\<lparr>ev_ok := (\<lambda>_. True)\<rparr>) 1 (parse_json line)
       (NewControl \<lparr>rc_MaxFE = 1, rc_MaxBE = 1, rc_RingBufferSize = 0, rc_ReaperTimeout = 0, rc_ControlPort = 0,
          rc_Ports = \<lparr>pa_ZMQStartPort = 0, pa_ZMQEndPort = 0, pa_SRTStartPort = 0, pa_SRTEndPort = 0\<rparr>, rc_AuthSecret = ''s3''\<rparr>) =
       (True, ct', Deliver 1 (AuthMsg ''ok'') # es)"
    using backend_registers [of "\<lparr>tb_GatewayAddr = '''', tb_DataHost = '''', tb_AuthSecret = ''s3'', tb_BEID = ''be'', tb_ZMQConnLimit = 0,
        tb_SRTConnLimit = 0, tb_SRTPorts = [], tb_ZMQPorts = []\<rparr>" NewControlClient
      "NewControl \<lparr>rc_MaxFE = 1, rc_MaxBE = 1, rc_RingBufferSize = 0, rc_ReaperTimeout = 0, rc_ControlPort = 0,
          rc_Ports = \<lparr>pa_ZMQStartPort = 0, pa_ZMQEndPort = 0, pa_SRTStartPort = 0, pa_SRTEndPort = 0\<rparr>, rc_AuthSecret = ''s3''\<rparr>"
      "ev\<lparr>ev_ok := (\<lambda>_. True)\<rparr>" 1 "\<lambda>_. ''0''"]
    by (simp add: NewControlClient_def NewControl_def) blast
qed

text \<open>The request of a client, as the server reads it.\<close>

lemma acquire_line:
  assumes "valid_utf8 (aq_RequestID req)" and "int64 (aq_TTLSeconds req)"
  shows "parse_json (Encode (message_json (MessageType1_text M1PortAcquire) (port_acquire_json req))) =
      Some (message_json (MessageType1_text M1PortAcquire) (port_acquire_json req))"
    and "read_port_acquire (Some (port_acquire_json req)) = Some req"
proof -
  have "valid_utf8 ''request_id''" "valid_utf8 ''need_zmq''" "valid_utf8 ''need_srt''" "valid_utf8 ''ttl_seconds''"
    by (rule plain_valid, simp add: plain_char_def code_of_def)+
  then show "parse_json (Encode (message_json (MessageType1_text M1PortAcquire) (port_acquire_json req))) =
      Some (message_json (MessageType1_text M1PortAcquire) (port_acquire_json req))"
    using assms by (intro message_line type_valid) (auto simp: port_acquire_json_def omit_string_def omit_int_def)
  show "read_port_acquire (Some (port_acquire_json req)) = Some req"
    using assms
    by (simp add: read_port_acquire_def port_acquire_json_def unmarshal_payload_def decode_struct_def decode_member_def field_match_def
        ascii_upper_def omit_string_def omit_int_def)
qed

text \<open>Messages that are not the answer to the request are skipped.\<close>

definition answers :: "string \<Rightarrow> BaseMessage \<Rightarrow> bool" where
  "answers rid m \<longleftrightarrow> (case m of PortGrantMsg g e \<Rightarrow> gr_RequestID g = rid | _ \<Rightarrow> False)"

lemma skip_others:
  assumes "\<forall>m \<in> set before. valid_message fmt m \<and> \<not> answers rid m" and "rid \<noteq> ''''"
  shows "acquire_wait rid (map (\<lambda>m. parse_json (Encode (BaseMessage_json fmt m))) before @ ins) = acquire_wait rid ins"
  using assms(1)
proof (induction before)
  case Nil
  show ?case by simp
next
  case (Cons m before)
  have m: "valid_message fmt m" "\<not> answers rid m" using Cons(2) by simp_all
  note step = server_line [OF m(1)] payload_read [OF m(1)]
  have "acquire_wait rid (parse_json (Encode (BaseMessage_json fmt m)) # xs) = acquire_wait rid xs" for xs
    using m(2) assms(2) step by (cases m) (simp_all add: answers_def del: payload_json.simps)
  with Cons show ?case by simp
qed

text \<open>
  C27. A request is answered by its own grant. The line that \<open>AcquirePort\<close> writes is the request the server decodes;
  then, whatever other messages the server sent in between (states, logs, telemetry, grants of others that are
  broadcast), the result is the grant with the request's id, an error with the server's text when the
  grant failed, and what comes after it is left unread. Without that answer the result is the failed read.
\<close>
theorem acquire_port_answered:
  assumes "\<forall>m \<in> set before. valid_message fmt m \<and> \<not> answers (aq_RequestID req) m"
    and "valid_message fmt (PortGrantMsg g e)" and "gr_RequestID g = aq_RequestID req" and "aq_RequestID req \<noteq> ''''"
    and "\<not> kc_encErr c" and "valid_utf8 (aq_RequestID req)" and "int64 (aq_TTLSeconds req)"
  defines "recv \<equiv> \<lambda>ms. map (\<lambda>m. parse_json (Encode (BaseMessage_json fmt m))) ms"
  shows "\<exists>line c' fs.
    AcquirePort req timeout True now (recv (before @ PortGrantMsg g e # after)) c =
      ((case e of None \<Rightarrow> (None, (g, '''')) | Some e \<Rightarrow> (Some (AcquireRefused (acquire_error_text e)), (g, acquire_error_text e))),
       c', WriteLine line # fs, recv after) \<and>
    fst (fst (AcquirePort req timeout True now (recv before) c)) = Some ReadFailed \<and>
    Option.bind (parse_json line) decode_raw = Some (''port_acquire'', Some (port_acquire_json req)) \<and>
    read_port_acquire (Some (port_acquire_json req)) = Some req"
proof -
  note step = server_line [OF assms(2)] payload_read [OF assms(2)]
  have answer: "acquire_wait (aq_RequestID req) (parse_json (Encode (BaseMessage_json fmt (PortGrantMsg g e))) # ins) =
      ((case e of None \<Rightarrow> (None, (g, '''')) | Some e \<Rightarrow> (Some (AcquireRefused (acquire_error_text e)), (g, acquire_error_text e))), ins)" for ins
    using step assms(3) error_text_valid(2) by (cases e) (simp_all del: payload_json.simps)
  have skip: "acquire_wait (aq_RequestID req) (recv before @ ins) = acquire_wait (aq_RequestID req) ins" for ins
    unfolding recv_def by (rule skip_others [OF assms(1,4)])
  have all: "recv (before @ PortGrantMsg g e # after) =
      recv before @ parse_json (Encode (BaseMessage_json fmt (PortGrantMsg g e))) # recv after" by (simp add: recv_def)
  show ?thesis
    unfolding all AcquirePort_def encode_message_def
    using assms(5) skip [of "[]"] acquire_line [OF assms(6,7)] by (simp add: skip answer Let_def del: acquire_wait.simps(2))
qed

lemma acquire_port_answered_witness:
  "\<exists>line c' fs. AcquirePort \<lparr>aq_RequestID = ''r1'', aq_NeedZMQ = True, aq_NeedSRT = False, aq_TTLSeconds = 9\<rparr> 0 True 7
      (map (\<lambda>m. parse_json (Encode (BaseMessage_json (\<lambda>_. ''0.5'') m)))
        [TelemetryMsg (Fin 1), PortGrantMsg \<lparr>gr_RequestID = ''r2'', gr_SessionID = ''s'', gr_ZMQPort = 1, gr_SRTPort = 0, gr_ExpiresAt = 1\<rparr> None,
         PortGrantMsg \<lparr>gr_RequestID = ''r1'', gr_SessionID = ''t'', gr_ZMQPort = 2, gr_SRTPort = 0, gr_ExpiresAt = 1\<rparr> None, LogMsg ''x'']) NewControlClient =
    ((None, (\<lparr>gr_RequestID = ''r1'', gr_SessionID = ''t'', gr_ZMQPort = 2, gr_SRTPort = 0, gr_ExpiresAt = 1\<rparr>, '''')), c', WriteLine line # fs,
     [parse_json (Encode (BaseMessage_json (\<lambda>_. ''0.5'') (LogMsg ''x'')))])"
proof -
  have "number_lit ''0.5''" by code_simp
  then have v: "\<forall>m \<in> set [TelemetryMsg (Fin 1), PortGrantMsg \<lparr>gr_RequestID = ''r2'', gr_SessionID = ''s'', gr_ZMQPort = 1, gr_SRTPort = 0, gr_ExpiresAt = 1\<rparr> None].
      valid_message (\<lambda>_. ''0.5'') m \<and> \<not> answers (aq_RequestID \<lparr>aq_RequestID = ''r1'', aq_NeedZMQ = True, aq_NeedSRT = False, aq_TTLSeconds = 9\<rparr>) m"
    "valid_message (\<lambda>_. ''0.5'') (PortGrantMsg \<lparr>gr_RequestID = ''r1'', gr_SessionID = ''t'', gr_ZMQPort = 2, gr_SRTPort = 0, gr_ExpiresAt = 1\<rparr> None)"
    "valid_utf8 (aq_RequestID \<lparr>aq_RequestID = ''r1'', aq_NeedZMQ = True, aq_NeedSRT = False, aq_TTLSeconds = 9\<rparr>)"
    "int64 (aq_TTLSeconds \<lparr>aq_RequestID = ''r1'', aq_NeedZMQ = True, aq_NeedSRT = False, aq_TTLSeconds = 9\<rparr>)"
    by (auto simp: answers_def plain_valid plain_char_def code_of_def int64_def int64_min_def int64_max_def)
  show ?thesis
    using acquire_port_answered [OF v(1,2) _ _ _ v(3,4), where c = NewControlClient and timeout = 0 and now = 7 and after = "[LogMsg ''x'']"]
    by (auto simp: NewControlClient_def)
qed

end
