(* ===== verification/BackEnd.thy ===== *)
theory BackEnd
  imports BackEndControl
begin

section \<open>The test back end (server_test/main.go, client/data.go)\<close>

text \<open>
  The back end of the repository connects to the data ports it is granted or finds empty, says hello, and
  echoes what it receives over TCP and UDP. Dials, reads and writes are answered by arguments; the two goroutines
  that connect, and the two that echo, take steps in any order.
\<close>

subsection \<open>Data clients\<close>

record DataClient =
  dc_tcpConn :: "conn option"
  dc_udpConn :: "conn option"
  dc_port :: port
  dc_host :: string
  dc_role :: string
  dc_clientID :: string
  dc_bytesReceived :: int
  dc_bytesSent :: int
  dc_closed :: bool

datatype data_effect =
  DialData string | SendTCP conn string | SendUDP conn string | HangUpData conn | Sleep duration

definition NewDataClient :: "port \<Rightarrow> string \<Rightarrow> string \<Rightarrow> DataClient" where
  "NewDataClient port role clientID =
     \<lparr>dc_tcpConn = None, dc_udpConn = None, dc_port = port, dc_host = '''', dc_role = role, dc_clientID = clientID,
      dc_bytesReceived = 0, dc_bytesSent = 0, dc_closed = False\<rparr>"

definition SetHost :: "string \<Rightarrow> DataClient \<Rightarrow> DataClient" where
  "SetHost host c = c\<lparr>dc_host := host\<rparr>"

text \<open>The hello of a connection; \<open>json.Marshal\<close> sorts the keys of the map.\<close>

definition hello_text :: "string \<Rightarrow> string \<Rightarrow> string" where
  "hello_text role clientID = encode_json (JObj [(''client_id'', JStr clientID), (''role'', JStr role)])"

definition tcp_hello :: "string \<Rightarrow> string \<Rightarrow> string" where
  "tcp_hello role clientID = ''RLX1HELLO '' @ hello_text role clientID @ [CHR 0x0A]"

definition udp_hello :: "string \<Rightarrow> string \<Rightarrow> string" where
  "udp_hello role clientID = ''RLX1HELLO_UDP '' @ hello_text role clientID"

text \<open>\<open>Connect\<close> with the outcomes of the TCP dial, the resolution and the UDP dial.\<close>

definition Connect_data ::
    "conn option \<Rightarrow> bool \<Rightarrow> conn option \<Rightarrow> DataClient \<Rightarrow> bool \<times> DataClient \<times> data_effect list" where
  "Connect_data tcp resolved udp c =
     (let host = (if dc_host c = '''' then ''localhost'' else dc_host c); addr = host @ '':'' @ show_int (dc_port c) in
      case tcp of
        None \<Rightarrow> (False, c, [DialData addr])
      | Some t \<Rightarrow>
          if \<not> resolved then (False, c, [DialData addr, HangUpData t])
          else (case udp of
              None \<Rightarrow> (False, c, [DialData addr, HangUpData t])
            | Some u \<Rightarrow>
                (True, c\<lparr>dc_tcpConn := Some t, dc_udpConn := Some u\<rparr>,
                 [DialData addr, SendTCP t (tcp_hello (dc_role c) (dc_clientID c)),
                  SendUDP u (udp_hello (dc_role c) (dc_clientID c))])))"

definition Close_data :: "DataClient \<Rightarrow> DataClient \<times> data_effect list" where
  "Close_data c =
     (if dc_closed c then (c, [])
      else (c\<lparr>dc_closed := True\<rparr>,
            (case dc_tcpConn c of None \<Rightarrow> [] | Some t \<Rightarrow> [HangUpData t]) @
            (case dc_udpConn c of None \<Rightarrow> [] | Some u \<Rightarrow> [HangUpData u])))"

definition GetStats :: "DataClient \<Rightarrow> int \<times> int" where
  "GetStats c = (dc_bytesReceived c, dc_bytesSent c)"

subsection \<open>Echoing\<close>

text \<open>
  One turn of \<open>readAndEchoTCP\<close>: the bytes read and whether there was an error, then how much was written and whether that
  failed. What comes with an error is not looked at. The first component says whether the loop goes on.
\<close>

definition readAndEchoTCP ::
    "string \<times> bool \<Rightarrow> nat \<times> bool \<Rightarrow> DataClient \<Rightarrow> bool \<times> DataClient \<times> data_effect list" where
  "readAndEchoTCP rd wr c =
     (let (data, failed) = rd; (wn, written) = wr; t = the (dc_tcpConn c) in
      if failed then (let (c, es) = Close_data c in (False, c, es))
      else if data = '''' then (True, c, [])
      else (let c = c\<lparr>dc_bytesReceived := PortsV1.wrap64 (dc_bytesReceived c + int (length data))\<rparr>
            in if written
               then (True, c\<lparr>dc_bytesSent := PortsV1.wrap64 (dc_bytesSent c + int (length data))\<rparr>, [SendTCP t data])
               else (let (c, es) = Close_data c in (False, c, SendTCP t (take wn data) # es))))"

text \<open>The same for datagrams, which are sent whole or not at all.\<close>

definition readAndEchoUDP :: "string \<times> bool \<Rightarrow> bool \<Rightarrow> DataClient \<Rightarrow> bool \<times> DataClient \<times> data_effect list" where
  "readAndEchoUDP rd written c =
     (let (data, failed) = rd; u = the (dc_udpConn c) in
      if failed then (let (c, es) = Close_data c in (False, c, es))
      else if data = '''' then (True, c, [])
      else (let c = c\<lparr>dc_bytesReceived := PortsV1.wrap64 (dc_bytesReceived c + int (length data))\<rparr>
            in if written
               then (True, c\<lparr>dc_bytesSent := PortsV1.wrap64 (dc_bytesSent c + int (length data))\<rparr>, [SendUDP u data])
               else (let (c, es) = Close_data c in (False, c, es))))"

subsection \<open>The main program\<close>

text \<open>\<open>connectWithRetry\<close>: the outcomes of the attempts in order; no attempt at all counts as success.\<close>

fun connectWithRetry ::
    "(conn option \<times> bool \<times> conn option) list \<Rightarrow> duration \<Rightarrow> bool \<Rightarrow> DataClient \<Rightarrow> bool \<times> DataClient \<times> data_effect list" where
  "connectWithRetry [] delay ok c = (ok, c, [])"
| "connectWithRetry ((tcp, resolved, udp) # outs) delay ok c =
     (let (ok, c, es) = Connect_data tcp resolved udp c
      in if ok then (True, c, es)
         else (let (ok, c, fs) = connectWithRetry outs delay False c in (ok, c, es @ [Sleep delay] @ fs)))"

text \<open>The flags override the configured addresses.\<close>

definition override_config :: "string \<Rightarrow> string \<Rightarrow> BEConfig \<Rightarrow> BEConfig" where
  "override_config gateway dataHost cfg =
     (let cfg = (if trim_space gateway \<noteq> '''' then cfg\<lparr>tb_GatewayAddr := trim_space gateway\<rparr> else cfg)
      in if trim_space dataHost \<noteq> '''' then cfg\<lparr>tb_DataHost := trim_space dataHost\<rparr> else cfg)"

definition data_host :: "BEConfig \<Rightarrow> string" where
  "data_host cfg =
     (let h = trim_space (tb_DataHost cfg) in
      if h = '''' \<and> hd (split_on (CHR '':'') (tb_GatewayAddr cfg)) \<noteq> '''' then hd (split_on (CHR '':'') (tb_GatewayAddr cfg)) else h)"

text \<open>The start: each step that fails ends the program. \<open>ok\<close> are the outcomes of the three writes.\<close>

definition start_control ::
    "BEConfig \<Rightarrow> conn option \<Rightarrow> bool \<times> bool \<times> bool \<Rightarrow> json option \<Rightarrow> be_error option \<times> ControlClient \<times> be_effect list" where
  "start_control cfg dial ok inp =
     (let (ok1, ok2, ok3) = ok; (e, c) = Connect dial NewControlClient in
      case e of Some e \<Rightarrow> (Some e, c, [])
      | None \<Rightarrow> (let (e, c, es) = Register_be cfg ok1 c in
        case e of Some e \<Rightarrow> (Some e, c, es)
        | None \<Rightarrow> (case WaitForAuth inp of Some e \<Rightarrow> (Some e, c, es)
          | None \<Rightarrow> (let (e, c, fs) = SendPortAllocation cfg ok2 c in
            case e of Some e \<Rightarrow> (Some e, c, es @ fs)
            | None \<Rightarrow> (let (e, c, gs) = SendKeyExchange cfg ok3 c in (e, c, es @ fs @ gs))))))"

text \<open>
  The state of the connecting goroutines: the ports that are connected, the data clients, and the port
  that each of the two is connecting outside the mutex.
\<close>

record BackEndMain =
  bm_connected :: "port \<Rightarrow> bool"
  bm_clients :: "DataClient list"
  bm_grantConn :: "port option"
  bm_stateConn :: "port option"

definition conn_limit :: "BEConfig \<Rightarrow> nat" where
  "conn_limit cfg = (if tb_ZMQConnLimit cfg > 0 then nat (tb_ZMQConnLimit cfg) else 2)"

text \<open>\<open>connectOne\<close>, before and after it connects.\<close>

definition connect_enter :: "BEConfig \<Rightarrow> port \<Rightarrow> BackEndMain \<Rightarrow> bool \<times> BackEndMain" where
  "connect_enter cfg port m =
     (if port \<le> 0 \<or> bm_connected m port \<or> length (bm_clients m) \<ge> conn_limit cfg then (False, m)
      else (True, m\<lparr>bm_connected := (bm_connected m)(port := True)\<rparr>))"

definition connect_try ::
    "BEConfig \<Rightarrow> port \<Rightarrow> (conn option \<times> bool \<times> conn option) list \<Rightarrow> DataClient option \<times> data_effect list" where
  "connect_try cfg port outs =
     (let (ok, dc, es) = connectWithRetry (take 60 outs) (50 * millisecond) True
            (SetHost (data_host cfg) (NewDataClient port ''BE'' (tb_BEID cfg)))
      in (if ok then Some dc else None, es))"

definition connect_leave :: "port \<Rightarrow> DataClient option \<Rightarrow> BackEndMain \<Rightarrow> BackEndMain" where
  "connect_leave port dc m =
     (case dc of
        None \<Rightarrow> m\<lparr>bm_connected := (bm_connected m)(port := False)\<rparr>
      | Some dc \<Rightarrow> m\<lparr>bm_clients := bm_clients m @ [dc]\<rparr>)"

text \<open>The port a grant is good for.\<close>

definition grant_port :: "be_grant \<Rightarrow> port option" where
  "grant_port g =
     (if snd g \<noteq> '''' then None else if gr_ZMQPort (fst g) > 0 then Some (gr_ZMQPort (fst g))
      else if gr_SRTPort (fst g) > 0 then Some (gr_SRTPort (fst g)) else None)"

inductive main_step :: "BEConfig \<Rightarrow> BackEndMain \<Rightarrow> BackEndMain \<Rightarrow> bool" for cfg where
  grant: "\<lbrakk>bm_grantConn m = None; grant_port g = Some p; connect_enter cfg p m = (go, m')\<rbrakk>
    \<Longrightarrow> main_step cfg m (m'\<lparr>bm_grantConn := (if go then Some p else None)\<rparr>)"
| grant_done: "\<lbrakk>bm_grantConn m = Some p; length outs \<ge> 60; connect_try cfg p outs = (dc, es)\<rbrakk>
    \<Longrightarrow> main_step cfg m ((connect_leave p dc m)\<lparr>bm_grantConn := None\<rparr>)"
| state: "\<lbrakk>bm_stateConn m = None; connect_enter cfg p m = (go, m')\<rbrakk>
    \<Longrightarrow> main_step cfg m (m'\<lparr>bm_stateConn := (if go then Some p else None)\<rparr>)"
| state_done: "\<lbrakk>bm_stateConn m = Some p; length outs \<ge> 60; connect_try cfg p outs = (dc, es)\<rbrakk>
    \<Longrightarrow> main_step cfg m ((connect_leave p dc m)\<lparr>bm_stateConn := None\<rparr>)"

definition main_start :: BackEndMain where
  "main_start = \<lparr>bm_connected = (\<lambda>_. False), bm_clients = [], bm_grantConn = None, bm_stateConn = None\<rparr>"

text \<open>One tick of \<open>startDataPlaneTelemetry\<close>: the rates in Mbps, and the counters that are remembered. Data clients are named
  by their place in the list, which only grows.\<close>

definition data_telemetry :: "DataClient list \<Rightarrow> (nat \<Rightarrow> int \<times> int) \<Rightarrow> (f64 \<times> f64) list \<times> (nat \<Rightarrow> int \<times> int)" where
  "data_telemetry clients prev =
     (let rate = (\<lambda>new old. f_scale (f_of_int (PortsV1.wrap64 ((new - old) * 8))) (1 / 1000000))
      in (map (\<lambda>(i, dc). let (rx, tx) = GetStats dc; (prx, ptx) = prev i in (rate rx prx, rate tx ptx)) (enumerate 0 clients),
          (\<lambda>i. if i < length clients then GetStats (clients ! i) else prev i)))"

subsection \<open>What the connecting goroutines keep\<close>

lemma retry_same:
  "connectWithRetry outs d ok c = (ok', c', es) \<Longrightarrow>
     dc_port c' = dc_port c \<and> dc_role c' = dc_role c \<and> dc_clientID c' = dc_clientID c \<and>
     (ok' \<longrightarrow> outs \<noteq> [] \<or> ok) \<and> (ok' \<and> outs \<noteq> [] \<longrightarrow> dc_tcpConn c' \<noteq> None \<and> dc_udpConn c' \<noteq> None)"
proof (induction outs d ok c arbitrary: ok' c' es rule: connectWithRetry.induct)
  case 1
  then show ?case by simp
next
  case (2 tcp resolved udp outs delay ok c)
  obtain ok1 c1 es1 where c1: "Connect_data tcp resolved udp c = (ok1, c1, es1)" by (cases "Connect_data tcp resolved udp c") auto
  then have same: "dc_port c1 = dc_port c \<and> dc_role c1 = dc_role c \<and> dc_clientID c1 = dc_clientID c \<and>
      (ok1 \<longrightarrow> dc_tcpConn c1 \<noteq> None \<and> dc_udpConn c1 \<noteq> None)"
    by (auto simp: Connect_data_def Let_def split: option.splits if_splits)
  show ?case
  proof (cases ok1)
    case True
    with 2(2) c1 same show ?thesis by auto
  next
    case False
    obtain ok2 c2 es2 where c2: "connectWithRetry outs delay False c1 = (ok2, c2, es2)"
      by (cases "connectWithRetry outs delay False c1") auto
    from 2(1) [OF c1 [symmetric] refl refl False c2] 2(2) c1 c2 False same show ?thesis by auto
  qed
qed

lemma try_client:
  assumes "connect_try cfg p outs = (Some dc, es)" and "60 \<le> length outs"
  shows "dc_port dc = p \<and> dc_clientID dc = tb_BEID cfg \<and> dc_role dc = ''BE'' \<and> dc_tcpConn dc \<noteq> None \<and> dc_udpConn dc \<noteq> None"
proof -
  let ?c = "SetHost (data_host cfg) (NewDataClient p ''BE'' (tb_BEID cfg))"
  obtain ok c' es' where r: "connectWithRetry (take 60 outs) (50 * millisecond) True ?c = (ok, c', es')"
    by (cases "connectWithRetry (take 60 outs) (50 * millisecond) True ?c") auto
  with assms(1) have "ok" "dc = c'" by (auto simp: connect_try_def split: if_splits)
  moreover have "take 60 outs \<noteq> []" using assms(2) by (cases outs) auto
  ultimately show ?thesis using retry_same [OF r] by (simp add: NewDataClient_def SetHost_def)
qed

definition in_progress :: "BackEndMain \<Rightarrow> port list" where
  "in_progress m =
     (case bm_grantConn m of None \<Rightarrow> [] | Some p \<Rightarrow> [p]) @ (case bm_stateConn m of None \<Rightarrow> [] | Some p \<Rightarrow> [p])"

definition main_inv :: "BEConfig \<Rightarrow> BackEndMain \<Rightarrow> bool" where
  "main_inv cfg m \<longleftrightarrow>
     length (bm_clients m) + length (in_progress m) \<le> conn_limit cfg + 1 \<and>
     distinct (map dc_port (bm_clients m) @ in_progress m) \<and>
     (\<forall>p. bm_connected m p \<longleftrightarrow> p \<in> set (map dc_port (bm_clients m) @ in_progress m)) \<and>
     (\<forall>p \<in> set (in_progress m). 0 < p) \<and>
     (\<forall>dc \<in> set (bm_clients m). 0 < dc_port dc \<and> dc_clientID dc = tb_BEID cfg \<and> dc_role dc = ''BE'' \<and>
        dc_tcpConn dc \<noteq> None \<and> dc_udpConn dc \<noteq> None)"

lemma enter_result:
  "connect_enter cfg p m = (go, m') \<Longrightarrow>
     (go \<longrightarrow> 0 < p \<and> \<not> bm_connected m p \<and> length (bm_clients m) < conn_limit cfg \<and>
        m' = m\<lparr>bm_connected := (bm_connected m)(p := True)\<rparr>) \<and> (\<not> go \<longrightarrow> m' = m)"
  by (auto simp: connect_enter_def split: if_splits)

lemma main_step_inv: "main_step cfg m m' \<Longrightarrow> main_inv cfg m \<Longrightarrow> main_inv cfg m'"
proof (induction rule: main_step.induct)
  case (grant m g p go m')
  from enter_result [OF grant(3)] grant(1,4) show ?case
    by (cases go) (auto simp: main_inv_def in_progress_def split: option.splits)
next
  case (grant_done m p outs dc es)
  show ?case
  proof (cases dc)
    case None
    with grant_done show ?thesis by (auto simp: main_inv_def in_progress_def connect_leave_def split: option.splits)
  next
    case (Some c)
    with try_client [of cfg p outs c es] grant_done show ?thesis
      by (auto simp: main_inv_def in_progress_def connect_leave_def split: option.splits)
  qed
next
  case (state m p go m')
  from enter_result [OF state(2)] state(1,3) show ?case
    by (cases go) (auto simp: main_inv_def in_progress_def split: option.splits)
next
  case (state_done m p outs dc es)
  show ?case
  proof (cases dc)
    case None
    with state_done show ?thesis by (auto simp: main_inv_def in_progress_def connect_leave_def split: option.splits)
  next
    case (Some c)
    with try_client [of cfg p outs c es] state_done show ?thesis
      by (auto simp: main_inv_def in_progress_def connect_leave_def split: option.splits)
  qed
qed

lemma main_reachable_inv: "(main_step cfg)\<^sup>*\<^sup>* main_start m \<Longrightarrow> main_inv cfg m"
proof (induction rule: rtranclp_induct)
  case base
  show ?case by (simp add: main_inv_def main_start_def in_progress_def)
next
  case (step m m')
  then show ?case by (blast intro: main_step_inv)
qed

text \<open>
  C29. However its two connecting goroutines interleave, the test back end has at most one data client per port and at most
  one more than its limit; every one is connected with the back end's id, and a port is marked
  connected exactly while it has a client or is being connected. One more than the limit is possible: the
  limit is checked before connecting and the client counted afterwards.
\<close>
theorem data_clients_bounded:
  assumes "(main_step cfg)\<^sup>*\<^sup>* main_start m"
  shows "length (bm_clients m) \<le> conn_limit cfg + 1 \<and> distinct (map dc_port (bm_clients m)) \<and>
    (\<forall>dc \<in> set (bm_clients m). 0 < dc_port dc \<and> dc_clientID dc = tb_BEID cfg \<and> dc_role dc = ''BE'' \<and>
       dc_tcpConn dc \<noteq> None \<and> dc_udpConn dc \<noteq> None \<and> bm_connected m (dc_port dc)) \<and>
    (bm_grantConn m = None \<and> bm_stateConn m = None \<longrightarrow> (\<forall>p. bm_connected m p \<longleftrightarrow> p \<in> dc_port ` set (bm_clients m)))"
  using main_reachable_inv [OF assms] by (auto simp: main_inv_def in_progress_def)

definition ex_be :: BEConfig where
  "ex_be = \<lparr>tb_GatewayAddr = ''gw:5555'', tb_DataHost = '''', tb_AuthSecret = ''s'', tb_BEID = ''be1'', tb_ZMQConnLimit = 1,
     tb_SRTConnLimit = 0, tb_SRTPorts = [2320], tb_ZMQPorts = [2302]\<rparr>"

definition ex_client :: "port \<Rightarrow> conn \<Rightarrow> DataClient" where
  "ex_client p k = \<lparr>dc_tcpConn = Some k, dc_udpConn = Some (k + 1), dc_port = p, dc_host = data_host ex_be, dc_role = ''BE'',
     dc_clientID = ''be1'', dc_bytesReceived = 0, dc_bytesSent = 0, dc_closed = False\<rparr>"

lemma ex_try: "\<exists>es. connect_try ex_be p ((Some k, True, Some (k + 1)) # replicate 59 (None, False, None)) = (Some (ex_client p k), es)"
  by (simp add: connect_try_def Connect_data_def ex_client_def SetHost_def NewDataClient_def Let_def ex_be_def)

lemma ex_main_run:
  "(main_step ex_be)\<^sup>*\<^sup>* main_start
     \<lparr>bm_connected = (\<lambda>_. False)(2302 := True, 2303 := True), bm_clients = [ex_client 2302 1, ex_client 2303 3],
      bm_grantConn = None, bm_stateConn = None\<rparr>"
proof -
  let ?g = "(\<lparr>gr_RequestID = '''', gr_SessionID = ''x'', gr_ZMQPort = 2302, gr_SRTPort = 0, gr_ExpiresAt = 0\<rparr>, '''') :: be_grant"
  let ?m1 = "main_start\<lparr>bm_connected := (\<lambda>_. False)(2302 := True), bm_grantConn := Some 2302\<rparr>"
  let ?m2 = "?m1\<lparr>bm_connected := (\<lambda>_. False)(2302 := True, 2303 := True), bm_stateConn := Some 2303\<rparr>"
  let ?m3 = "?m2\<lparr>bm_clients := [ex_client 2302 1], bm_grantConn := None\<rparr>"
  let ?m4 = "?m3\<lparr>bm_clients := [ex_client 2302 1, ex_client 2303 3], bm_stateConn := None\<rparr>"
  have limit: "conn_limit ex_be = 1" by (simp add: conn_limit_def ex_be_def)
  have "main_step ex_be main_start ?m1"
    using main_step.grant [of main_start ?g 2302 ex_be True "main_start\<lparr>bm_connected := (\<lambda>_. False)(2302 := True)\<rparr>"]
    by (simp add: main_start_def grant_port_def connect_enter_def limit)
  moreover have "main_step ex_be ?m1 ?m2"
    using main_step.state [of ?m1 ex_be 2303 True "?m1\<lparr>bm_connected := (\<lambda>_. False)(2302 := True, 2303 := True)\<rparr>"]
    by (simp add: main_start_def connect_enter_def limit)
  moreover obtain es where "connect_try ex_be 2302 ((Some 1, True, Some (1 + 1)) # replicate 59 (None, False, None)) = (Some (ex_client 2302 1), es)"
    using ex_try by blast
  from main_step.grant_done [OF _ _ this, of ?m2] have "main_step ex_be ?m2 ?m3"
    by (simp add: main_start_def connect_leave_def)
  moreover obtain fs where "connect_try ex_be 2303 ((Some 3, True, Some (3 + 1)) # replicate 59 (None, False, None)) = (Some (ex_client 2303 3), fs)"
    using ex_try by blast
  from main_step.state_done [OF _ _ this, of ?m3] have "main_step ex_be ?m3 ?m4"
    by (simp add: main_start_def connect_leave_def)
  ultimately have "(main_step ex_be)\<^sup>*\<^sup>* main_start ?m4" by (meson converse_rtranclp_into_rtranclp rtranclp.rtrancl_refl)
  then show ?thesis by (simp add: main_start_def)
qed

lemma data_clients_bounded_witness:
  "\<exists>m. (main_step ex_be)\<^sup>*\<^sup>* main_start m \<and> length (bm_clients m) = conn_limit ex_be + 1 \<and> distinct (map dc_port (bm_clients m)) \<and>
     (\<forall>p. bm_connected m p \<longleftrightarrow> p \<in> dc_port ` set (bm_clients m))"
  using data_clients_bounded [OF ex_main_run] ex_main_run by (fastforce simp: conn_limit_def ex_be_def)

subsection \<open>What the echo loops keep\<close>

text \<open>The two goroutines of a client with what each has read and written; a loop that has ended stays ended.\<close>

record echo_run =
  ec_client :: DataClient
  ec_tcp :: bool
  ec_udp :: bool
  ec_tcpIn :: string
  ec_tcpOut :: string
  ec_udpIn :: "string list"
  ec_udpOut :: "string list"

definition sent_tcp :: "data_effect list \<Rightarrow> string" where
  "sent_tcp es = concat (map (\<lambda>e. case e of SendTCP t s \<Rightarrow> s | _ \<Rightarrow> '''') es)"

definition sent_udp :: "data_effect list \<Rightarrow> string list" where
  "sent_udp es = concat (map (\<lambda>e. case e of SendUDP t s \<Rightarrow> [s] | _ \<Rightarrow> []) es)"

inductive echo_step :: "echo_run \<Rightarrow> echo_run \<Rightarrow> bool" where
  tcp: "\<lbrakk>ec_tcp r; readAndEchoTCP (data, failed) wr (ec_client r) = (go, c, es)\<rbrakk>
    \<Longrightarrow> echo_step r (r\<lparr>ec_client := c, ec_tcp := go, ec_tcpIn := ec_tcpIn r @ (if failed then '''' else data), ec_tcpOut := ec_tcpOut r @ sent_tcp es\<rparr>)"
| udp: "\<lbrakk>ec_udp r; readAndEchoUDP (data, failed) written (ec_client r) = (go, c, es)\<rbrakk>
    \<Longrightarrow> echo_step r (r\<lparr>ec_client := c, ec_udp := go, ec_udpIn := ec_udpIn r @ (if failed \<or> data = '''' then [] else [data]), ec_udpOut := ec_udpOut r @ sent_udp es\<rparr>)"

definition echo_start :: "DataClient \<Rightarrow> echo_run" where
  "echo_start c = \<lparr>ec_client = c, ec_tcp = True, ec_udp = True, ec_tcpIn = '''', ec_tcpOut = '''', ec_udpIn = [], ec_udpOut = []\<rparr>"

lemma wrap64_add: "PortsV1.wrap64 (PortsV1.wrap64 a + b) = PortsV1.wrap64 (a + b)"
proof -
  have "(a + 2 ^ 63) mod 2 ^ 64 - 2 ^ 63 + b + 2 ^ 63 = (a + 2 ^ 63) mod 2 ^ 64 + b" by simp
  then show ?thesis unfolding PortsV1.wrap64_def by (simp only: mod_add_left_eq) (simp add: algebra_simps)
qed

definition total_bytes :: "string \<Rightarrow> string list \<Rightarrow> nat" where
  "total_bytes t us = length t + sum_list (map length us)"

definition echo_inv :: "echo_run \<Rightarrow> bool" where
  "echo_inv r \<longleftrightarrow>
     prefix (ec_tcpOut r) (ec_tcpIn r) \<and> (ec_tcp r \<longrightarrow> ec_tcpOut r = ec_tcpIn r) \<and>
     prefix (ec_udpOut r) (ec_udpIn r) \<and> (ec_udp r \<longrightarrow> ec_udpOut r = ec_udpIn r) \<and>
     dc_bytesReceived (ec_client r) = PortsV1.wrap64 (int (total_bytes (ec_tcpIn r) (ec_udpIn r))) \<and>
     (\<exists>n. dc_bytesSent (ec_client r) = PortsV1.wrap64 (int n) \<and> n \<le> total_bytes (ec_tcpOut r) (ec_udpOut r) \<and>
        (ec_tcp r \<longrightarrow> n = total_bytes (ec_tcpOut r) (ec_udpOut r))) \<and>
     (dc_closed (ec_client r) \<longleftrightarrow> \<not> (ec_tcp r \<and> ec_udp r))"

lemma close_data_sends: "Close_data c = (c', es) \<Longrightarrow>
    sent_tcp es = '''' \<and> sent_udp es = [] \<and> dc_closed c' \<and> dc_bytesReceived c' = dc_bytesReceived c \<and> dc_bytesSent c' = dc_bytesSent c"
  by (auto simp: Close_data_def sent_tcp_def sent_udp_def split: if_splits option.splits)

lemma tcp_turn:
  assumes "readAndEchoTCP (data, failed) (wn, written) c = (go, c', es)"
  shows "(go \<longleftrightarrow> \<not> failed \<and> (data = '''' \<or> written)) \<and> (go \<longrightarrow> dc_closed c' = dc_closed c) \<and> (\<not> go \<longrightarrow> dc_closed c') \<and>
    sent_tcp es = (if failed then '''' else if written then data else take wn data) \<and>
    dc_bytesReceived c' = (if failed \<or> data = '''' then dc_bytesReceived c else PortsV1.wrap64 (dc_bytesReceived c + int (length data))) \<and>
    dc_bytesSent c' = (if failed \<or> data = '''' \<or> \<not> written then dc_bytesSent c else PortsV1.wrap64 (dc_bytesSent c + int (length data)))"
proof -
  have send: "sent_tcp (SendTCP t s # es) = s @ sent_tcp es" for t s es by (simp add: sent_tcp_def)
  have none: "sent_tcp [] = ''''" by (simp add: sent_tcp_def)
  show ?thesis
    using assms close_data_sends
    by (auto simp: readAndEchoTCP_def Let_def send none split: if_splits prod.splits dest!: close_data_sends)
qed

lemma udp_turn:
  assumes "readAndEchoUDP (data, failed) written c = (go, c', es)"
  shows "(go \<longleftrightarrow> \<not> failed \<and> (data = '''' \<or> written)) \<and> (go \<longrightarrow> dc_closed c' = dc_closed c) \<and> (\<not> go \<longrightarrow> dc_closed c') \<and>
    sent_udp es = (if failed \<or> data = '''' \<or> \<not> written then [] else [data]) \<and>
    dc_bytesReceived c' = (if failed \<or> data = '''' then dc_bytesReceived c else PortsV1.wrap64 (dc_bytesReceived c + int (length data))) \<and>
    dc_bytesSent c' = (if failed \<or> data = '''' \<or> \<not> written then dc_bytesSent c else PortsV1.wrap64 (dc_bytesSent c + int (length data)))"
  using assms
  by (auto simp: readAndEchoUDP_def Let_def sent_udp_def split: if_splits prod.splits dest!: close_data_sends)

lemma total_append: "total_bytes (t @ s) us = total_bytes t us + length s" "total_bytes t (us @ vs) = total_bytes t us + sum_list (map length vs)"
  by (simp_all add: total_bytes_def)

lemma echo_step_inv: "echo_step r r' \<Longrightarrow> echo_inv r \<Longrightarrow> echo_inv r'"
proof (induction rule: echo_step.induct)
  case (tcp r data failed wr go c es)
  obtain wn written where wr: "wr = (wn, written)" by (cases wr)
  note t = tcp_turn [OF tcp(2) [unfolded wr]]
  have out: "ec_tcpOut r = ec_tcpIn r" "prefix (ec_udpOut r) (ec_udpIn r)" "ec_udp r \<longrightarrow> ec_udpOut r = ec_udpIn r"
    and recv: "dc_bytesReceived (ec_client r) = PortsV1.wrap64 (int (total_bytes (ec_tcpIn r) (ec_udpIn r)))"
    and n: "dc_bytesSent (ec_client r) = PortsV1.wrap64 (int (total_bytes (ec_tcpOut r) (ec_udpOut r)))"
    and closed: "dc_closed (ec_client r) \<longleftrightarrow> \<not> ec_udp r"
    using tcp(1,3) by (auto simp: echo_inv_def)
  have sent: "\<exists>n. dc_bytesSent c = PortsV1.wrap64 (int n) \<and> n \<le> total_bytes (ec_tcpOut r @ sent_tcp es) (ec_udpOut r) \<and>
      (go \<longrightarrow> n = total_bytes (ec_tcpOut r @ sent_tcp es) (ec_udpOut r))"
    using t n by (intro exI [of _ "total_bytes (ec_tcpOut r) (ec_udpOut r) + (if failed \<or> \<not> written then 0 else length data)"])
      (auto simp: wrap64_add total_append)
  show ?case
    using t out recv closed sent
    by (auto simp: echo_inv_def wrap64_add total_append same_prefix_prefix take_is_prefix)
next
  case (udp r data failed written go c es)
  note t = udp_turn [OF udp(2)]
  have out: "ec_udpOut r = ec_udpIn r" "prefix (ec_tcpOut r) (ec_tcpIn r)" "ec_tcp r \<longrightarrow> ec_tcpOut r = ec_tcpIn r"
    and recv: "dc_bytesReceived (ec_client r) = PortsV1.wrap64 (int (total_bytes (ec_tcpIn r) (ec_udpIn r)))"
    and closed: "dc_closed (ec_client r) \<longleftrightarrow> \<not> ec_tcp r"
    using udp(1,3) by (auto simp: echo_inv_def)
  obtain n where n: "dc_bytesSent (ec_client r) = PortsV1.wrap64 (int n)" "n \<le> total_bytes (ec_tcpOut r) (ec_udpOut r)"
    "ec_tcp r \<longrightarrow> n = total_bytes (ec_tcpOut r) (ec_udpOut r)"
    using udp(3) by (auto simp: echo_inv_def)
  have sent: "\<exists>n. dc_bytesSent c = PortsV1.wrap64 (int n) \<and> n \<le> total_bytes (ec_tcpOut r) (ec_udpOut r @ sent_udp es) \<and>
      (ec_tcp r \<longrightarrow> n = total_bytes (ec_tcpOut r) (ec_udpOut r @ sent_udp es))"
    using t n by (intro exI [of _ "n + (if failed \<or> \<not> written then 0 else length data)"])
      (auto simp: wrap64_add total_append)
  show ?case
    using t out recv closed sent
    by (auto simp: echo_inv_def wrap64_add total_append)
qed

lemma echo_reachable_inv:
  assumes "echo_step\<^sup>*\<^sup>* (echo_start c) r" and "dc_bytesReceived c = 0" and "dc_bytesSent c = 0" and "\<not> dc_closed c"
  shows "echo_inv r"
  using assms(1)
proof (induction rule: rtranclp_induct)
  case base
  show ?case using assms(2-4)
    by (auto simp: echo_inv_def echo_start_def total_bytes_def PortsV1.wrap64_def intro!: exI [of _ 0])
next
  case (step r r')
  then show ?case by (blast intro: echo_step_inv)
qed

text \<open>
  A data client echoes faithfully, however its two loops interleave. What it writes to a connection is always a
  prefix of what it read from it, and all of it while the loop runs; a datagram is sent back whole. The bytes
  received are counted exactly (in 64 bits), the bytes sent too while the TCP loop runs, and the connections are closed when one
  of the loops ends.
\<close>
theorem echo_faithful:
  assumes "echo_step\<^sup>*\<^sup>* (echo_start c) r" and "dc_bytesReceived c = 0" and "dc_bytesSent c = 0" and "\<not> dc_closed c"
  shows "prefix (ec_tcpOut r) (ec_tcpIn r) \<and> (ec_tcp r \<longrightarrow> ec_tcpOut r = ec_tcpIn r) \<and>
    prefix (ec_udpOut r) (ec_udpIn r) \<and> (ec_udp r \<longrightarrow> ec_udpOut r = ec_udpIn r) \<and>
    fst (GetStats (ec_client r)) = PortsV1.wrap64 (int (length (ec_tcpIn r) + length (concat (ec_udpIn r)))) \<and>
    (ec_tcp r \<longrightarrow> snd (GetStats (ec_client r)) = PortsV1.wrap64 (int (length (ec_tcpOut r) + length (concat (ec_udpOut r))))) \<and>
    (dc_closed (ec_client r) \<longleftrightarrow> \<not> (ec_tcp r \<and> ec_udp r))"
  using echo_reachable_inv [OF assms] by (auto simp: echo_inv_def GetStats_def total_bytes_def length_concat)

lemma echo_faithful_witness:
  "\<exists>r. echo_step\<^sup>*\<^sup>* (echo_start (ex_client 2302 1)) r \<and> ec_tcpIn r = ''abc'' \<and> ec_tcpOut r = ''abc'' \<and> ec_udpIn r = [''d''] \<and>
     ec_udpOut r = [] \<and> fst (GetStats (ec_client r)) = PortsV1.wrap64 4 \<and> dc_closed (ec_client r)"
proof -
  let ?c0 = "ex_client 2302 1"
  let ?c1 = "?c0\<lparr>dc_bytesReceived := 3, dc_bytesSent := 3\<rparr>"
  let ?r1 = "(echo_start ?c0)\<lparr>ec_client := ?c1, ec_tcpIn := ''abc'', ec_tcpOut := ''abc''\<rparr>"
  let ?r2 = "?r1\<lparr>ec_client := ?c1\<lparr>dc_bytesReceived := 4, dc_closed := True\<rparr>, ec_udp := False, ec_udpIn := [''d'']\<rparr>"
  have "readAndEchoTCP (''abc'', False) (3, True) ?c0 = (True, ?c1, [SendTCP 1 ''abc''])"
    by (simp add: readAndEchoTCP_def ex_client_def PortsV1.wrap64_def)
  then have "echo_step (echo_start ?c0) ?r1"
    using echo_step.tcp [of "echo_start ?c0" "''abc''" False "(3, True)" True ?c1 "[SendTCP 1 ''abc'']"]
    by (simp add: echo_start_def sent_tcp_def)
  moreover have "readAndEchoUDP (''d'', False) False ?c1 = (False, ?c1\<lparr>dc_bytesReceived := 4, dc_closed := True\<rparr>, [HangUpData 1, HangUpData 2])"
    by (simp add: readAndEchoUDP_def ex_client_def PortsV1.wrap64_def Close_data_def)
  then have "echo_step ?r1 ?r2"
    using echo_step.udp [of ?r1 "''d''" False False False "?c1\<lparr>dc_bytesReceived := 4, dc_closed := True\<rparr>" "[HangUpData 1, HangUpData 2]"]
    by (simp add: echo_start_def sent_udp_def)
  ultimately have run: "echo_step\<^sup>*\<^sup>* (echo_start ?c0) ?r2" by (meson converse_rtranclp_into_rtranclp rtranclp.rtrancl_refl)
  have "dc_bytesReceived ?c0 = 0" "dc_bytesSent ?c0 = 0" "\<not> dc_closed ?c0" by (simp_all add: ex_client_def)
  from echo_faithful [OF run this] run show ?thesis by (intro exI [of _ ?r2]) (simp add: echo_start_def)
qed

subsection \<open>The hello meets the relay server\<close>

lemma utf8_high:
  assumes "utf8_len s = n" and "2 \<le> n"
  shows "\<forall>x \<in> set (take n s). 128 \<le> code_of x"
proof -
  consider "s = []" | a where "s = [a]" | a b where "s = [a, b]" | a b c where "s = [a, b, c]" | a b c d r where "s = a # b # c # d # r"
    by (metis list.exhaust)
  then show ?thesis
    using assms by cases (auto simp: utf8_len_def cont_def split: if_splits)
qed

lemma quoted_no_lf: "valid_utf8 s \<Longrightarrow> CHR 0x0A \<notin> set (quote_body s)"
proof (induction s rule: valid_utf8.induct)
  case 1
  show ?case by simp
next
  case (2 c cs)
  define n where "n = utf8_len (c # cs)"
  have n: "n \<noteq> 0" "CHR 0x0A \<notin> set (quote_body (drop (n - 1) cs))"
    using 2 by (simp_all add: valid_utf8.simps Let_def n_def)
  have lf: "code_of (CHR 0x0A) = 10" by (simp add: code_of_def)
  show ?case
  proof (cases "code_of c < 128")
    case True
    then have "n = 1" by (simp add: n_def utf8_len_ascii)
    moreover have "CHR 0x0A \<notin> set (quote_ascii c)"
    proof -
      have hex: "d < 16 \<Longrightarrow> hex_char d \<noteq> CHR 0x0A" for d
        using lf by (auto simp: hex_char_def code_of_def dest!: arg_cong [of _ "CHR 0x0A" code_of])
      have "code_of c div 16 < 16" "code_of c mod 16 < 16" using True by simp_all
      note digits = this [THEN hex]
      show ?thesis
      proof (cases "code_of c = 10")
        case False
        then have "c \<noteq> CHR 0x0A" using lf by auto
        with digits show ?thesis unfolding quote_ascii_def Let_def by (simp split: if_split)
      qed (auto simp: quote_ascii_def Let_def)
    qed
    ultimately show ?thesis using n True by simp
  next
    case False
    have "2 \<le> n" using n(1) False by (auto simp: n_def utf8_len_def split: list.splits if_splits)
    then have "CHR 0x0A \<notin> set (take n (c # cs))" using utf8_high [OF n_def [symmetric]] lf by fastforce
    then show ?thesis using n False by (auto simp: Let_def n_def [symmetric])
  qed
qed

lemma Peek_bytes:
  assumes "n \<le> length (buf @ event_bytes evs)"
  shows "\<exists>buf' evs'. Peek n buf evs = (Inr (take n (buf @ event_bytes evs)), buf', evs') \<and> buf' @ event_bytes evs' = buf @ event_bytes evs"
  using assms
proof (induction n buf evs rule: Peek.induct)
  case (1 n buf)
  then show ?case by simp
next
  case (2 n buf ev evs)
  show ?case
  proof (cases "n \<le> length buf")
    case False
    then obtain s where "ev = Got s" using 2(2) by (cases ev) auto
    with 2 False show ?thesis by simp
  qed simp
qed

lemma hello_read:
  assumes "valid_utf8 role" and "valid_utf8 ident" and "event_bytes evs = tcp_hello role ident @ rest"
  shows "\<exists>r. wrapConnAndHello evs = (Some \<lparr>h1_Role = role, h1_ClientID = ident\<rparr>, r) \<and> reader_bytes r = rest"
proof -
  let ?v = "JObj [(''client_id'', JStr ident), (''role'', JStr role)]"
  have keys: "valid_utf8 ''client_id''" "valid_utf8 ''role''" by (rule plain_valid, simp add: plain_char_def code_of_def)+
  have parse: "parse_json (hello_text role ident) = Some ?v"
    unfolding hello_text_def using assms keys by (intro parse_encode(1)) simp_all
  have "hello_text role ident \<noteq> []" "CHR 0x0A \<notin> set (helloPrefix1 @ hello_text role ident)"
    using quoted_no_lf [OF assms(1)] quoted_no_lf [OF assms(2)] quoted_no_lf [OF keys(1)] quoted_no_lf [OF keys(2)]
    by (auto simp: hello_text_def helloPrefix1_def json_quote_def)
  note nolf = this
  have bytes: "event_bytes evs = (helloPrefix1 @ hello_text role ident) @ CHR 0x0A # rest"
    using assms(3) by (simp add: tcp_hello_def helloPrefix1_def)
  obtain buf evs' where peek: "Peek (length helloPrefix1) [] evs = (Inr helloPrefix1, buf, evs')" "buf @ event_bytes evs' = event_bytes evs"
    using Peek_bytes [of "length helloPrefix1" "[]" evs] by (auto simp: bytes)
  obtain r where r: "ReadString (CHR 0x0A) buf evs' = (Inr ((helloPrefix1 @ hello_text role ident) @ [CHR 0x0A]), r)" "reader_bytes r = rest"
    using ReadString_line [OF _ nolf(2), of buf evs' rest] peek(2) bytes by auto
  have "field_match ''client_id'' ''client_id''" "\<not> field_match ''client_id'' ''role''" "field_match ''role'' ''role''"
    by (simp_all add: field_match_def ascii_upper_def)
  then have "unmarshal_hello1 (hello_text role ident) = Some \<lparr>h1_Role = role, h1_ClientID = ident\<rparr>"
    by (simp add: unmarshal_hello1_def parse hello1_member_def Let_def)
  with peek(1) r nolf(1) show ?thesis by (simp add: wrapConnAndHello_def Let_def)
qed

text \<open>
  C28. The test back end becomes the waiting back end of a free port. However the network cuts its hello and the
  bytes after it, the relay server of the first version reads the role and the id, and the connection waits
  for a front end under that id, with exactly the bytes after the hello to come, as long as nobody else
  waits or runs there by then.
\<close>
theorem backend_hello_waits:
  assumes "valid_utf8 (tb_BEID cfg)" and "Connect_data (Some t) True (Some u) (SetHost h (NewDataClient p ''BE'' (tb_BEID cfg))) = (ok, dc, es)"
    and "event_bytes evs = sent_tcp es @ rest" and "\<not> rs_busy s p"
    and "\<not> rs_busy (env s) p" and "rs_pendingBE (env s) p = None" and "rs_pendingFE (env s) p = None"
  shows "ok \<and> (\<exists>r. reader_bytes r = rest \<and>
    rs_pendingBE (fst (relay_accept bufsz env p c evs s)) p = Some \<lparr>bc_conn = c, bc_reader = r\<rparr> \<and>
    rs_pendingBEID (fst (relay_accept bufsz env p c evs s)) p = Some (tb_BEID cfg))"
proof -
  have "valid_utf8 ''BE''" by (rule plain_valid) (simp add: plain_char_def code_of_def)
  moreover have "ok" "event_bytes evs = tcp_hello ''BE'' (tb_BEID cfg) @ rest"
    using assms(2,3) by (auto simp: Connect_data_def Let_def SetHost_def NewDataClient_def sent_tcp_def)
  ultimately obtain r where "wrapConnAndHello evs = (Some \<lparr>h1_Role = ''BE'', h1_ClientID = tb_BEID cfg\<rparr>, r)" "reader_bytes r = rest"
    using hello_read [OF _ assms(1)] by blast
  with \<open>ok\<close> show ?thesis
    using assms(4-7) by (cases r) (simp add: relay_accept_def IsPortBusy_def relay_admit_def helloRole_def helloClientID_def)
qed

lemma backend_hello_waits_witness:
  "\<exists>es r. Connect_data (Some 1) True (Some 2) (SetHost ''gw'' (NewDataClient 2302 ''BE'' ''be1'')) =
      (True, (SetHost ''gw'' (NewDataClient 2302 ''BE'' ''be1''))\<lparr>dc_tcpConn := Some 1, dc_udpConn := Some 2\<rparr>, es) \<and>
    reader_bytes r = ''xy'' \<and>
    rs_pendingBE (fst (relay_accept 0 (\<lambda>s. s) 2302 7 [Got (take 5 (sent_tcp es)), Got (drop 5 (sent_tcp es) @ ''xy'')] GlobalRelay)) 2302 =
      Some \<lparr>bc_conn = 7, bc_reader = r\<rparr>"
proof -
  obtain es where c: "Connect_data (Some 1) True (Some 2) (SetHost ''gw'' (NewDataClient 2302 ''BE'' (tb_BEID ex_be))) =
      (True, (SetHost ''gw'' (NewDataClient 2302 ''BE'' ''be1''))\<lparr>dc_tcpConn := Some 1, dc_udpConn := Some 2\<rparr>, es)"
    by (simp add: Connect_data_def Let_def ex_be_def)
  have "event_bytes [Got (take 5 (sent_tcp es)), Got (drop 5 (sent_tcp es) @ ''xy'')] = sent_tcp es @ ''xy''" by simp
  moreover have "valid_utf8 (tb_BEID ex_be)" by (simp add: ex_be_def plain_valid plain_char_def code_of_def)
  ultimately show ?thesis
    using backend_hello_waits [OF _ c, of "[Got (take 5 (sent_tcp es)), Got (drop 5 (sent_tcp es) @ ''xy'')]" "''xy''" GlobalRelay "\<lambda>s. s" 0 7] c
    by (auto simp: GlobalRelay_def ex_be_def)
qed

end
