(* ===== verification/Spec2Isabelle.thy ===== *)
theory Spec2Isabelle
  imports HubRun HubV1Run GatewayV2 GrantsV3 Startup MainV4 SysStat VideoProto BackEnd
begin

text \<open>
  This development models the gateway relay_X, a Go program that lets back ends (servers) and front
  ends (clients) find each other over a control connection and forwards bytes between them over
  data ports. The repository holds four versions of it side by side; the fourth (directory v4) is
  the current one, the others (v1, v2, v3) are complete gateways with their own main programs.

  \<^bold>\<open>The parts and how they interact.\<close> In each version a control server keeps the registered clients, asks a
  port manager for ports and tells the clients; a relay server listens on the ports, pairs the two
  connections of a session and copies bytes between them. In version 4 the control hub calls the two port
  pools (\<open>Reserve\<close>), the data servers call the same pools when sessions start and end
  (\<open>MarkOccupied\<close>, \<open>Release\<close>), and the data-plane manager expires and stops what is silent. In
  versions 1 and 3 the port manager reads the relay server's snapshot, and the relay server calls back: port free
  (v1) releases a reservation, state change broadcasts a snapshot.

  \<^bold>\<open>Shared theories.\<close>
  \<^item> \<open>Prelude\<close>: Go's string and number functions that the source uses, map orders, time.
  \<^item> \<open>Json\<close>, \<open>JsonText\<close>: the part of \<open>encoding/json\<close> used: text, values, struct fields; every value with UTF-8 strings
    that is written is read back.
  \<^item> \<open>Float64\<close>: exact 64-bit binary floats, for the scores and metrics.
  \<^item> \<open>Leases\<close>: the locale of lease tables, interpreted on both port managers.

  \<^bold>\<open>Version 4\<close> (directory \<open>v4\<close>).
  \<^item> \<open>Status\<close> (status/status.go): the five enumerations with their codecs (locale \<open>enum_codec\<close>).
  \<^item> \<open>Errors\<close> (errors/errors.go): coded errors, wrapping, the code of a chain.
  \<^item> \<open>Pool\<close> (ports/pool.go): the state of a pool and every method; the locale \<open>port_registry\<close> is what its clients
    rely on; the port state machine and the run of a pool.
  \<^item> \<open>Config\<close> (config/*.go): the records, \<open>Validate\<close>, \<open>Load\<close> over a decoder, port ranges.
  \<^item> \<open>ByteSize\<close> (config/parse.go): sizes with units, whose numbers are read as \<open>strconv.ParseFloat\<close> reads them.
  \<^item> \<open>Hello\<close> (relay/hello.go): the handshake line, read in any fragments.
  \<^item> \<open>Session\<close> (relay/session.go): the two copy loops and \<open>Stop\<close> as interleaved steps.
  \<^item> \<open>Pairing\<close>, \<open>TcpServer\<close>, \<open>SrtServer\<close> (relay/tcp_server.go, srt_server.go, bufconn.go): the books of a port
    (locale \<open>pairing_server\<close>), every locked region of both servers, and their equivalence.
  \<^item> \<open>Manager\<close> (relay/manager.go, metrics.go): start, stop, metrics, heartbeats, the quality score.
  \<^item> \<open>Hub\<close>, \<open>HubRun\<close> (control/server.go, protocol.go): messages, registry, pairing, broadcasts, status page; then
    the runs of the hub and what holds in them.
  \<^item> \<open>SysStat\<close> (control/sysstat.go): the CPU load and memory of the telemetry.
  \<^item> \<open>VideoProto\<close> (testing/video/proto.go): the frames that the video tests send through a session, with their CRC-32.

  \<^bold>\<open>Version 1\<close> (directory \<open>v1\<close>).
  \<^item> \<open>RingBuffer\<close> (relay/buffer.go): the byte queue in blocks of a pool (locale \<open>byte_fifo\<close>).
  \<^item> \<open>PipeV1\<close> (relay/pipe.go): a session of four goroutines over two ring buffers.
  \<^item> \<open>RelayV1\<close> (relay/server.go): ports, accept loop, waiting back ends, the callback of a session, the snapshot.
  \<^item> \<open>PortsV1\<close>, \<open>ReaperV1\<close> (control/port_manager.go, reaper.go): reservations and delayed kills.
  \<^item> \<open>HubV1\<close>, \<open>HubV1Run\<close> (control/hub.go, protocol.go, clock.go, auth.go, stream.go, cmd/relay-server): the control server
    over all of these; then its invariant and runs.
  \<^item> \<open>WireV1\<close> (control/protocol.go): the JSON text of its messages.
  \<^item> \<open>BackEndControl\<close>, \<open>BackEnd\<close> (directory \<open>server_test\<close>): the back end of the repository that talks to this version: its control
    client against the control server, its data connections against the relay server, its echo loops and connecting goroutines.

  \<^bold>\<open>Versions 2 and 3\<close> (directories \<open>v2\<close>, \<open>v3\<close>).
  \<^item> \<open>RelayV2\<close> (v2/relay/server.go): what differs from the first version: SRT listeners, guessed roles, the snapshot.
  \<^item> \<open>HubV2\<close>, \<open>HubV2Run\<close> (v2/control/hub.go, port_manager.go, cmd/relay-server-v2): every function of the control server that touches
    that relay server; then the invariant of both together, the way of a front end from its request to its session, and the
    conditions under which the handlers do what those of the first version do (the first version listens with TCP only).
  \<^item> \<open>GatewayV2\<close>: the whole gateway with its accept loops, which look at the busy mark in another locked region than the one in
    which they admit a connection, as interleaved steps.
    The other files of v2 (ring buffer, session, reaper, registry, protocol) are the code of v1 under other import paths,
    so the theories of the first version are their model; the ring buffer and the session of v3 are that code too.
  \<^item> \<open>RelayV3\<close> (v3/relay/server.go): one slot per port with TCP and UDP.
  \<^item> \<open>PortsV3\<close> (v3/control/port_manager.go): one pool, leases, grants in several locked regions.
  \<^item> \<open>HubV3\<close>, \<open>HubV3Run\<close> (v3/control/hub.go, clock.go, cmd/relay-server-v3): the control server without
    registration; then its invariant, broadcasts and releases.
  \<^item> \<open>GrantsV3\<close>: the runs of that server in which the two locked regions of a grant are steps of their own.

  \<^bold>\<open>Starting.\<close>
  \<^item> \<open>Paths\<close>: the functions of path/filepath that the programs find their files with.
  \<^item> \<open>Startup\<close> (cmd/relay-server, relay-server-v2, relay-server-v3, v1/config/loader.go, v1/common/logger.go): from the
    argument to the files, the log level, the open ports and the control server of versions 1 to 3.
  \<^item> \<open>MainV4\<close> (cmd/relay-server-v4, v4/log/log.go, v4/ports/occupy.go): the same for version 4: configuration, log, check of
    the ports, pools, data plane, hub.

  \<^bold>\<open>Conventions.\<close> A Go struct is a record, an enumeration a datatype, an error a value of a sum or
  option, a map a partial function or, where order matters, a list. A function of the source that holds a mutex
  is one function of the state; where the source gives the mutex up in between, what others do there is an
  argument of the function (\<open>env\<close>, \<open>other\<close>, \<open>at\<close>) or the regions are steps of an inductive relation.
  Times, random ids, orders of map iteration, outcomes of reads, writes, listens and dials, and the answers of third-party packages
  (the SRT library, the YAML decoder) are arguments. What a function does to the outside is the list of
  effects it returns. Objects whose identity the source compares live in stores under addresses or are named by their connection.
  Ports and times are integers; where the source computes in int64 with possible overflow the wrap-around is written
  out (\<open>wrap64\<close>, the counters of sessions); the counters of /proc/stat and the bytes of IP addresses and frames are words.

  \<^bold>\<open>What the lemmas show.\<close> Each component has an invariant that its operations keep (\<open>pool_inv\<close>, \<open>rb_inv\<close>, \<open>pp_inv\<close>,
  \<open>pm_inv\<close>, \<open>relay_inv\<close>, \<open>ctl_inv\<close>, \<open>both_on\<close>, \<open>gw2_inv\<close>, \<open>r3_inv\<close>, \<open>pm3_ok\<close>, \<open>h3_ok\<close>, \<open>g3_inv\<close>, \<open>main_inv\<close>, \<open>echo_inv\<close>), lifted to runs by rule induction; functional
  specifications of the grants, snapshots, broadcasts, releases and metrics on every branch; forwarding in every
  interleaving of the copy loops; refinements of abstract queues, slots and relays; equivalence of sibling implementations;
  round trips of the codecs and of the messages between the test back end and the servers; and, as runs that exist, the races that the code leaves open. The claims are
  numbered C1 to C40 in the text before their theorems.

  \<^bold>\<open>Bounds and fuel.\<close> No definition uses fuel: loops over data are structural, the retry loop of a pairing request
  has its 50 attempts, and loops that run until the world ends them consume the list of events they meet. Blocks of the
  ring buffer have the size of the source.

  \<^bold>\<open>Not modelled.\<close> The writing of log lines and the rotation of log files (output, in third-party packages); flags and signals;
  the texts of errors of the entry points and of byte sizes; the test front end and load generators (\<open>client_test\<close>,
  \<open>v4/testing\<close>), of which only the sender of the hello and the frames are modelled; the SRT protocol, YAML, and the
  operating system below sockets and files.
\<close>

end
